(* ===== verification/Prelude.thy ===== *)
theory Prelude
  imports Main "HOL-Library.Word" "HOL-Library.Char_ord" "HOL-Library.List_Lexorder"
begin

text \<open>
  Shared vocabulary of the development: the \<open>Result\<close> type of Rust, strings as UTF-8 byte
  lists, the byte and character classes of the Rust standard library that the validators of
  the client use, Unix paths, the third-party crates the client only calls (as one record of
  functions that every definition takes as an argument), and the generic list lemmas that
  several components share.
\<close>

text \<open>
  \<open>rust_eval\<close> collects the equations that let the simplifier compute the standard library
  functions on concrete values.
\<close>

named_theorems rust_eval "equations that evaluate standard library functions on literals"

section \<open>Results\<close>

datatype ('a, 'e) result = Ok 'a | Err 'e

fun is_ok :: "('a, 'e) result \<Rightarrow> bool" where
  "is_ok (Ok _) = True"
| "is_ok (Err _) = False"

fun map_err :: "('e \<Rightarrow> 'f) \<Rightarrow> ('a, 'e) result \<Rightarrow> ('a, 'f) result" where
  "map_err f (Ok a) = Ok a"
| "map_err f (Err e) = Err (f e)"

text \<open>\<open>ensure b e\<close> is the early return \<open>if !b { return Err(e) }\<close>.\<close>

definition ensure :: "bool \<Rightarrow> 'e \<Rightarrow> (unit, 'e) result" where
  "ensure b e = (if b then Ok () else Err e)"

lemma ensure_Ok [simp]: "ensure b e = Ok u \<longleftrightarrow> b"
  by (simp add: ensure_def)

lemma ensure_Err [simp]: "ensure b e = Err f \<longleftrightarrow> \<not> b \<and> f = e"
  by (auto simp: ensure_def)

lemma is_ok_iff: "is_ok r \<longleftrightarrow> (\<exists>a. r = Ok a)"
  by (cases r) auto

lemma map_err_Ok [simp]: "map_err f r = Ok a \<longleftrightarrow> r = Ok a"
  by (cases r) auto

text \<open>\<open>Option::is_none_or\<close> and \<open>Option::is_some_and\<close>.\<close>

definition is_none_or :: "('a \<Rightarrow> bool) \<Rightarrow> 'a option \<Rightarrow> bool" where
  "is_none_or p x = (case x of None \<Rightarrow> True | Some a \<Rightarrow> p a)"

definition is_some_and :: "('a \<Rightarrow> bool) \<Rightarrow> 'a option \<Rightarrow> bool" where
  "is_some_and p x = (case x of None \<Rightarrow> False | Some a \<Rightarrow> p a)"

lemma is_none_or_simps [simp]:
  "is_none_or p None" "is_none_or p (Some a) = p a"
  by (simp_all add: is_none_or_def)

lemma is_some_and_simps [simp]:
  "\<not> is_some_and p None" "is_some_and p (Some a) = p a"
  by (simp_all add: is_some_and_def)

text \<open>\<open>Option::or\<close>.\<close>

definition option_or :: "'a option \<Rightarrow> 'a option \<Rightarrow> 'a option" where
  "option_or x y = (case x of None \<Rightarrow> y | Some a \<Rightarrow> Some a)"

lemma option_or_simps [simp]:
  "option_or None y = y" "option_or (Some a) y = Some a"
  by (simp_all add: option_or_def)

section \<open>Strings\<close>

text \<open>
  A Rust \<open>str\<close> is a sequence of bytes that is valid UTF-8. It is modelled as \<^typ>\<open>string\<close>,
  one \<^typ>\<open>char\<close> per byte: \<open>len()\<close> is \<^const>\<open>length\<close>, the order of \<open>String\<close> is the
  lexicographic order of bytes, and \<open>chars()\<close> groups the bytes into scalar values.
\<close>

abbreviation byte :: "char \<Rightarrow> nat" where
  "byte c \<equiv> of_char c"

definition utf8_width :: "char \<Rightarrow> nat" where
  "utf8_width b = (if byte b < 192 then 1 else if byte b < 224 then 2 else if byte b < 240 then 3 else 4)"

fun utf8_split :: "string \<Rightarrow> string list" where
  "utf8_split [] = []"
| "utf8_split (b # bs) =
     (b # take (utf8_width b - 1) bs) # utf8_split (drop (utf8_width b - 1) bs)"

text \<open>The scalar value of one group of bytes.\<close>

fun scalar :: "string \<Rightarrow> nat" where
  "scalar [] = 0"
| "scalar (b # bs) =
     foldl (\<lambda>acc c. acc * 64 + byte c mod 64)
       (if byte b < 192 then byte b
        else if byte b < 224 then byte b - 192
        else if byte b < 240 then byte b - 224
        else byte b - 240) bs"

definition chars :: "string \<Rightarrow> nat list" where
  "chars s = map scalar (utf8_split s)"

text \<open>\<open>char::is_control\<close> is the Unicode category Cc, \<open>char::is_whitespace\<close> White\_Space.\<close>

definition is_control :: "nat \<Rightarrow> bool" where
  "is_control c \<longleftrightarrow> c < 32 \<or> (127 \<le> c \<and> c < 160)"

definition is_whitespace :: "nat \<Rightarrow> bool" where
  "is_whitespace c \<longleftrightarrow>
     (9 \<le> c \<and> c \<le> 13) \<or> c = 32 \<or> c = 133 \<or> c = 160 \<or> c = 5760 \<or>
     (8192 \<le> c \<and> c \<le> 8202) \<or> c = 8232 \<or> c = 8233 \<or> c = 8239 \<or> c = 8287 \<or> c = 12288"

definition has_control :: "string \<Rightarrow> bool" where
  "has_control s = list_ex is_control (chars s)"

definition is_ascii_digit :: "char \<Rightarrow> bool" where
  "is_ascii_digit c \<longleftrightarrow> 48 \<le> byte c \<and> byte c \<le> 57"

definition is_ascii_uppercase :: "char \<Rightarrow> bool" where
  "is_ascii_uppercase c \<longleftrightarrow> 65 \<le> byte c \<and> byte c \<le> 90"

definition is_ascii_lowercase :: "char \<Rightarrow> bool" where
  "is_ascii_lowercase c \<longleftrightarrow> 97 \<le> byte c \<and> byte c \<le> 122"

definition is_ascii_alphanumeric :: "char \<Rightarrow> bool" where
  "is_ascii_alphanumeric c \<longleftrightarrow> is_ascii_digit c \<or> is_ascii_uppercase c \<or> is_ascii_lowercase c"

definition is_ascii_hexdigit :: "char \<Rightarrow> bool" where
  "is_ascii_hexdigit c \<longleftrightarrow>
     is_ascii_digit c \<or> (65 \<le> byte c \<and> byte c \<le> 70) \<or> (97 \<le> byte c \<and> byte c \<le> 102)"

definition is_ascii :: "string \<Rightarrow> bool" where
  "is_ascii s = list_all (\<lambda>c. byte c < 128) s"

definition to_ascii_lowercase :: "string \<Rightarrow> string" where
  "to_ascii_lowercase s =
     map (\<lambda>c. if is_ascii_uppercase c then char_of (byte c + 32) else c) s"

definition starts_with :: "string \<Rightarrow> string \<Rightarrow> bool" where
  "starts_with p s = (take (length p) s = p)"

definition strip_prefix :: "string \<Rightarrow> string \<Rightarrow> string option" where
  "strip_prefix p s = (if starts_with p s then Some (drop (length p) s) else None)"

lemma starts_with_append [simp]: "starts_with p (p @ s)"
  by (simp add: starts_with_def)

lemma starts_with_iff: "starts_with p s \<longleftrightarrow> (\<exists>t. s = p @ t)"
  by (metis append_take_drop_id append_eq_conv_conj starts_with_def)

lemma strip_prefix_Some: "strip_prefix p s = Some t \<longleftrightarrow> s = p @ t"
  by (auto simp: strip_prefix_def starts_with_iff)

lemma concat_utf8_split [simp]: "concat (utf8_split s) = s"
  by (induction s rule: utf8_split.induct) auto

lemma length_utf8_split: "length (utf8_split s) \<le> length s"
proof (induction s rule: utf8_split.induct)
  case (2 b bs)
  then show ?case by simp
qed simp

lemma utf8_split_single:
  "byte b < 192 \<Longrightarrow> utf8_split (b # bs) = [b] # utf8_split bs"
  by (simp add: utf8_width_def)

text \<open>On ASCII text the characters are the bytes.\<close>

lemma chars_ascii: "is_ascii s \<Longrightarrow> chars s = map byte s"
  by (induction s) (auto simp: is_ascii_def chars_def utf8_width_def)

lemma has_control_ascii:
  "is_ascii s \<Longrightarrow> has_control s = list_ex (\<lambda>c. is_control (byte c)) s"
  by (simp add: has_control_def chars_ascii list_ex_iff)

text \<open>SQLite's \<open>substr(v, 1, n)\<close> keeps the first \<open>n\<close> characters of a text value.\<close>

definition sql_substr :: "nat \<Rightarrow> string \<Rightarrow> string" where
  "sql_substr n s = concat (take n (utf8_split s))"

lemma sql_substr_short: "length s \<le> n \<Longrightarrow> sql_substr n s = s"
  using length_utf8_split [of s] by (simp add: sql_substr_def)

section \<open>Shared value classes\<close>

text \<open>
  The validators of the client are written from the same closures, repeated in each file:
  bounded text without control characters, a \<open>sha256:\<close> digest, a web address.
\<close>

definition valid_text :: "string \<Rightarrow> nat \<Rightarrow> bool" where
  "valid_text s n \<longleftrightarrow> s \<noteq> [] \<and> length s \<le> n \<and> \<not> has_control s"

definition valid_digest :: "string \<Rightarrow> bool" where
  "valid_digest s \<longleftrightarrow>
     length s = 71 \<and> starts_with ''sha256:'' s \<and> list_all is_ascii_hexdigit (drop 7 s)"

definition http_url :: "string \<Rightarrow> bool" where
  "http_url s \<longleftrightarrow> starts_with ''https://'' s \<or> starts_with ''http://'' s"

definition path_is_absolute :: "string \<Rightarrow> bool" where
  "path_is_absolute p = starts_with ''/'' p"

text \<open>Bounded text keeps its bound when the bound grows.\<close>

lemma valid_text_mono: "valid_text s m \<Longrightarrow> m \<le> n \<Longrightarrow> valid_text s n"
  by (simp add: valid_text_def)

lemma valid_digest_not_empty: "valid_digest s \<Longrightarrow> s \<noteq> []"
  by (auto simp: valid_digest_def)

lemmas [rust_eval] = utf8_width_def chars_def is_control_def is_whitespace_def has_control_def
  is_ascii_digit_def is_ascii_uppercase_def is_ascii_lowercase_def is_ascii_alphanumeric_def
  is_ascii_hexdigit_def is_ascii_def to_ascii_lowercase_def starts_with_def strip_prefix_def
  sql_substr_def valid_text_def valid_digest_def http_url_def path_is_absolute_def
  char_of_eq_iff

section \<open>Third-party crates\<close>

text \<open>
  \<open>serde_json::Value\<close>. A number is kept as its literal; an object as its entries in the order
  of the map that holds them.
\<close>

datatype json =
    JNull
  | JBool bool
  | JNumber string
  | JString string
  | JArray "json list"
  | JObject "(string \<times> json) list"

text \<open>
  The client calls the \<open>uuid\<close>, \<open>sha2\<close> and \<open>serde_json\<close> crates. They are not part of the
  repository, so they are functions the model is given: parsing and printing of a UUID as a
  128-bit value, the lower-case hexadecimal SHA-256 of a byte string, and the JSON text of a
  value (\<open>to_vec\<close>, which keeps the order of the entries).
\<close>

record crates =
  uuid_parse :: "string \<Rightarrow> 128 word option"
  uuid_print :: "128 word \<Rightarrow> string"
  sha256_hex :: "string \<Rightarrow> string"
  json_text :: "json \<Rightarrow> string"

text \<open>\<open>serde\<close>: the JSON text of a value (\<open>None\<close> when serialization fails) and its parser.\<close>

record 'r codec =
  to_json :: "'r \<Rightarrow> string option"
  from_json :: "string \<Rightarrow> 'r option"

text \<open>
  What the client relies on of a derived \<open>Serialize\<close>/\<open>Deserialize\<close> pair: what was written
  reads back as the same value.
\<close>

definition serde_lawful :: "'r codec \<Rightarrow> bool" where
  "serde_lawful c \<longleftrightarrow> (\<forall>r s. to_json c r = Some s \<longrightarrow> from_json c s = Some r)"

lemma serde_lawfulD: "serde_lawful c \<Longrightarrow> to_json c r = Some s \<Longrightarrow> from_json c s = Some r"
  by (simp add: serde_lawful_def)

text \<open>
  A table of finitely many values and their texts is a codec; it is lawful when no text is
  used twice.
\<close>

definition table_codec :: "('r \<times> string) list \<Rightarrow> 'r codec" where
  "table_codec t =
     \<lparr>to_json = map_of t, from_json = map_of (map (\<lambda>(r, s). (s, r)) t)\<rparr>"

lemma table_codec_lawful: "distinct (map snd t) \<Longrightarrow> serde_lawful (table_codec t)"
proof -
  assume d: "distinct (map snd t)"
  have "distinct (map fst (map (\<lambda>(r, s). (s, r)) t))"
    using d by (simp add: comp_def case_prod_beta)
  moreover have "(s, r) \<in> set (map (\<lambda>(r, s). (s, r)) t)" if "map_of t r = Some s" for r s
    using map_of_SomeD [OF that] by force
  ultimately show ?thesis
    by (simp add: serde_lawful_def table_codec_def map_of_is_SomeI)
qed

text \<open>The canonical spelling of a non-nil UUID.\<close>

definition canonical_uuid :: "crates \<Rightarrow> string \<Rightarrow> bool" where
  "canonical_uuid X v =
     (case uuid_parse X v of None \<Rightarrow> False | Some u \<Rightarrow> u \<noteq> 0 \<and> uuid_print X u = v)"

lemma canonical_uuid_unique:
  "canonical_uuid X v \<Longrightarrow> canonical_uuid X w \<Longrightarrow> uuid_parse X v = uuid_parse X w \<Longrightarrow> v = w"
  by (auto simp: canonical_uuid_def split: option.splits)

text \<open>
  A concrete instance of the crates, to evaluate definitions with: ten version 4 UUIDs that
  differ in their last digit, and a digest that is the same for every input.
\<close>

definition sample_stem :: string where
  "sample_stem = ''00000000-0000-4000-8000-00000000000''"

definition sample_id :: "nat \<Rightarrow> string" where
  "sample_id n = sample_stem @ [char_of (48 + n)]"

definition sample_crates :: crates where
  "sample_crates =
     \<lparr>uuid_parse = (\<lambda>s. if length s = 36 \<and> starts_with sample_stem s \<and> is_ascii_digit (s ! 35)
        then Some (of_nat (byte (s ! 35)) + 0x40008000000000000000) else None),
      uuid_print = (\<lambda>w. sample_id (unat (w - 0x40008000000000000000) - 48)),
      sha256_hex = (\<lambda>_. replicate 64 (CHR ''a'')), json_text = (\<lambda>_. [])\<rparr>"

definition sample_digest :: string where
  "sample_digest = ''sha256:'' @ replicate 64 (CHR ''a'')"

lemma sample_id_canonical [simp]: "n < 10 \<Longrightarrow> canonical_uuid sample_crates (sample_id n)"
proof -
  assume n: "n < 10"
  have "n \<in> {0,1,2,3,4,5,6,7,8,9}" using n by auto
  then show ?thesis
    by (auto simp: canonical_uuid_def sample_crates_def sample_id_def sample_stem_def rust_eval nth_append)
qed

lemma sample_id_inj [simp]: "m < 10 \<Longrightarrow> n < 10 \<Longrightarrow> sample_id m = sample_id n \<longleftrightarrow> m = n"
proof -
  assume "m < 10" "n < 10"
  then have "m \<in> {0,1,2,3,4,5,6,7,8,9}" "n \<in> {0,1,2,3,4,5,6,7,8,9}" by auto
  then show ?thesis by (auto simp: sample_id_def)
qed

lemma sample_digest_valid [simp]: "valid_digest sample_digest"
  by (simp add: sample_digest_def rust_eval list_all_iff)

lemma sample_digest_text [simp]: "71 \<le> n \<Longrightarrow> valid_text sample_digest n"
proof -
  assume "71 \<le> n"
  moreover have "is_ascii sample_digest" by (simp add: is_ascii_def list_all_iff sample_digest_def)
  then have "\<not> has_control sample_digest"
    by (simp add: has_control_ascii list_ex_iff sample_digest_def is_control_def)
  ultimately show ?thesis by (simp add: valid_text_def sample_digest_def)
qed

section \<open>Lists and association lists\<close>

text \<open>\<open>windows(2)\<close> with a strict order: a strictly ascending list.\<close>

fun strictly_ascending :: "'a::linorder list \<Rightarrow> bool" where
  "strictly_ascending (x # y # zs) \<longleftrightarrow> x < y \<and> strictly_ascending (y # zs)"
| "strictly_ascending _ \<longleftrightarrow> True"

lemma strictly_ascending_sorted: "strictly_ascending xs \<longleftrightarrow> sorted xs \<and> distinct xs"
proof (induction xs rule: strictly_ascending.induct)
  case (1 x y zs)
  then show ?case by (auto simp: less_le dest: order_trans)
qed auto

text \<open>\<open>Vec::dedup\<close>: drops every element equal to the one kept before it.\<close>

fun dedup_by_key :: "('a \<Rightarrow> 'k) \<Rightarrow> 'a list \<Rightarrow> 'a list" where
  "dedup_by_key f (x # y # zs) =
     (if f x = f y then dedup_by_key f (x # zs) else x # dedup_by_key f (y # zs))"
| "dedup_by_key f xs = xs"

lemma dedup_by_key_subset: "set (dedup_by_key f xs) \<subseteq> set xs"
  by (induction f xs rule: dedup_by_key.induct) (auto split: if_splits)

lemma dedup_by_key_keys: "f ` set (dedup_by_key f xs) = f ` set xs"
proof (induction f xs rule: dedup_by_key.induct)
  case (1 f x y zs)
  then show ?case by (cases "f x = f y") auto
qed auto

lemma dedup_by_key_Cons: "\<exists>ys. dedup_by_key f (x # xs) = x # ys"
proof (induction xs arbitrary: x)
  case (Cons y zs)
  then show ?case by (cases "f x = f y") auto
qed simp

lemma dedup_by_key_ascending:
  "sorted (map f xs) \<Longrightarrow> strictly_ascending (map f (dedup_by_key f xs))"
proof (induction f xs rule: dedup_by_key.induct)
  case (1 f x y zs)
  show ?case
  proof (cases "f x = f y")
    case True
    with 1 show ?thesis by simp
  next
    case False
    obtain ys where ys: "dedup_by_key f (y # zs) = y # ys"
      using dedup_by_key_Cons by metis
    from False "1.prems" have "f x < f y" by (simp add: less_le)
    moreover from False 1 have "strictly_ascending (map f (y # ys))" by (simp add: ys)
    ultimately show ?thesis using False by (simp add: ys)
  qed
qed auto

lemma dedup_by_key_id: "distinct (map f xs) \<Longrightarrow> dedup_by_key f xs = xs"
  by (induction f xs rule: dedup_by_key.induct) auto

text \<open>
  Rewriting every row with a given key, and dropping it, as \<open>UPDATE \<dots> WHERE key\<close> and
  \<open>DELETE \<dots> WHERE key\<close> do.
\<close>

definition row_update :: "'k \<Rightarrow> 'v \<Rightarrow> ('k \<times> 'v) list \<Rightarrow> ('k \<times> 'v) list" where
  "row_update k v rows = map (\<lambda>(k', w). if k' = k then (k, v) else (k', w)) rows"

definition row_delete :: "'k \<Rightarrow> ('k \<times> 'v) list \<Rightarrow> ('k \<times> 'v) list" where
  "row_delete k rows = filter (\<lambda>(k', w). k' \<noteq> k) rows"

lemma map_fst_row_update [simp]: "map fst (row_update k v rows) = map fst rows"
  by (induction rows) (auto simp: row_update_def)

lemma map_of_row_update:
  "map_of (row_update k v rows) =
     (if k \<in> fst ` set rows then (map_of rows)(k \<mapsto> v) else map_of rows)"
  by (induction rows) (auto simp: row_update_def fun_eq_iff)

lemma map_of_row_update_Some:
  "map_of rows k = Some w \<Longrightarrow> map_of (row_update k v rows) = (map_of rows)(k \<mapsto> v)"
  by (metis domI dom_map_of_conv_image_fst map_of_row_update)

lemma map_of_row_delete: "map_of (row_delete k rows) = (map_of rows)(k := None)"
  by (induction rows) (auto simp: row_delete_def fun_eq_iff)

lemma distinct_row_delete: "distinct (map fst rows) \<Longrightarrow> distinct (map fst (row_delete k rows))"
  by (simp add: row_delete_def distinct_map_filter)

lemma map_add_fresh:
  "k \<notin> fst ` set rows \<Longrightarrow> [k \<mapsto> v] ++ map_of rows = (map_of rows)(k \<mapsto> v)"
  by (auto simp: fun_eq_iff map_add_def dom_map_of_conv_image_fst [symmetric] split: option.splits)

lemma map_of_Some_key: "map_of rows k = Some v \<Longrightarrow> k \<in> fst ` set rows"
  by (metis domI dom_map_of_conv_image_fst)

end
