(* ===== verification/Api_Transport.thy ===== *)
theory Api_Transport
  imports Prelude
begin

text \<open>
  The HTTP layer of \<open>src/api.rs\<close>: the error type every API call returns, the bounded reading
  of a response body, the decoding of a response, and the percent encoding of path segments.
  \<open>reqwest\<close> and \<open>serde_json\<close> are not part of the repository: a request's outcome is an
  argument (what the connection produced) and so are the decoders.
\<close>

section \<open>API errors\<close>

record api_error =
  ae_status :: "nat option"
  ae_code :: "string option"
  ae_message :: string

definition api_local :: "string \<Rightarrow> string \<Rightarrow> api_error" where
  "api_local c m = \<lparr>ae_status = None, ae_code = Some c, ae_message = m\<rparr>"

definition is_not_found :: "api_error \<Rightarrow> bool" where
  "is_not_found e \<longleftrightarrow> ae_status e = Some 404"

definition is_port_forward_terminal :: "api_error \<Rightarrow> bool" where
  "is_port_forward_terminal e = is_some_and (\<lambda>s. 400 \<le> s \<and> s < 500 \<and> s \<noteq> 429) (ae_status e)"

definition is_transport_error :: "api_error \<Rightarrow> bool" where
  "is_transport_error e \<longleftrightarrow> ae_status e = None \<and> ae_code e = None"

definition api_decode_error :: "nat \<Rightarrow> string \<Rightarrow> api_error" where
  "api_decode_error status e =
     \<lparr>ae_status = Some status, ae_code = None,
      ae_message = ''failed to decode API response: '' @ e\<rparr>"

definition response_too_large :: "(nat \<Rightarrow> string) \<Rightarrow> nat \<Rightarrow> nat \<Rightarrow> api_error" where
  "response_too_large show_nat status limit =
     \<lparr>ae_status = Some status, ae_code = None,
      ae_message = ''API response exceeds the '' @ show_nat limit @ '' byte safety limit''\<rparr>"

section \<open>Responses\<close>

text \<open>
  What the connection delivers: an error before any status, or a status line with an optional
  declared length and then a sequence of body chunks, the last of which may be an error.
\<close>

record http_response =
  hr_status :: nat
  hr_content_length :: "nat option"
  hr_chunks :: "(string, string) result list"

record error_payload =
  ep_code :: string
  ep_message :: string

record skill_result =
  sr_schema_version :: nat
  sr_operation_id :: "string option"
  sr_status :: string
  sr_committed :: bool
  sr_has_data :: bool
  sr_errors :: "error_payload list"

text \<open>
  What the model is given of \<open>serde_json\<close>, \<open>String::from_utf8\<close> and integer formatting: the
  decoders of the payload, of the ordinary error envelope and of the Skill result envelope.
\<close>

record 'a decoders =
  dec_payload :: "string \<Rightarrow> ('a, string) result"
  dec_envelope :: "string \<Rightarrow> error_payload option"
  dec_skill :: "string \<Rightarrow> skill_result option"
  dec_utf8 :: "string \<Rightarrow> bool"
  dec_show_nat :: "nat \<Rightarrow> string"

definition skill_error_ok :: "error_payload \<Rightarrow> bool" where
  "skill_error_ok e \<longleftrightarrow>
     ep_code e \<noteq> [] \<and> length (ep_code e) \<le> 128 \<and>
     list_all (\<lambda>b. is_ascii_uppercase b \<or> is_ascii_digit b \<or> b = CHR ''_'') (ep_code e) \<and>
     \<not> list_all is_whitespace (chars (ep_message e)) \<and> length (ep_message e) \<le> 4096 \<and>
     \<not> has_control (ep_message e)"

definition error_response_decode :: "crates \<Rightarrow> 'a decoders \<Rightarrow> string \<Rightarrow> error_payload option" where
  "error_response_decode X D body =
     (case dec_envelope D body of
        Some e \<Rightarrow> Some e
      | None \<Rightarrow>
          (case dec_skill D body of
             None \<Rightarrow> None
           | Some envelope \<Rightarrow>
               if sr_schema_version envelope \<noteq> 1 \<or> sr_status envelope \<noteq> ''failed'' \<or>
                  sr_committed envelope \<or> sr_has_data envelope \<or>
                  is_some_and (\<lambda>i. uuid_parse X i = None) (sr_operation_id envelope)
               then None
               else (case sr_errors envelope of
                       [e] \<Rightarrow> if skill_error_ok e then Some e else None
                     | _ \<Rightarrow> None)))"

definition max_api_response_bytes :: nat where
  "max_api_response_bytes = 2 ^ 20"

definition usize_max :: nat where
  "usize_max = 2 ^ 64 - 1"

fun read_chunks ::
  "(nat \<Rightarrow> string) \<Rightarrow> nat \<Rightarrow> nat \<Rightarrow> (string, string) result list \<Rightarrow> string \<Rightarrow> (string, api_error) result"
where
  "read_chunks show_nat status limit [] body = Ok body"
| "read_chunks show_nat status limit (Err e # cs) body =
     Err \<lparr>ae_status = Some status, ae_code = None, ae_message = e\<rparr>"
| "read_chunks show_nat status limit (Ok c # cs) body =
     (if min usize_max (length body + length c) > limit
      then Err (response_too_large show_nat status limit)
      else read_chunks show_nat status limit cs (body @ c))"

definition read_response_body_bounded ::
  "'a decoders \<Rightarrow> http_response \<Rightarrow> nat \<Rightarrow> (string, api_error) result" where
  "read_response_body_bounded D r limit =
     (if is_some_and (\<lambda>n. n > limit) (hr_content_length r)
      then Err (response_too_large (dec_show_nat D) (hr_status r) limit)
      else case read_chunks (dec_show_nat D) (hr_status r) limit (hr_chunks r) [] of
             Err e \<Rightarrow> Err e
           | Ok body \<Rightarrow>
               if dec_utf8 D body then Ok body
               else Err \<lparr>ae_status = Some (hr_status r), ae_code = None,
                         ae_message = ''API response is not valid UTF-8''\<rparr>)"

definition read_response_body :: "'a decoders \<Rightarrow> http_response \<Rightarrow> (string, api_error) result" where
  "read_response_body D r = read_response_body_bounded D r max_api_response_bytes"

definition from_error_response :: "crates \<Rightarrow> 'a decoders \<Rightarrow> nat \<Rightarrow> string \<Rightarrow> api_error" where
  "from_error_response X D status body =
     (case error_response_decode X D body of
        Some e \<Rightarrow>
          \<lparr>ae_status = Some status, ae_code = Some (ep_code e), ae_message = ep_message e\<rparr>
      | None \<Rightarrow>
          \<lparr>ae_status = Some status, ae_code = None,
           ae_message = ''server returned an invalid error response''\<rparr>)"

definition is_success :: "nat \<Rightarrow> bool" where
  "is_success s \<longleftrightarrow> 200 \<le> s \<and> s < 300"

definition send ::
  "crates \<Rightarrow> 'a decoders \<Rightarrow> (http_response, api_error) result \<Rightarrow> ('a, api_error) result" where
  "send X D outcome =
     (case outcome of
        Err e \<Rightarrow> Err e
      | Ok response \<Rightarrow>
          (case read_response_body D response of
             Err e \<Rightarrow> Err e
           | Ok body \<Rightarrow>
               if is_success (hr_status response)
               then map_err (api_decode_error (hr_status response)) (dec_payload D body)
               else Err (from_error_response X D (hr_status response) body)))"

section \<open>Percent encoding\<close>

definition hex_upper :: "nat \<Rightarrow> char" where
  "hex_upper n = ''0123456789ABCDEF'' ! n"

definition url_unreserved :: "char \<Rightarrow> bool" where
  "url_unreserved c \<longleftrightarrow> is_ascii_alphanumeric c \<or> c \<in> {CHR ''-'', CHR ''_'', CHR ''.'', CHR ''~''}"

fun url_encode :: "string \<Rightarrow> string" where
  "url_encode [] = []"
| "url_encode (b # bs) =
     (if url_unreserved b then b # url_encode bs
      else CHR ''%'' # hex_upper (byte b div 16) # hex_upper (byte b mod 16) # url_encode bs)"

text \<open>The reading of a percent-encoded segment, as the server does it.\<close>

definition hex_value :: "char \<Rightarrow> nat" where
  "hex_value c = (if is_ascii_digit c then byte c - 48 else byte c - 55)"

fun url_decode :: "string \<Rightarrow> string" where
  "url_decode (c # h # l # bs) =
     (if c = CHR ''%'' then char_of (16 * hex_value h + hex_value l) # url_decode bs
      else c # url_decode (h # l # bs))"
| "url_decode (c # bs) = c # url_decode bs"
| "url_decode [] = []"

section \<open>Properties\<close>

lemma hex_value_hex_upper: "n < 16 \<Longrightarrow> hex_value (hex_upper n) = n"
proof -
  assume "n < 16"
  then have "n \<in> set [0..<16]" by simp
  moreover have "\<forall>k \<in> set [0..<16]. hex_value (hex_upper k) = k"
    by code_simp
  ultimately show ?thesis by blast
qed

lemma byte_less [simp]: "byte c < 256"
  by simp

lemma unreserved_not_percent: "url_unreserved c \<Longrightarrow> c \<noteq> CHR ''%''"
  by (auto simp: url_unreserved_def is_ascii_alphanumeric_def is_ascii_digit_def
      is_ascii_uppercase_def is_ascii_lowercase_def)

lemma url_decode_plain: "c \<noteq> CHR ''%'' \<Longrightarrow> url_decode (c # bs) = c # url_decode bs"
  by (cases bs rule: url_decode.cases) auto

text \<open>
  Percent encoding loses nothing: decoding an encoded segment gives back its bytes, so
  two identifiers never share an encoded request path.
\<close>

lemma url_encode_roundtrip: "url_decode (url_encode s) = s"
proof (induction s)
  case (Cons b bs)
  show ?case
  proof (cases "url_unreserved b")
    case True
    with Cons show ?thesis by (simp add: url_decode_plain unreserved_not_percent)
  next
    case False
    have "byte b div 16 < 16" by (simp add: less_mult_imp_div_less)
    then have "16 * hex_value (hex_upper (byte b div 16)) + hex_value (hex_upper (byte b mod 16))
        = byte b"
      by (simp add: hex_value_hex_upper)
    with False Cons show ?thesis by simp
  qed
qed simp

text \<open>An encoded segment holds no separator that could change the request path.\<close>

lemma url_encode_safe:
  "c \<in> set (url_encode s) \<Longrightarrow> c \<noteq> CHR ''/'' \<and> c \<noteq> CHR ''?'' \<and> c \<noteq> CHR ''#''"
proof (induction s)
  case (Cons b bs)
  have hex: "hex_upper n \<noteq> CHR ''/'' \<and> hex_upper n \<noteq> CHR ''?'' \<and> hex_upper n \<noteq> CHR ''#''"
    if "n < 16" for n
  proof -
    have "\<forall>k \<in> set [0..<16]. hex_upper k \<noteq> CHR ''/'' \<and> hex_upper k \<noteq> CHR ''?'' \<and> hex_upper k \<noteq> CHR ''#''"
      by code_simp
    with that show ?thesis by simp
  qed
  have "byte b div 16 < 16" by (simp add: less_mult_imp_div_less)
  with Cons hex [of "byte b div 16"] hex [of "byte b mod 16"] show ?case
    by (auto simp: url_unreserved_def is_ascii_alphanumeric_def is_ascii_digit_def
        is_ascii_uppercase_def is_ascii_lowercase_def split: if_splits)
qed simp

lemma read_chunks_bound:
  "read_chunks f s limit cs body = Ok b \<Longrightarrow> limit < usize_max \<Longrightarrow> length body \<le> limit \<Longrightarrow>
     length b \<le> limit"
proof (induction f s limit cs body rule: read_chunks.induct)
  case (3 f s limit c cs body)
  then show ?case by (auto simp: min_def split: if_splits)
qed simp_all

lemma read_chunks_status:
  "read_chunks f s limit cs body = Err e \<Longrightarrow> ae_status e = Some s \<and> ae_code e = None"
  by (induction f s limit cs body rule: read_chunks.induct)
     (auto simp: response_too_large_def split: if_splits)

lemma read_response_body_cases:
  "read_response_body D r = Err e \<Longrightarrow> ae_status e = Some (hr_status r) \<and> ae_code e = None"
  by (auto simp: read_response_body_def read_response_body_bounded_def response_too_large_def
      dest: read_chunks_status split: if_splits result.splits)

text \<open>
  A body that is handed to a decoder is never longer than the 1 MiB limit, whatever
  lengths and chunks the server announces.
\<close>

lemma response_body_bounded:
  assumes "read_response_body D r = Ok body"
  shows "length body \<le> 1048576"
proof -
  have "max_api_response_bytes < usize_max"
    by (simp add: max_api_response_bytes_def usize_max_def)
  moreover from assms have
    "read_chunks (dec_show_nat D) (hr_status r) max_api_response_bytes (hr_chunks r) [] = Ok body"
    by (auto simp: read_response_body_def read_response_body_bounded_def
        split: if_splits result.splits)
  ultimately show ?thesis
    using read_chunks_bound by (force simp: max_api_response_bytes_def)
qed

definition plain_crates :: crates where
  "plain_crates = \<lparr>uuid_parse = (\<lambda>_. None), uuid_print = (\<lambda>_. []), sha256_hex = (\<lambda>_. []),
     json_text = (\<lambda>_. [])\<rparr>"

definition plain_decoders :: "string decoders" where
  "plain_decoders = \<lparr>dec_payload = Ok, dec_envelope = (\<lambda>_. None), dec_skill = (\<lambda>_. None),
     dec_utf8 = (\<lambda>_. True),
     dec_show_nat = (\<lambda>_. ''1048576'')\<rparr>"

text \<open>
  Once a status line has been received, every failure of the call carries that status, so
  a caller can still tell a rejection (4xx) from an unknown outcome after a broken body.
\<close>

lemma send_failure_keeps_status:
  assumes "send X D (Ok response) = Err e"
  shows "ae_status e = Some (hr_status response)"
proof (cases "read_response_body D response")
  case (Err e')
  with assms read_response_body_cases [OF Err] show ?thesis by (simp add: send_def)
next
  case (Ok body)
  with assms show ?thesis
    by (auto simp: send_def from_error_response_def api_decode_error_def
        split: if_splits option.splits result.splits elim: map_err.elims)
qed

end
