(* ===== verification/Local_Db.thy ===== *)
theory Local_Db
  imports Prelude Api_Transport
begin

text \<open>
  The metadata database of the client (\<open>src/local_state.rs\<close>,
  \<open>src/local_state/initialization.rs\<close>, the paths of \<open>src/config.rs\<close>): the checks on the home
  directory and on the database files, the SQL schema with its creation and validation, and
  the versioned initialization. SQLite itself is not part of the repository: its tables are
  the state of the model, each SQL statement of the source is a function on them, and the
  argument \<open>f\<close> of an operation says which of its statements fail. The Unix build is modelled.
\<close>

section \<open>The host file system\<close>

datatype io_kind = IoNotFound | IoAlreadyExists | IoOther

datatype file_kind = RegularFile | DirectoryFile | SymbolicLink | OtherFile

record metadata =
  md_kind :: file_kind
  md_nlink :: nat
  md_uid :: nat
  md_mode :: nat
  md_dev :: nat
  md_ino :: nat

datatype init_error = InvalidPath | UnsupportedVersion int | Unavailable

text \<open>Everything an operation of the client can fail with.\<close>

datatype failure =
    Bail string
  | IoErr io_kind
  | SqlErr
  | JsonErr
  | InitErr init_error
  | ApiErr api_error
  | SubmissionUnknown string
  | ExitCode int

text \<open>
  The file system and the opening of database connections, as seen by one operation:
  \<open>lstat\<close>, \<open>realpath\<close>, exclusive creation, directory preparation, and whether SQLite opens
  the path.
\<close>

record host =
  h_home :: string
  h_euid :: nat
  h_lstat :: "string \<Rightarrow> (metadata, io_kind) result"
  h_canonicalize :: "string \<Rightarrow> (string, io_kind) result"
  h_create_new :: "string \<Rightarrow> (unit, io_kind) result"
  h_prepare_dir :: "string \<Rightarrow> (unit, failure) result"
  h_connect :: "string \<Rightarrow> bool"

definition path_join :: "string \<Rightarrow> string \<Rightarrow> string" where
  "path_join d n = (if d = [] \<or> last d = CHR ''/'' then d @ n else d @ ''/'' @ n)"

fun split_slash :: "string \<Rightarrow> string list" where
  "split_slash [] = [[]]"
| "split_slash (c # cs) =
     (if c = CHR ''/'' then [] # split_slash cs
      else case split_slash cs of p # ps \<Rightarrow> (c # p) # ps | [] \<Rightarrow> [[c]])"

fun join_slash :: "string list \<Rightarrow> string" where
  "join_slash [] = []"
| "join_slash [p] = p"
| "join_slash (p # q # ps) = p @ ''/'' @ join_slash (q # ps)"

text \<open>
  \<open>path.components().collect()\<close>: repeated and trailing separators and inner \<open>.\<close> components
  are dropped; a relative path keeps a leading \<open>.\<close>.
\<close>

definition path_components :: "string \<Rightarrow> string" where
  "path_components p =
     (let parts = filter (\<lambda>c. c \<noteq> [] \<and> c \<noteq> ''.'') (split_slash p) in
      if path_is_absolute p then ''/'' @ join_slash parts
      else if hd (split_slash p) = ''.'' then join_slash (''.'' # parts)
      else join_slash parts)"

definition state_db_path :: "host \<Rightarrow> string" where
  "state_db_path H = path_join (h_home H) ''state.sqlite3''"

fun prepare_all :: "host \<Rightarrow> string list \<Rightarrow> (unit, failure) result" where
  "prepare_all H [] = Ok ()"
| "prepare_all H (d # ds) =
     (case h_prepare_dir H d of Err e \<Rightarrow> Err e | Ok _ \<Rightarrow> prepare_all H ds)"

definition ensure_base_dirs :: "host \<Rightarrow> (unit, failure) result" where
  "ensure_base_dirs H =
     prepare_all H (h_home H # map (path_join (h_home H))
       [''bin'', ''dependencies'', ''secrets'', ''wireguard'', ''ssh''])"

definition is_link :: "metadata \<Rightarrow> bool" where
  "is_link m \<longleftrightarrow> md_kind m = SymbolicLink"

definition checked_home :: "host \<Rightarrow> bool \<Rightarrow> (string, failure) result" where
  "checked_home H allow_missing =
     (let home = path_components (h_home H) in
      case h_lstat H home of
        Ok m \<Rightarrow> if md_kind m = DirectoryFile \<and> \<not> is_link m then Ok home else Err (InitErr InvalidPath)
      | Err e \<Rightarrow> if allow_missing \<and> e = IoNotFound then Ok home else Err (IoErr e))"

definition validate_file :: "host \<Rightarrow> string \<Rightarrow> (unit, failure) result" where
  "validate_file H path =
     (case h_lstat H path of
        Ok m \<Rightarrow>
          if md_kind m = RegularFile \<and> \<not> is_link m
          then (if md_nlink m \<noteq> 1 then Err (InitErr InvalidPath) else Ok ())
          else Err (InitErr InvalidPath)
      | Err e \<Rightarrow> if e = IoNotFound then Ok () else Err (IoErr e))"

fun validate_suffixes :: "host \<Rightarrow> string \<Rightarrow> string list \<Rightarrow> (unit, failure) result" where
  "validate_suffixes H path [] = Ok ()"
| "validate_suffixes H path (s # ss) =
     (case validate_file H (path @ s) of Err e \<Rightarrow> Err e | Ok _ \<Rightarrow> validate_suffixes H path ss)"

text \<open>
  The checked path of the database: used before every connection, read-only or not. The
  database file name is a constant, so \<open>file_name()\<close> always gives it.
\<close>

definition database_path :: "host \<Rightarrow> (string, failure) result" where
  "database_path H =
     (case checked_home H False of
        Err e \<Rightarrow> Err e
      | Ok home \<Rightarrow>
          (case h_canonicalize H home of
             Err e \<Rightarrow> Err (IoErr e)
           | Ok real \<Rightarrow>
               let path = path_join real ''state.sqlite3'' in
               case validate_suffixes H path ['''', ''-journal'', ''-wal'', ''-shm''] of
                 Err e \<Rightarrow> Err e
               | Ok _ \<Rightarrow> Ok path))"

definition open_readonly :: "host \<Rightarrow> (string, failure) result" where
  "open_readonly H =
     (case database_path H of
        Err e \<Rightarrow> Err e
      | Ok path \<Rightarrow> if h_connect H path then Ok path else Err SqlErr)"

definition open_metadata :: "host \<Rightarrow> (string, failure) result" where
  "open_metadata H =
     (case database_path H of
        Err e \<Rightarrow> Err e
      | Ok path \<Rightarrow>
          (case (case h_create_new H path of
                   Ok _ \<Rightarrow> Ok ()
                 | Err e \<Rightarrow> if e = IoAlreadyExists then validate_file H path else Err (IoErr e)) of
             Err e \<Rightarrow> Err e
           | Ok _ \<Rightarrow> if h_connect H path then Ok path else Err SqlErr))"

definition open_state :: "host \<Rightarrow> (string, failure) result" where
  "open_state H =
     (case checked_home H True of
        Err e \<Rightarrow> Err e
      | Ok _ \<Rightarrow>
          (case ensure_base_dirs H of
             Err e \<Rightarrow> Err e
           | Ok _ \<Rightarrow> open_metadata H))"

section \<open>Tables\<close>

record local_device =
  ld_id :: string
  ld_server_url :: string
  ld_name :: string
  ld_platform :: string
  ld_status :: string
  ld_ssh_key_id :: "string option"
  ld_wireguard_peer_id :: "string option"
  ld_created_at :: "string option"
  ld_last_seen_at :: "string option"

record local_workspace =
  lw_id :: string
  lw_server_url :: string
  lw_project_key :: string
  lw_local_path :: string
  lw_display_name :: string
  lw_remote_path :: "string option"

record local_sync_session =
  ls_id :: string
  ls_server_url :: string
  ls_workspace_id :: string
  ls_node_id :: "string option"
  ls_status :: string
  ls_conflict_status :: string
  ls_mutagen_session_id :: "string option"
  ls_remote_endpoint :: "string option"

record local_ego_browser_binding =
  lb_id :: string
  lb_server_url :: string
  lb_ego_browser_device_id :: string
  lb_tool_session_id :: string
  lb_node_id :: string
  lb_status :: string
  lb_generation :: "64 word"
  lb_relay_binding_kind :: string
  lb_lease_until :: "string option"

record skill_command_record =
  sk_server_url :: string
  sk_user_id :: string
  sk_intent_digest :: string
  sk_idempotency_key :: string
  sk_request_json :: string

text \<open>A row of \<open>skill_commands\<close> adds the state and the operation to the record.\<close>

record skill_command_row =
  sw_record :: skill_command_record
  sw_pending :: bool
  sw_operation_id :: "string option"

record table_def =
  td_columns :: "string list"
  td_pk :: "string list"

record index_def =
  ix_table :: string
  ix_unique :: bool
  ix_partial :: bool
  ix_columns :: "string list"
  ix_sql :: string

text \<open>
  The database: version pragmas, the result of the integrity check, the schema objects, and
  the rows of each table. Rows of \<open>sync_sessions\<close> and \<open>ego_browser_bindings\<close> carry their
  \<open>updated_at\<close> time, which queries order by; \<open>skill_commands\<close> rows are in rowid order.
\<close>

record db =
  db_user_version :: int
  db_schema_version :: int
  db_quick_check :: string
  db_tables :: "(string \<times> table_def) list"
  db_indexes :: "(string \<times> index_def) list"
  db_kv :: "(string \<times> string) list"
  db_devices :: "local_device list"
  db_workspaces :: "local_workspace list"
  db_sync_sessions :: "(local_sync_session \<times> nat) list"
  db_ego_bindings :: "(local_ego_browser_binding \<times> nat) list"
  db_skill_commands :: "skill_command_row list"

definition has_table :: "db \<Rightarrow> string \<Rightarrow> bool" where
  "has_table d t \<longleftrightarrow> t \<in> fst ` set (db_tables d)"

text \<open>The statements of an operation that can fail.\<close>

datatype sql_step =
  SPragma | SBegin | SExists | SCount | SSelect | SRow | SWrite | SCreate | SPrepare | SCommit

type_synonym faults = "sql_step \<Rightarrow> bool"

abbreviation no_faults :: faults where
  "no_faults \<equiv> \<lambda>_. False"

section \<open>Schema creation\<close>

definition create_table :: "string \<Rightarrow> table_def \<Rightarrow> db \<Rightarrow> db" where
  "create_table t td d =
     (if has_table d t then d
      else d\<lparr>db_tables := (t, td) # db_tables d, db_schema_version := db_schema_version d + 1\<rparr>)"

text \<open>A unique index cannot be created over rows that already collide.\<close>

definition rows_distinct :: "db \<Rightarrow> string \<Rightarrow> bool" where
  "rows_distinct d i =
     (if i = ''workspaces_server_project_idx''
      then distinct (map (\<lambda>w. (lw_server_url w, lw_project_key w)) (db_workspaces d))
      else if i = ''skill_commands_pending_intent''
      then distinct (map (\<lambda>r. (sk_server_url (sw_record r), sk_user_id (sw_record r),
              sk_intent_digest (sw_record r))) (filter sw_pending (db_skill_commands d)))
      else True)"

definition create_index :: "string \<Rightarrow> index_def \<Rightarrow> db \<Rightarrow> (db, failure) result" where
  "create_index i ix d =
     (if i \<in> fst ` set (db_indexes d) then Ok d
      else case map_of (db_tables d) (ix_table ix) of
             None \<Rightarrow> Err SqlErr
           | Some td \<Rightarrow>
               if set (ix_columns ix) \<subseteq> set (td_columns td) \<and> (ix_unique ix \<longrightarrow> rows_distinct d i)
               then Ok (d\<lparr>db_indexes := (i, ix) # db_indexes d,
                          db_schema_version := db_schema_version d + 1\<rparr>)
               else Err SqlErr)"

text \<open>The tables and indexes of the schema, in the order of the two batches that create them.\<close>

datatype schema_stmt = CreateTable string table_def | CreateIndex string index_def

definition schema_batch :: "schema_stmt list" where
  "schema_batch =
    [CreateTable ''kv'' \<lparr>td_columns = [''key'', ''value'', ''updated_at''], td_pk = [''key'']\<rparr>,
     CreateTable ''devices''
       \<lparr>td_columns = [''id'', ''server_url'', ''name'', ''platform'', ''status'', ''ssh_key_id'',
          ''wireguard_peer_id'', ''created_at'', ''last_seen_at'', ''updated_at''], td_pk = [''id'']\<rparr>,
     CreateIndex ''devices_server_status_idx''
       \<lparr>ix_table = ''devices'', ix_unique = False, ix_partial = False,
        ix_columns = [''server_url'', ''status''],
        ix_sql = ''CREATE INDEX devices_server_status_idx ON devices (server_url, status)''\<rparr>,
     CreateTable ''workspaces''
       \<lparr>td_columns = [''id'', ''server_url'', ''project_key'', ''local_path'', ''display_name'',
          ''remote_path'', ''updated_at''], td_pk = [''id'']\<rparr>,
     CreateIndex ''workspaces_server_project_idx''
       \<lparr>ix_table = ''workspaces'', ix_unique = True, ix_partial = False,
        ix_columns = [''server_url'', ''project_key''],
        ix_sql = ''CREATE UNIQUE INDEX workspaces_server_project_idx ON workspaces (server_url, project_key)''\<rparr>,
     CreateTable ''sync_sessions''
       \<lparr>td_columns = [''id'', ''server_url'', ''workspace_id'', ''node_id'', ''status'',
          ''conflict_status'', ''mutagen_session_id'', ''remote_endpoint'', ''updated_at''],
        td_pk = [''id'']\<rparr>,
     CreateIndex ''sync_sessions_workspace_idx''
       \<lparr>ix_table = ''sync_sessions'', ix_unique = False, ix_partial = False,
        ix_columns = [''workspace_id''],
        ix_sql = ''CREATE INDEX sync_sessions_workspace_idx ON sync_sessions (workspace_id)''\<rparr>,
     CreateTable ''ego_browser_bindings''
       \<lparr>td_columns = [''id'', ''server_url'', ''ego_browser_device_id'', ''tool_session_id'',
          ''node_id'', ''status'', ''generation'', ''relay_binding_kind'', ''lease_until'',
          ''updated_at''], td_pk = [''id'']\<rparr>,
     CreateIndex ''ego_browser_bindings_server_status_idx''
       \<lparr>ix_table = ''ego_browser_bindings'', ix_unique = False, ix_partial = False,
        ix_columns = [''server_url'', ''status''],
        ix_sql = ''CREATE INDEX ego_browser_bindings_server_status_idx ON ego_browser_bindings (server_url, status)''\<rparr>]"

definition init_skill_commands :: "schema_stmt list" where
  "init_skill_commands =
    [CreateTable ''skill_commands''
       \<lparr>td_columns = [''server_url'', ''user_id'', ''intent_digest'', ''idempotency_key'',
          ''request_json'', ''state'', ''operation_id'', ''created_at'', ''updated_at''],
        td_pk = [''server_url'', ''user_id'', ''idempotency_key'']\<rparr>,
     CreateIndex ''skill_commands_pending_intent''
       \<lparr>ix_table = ''skill_commands'', ix_unique = True, ix_partial = True,
        ix_columns = [''server_url'', ''user_id'', ''intent_digest''],
        ix_sql = ''CREATE UNIQUE INDEX skill_commands_pending_intent ON skill_commands(server_url, user_id, intent_digest) WHERE state = '' @
          [CHR 39] @ ''pending'' @ [CHR 39]\<rparr>]"

fun run_batch :: "schema_stmt list \<Rightarrow> db \<Rightarrow> (db, failure) result" where
  "run_batch [] d = Ok d"
| "run_batch (CreateTable t td # ss) d = run_batch ss (create_table t td d)"
| "run_batch (CreateIndex i ix # ss) d =
     (case create_index i ix d of Err e \<Rightarrow> Err e | Ok d' \<Rightarrow> run_batch ss d')"

definition create_schema :: "faults \<Rightarrow> db \<Rightarrow> (db, failure) result" where
  "create_schema f d =
     (if f SCreate then Err SqlErr
      else case run_batch schema_batch d of
             Err e \<Rightarrow> Err e
           | Ok d' \<Rightarrow> run_batch init_skill_commands d')"

section \<open>Schema validation\<close>

definition expected_columns :: "(string \<times> string list) list" where
  "expected_columns =
    [(''kv'', [''key'', ''value'', ''updated_at'']),
     (''devices'', [''id'', ''server_url'', ''name'', ''platform'', ''status'', ''ssh_key_id'',
        ''wireguard_peer_id'', ''created_at'', ''last_seen_at'', ''updated_at'']),
     (''workspaces'', [''id'', ''server_url'', ''project_key'', ''local_path'', ''display_name'',
        ''remote_path'', ''updated_at'']),
     (''sync_sessions'', [''id'', ''server_url'', ''workspace_id'', ''node_id'', ''status'',
        ''conflict_status'', ''mutagen_session_id'', ''remote_endpoint'', ''updated_at'']),
     (''ego_browser_bindings'', [''id'', ''server_url'', ''ego_browser_device_id'',
        ''tool_session_id'', ''node_id'', ''status'', ''generation'', ''relay_binding_kind'',
        ''lease_until'', ''updated_at'']),
     (''skill_commands'', [''server_url'', ''user_id'', ''intent_digest'', ''idempotency_key'',
        ''request_json'', ''state'', ''operation_id'', ''created_at'', ''updated_at''])]"

definition expected_keys :: "(string \<times> string list) list" where
  "expected_keys =
    [(''kv'', [''key'']), (''devices'', [''id'']), (''workspaces'', [''id'']),
     (''sync_sessions'', [''id'']), (''ego_browser_bindings'', [''id'']),
     (''skill_commands'', [''server_url'', ''user_id'', ''idempotency_key''])]"

definition expected_indexes :: "(string \<times> string \<times> bool \<times> bool \<times> string list) list" where
  "expected_indexes =
    [(''devices'', ''devices_server_status_idx'', False, False, [''server_url'', ''status'']),
     (''workspaces'', ''workspaces_server_project_idx'', True, False, [''server_url'', ''project_key'']),
     (''sync_sessions'', ''sync_sessions_workspace_idx'', False, False, [''workspace_id'']),
     (''ego_browser_bindings'', ''ego_browser_bindings_server_status_idx'', False, False,
        [''server_url'', ''status'']),
     (''skill_commands'', ''skill_commands_pending_intent'', True, True,
        [''server_url'', ''user_id'', ''intent_digest''])]"

definition columns_ok :: "db \<Rightarrow> string \<times> string list \<Rightarrow> bool" where
  "columns_ok d = (\<lambda>(t, cs).
     case map_of (db_tables d) t of None \<Rightarrow> False | Some td \<Rightarrow> set cs \<subseteq> set (td_columns td))"

definition key_ok :: "db \<Rightarrow> string \<times> string list \<Rightarrow> bool" where
  "key_ok d = (\<lambda>(t, ks).
     case map_of (db_tables d) t of None \<Rightarrow> ks = [] | Some td \<Rightarrow> td_pk td = ks)"

text \<open>The predicate text of a partial index, without white space and in lower case.\<close>

definition sql_normalized :: "string \<Rightarrow> string" where
  "sql_normalized sql =
     to_ascii_lowercase (concat (filter (\<lambda>g. \<not> is_whitespace (scalar g)) (utf8_split sql)))"

definition pending_predicate :: string where
  "pending_predicate = ''wherestate='' @ [CHR 39] @ ''pending'' @ [CHR 39]"

definition ends_with :: "string \<Rightarrow> string \<Rightarrow> bool" where
  "ends_with p s = (drop (length s - length p) s = p)"

definition index_ok :: "db \<Rightarrow> string \<times> string \<times> bool \<times> bool \<times> string list \<Rightarrow> bool" where
  "index_ok d = (\<lambda>(t, i, unique, partial, cs).
     case map_of (db_indexes d) i of
       None \<Rightarrow> False
     | Some ix \<Rightarrow>
         ix_table ix = t \<and> ix_unique ix = unique \<and> ix_partial ix = partial \<and> ix_columns ix = cs \<and>
         (partial \<longrightarrow> ends_with pending_predicate (sql_normalized (ix_sql ix))))"

definition validate_indexes :: "db \<Rightarrow> (unit, failure) result" where
  "validate_indexes d =
     (if list_all (index_ok d) expected_indexes then Ok () else Err (InitErr Unavailable))"

definition validate_schema :: "faults \<Rightarrow> db \<Rightarrow> (unit, failure) result" where
  "validate_schema f d =
     (if f SPrepare \<or> \<not> list_all (columns_ok d) expected_columns then Err SqlErr
      else if \<not> list_all (key_ok d) expected_keys then Err (InitErr Unavailable)
      else validate_indexes d)"

section \<open>Initialization\<close>

datatype state_initialization = Ready | Applied

definition schema_version :: int where
  "schema_version = 4"

text \<open>
  The whole transaction of \<open>initialize_schema\<close>: the new database on success, the old one
  whenever it returns an error (the transaction is dropped and rolled back).
\<close>

definition initialize_schema :: "faults \<Rightarrow> db \<Rightarrow> (state_initialization, failure) result \<times> db" where
  "initialize_schema f d =
     (if f SPragma \<or> f SBegin then (Err SqlErr, d)
      else if \<not> (0 \<le> db_user_version d \<and> db_user_version d \<le> schema_version)
      then (Err (InitErr (UnsupportedVersion (db_user_version d))), d)
      else if db_quick_check d \<noteq> ''ok'' then (Err (InitErr Unavailable), d)
      else case create_schema f d of
             Err e \<Rightarrow> (Err e, d)
           | Ok d' \<Rightarrow>
               (case validate_schema f d' of
                  Err e \<Rightarrow> (Err e, d)
                | Ok _ \<Rightarrow>
                    if f SCommit then (Err SqlErr, d)
                    else (Ok (if db_user_version d = schema_version \<and>
                                 db_schema_version d = db_schema_version d'
                              then Ready else Applied),
                          d'\<lparr>db_user_version := schema_version\<rparr>)))"

definition init_schema :: "faults \<Rightarrow> db \<Rightarrow> (unit, failure) result \<times> db" where
  "init_schema f d =
     (case initialize_schema f d of (Ok _, d') \<Rightarrow> (Ok (), d') | (Err e, d') \<Rightarrow> (Err e, d'))"

text \<open>\<open>LocalState::initialize_local\<close>: open, then initialize.\<close>

definition initialize_local ::
  "host \<Rightarrow> faults \<Rightarrow> db \<Rightarrow> (state_initialization, failure) result \<times> db" where
  "initialize_local H f d =
     (case open_metadata H of Err e \<Rightarrow> (Err e, d) | Ok _ \<Rightarrow> initialize_schema f d)"

text \<open>A database that has just been created by the client.\<close>

definition fresh_db :: db where
  "fresh_db = \<lparr>db_user_version = 0, db_schema_version = 0, db_quick_check = ''ok'',
     db_tables = [], db_indexes = [], db_kv = [], db_devices = [], db_workspaces = [],
     db_sync_sessions = [], db_ego_bindings = [], db_skill_commands = []\<rparr>"

section \<open>What initialization keeps\<close>

text \<open>All the rows of the database.\<close>

definition rows_of ::
  "db \<Rightarrow> (string \<times> string) list \<times> local_device list \<times> local_workspace list \<times>
     (local_sync_session \<times> nat) list \<times> (local_ego_browser_binding \<times> nat) list \<times>
     skill_command_row list" where
  "rows_of d = (db_kv d, db_devices d, db_workspaces d, db_sync_sessions d, db_ego_bindings d,
     db_skill_commands d)"

fun stmt_present :: "db \<Rightarrow> schema_stmt \<Rightarrow> bool" where
  "stmt_present d (CreateTable t _) = has_table d t"
| "stmt_present d (CreateIndex i _) \<longleftrightarrow> i \<in> fst ` set (db_indexes d)"

lemma create_index_Ok:
  "create_index i ix d = Ok d' \<Longrightarrow>
     (\<exists>ixs v. d' = d\<lparr>db_indexes := ixs, db_schema_version := v\<rparr> \<and>
        fst ` set ixs = insert i (fst ` set (db_indexes d)))"
proof (cases "i \<in> fst ` set (db_indexes d)")
  case True
  assume "create_index i ix d = Ok d'"
  with True have "d' = d\<lparr>db_indexes := db_indexes d, db_schema_version := db_schema_version d\<rparr>"
    by (simp add: create_index_def)
  with True show ?thesis by (metis insert_absorb)
next
  case False
  assume "create_index i ix d = Ok d'"
  with False have "d' = d\<lparr>db_indexes := (i, ix) # db_indexes d,
      db_schema_version := db_schema_version d + 1\<rparr>"
    by (auto simp: create_index_def split: option.splits if_splits)
  then show ?thesis by (metis (no_types) fst_conv image_insert list.simps(15))
qed

lemma create_table_frame:
  "rows_of (create_table t td d) = rows_of d \<and>
   db_user_version (create_table t td d) = db_user_version d \<and>
   db_quick_check (create_table t td d) = db_quick_check d"
  by (simp add: create_table_def rows_of_def)

lemma create_index_frame:
  "create_index i ix d = Ok d' \<Longrightarrow>
     rows_of d' = rows_of d \<and> db_user_version d' = db_user_version d \<and>
     db_quick_check d' = db_quick_check d"
  by (auto dest!: create_index_Ok simp: rows_of_def)

lemma run_batch_frame:
  "run_batch ss d = Ok d' \<Longrightarrow>
     rows_of d' = rows_of d \<and> db_user_version d' = db_user_version d \<and>
     db_quick_check d' = db_quick_check d"
proof (induction ss d rule: run_batch.induct)
  case (2 t td ss d)
  then show ?case by (simp add: create_table_frame)
next
  case (3 i ix ss d)
  then show ?case
    by (auto split: result.splits dest!: create_index_frame)
qed simp

lemma create_table_present:
  "stmt_present d s \<or> s = CreateTable t td \<Longrightarrow> stmt_present (create_table t td d) s"
  by (cases s) (auto simp: create_table_def has_table_def)

lemma create_index_present:
  "create_index i ix d = Ok d' \<Longrightarrow> stmt_present d s \<or> s = CreateIndex i ix \<Longrightarrow> stmt_present d' s"
  using create_index_Ok [of i ix d d'] by (cases s) (fastforce simp: has_table_def)+

lemma run_batch_present:
  "run_batch ss d = Ok d' \<Longrightarrow> stmt_present d s \<or> s \<in> set ss \<Longrightarrow> stmt_present d' s"
proof (induction ss d rule: run_batch.induct)
  case (2 t td ss d)
  then show ?case using create_table_present by fastforce
next
  case (3 i ix ss d)
  from "3.prems"(1) obtain d1 where d1: "create_index i ix d = Ok d1" and
    run: "run_batch ss d1 = Ok d'" by (auto split: result.splits)
  from "3.prems"(2) have "stmt_present d1 s \<or> s \<in> set ss"
    using create_index_present [OF d1] by auto
  with "3.IH" d1 run show ?case by blast
qed auto

lemma run_batch_noop: "\<forall>s \<in> set ss. stmt_present d s \<Longrightarrow> run_batch ss d = Ok d"
  by (induction ss d rule: run_batch.induct) (auto simp: create_table_def create_index_def)

lemma create_schema_Ok:
  assumes "create_schema f d = Ok d'"
  shows "rows_of d' = rows_of d" "db_user_version d' = db_user_version d"
    "db_quick_check d' = db_quick_check d"
    "create_schema f (d'\<lparr>db_user_version := v\<rparr>) = Ok (d'\<lparr>db_user_version := v\<rparr>)"
proof -
  from assms obtain d1 where f: "\<not> f SCreate" and d1: "run_batch schema_batch d = Ok d1"
    and d2: "run_batch init_skill_commands d1 = Ok d'"
    by (auto simp: create_schema_def split: if_splits result.splits)
  show "rows_of d' = rows_of d" "db_user_version d' = db_user_version d"
    "db_quick_check d' = db_quick_check d"
    using run_batch_frame [OF d1] run_batch_frame [OF d2] by simp_all
  have p: "stmt_present d' s" if "s \<in> set schema_batch \<union> set init_skill_commands" for s
    using that run_batch_present [OF d1, of s] run_batch_present [OF d2, of s] by blast
  have "stmt_present (d'\<lparr>db_user_version := v\<rparr>) s = stmt_present d' s" for s
    by (cases s) (simp_all add: has_table_def)
  with p f show "create_schema f (d'\<lparr>db_user_version := v\<rparr>) = Ok (d'\<lparr>db_user_version := v\<rparr>)"
    by (simp add: create_schema_def run_batch_noop)
qed

lemma validate_schema_version:
  "validate_schema f (d\<lparr>db_user_version := v\<rparr>) = validate_schema f d"
  by (simp add: validate_schema_def validate_indexes_def columns_ok_def key_ok_def index_ok_def)

lemma initialize_schema_cases:
  assumes "initialize_schema f d = (Ok r, d')"
  obtains d1 where "create_schema f d = Ok d1" "validate_schema f d1 = Ok ()" "\<not> f SPragma"
    "\<not> f SBegin" "\<not> f SCommit" "db_quick_check d = ''ok''"
    "d' = d1\<lparr>db_user_version := schema_version\<rparr>"
  using assms by (auto simp: initialize_schema_def split: if_splits result.splits)

lemma initialize_schema_Err: "initialize_schema f d = (Err e, d') \<Longrightarrow> d' = d"
  by (auto simp: initialize_schema_def split: if_splits result.splits)

lemma initialize_schema_Ok:
  assumes "initialize_schema f d = (Ok i, d')"
  shows "rows_of d' = rows_of d \<and> db_user_version d' = 4"
proof -
  from assms obtain d1 where d1: "create_schema f d = Ok d1"
    and d': "d' = d1\<lparr>db_user_version := schema_version\<rparr>"
    by (metis initialize_schema_cases)
  have "rows_of d' = rows_of d1" by (simp add: d' rows_of_def)
  with create_schema_Ok(1) [OF d1] show ?thesis by (simp add: d' schema_version_def)
qed

lemma init_schema_rows: "init_schema f d = (r, d') \<Longrightarrow> rows_of d' = rows_of d"
  by (auto simp: init_schema_def dest: initialize_schema_Err initialize_schema_Ok split: prod.splits result.splits)

lemma init_schema_kv: "init_schema f d = (r, d') \<Longrightarrow> db_kv d' = db_kv d"
  using init_schema_rows [of f d r d'] by (simp add: rows_of_def)

text \<open>After initialization the key-value table is there.\<close>

lemma run_batch_has_table:
  "run_batch ss d = Ok d' \<Longrightarrow> has_table d t \<Longrightarrow> has_table d' t"
proof (induction ss d rule: run_batch.induct)
  case (2 t' td ss d)
  then show ?case by (auto simp: create_table_def has_table_def split: if_splits)
next
  case (3 i ix ss d)
  then obtain d1 where d1: "create_index i ix d = Ok d1" "run_batch ss d1 = Ok d'"
    by (auto split: result.splits)
  then have "db_tables d1 = db_tables d"
    by (auto simp: create_index_def split: if_splits option.splits)
  with 3 d1 show ?case by (simp add: has_table_def)
qed simp

lemma init_schema_has_kv: "init_schema f d = (Ok (), d') \<Longrightarrow> has_table d' ''kv''"
proof -
  assume "init_schema f d = (Ok (), d')"
  then obtain i where "initialize_schema f d = (Ok i, d')"
    by (auto simp: init_schema_def split: prod.splits result.splits)
  then obtain d1 where c: "create_schema f d = Ok d1" and d': "d' = d1\<lparr>db_user_version := schema_version\<rparr>"
    by (rule initialize_schema_cases)
  from c obtain d2 where b: "run_batch schema_batch d = Ok d2" "run_batch init_skill_commands d2 = Ok d1"
    by (auto simp: create_schema_def split: if_splits result.splits)
  obtain td rest where e: "schema_batch = CreateTable ''kv'' td # rest" by (simp add: schema_batch_def)
  have "run_batch rest (create_table ''kv'' td d) = Ok d2" using b(1) [unfolded e] by simp
  then have "has_table d2 ''kv''" by (rule run_batch_has_table) (simp add: create_table_def has_table_def)
  with run_batch_has_table [OF b(2)] show ?thesis by (simp add: d' has_table_def)
qed

text \<open>
  Initialization is all or nothing and never touches a record: an error leaves the
  database exactly as it was, and success keeps every row of every table.
\<close>

lemma initialize_schema_atomic:
  "case initialize_schema f d of
     (Err _, d') \<Rightarrow> d' = d
   | (Ok _, d') \<Rightarrow> rows_of d' = rows_of d \<and> db_user_version d' = 4"
  by (auto dest: initialize_schema_Err initialize_schema_Ok split: prod.splits result.splits)

text \<open>
  Initialization is idempotent: after it has succeeded once, running it again reports
  \<open>Ready\<close> and changes nothing.
\<close>

lemma initialize_schema_idempotent:
  assumes "initialize_schema f d = (Ok r, d')"
  shows "initialize_schema f d' = (Ok Ready, d')"
proof -
  from assms obtain d1 where d1: "create_schema f d = Ok d1" "validate_schema f d1 = Ok ()"
    and f: "\<not> f SPragma" "\<not> f SBegin" "\<not> f SCommit" and q: "db_quick_check d = ''ok''"
    and d': "d' = d1\<lparr>db_user_version := schema_version\<rparr>"
    by (rule initialize_schema_cases)
  have "create_schema f d' = Ok d'"
    unfolding d' by (rule create_schema_Ok(4) [OF d1(1)])
  moreover have "validate_schema f d' = Ok ()"
    using d1(2) by (simp add: d' validate_schema_version)
  moreover have "db_quick_check d' = ''ok''" "db_user_version d' = schema_version"
    using create_schema_Ok(3) [OF d1(1)] q by (simp_all add: d')
  ultimately show ?thesis
    using f by (simp add: initialize_schema_def schema_version_def)
qed

text \<open>The first initialization of a fresh database succeeds and is reported as applied.\<close>

lemmas schema_eval = fresh_db_def schema_batch_def init_skill_commands_def create_table_def
  has_table_def create_index_def rows_distinct_def

fun stmt_table :: "schema_stmt \<Rightarrow> (string \<times> table_def) list" where
  "stmt_table (CreateTable t td) = [(t, td)]"
| "stmt_table (CreateIndex _ _) = []"

fun stmt_index :: "schema_stmt \<Rightarrow> (string \<times> index_def) list" where
  "stmt_index (CreateTable _ _) = []"
| "stmt_index (CreateIndex i ix) = [(i, ix)]"

definition created_db :: db where
  "created_db = fresh_db\<lparr>
     db_tables := rev (concat (map stmt_table (schema_batch @ init_skill_commands))),
     db_indexes := rev (concat (map stmt_index (schema_batch @ init_skill_commands))),
     db_schema_version := 11\<rparr>"

lemma create_schema_fresh: "create_schema no_faults fresh_db = Ok created_db"
  by (simp add: created_db_def create_schema_def schema_eval)

lemma pending_index_predicate:
  "ends_with pending_predicate (sql_normalized (''CREATE UNIQUE INDEX skill_commands_pending_intent ON skill_commands(server_url, user_id, intent_digest) WHERE state = '' @
     [CHR 39] @ ''pending'' @ [CHR 39]))"
  by (simp add: ends_with_def pending_predicate_def sql_normalized_def rust_eval)

lemma validate_created: "validate_schema no_faults created_db = Ok ()"
proof -
  have "list_all (columns_ok created_db) expected_columns"
    by (simp add: created_db_def schema_batch_def init_skill_commands_def columns_ok_def expected_columns_def)
  moreover have "list_all (key_ok created_db) expected_keys"
    by (simp add: created_db_def schema_batch_def init_skill_commands_def key_ok_def expected_keys_def)
  moreover have "list_all (index_ok created_db) expected_indexes"
    using pending_index_predicate
    by (simp add: created_db_def schema_batch_def init_skill_commands_def index_ok_def expected_indexes_def)
  ultimately show ?thesis by (simp add: validate_schema_def validate_indexes_def)
qed

lemma initialize_fresh:
  "initialize_schema no_faults fresh_db = (Ok Applied, created_db\<lparr>db_user_version := 4\<rparr>)"
proof -
  have "db_user_version fresh_db = 0" "db_quick_check fresh_db = ''ok''"
    by (simp_all add: fresh_db_def)
  then show ?thesis
    by (simp add: initialize_schema_def create_schema_fresh validate_created schema_version_def)
qed

text \<open>
  A database written by a newer client, or with a negative version, is refused and left
  untouched.
\<close>

lemma newer_schema_untouched:
  assumes "db_user_version d > 4 \<or> db_user_version d < 0"
  shows "\<exists>e. initialize_schema f d = (Err e, d)"
  using assms by (auto simp: initialize_schema_def schema_version_def)

text \<open>
  Links are refused: when the database file, its journals or the home directory is a symbolic
  link, no connection is made.
\<close>

lemma validate_suffixes_Ok:
  "validate_suffixes H p ss = Ok u \<Longrightarrow> s \<in> set ss \<Longrightarrow> validate_file H (p @ s) = Ok ()"
  by (induction H p ss rule: validate_suffixes.induct) (auto split: result.splits)

lemma database_path_Ok:
  assumes "database_path H = Ok path" and "s \<in> {'''', ''-journal'', ''-wal'', ''-shm''}"
  shows "validate_file H (path @ s) = Ok ()"
proof -
  from assms(1) have v: "validate_suffixes H path ['''', ''-journal'', ''-wal'', ''-shm''] = Ok ()"
    by (auto simp: database_path_def Let_def split: result.splits)
  show ?thesis using assms(2) by (auto intro: validate_suffixes_Ok [OF v])
qed

text \<open>
  Whenever the client connects to its database for writing, the file it connects to was
  seen as either absent or a regular file with exactly one link, never a symbolic link or a
  hard-linked copy, and so were its journal files.
\<close>

lemma open_state_no_link:
  assumes "open_state H = Ok path"
    and "s \<in> {'''', ''-journal'', ''-wal'', ''-shm''}"
    and "h_lstat H (path @ s) = Ok m"
  shows "md_kind m = RegularFile \<and> md_nlink m = 1"
proof -
  from assms(1) have "database_path H = Ok path"
    by (auto simp: open_state_def open_metadata_def split: result.splits if_splits)
  from database_path_Ok [OF this assms(2)] assms(3) show ?thesis
    by (auto simp: validate_file_def split: if_splits)
qed

definition sample_host :: host where
  "sample_host = \<lparr>h_home = ''/h'', h_euid = 1,
     h_lstat = (\<lambda>p. if p = ''/h'' then Ok \<lparr>md_kind = DirectoryFile, md_nlink = 2, md_uid = 1,
                         md_mode = 448, md_dev = 1, md_ino = 1\<rparr>
                    else if p = ''/h/state.sqlite3'' then Ok \<lparr>md_kind = RegularFile, md_nlink = 1,
                         md_uid = 1, md_mode = 384, md_dev = 1, md_ino = 2\<rparr>
                    else Err IoNotFound),
     h_canonicalize = Ok, h_create_new = (\<lambda>_. Err IoAlreadyExists),
     h_prepare_dir = (\<lambda>_. Ok ()), h_connect = (\<lambda>_. True)\<rparr>"

lemma open_state_sample: "open_state sample_host = Ok ''/h/state.sqlite3''"
  by (simp add: open_state_def checked_home_def sample_host_def path_components_def rust_eval
      ensure_base_dirs_def path_join_def open_metadata_def database_path_def validate_file_def is_link_def)

lemma open_readonly_sample: "open_readonly sample_host = Ok ''/h/state.sqlite3''"
  by (simp add: open_readonly_def checked_home_def sample_host_def path_components_def rust_eval
      path_join_def database_path_def validate_file_def is_link_def)

lemma lstat_sample: "is_ok (h_lstat sample_host (state_db_path sample_host))"
  by (simp add: sample_host_def state_db_path_def path_join_def)

end
