(* ===== verification/Kv_Store.thy ===== *)
theory Kv_Store
  imports Local_Db
begin

text \<open>
  The key-value table of the metadata database: the SQL statements that the journals are
  built from, the plain \<open>set_kv\<close>/\<open>get_kv\<close>/\<open>delete_kv\<close> of \<open>src/local_state.rs\<close>, the
  compare-and-swap of an account default (\<open>src/local_state/account_defaults.rs\<close>) and of the
  credential refresh time (\<open>src/local_state/credential_refresh.rs\<close>). The locale
  \<open>kv_interface\<close> states what clients of the table rely on.
\<close>

section \<open>Statements\<close>

definition kv_exists :: "faults \<Rightarrow> db \<Rightarrow> string \<Rightarrow> (bool, failure) result" where
  "kv_exists f d k =
     (if f SExists \<or> \<not> has_table d ''kv'' then Err SqlErr
      else Ok (k \<in> fst ` set (db_kv d)))"

text \<open>\<open>SELECT COUNT(*) \<dots> WHERE key GLOB 'prefix*'\<close>.\<close>

definition kv_with_prefix :: "db \<Rightarrow> string \<Rightarrow> (string \<times> string) list" where
  "kv_with_prefix d p = filter (\<lambda>(k, v). starts_with p k) (db_kv d)"

definition kv_count :: "faults \<Rightarrow> db \<Rightarrow> string \<Rightarrow> (nat, failure) result" where
  "kv_count f d p =
     (if f SCount \<or> \<not> has_table d ''kv'' then Err SqlErr else Ok (length (kv_with_prefix d p)))"

text \<open>\<open>SELECT substr(value,1,n) \<dots> WHERE key=?\<close>, optional.\<close>

definition kv_select :: "faults \<Rightarrow> db \<Rightarrow> string \<Rightarrow> nat \<Rightarrow> (string option, failure) result" where
  "kv_select f d k n =
     (if f SSelect \<or> \<not> has_table d ''kv'' then Err SqlErr
      else Ok (map_option (sql_substr n) (map_of (db_kv d) k)))"

text \<open>\<open>INSERT OR IGNORE\<close>: whether a row was inserted.\<close>

definition kv_insert_ignore ::
  "faults \<Rightarrow> db \<Rightarrow> string \<Rightarrow> string \<Rightarrow> (bool \<times> db, failure) result" where
  "kv_insert_ignore f d k v =
     (if f SWrite \<or> \<not> has_table d ''kv'' then Err SqlErr
      else if k \<in> fst ` set (db_kv d) then Ok (False, d)
      else Ok (True, d\<lparr>db_kv := db_kv d @ [(k, v)]\<rparr>))"

definition kv_update :: "faults \<Rightarrow> db \<Rightarrow> string \<Rightarrow> string \<Rightarrow> (db, failure) result" where
  "kv_update f d k v =
     (if f SWrite \<or> \<not> has_table d ''kv'' then Err SqlErr
      else Ok (d\<lparr>db_kv := row_update k v (db_kv d)\<rparr>))"

section \<open>Plain access\<close>

definition kv_upsert :: "string \<Rightarrow> string \<Rightarrow> db \<Rightarrow> db" where
  "kv_upsert k v d =
     (if k \<in> fst ` set (db_kv d) then d\<lparr>db_kv := row_update k v (db_kv d)\<rparr>
      else d\<lparr>db_kv := db_kv d @ [(k, v)]\<rparr>)"

definition set_kv :: "faults \<Rightarrow> string \<Rightarrow> string \<Rightarrow> db \<Rightarrow> (unit, failure) result \<times> db" where
  "set_kv f k v d =
     (if f SWrite \<or> \<not> has_table d ''kv'' then (Err SqlErr, d) else (Ok (), kv_upsert k v d))"

definition get_kv :: "faults \<Rightarrow> string \<Rightarrow> db \<Rightarrow> (string option, failure) result" where
  "get_kv f k d =
     (if f SSelect \<or> \<not> has_table d ''kv'' then Err SqlErr else Ok (map_of (db_kv d) k))"

definition delete_kv :: "faults \<Rightarrow> string \<Rightarrow> db \<Rightarrow> (unit, failure) result \<times> db" where
  "delete_kv f k d =
     (if f SWrite \<or> \<not> has_table d ''kv'' then (Err SqlErr, d)
      else (Ok (), d\<lparr>db_kv := row_delete k (db_kv d)\<rparr>))"

section \<open>Account defaults\<close>

definition read_default :: "host \<Rightarrow> faults \<Rightarrow> string \<Rightarrow> db \<Rightarrow> (string option, failure) result" where
  "read_default H f key d =
     (case h_lstat H (state_db_path H) of
        Err e \<Rightarrow> if e = IoNotFound then Ok None else Err (IoErr e)
      | Ok _ \<Rightarrow>
          (case open_readonly H of
             Err e \<Rightarrow> Err e
           | Ok _ \<Rightarrow> kv_select f d key 129))"

definition compare_default ::
  "faults \<Rightarrow> string \<Rightarrow> string option \<Rightarrow> string option \<Rightarrow> db \<Rightarrow> (bool, failure) result \<times> db" where
  "compare_default f key expected next_value d =
     (if f SBegin then (Err SqlErr, d)
      else case kv_select f d key 129 of
             Err e \<Rightarrow> (Err e, d)
           | Ok current \<Rightarrow>
               if current \<noteq> expected then (Ok False, d)
               else if f SWrite \<or> f SCommit then (Err SqlErr, d)
               else (Ok True,
                     case next_value of
                       Some v \<Rightarrow> kv_upsert key v d
                     | None \<Rightarrow> d\<lparr>db_kv := row_delete key (db_kv d)\<rparr>))"

section \<open>Credential refresh\<close>

text \<open>Decimal printing and \<open>str::parse::<u64>\<close>: an optional sign and at least one digit.\<close>

definition digit :: "nat \<Rightarrow> char" where
  "digit n = char_of (48 + n)"

fun decimal :: "nat \<Rightarrow> string" where
  "decimal n = (if n < 10 then [digit n] else decimal (n div 10) @ [digit (n mod 10)])"

declare decimal.simps [simp del]

definition digits_value :: "string \<Rightarrow> nat" where
  "digits_value s = foldl (\<lambda>acc c. 10 * acc + (byte c - 48)) 0 s"

definition parse_u64 :: "string \<Rightarrow> 64 word option" where
  "parse_u64 s =
     (let t = (if starts_with ''+'' s then drop 1 s else s) in
      if t = [] \<or> \<not> list_all is_ascii_digit t \<or> digits_value t \<ge> 2 ^ 64 then None
      else Some (of_nat (digits_value t)))"

text \<open>\<open>metadata.mode() & 0o022 == 0\<close>: neither group nor others may write.\<close>

definition not_group_writable :: "nat \<Rightarrow> bool" where
  "not_group_writable mode \<longleftrightarrow> \<not> odd (mode div 16) \<and> \<not> odd (mode div 2)"

definition database_identity :: "host \<Rightarrow> string \<Rightarrow> (string, failure) result" where
  "database_identity H path =
     (case h_lstat H path of
        Err e \<Rightarrow> Err (IoErr e)
      | Ok m \<Rightarrow>
          if md_kind m = RegularFile \<and> md_nlink m = 1 \<and> md_uid m = h_euid H \<and>
             not_group_writable (md_mode m)
          then Ok (decimal (md_dev m) @ '':'' @ decimal (md_ino m))
          else Err (Bail ''unsafe metadata file''))"

text \<open>\<open>open\<close>: the file system is looked at before (\<open>H\<close>) and after (\<open>H'\<close>) connecting.\<close>

definition refresh_open :: "host \<Rightarrow> host \<Rightarrow> (string, failure) result" where
  "refresh_open H H' =
     (case database_path H of
        Err e \<Rightarrow> Err e
      | Ok path \<Rightarrow>
          (case database_identity H path of
             Err e \<Rightarrow> Err e
           | Ok identity \<Rightarrow>
               if \<not> h_connect H path then Err SqlErr
               else (case database_identity H' path of
                       Err e \<Rightarrow> Err e
                     | Ok identity' \<Rightarrow>
                         if identity' = identity then Ok identity
                         else Err (Bail ''metadata changed''))))"

record refresh_record =
  rr_key :: string
  rr_value :: string
  rr_database_identity :: string
  rr_at :: "64 word"

definition refresh_read ::
  "host \<Rightarrow> host \<Rightarrow> faults \<Rightarrow> string \<Rightarrow> db \<Rightarrow> (refresh_record, failure) result" where
  "refresh_read H H' f key d =
     (case refresh_open H H' of
        Err e \<Rightarrow> Err e
      | Ok identity \<Rightarrow>
          (case kv_select f d key 129 of
             Err e \<Rightarrow> Err e
           | Ok None \<Rightarrow> Err SqlErr
           | Ok (Some v) \<Rightarrow>
               (case parse_u64 v of
                  None \<Rightarrow> Err (Bail ''invalid refresh metadata'')
                | Some at \<Rightarrow>
                    Ok \<lparr>rr_key = key, rr_value = v, rr_database_identity = identity, rr_at = at\<rparr>)))"

definition refresh_update ::
  "host \<Rightarrow> host \<Rightarrow> host \<Rightarrow> host \<Rightarrow> faults \<Rightarrow> refresh_record \<Rightarrow> 64 word \<Rightarrow> db \<Rightarrow>
     (unit, failure) result \<times> db" where
  "refresh_update H1 H2 H3 H4 f r next_at d =
     (case refresh_open H1 H2 of
        Err e \<Rightarrow> (Err e, d)
      | Ok identity \<Rightarrow>
          if identity \<noteq> rr_database_identity r then (Err (Bail ''metadata changed''), d)
          else if f SBegin \<or> f SWrite \<or> \<not> has_table d ''kv'' then (Err SqlErr, d)
          else if map_of (db_kv d) (rr_key r) \<noteq> Some (rr_value r)
          then (Err (Bail ''refresh metadata changed''), d)
          else if f SCommit then (Err SqlErr, d)
          else
            let d' = d\<lparr>db_kv := row_update (rr_key r) (decimal (unat next_at)) (db_kv d)\<rparr> in
            (case refresh_open H3 H4 of
               Err e \<Rightarrow> (Err e, d')
             | Ok identity' \<Rightarrow>
                 if identity' = rr_database_identity r then (Ok (), d')
                 else (Err (Bail ''metadata changed''), d')))"

section \<open>The table as an interface\<close>

text \<open>
  The laws a client of a key-value table uses: what a lookup gives after a write or a delete,
  and that both keep the invariant of the table.
\<close>

locale kv_interface =
  fixes invar :: "'d \<Rightarrow> bool"
    and look :: "'d \<Rightarrow> string \<Rightarrow> string option"
    and put :: "string \<Rightarrow> string \<Rightarrow> 'd \<Rightarrow> 'd"
    and del :: "string \<Rightarrow> 'd \<Rightarrow> 'd"
  assumes look_put: "invar d \<Longrightarrow> look (put k v d) = (look d)(k \<mapsto> v)"
    and look_del: "invar d \<Longrightarrow> look (del k d) = (look d)(k := None)"
    and invar_put: "invar d \<Longrightarrow> invar (put k v d)"
    and invar_del: "invar d \<Longrightarrow> invar (del k d)"
begin

text \<open>The last write to a key wins, and writes to different keys commute.\<close>

lemma put_put: "invar d \<Longrightarrow> look (put k w (put k v d)) = look (put k w d)"
  by (simp add: look_put invar_put)

lemma put_commute:
  "invar d \<Longrightarrow> k \<noteq> l \<Longrightarrow> look (put k v (put l w d)) = look (put l w (put k v d))"
  by (simp add: look_put invar_put fun_upd_twist)

text \<open>
  A compare-and-swap built from a lookup and a write: of two swaps that expect the same value
  and change it, only the first can succeed.
\<close>

definition swap :: "string \<Rightarrow> string option \<Rightarrow> string option \<Rightarrow> 'd \<Rightarrow> 'd option" where
  "swap k expected new d =
     (if look d k = expected
      then Some (case new of Some v \<Rightarrow> put k v d | None \<Rightarrow> del k d) else None)"

lemma swap_look:
  "invar d \<Longrightarrow> swap k e n d = Some d' \<Longrightarrow> look d' = (look d)(k := n)"
  by (auto simp: swap_def look_put look_del split: if_splits option.splits)

lemma swap_exclusive:
  "invar d \<Longrightarrow> swap k e n d = Some d' \<Longrightarrow> n \<noteq> e \<Longrightarrow> swap k e m d' = None"
  using swap_look [of d k e n d'] by (simp add: swap_def [of k e m])

end

definition kv_invar :: "db \<Rightarrow> bool" where
  "kv_invar d = distinct (map fst (db_kv d))"

definition kv_look :: "db \<Rightarrow> string \<Rightarrow> string option" where
  "kv_look d = map_of (db_kv d)"

definition kv_del :: "string \<Rightarrow> db \<Rightarrow> db" where
  "kv_del k d = d\<lparr>db_kv := row_delete k (db_kv d)\<rparr>"

lemma kv_look_upsert [simp]: "kv_look (kv_upsert k v d) = (kv_look d)(k \<mapsto> v)"
  by (simp add: kv_look_def kv_upsert_def map_of_row_update map_add_fresh)

lemma kv_look_del [simp]: "kv_look (kv_del k d) = (kv_look d)(k := None)"
  by (simp add: kv_look_def kv_del_def map_of_row_delete)

lemma kv_invar_upsert: "kv_invar d \<Longrightarrow> kv_invar (kv_upsert k v d)"
  by (auto simp: kv_invar_def kv_upsert_def)

lemma kv_invar_del: "kv_invar d \<Longrightarrow> kv_invar (kv_del k d)"
  by (simp add: kv_invar_def kv_del_def distinct_row_delete)

interpretation kvi: kv_interface kv_invar kv_look kv_upsert kv_del
  by unfold_locales (simp_all add: kv_invar_upsert kv_invar_del)

section \<open>Properties\<close>

lemma byte_digit: "n < 10 \<Longrightarrow> byte (digit n) = 48 + n"
  by (simp add: digit_def)

lemma digit_is_digit: "n < 10 \<Longrightarrow> is_ascii_digit (digit n)"
  by (simp add: is_ascii_digit_def byte_digit)

lemma decimal_digits: "decimal n \<noteq> [] \<and> list_all is_ascii_digit (decimal n)"
proof (induction n rule: decimal.induct)
  case (1 n)
  show ?case
  proof (cases "n < 10")
    case True
    then show ?thesis by (subst (1 2) decimal.simps) (simp add: digit_is_digit)
  next
    case False
    with "1.IH" show ?thesis by (subst (1 2) decimal.simps) (simp add: digit_is_digit)
  qed
qed

lemma digits_value_decimal: "digits_value (decimal n) = n"
proof (induction n rule: decimal.induct)
  case (1 n)
  show ?case
  proof (cases "n < 10")
    case True
    then show ?thesis by (subst decimal.simps) (simp add: digits_value_def byte_digit)
  next
    case False
    with "1.IH" have "digits_value (decimal (n div 10)) = n div 10" by simp
    with False show ?thesis
      by (subst decimal.simps) (simp add: digits_value_def byte_digit)
  qed
qed

text \<open>What \<open>to_string\<close> writes, \<open>parse::<u64>\<close> reads back, for every 64-bit value, in at most 20 digits.\<close>

lemma parse_decimal: "parse_u64 (decimal (unat (t :: 64 word))) = Some t"
proof -
  let ?s = "decimal (unat t)"
  have d: "?s \<noteq> []" "list_all is_ascii_digit ?s" using decimal_digits by blast+
  have "\<not> starts_with ''+'' ?s"
  proof
    assume "starts_with ''+'' ?s"
    then obtain u where "?s = CHR ''+'' # u" by (auto simp: starts_with_iff)
    with d show False by (simp add: is_ascii_digit_def)
  qed
  moreover have "unat t < 2 ^ 64" using unsigned_less [of t] by simp
  ultimately show ?thesis using d by (simp add: parse_u64_def digits_value_decimal)
qed

lemma length_decimal: "n < 10 ^ Suc k \<Longrightarrow> length (decimal n) \<le> Suc k"
proof (induction k arbitrary: n)
  case 0
  then show ?case by (subst decimal.simps) simp
next
  case (Suc k)
  show ?case
  proof (cases "n < 10")
    case False
    have "n div 10 < 10 ^ Suc k" using Suc.prems by (simp add: div_less_iff_less_mult)
    with Suc.IH False show ?thesis by (subst decimal.simps) simp
  qed (subst decimal.simps, simp)
qed

lemma decimal_u64_short: "length (decimal (unat (t :: 64 word))) \<le> 129"
proof -
  have "unat t < 2 ^ 64" using unsigned_less [of t] by simp
  then have "unat t < 10 ^ Suc 19" by simp
  then show ?thesis using length_decimal by fastforce
qed

text \<open>
  Publishing a default account is a compare-and-swap of the whole table: it succeeds only
  when the stored default is the reviewed one (\<open>None\<close> meaning no row), writes exactly the new
  value and no other key, and in every other case leaves the database as it was.
\<close>

lemma compare_default_swap:
  assumes "compare_default f key expected next_value d = (r, d')"
  shows "(r = Ok True \<longrightarrow>
            map_option (sql_substr 129) (kv_look d key) = expected \<and>
            kv_look d' = (kv_look d)(key := next_value))
    \<and> (r \<noteq> Ok True \<longrightarrow> d' = d)"
  using assms kv_look_del [of key d]
  by (auto simp: compare_default_def kv_select_def kv_look_def [symmetric] kv_del_def
      split: if_splits option.splits)

lemma kv_invar_init: "init_schema f d = (r, d') \<Longrightarrow> kv_invar d' = kv_invar d"
  by (simp add: kv_invar_def init_schema_kv)

lemma created_db_kv [simp]: "has_table created_db ''kv''" "db_kv created_db = []"
  by (simp_all add: created_db_def fresh_db_def schema_batch_def has_table_def)

lemma has_table_db_kv_update [simp]: "has_table (d\<lparr>db_kv := rows\<rparr>) t = has_table d t"
  by (simp add: has_table_def)

definition default_db :: db where
  "default_db = created_db\<lparr>db_kv := [(''default'', ''a1'')]\<rparr>"

lemma default_db_kv: "has_table default_db ''kv''" "db_kv default_db = [(''default'', ''a1'')]"
  by (simp_all add: default_db_def created_db_def schema_batch_def has_table_def)

lemma refresh_update_Ok:
  assumes "refresh_update H1 H2 H3 H4 f r t d = (Ok (), d')"
  shows "refresh_open H1 H2 = Ok (rr_database_identity r)" and "refresh_open H3 H4 = Ok (rr_database_identity r)"
    and "kv_look d (rr_key r) = Some (rr_value r)" and "kv_look d' = (kv_look d)(rr_key r \<mapsto> decimal (unat t))"
    and "has_table d' ''kv''"
  using assms
  by (auto simp: refresh_update_def Let_def kv_look_def map_of_row_update_Some split: result.splits if_splits)

text \<open>
  The refresh time is only replaced where it was read: an update that reports success
  found the same database file before and after the write, found the very text that was read,
  and stored the new time under that key and nothing else.
\<close>

lemma refresh_update_exact:
  assumes "refresh_update H1 H2 H3 H4 f r t d = (Ok (), d')"
  shows "refresh_open H1 H2 = Ok (rr_database_identity r) \<and>
    refresh_open H3 H4 = Ok (rr_database_identity r) \<and>
    kv_look d (rr_key r) = Some (rr_value r) \<and>
    kv_look d' = (kv_look d)(rr_key r \<mapsto> decimal (unat t))"
  using refresh_update_Ok [OF assms] by blast

definition refresh_db :: db where
  "refresh_db = created_db\<lparr>db_kv := [(''refresh'', ''17'')]\<rparr>"

definition sample_refresh :: refresh_record where
  "sample_refresh = \<lparr>rr_key = ''refresh'', rr_value = ''17'', rr_database_identity = ''1:2'', rr_at = 17\<rparr>"

lemma refresh_open_sample: "refresh_open sample_host sample_host = Ok ''1:2''"
  by (simp add: refresh_open_def database_path_def checked_home_def sample_host_def
      path_components_def path_join_def validate_file_def is_link_def database_identity_def
      not_group_writable_def decimal.simps digit_def rust_eval)

text \<open>
  A refresh time that was stored is read back: after an update that reports success,
  reading the key through an unchanged database file gives a record with exactly the 64-bit
  time that was written, ready for the next update.
\<close>

lemma refresh_time_roundtrip:
  assumes "refresh_update H1 H2 H3 H4 f r t d = (Ok (), d')" and "refresh_open H5 H6 = Ok identity"
  shows "refresh_read H5 H6 no_faults (rr_key r) d' =
    Ok \<lparr>rr_key = rr_key r, rr_value = decimal (unat t), rr_database_identity = identity, rr_at = t\<rparr>"
proof -
  note u = refresh_update_Ok [OF assms(1)]
  have "kv_select no_faults d' (rr_key r) 129 = Ok (Some (decimal (unat t)))"
    using u(4,5) decimal_u64_short by (simp add: kv_select_def kv_look_def sql_substr_short)
  then show ?thesis using assms(2) by (simp add: refresh_read_def parse_decimal)
qed

text \<open>What \<open>set_kv\<close> stores, \<open>get_kv\<close> returns, and other keys are unaffected.\<close>

lemma get_set_kv:
  assumes "set_kv f k v d = (Ok (), d')"
  shows "get_kv no_faults k' d' = Ok (if k' = k then Some v else kv_look d k')"
proof -
  from assms have d': "d' = kv_upsert k v d" and "has_table d ''kv''"
    by (auto simp: set_kv_def split: if_splits)
  then have "has_table d' ''kv''" by (simp add: kv_upsert_def has_table_def)
  moreover have "kv_look d' = (kv_look d)(k \<mapsto> v)" by (simp add: d')
  ultimately show ?thesis by (simp add: get_kv_def kv_look_def [symmetric])
qed

lemma get_delete_kv:
  "delete_kv f k d = (Ok (), d') \<Longrightarrow> get_kv no_faults k d' = Ok None"
  by (auto simp: delete_kv_def get_kv_def has_table_def map_of_row_delete split: if_splits)

end
