(* ===== verification/Journal.thy ===== *)
theory Journal
  imports Kv_Store
begin

text \<open>
  Caller-key journals. Each mutating request of the client is recorded under a key of its own
  before the first POST and is updated by compare-and-swap afterwards. The four bound journals
  (session creation, deletion, stop, port forwarding) have the same three operations over the
  key-value table and differ in their prefix, bounds and record validator; the operations are
  written once here over a description of a journal, and the component theories instantiate
  it. Two locales carry the theory: \<open>caller_journal\<close> is what the rest of the client is
  promised, \<open>journal_validator\<close> what a component's validator has to guarantee for that.
\<close>

section \<open>A journal and its operations\<close>

record 'r journal =
  j_prefix :: string
  j_limit :: nat
  j_max :: nat
  j_label :: string
  j_codec :: "'r codec"
  j_request_id :: "'r \<Rightarrow> string"
  j_home :: "'r \<Rightarrow> string"
  j_absent :: "io_kind \<Rightarrow> bool"
  j_valid :: "'r \<Rightarrow> 'r option \<Rightarrow> (unit, failure) result"

definition journal_key :: "'r journal \<Rightarrow> 'r \<Rightarrow> string" where
  "journal_key J r = j_prefix J @ j_request_id J r"

text \<open>Reserve a new caller key; an existing key is never replaced.\<close>

definition journal_reserve ::
  "'r journal \<Rightarrow> faults \<Rightarrow> 'r \<Rightarrow> db \<Rightarrow> (bool, failure) result \<times> db" where
  "journal_reserve J f r d =
     (case j_valid J r None of
        Err e \<Rightarrow> (Err e, d)
      | Ok _ \<Rightarrow>
          if f SBegin then (Err SqlErr, d)
          else case kv_exists f d (journal_key J r) of
            Err e \<Rightarrow> (Err e, d)
          | Ok True \<Rightarrow> (Ok False, d)
          | Ok False \<Rightarrow>
              (case kv_count f d (j_prefix J) of
                 Err e \<Rightarrow> (Err e, d)
               | Ok n \<Rightarrow>
                   if n \<ge> j_limit J then (Err (Bail (j_label J @ '' limit exceeded'')), d)
                   else case to_json (j_codec J) r of
                     None \<Rightarrow> (Err JsonErr, d)
                   | Some raw \<Rightarrow>
                       if length raw > j_max J
                       then (Err (Bail (j_label J @ '' record too large'')), d)
                       else case kv_insert_ignore f d (journal_key J r) raw of
                         Err e \<Rightarrow> (Err e, d)
                       | Ok (inserted, d') \<Rightarrow>
                           if f SCommit then (Err SqlErr, d) else (Ok inserted, d')))"

text \<open>Compare-and-swap of a record, keeping its immutable request identity.\<close>

definition journal_update ::
  "'r journal \<Rightarrow> faults \<Rightarrow> 'r \<Rightarrow> 'r \<Rightarrow> db \<Rightarrow> (bool, failure) result \<times> db" where
  "journal_update J f original new d =
     (case j_valid J original None of
        Err e \<Rightarrow> (Err e, d)
      | Ok _ \<Rightarrow>
          (case j_valid J new (Some original) of
             Err e \<Rightarrow> (Err e, d)
           | Ok _ \<Rightarrow>
               if f SBegin then (Err SqlErr, d)
               else case kv_select f d (journal_key J original) (j_max J + 1) of
                 Err e \<Rightarrow> (Err e, d)
               | Ok None \<Rightarrow> (Ok False, d)
               | Ok (Some raw) \<Rightarrow>
                   (case from_json (j_codec J) raw of
                      None \<Rightarrow> (Err JsonErr, d)
                    | Some current \<Rightarrow>
                        if current \<noteq> original then (Ok False, d)
                        else case to_json (j_codec J) new of
                          None \<Rightarrow> (Err JsonErr, d)
                        | Some encoded \<Rightarrow>
                            if length encoded > j_max J
                            then (Err (Bail (j_label J @ '' record too large'')), d)
                            else case kv_update f d (journal_key J original) encoded of
                              Err e \<Rightarrow> (Err e, d)
                            | Ok d' \<Rightarrow> if f SCommit then (Err SqlErr, d) else (Ok True, d'))))"

definition validate_record :: "'r journal \<Rightarrow> host \<Rightarrow> string \<Rightarrow> 'r \<Rightarrow> (unit, failure) result" where
  "validate_record J H key r =
     (if key \<noteq> journal_key J r \<or> j_home J r \<noteq> h_home H
      then Err (Bail (''invalid '' @ j_label J @ '' record''))
      else j_valid J r None)"

fun read_rows ::
  "'r journal \<Rightarrow> host \<Rightarrow> faults \<Rightarrow> (string \<times> string) list \<Rightarrow> 'r list \<Rightarrow> ('r list, failure) result"
where
  "read_rows J H f [] records = Ok records"
| "read_rows J H f ((key, raw) # rows) records =
     (if f SRow then Err SqlErr
      else if length raw > j_max J \<or> length records \<ge> j_limit J
      then Err (Bail (j_label J @ '' limit exceeded''))
      else case from_json (j_codec J) raw of
        None \<Rightarrow> Err JsonErr
      | Some r \<Rightarrow>
          (case validate_record J H key r of
             Err e \<Rightarrow> Err e
           | Ok _ \<Rightarrow> read_rows J H f rows (records @ [r])))"

text \<open>\<open>SELECT key,substr(value,1,max+1) \<dots> WHERE key GLOB 'prefix*' ORDER BY key LIMIT limit+1\<close>.\<close>

definition journal_rows :: "'r journal \<Rightarrow> db \<Rightarrow> (string \<times> string) list" where
  "journal_rows J d =
     map (\<lambda>(k, v). (k, sql_substr (j_max J + 1) v))
       (take (j_limit J + 1) (sort_key fst (kv_with_prefix d (j_prefix J))))"

text \<open>Read the records without creating the database.\<close>

definition journal_records :: "'r journal \<Rightarrow> host \<Rightarrow> faults \<Rightarrow> db \<Rightarrow> ('r list, failure) result" where
  "journal_records J H f d =
     (case h_lstat H (state_db_path H) of
        Err e \<Rightarrow> if j_absent J e then Ok [] else Err (IoErr e)
      | Ok _ \<Rightarrow>
          (case open_readonly H of
             Err e \<Rightarrow> Err e
           | Ok _ \<Rightarrow>
               if f SExists then Err SqlErr
               else if \<not> has_table d ''kv'' then Ok []
               else if f SSelect then Err SqlErr
               else read_rows J H f (journal_rows J d) []))"

section \<open>Sequences of operations\<close>

datatype ('f, 'r) journal_op = Reserve 'f 'r | Update 'f 'r 'r

fun run_op ::
  "('f \<Rightarrow> 'r \<Rightarrow> 'd \<Rightarrow> (bool, 'e) result \<times> 'd) \<Rightarrow> ('f \<Rightarrow> 'r \<Rightarrow> 'r \<Rightarrow> 'd \<Rightarrow> (bool, 'e) result \<times> 'd) \<Rightarrow>
     ('f, 'r) journal_op \<Rightarrow> 'd \<Rightarrow> (bool, 'e) result \<times> 'd"
where
  "run_op reserve update (Reserve f r) d = reserve f r d"
| "run_op reserve update (Update f r r') d = update f r r' d"

text \<open>The results of a sequence of operations, in order, and the final state.\<close>

fun run_ops ::
  "('f \<Rightarrow> 'r \<Rightarrow> 'd \<Rightarrow> (bool, 'e) result \<times> 'd) \<Rightarrow> ('f \<Rightarrow> 'r \<Rightarrow> 'r \<Rightarrow> 'd \<Rightarrow> (bool, 'e) result \<times> 'd) \<Rightarrow>
     ('f, 'r) journal_op list \<Rightarrow> 'd \<Rightarrow> (bool, 'e) result list \<times> 'd"
where
  "run_ops reserve update [] d = ([], d)"
| "run_ops reserve update (x # xs) d =
     (case run_op reserve update x d of
        (r, d') \<Rightarrow> (case run_ops reserve update xs d' of (rs, d'') \<Rightarrow> (r # rs, d'')))"

text \<open>How often a key was reserved with success in a sequence and its results.\<close>

fun reservations :: "('r \<Rightarrow> string) \<Rightarrow> string \<Rightarrow> ('f, 'r) journal_op list \<Rightarrow> (bool, 'e) result list \<Rightarrow> nat"
where
  "reservations key k (Reserve f r # xs) (x # rs) =
     (if key r = k \<and> x = Ok True then 1 else 0) + reservations key k xs rs"
| "reservations key k (Update f r r' # xs) (x # rs) = reservations key k xs rs"
| "reservations key k _ _ = 0"

text \<open>Counting by key or by request id is the same: keys only add the prefix.\<close>

lemma reservations_prefix:
  "reservations (\<lambda>r. p @ key r) (p @ k) ops results = reservations key k ops results"
proof (induction ops arbitrary: results)
  case (Cons x xs)
  then show ?case by (cases x; cases results) simp_all
qed simp

section \<open>What a journal promises\<close>

text \<open>
  \<open>has\<close> says that a key is taken, \<open>look\<close> gives the record stored under it, \<open>ident\<close> is the part
  of a record that identifies the request. A reservation takes a free key; an update replaces
  exactly the record it was given, and only by one with the same identity; everything else
  changes nothing.
\<close>

locale caller_journal =
  fixes invar :: "'d \<Rightarrow> bool"
    and has :: "'d \<Rightarrow> string \<Rightarrow> bool"
    and look :: "'d \<Rightarrow> string \<Rightarrow> 'r option"
    and key :: "'r \<Rightarrow> string"
    and ident :: "'r \<Rightarrow> 'i"
    and reserve :: "'f \<Rightarrow> 'r \<Rightarrow> 'd \<Rightarrow> (bool, 'e) result \<times> 'd"
    and update :: "'f \<Rightarrow> 'r \<Rightarrow> 'r \<Rightarrow> 'd \<Rightarrow> (bool, 'e) result \<times> 'd"
  assumes look_has: "look d k = Some r \<Longrightarrow> has d k"
    and reserve_True: "invar d \<Longrightarrow> reserve f r d = (Ok True, d') \<Longrightarrow>
      \<not> has d (key r) \<and> has d' = (has d)(key r := True) \<and> look d' = (look d)(key r \<mapsto> r)"
    and reserve_else: "reserve f r d = (x, d') \<Longrightarrow> x \<noteq> Ok True \<Longrightarrow> d' = d"
    and update_True: "invar d \<Longrightarrow> update f r r' d = (Ok True, d') \<Longrightarrow>
      look d (key r) = Some r \<and> ident r' = ident r \<and> has d' = has d \<and>
      look d' = (look d)(key r \<mapsto> r')"
    and update_else: "update f r r' d = (x, d') \<Longrightarrow> x \<noteq> Ok True \<Longrightarrow> d' = d"
    and invar_reserve: "invar d \<Longrightarrow> invar (snd (reserve f r d))"
    and invar_update: "invar d \<Longrightarrow> invar (snd (update f r r' d))"
begin

lemma run_op_invar: "invar d \<Longrightarrow> invar (snd (run_op reserve update x d))"
  by (cases x) (simp_all add: invar_reserve invar_update)

text \<open>One operation keeps every taken key taken and the identity recorded under it.\<close>

lemma run_op_keeps:
  assumes "invar d" and "run_op reserve update x d = (y, d')"
  shows "(has d k \<longrightarrow> has d' k) \<and>
    (\<forall>r. look d k = Some r \<longrightarrow> (\<exists>r'. look d' k = Some r' \<and> ident r' = ident r))"
proof (cases "y = Ok True")
  case False
  with assms(2) have "d' = d" by (cases x) (auto dest: reserve_else update_else)
  then show ?thesis by simp
next
  case True
  show ?thesis
  proof (cases x)
    case (Reserve f r)
    with True assms reserve_True [of d f r d'] have
      "\<not> has d (key r)" "has d' = (has d)(key r := True)" "look d' = (look d)(key r \<mapsto> r)" by auto
    with look_has show ?thesis by fastforce
  next
    case (Update f r r')
    with True assms update_True [of d f r r' d'] have
      "look d (key r) = Some r" "ident r' = ident r" "has d' = has d"
      "look d' = (look d)(key r \<mapsto> r')" by auto
    then show ?thesis by simp
  qed
qed

lemma run_ops_invar: "invar d \<Longrightarrow> run_ops reserve update xs d = (rs, d') \<Longrightarrow> invar d'"
proof (induction xs arbitrary: d rs)
  case (Cons x xs)
  then show ?case using run_op_invar [of d x] by (auto split: prod.splits)
qed simp

lemma run_ops_keeps:
  assumes "invar d" and "run_ops reserve update xs d = (rs, d')"
  shows "(has d k \<longrightarrow> has d' k) \<and>
    (\<forall>r. look d k = Some r \<longrightarrow> (\<exists>r'. look d' k = Some r' \<and> ident r' = ident r))"
  using assms
proof (induction xs arbitrary: d rs)
  case (Cons x xs)
  obtain y d1 where x: "run_op reserve update x d = (y, d1)" by fastforce
  with Cons.prems(2) obtain ys where ys: "run_ops reserve update xs d1 = (ys, d')"
    by (auto split: prod.splits)
  have "invar d1" using run_op_invar [OF Cons.prems(1), of x] x by simp
  with run_op_keeps [OF Cons.prems(1) x, of k] Cons.IH [OF _ ys] show ?case by fastforce
qed simp

text \<open>A taken key is not reserved again; so no key is reserved twice in any sequence.\<close>

lemma reservations_taken:
  assumes "invar d" and "has d k" and "run_ops reserve update xs d = (rs, d')"
  shows "reservations key k xs rs = 0"
  using assms
proof (induction xs arbitrary: d rs)
  case (Cons x xs)
  obtain y d1 where x: "run_op reserve update x d = (y, d1)" by fastforce
  with Cons.prems(3) obtain ys where ys: "run_ops reserve update xs d1 = (ys, d')"
    and rs: "rs = y # ys" by (auto split: prod.splits)
  have i: "invar d1" using run_op_invar [OF Cons.prems(1), of x] x by simp
  have h: "has d1 k" using run_op_keeps [OF Cons.prems(1) x, of k] Cons.prems(2) by blast
  have "reservations key k xs ys = 0" by (rule Cons.IH [OF i h ys])
  then show ?case
    using x reserve_True [OF Cons.prems(1)] Cons.prems(2) by (cases x) (auto simp: rs)
qed simp

lemma reservations_once:
  assumes "invar d" and "run_ops reserve update xs d = (rs, d')"
  shows "reservations key k xs rs \<le> 1"
  using assms
proof (induction xs arbitrary: d rs)
  case (Cons x xs)
  obtain y d1 where x: "run_op reserve update x d = (y, d1)" by fastforce
  with Cons.prems(2) obtain ys where ys: "run_ops reserve update xs d1 = (ys, d')"
    and rs: "rs = y # ys" by (auto split: prod.splits)
  have i: "invar d1" using run_op_invar [OF Cons.prems(1), of x] x by simp
  note IH = Cons.IH [OF i ys]
  show ?case
  proof (cases x)
    case (Update f r r')
    with IH rs show ?thesis by simp
  next
    case (Reserve f r)
    show ?thesis
    proof (cases "key r = k \<and> y = Ok True")
      case True
      with Reserve x Cons.prems(1) have "has d1 k" using reserve_True [of d f r d1] by auto
      from reservations_taken [OF i this ys] Reserve rs show ?thesis by simp
    next
      case False
      with IH Reserve rs show ?thesis by auto
    qed
  qed
qed simp

text \<open>
  Of two updates that start from the same record and change it, the second one fails: no
  observation is overwritten by a writer that has not seen it.
\<close>

lemma update_exclusive:
  assumes "invar d" and "update f r r1 d = (Ok True, d1)" and "r1 \<noteq> r"
  shows "fst (update g r r2 d1) \<noteq> Ok True"
proof
  assume "fst (update g r r2 d1) = Ok True"
  then obtain d2 where u: "update g r r2 d1 = (Ok True, d2)" by (metis prod.collapse)
  have "invar d1" using invar_update [OF assms(1), of f r r1] assms(2) by simp
  from update_True [OF this u] update_True [OF assms(1,2)] assms(3) show False by simp
qed

end

section \<open>What a validator guarantees\<close>

text \<open>
  A component's validator, given the record being replaced, accepts only records that are
  valid on their own and have the same identity; the identity determines the request key and
  the home directory.
\<close>

locale journal_validator =
  fixes J :: "'r journal"
    and ident :: "'r \<Rightarrow> 'i"
  assumes valid_next: "j_valid J r (Some old) = Ok () \<Longrightarrow> j_valid J r None = Ok () \<and> ident r = ident old"
    and ident_key: "ident r = ident old \<Longrightarrow> j_request_id J r = j_request_id J old \<and> j_home J r = j_home J old"

text \<open>The record stored under a key, as a journal reads it.\<close>

definition journal_look :: "'r journal \<Rightarrow> db \<Rightarrow> string \<Rightarrow> 'r option" where
  "journal_look J d k =
     (case kv_look d k of
        None \<Rightarrow> None
      | Some v \<Rightarrow> from_json (j_codec J) (sql_substr (j_max J + 1) v))"

definition journal_has :: "db \<Rightarrow> string \<Rightarrow> bool" where
  "journal_has d k \<longleftrightarrow> kv_look d k \<noteq> None"

definition journal_invar :: "'r journal \<Rightarrow> db \<Rightarrow> bool" where
  "journal_invar J d \<longleftrightarrow> serde_lawful (j_codec J) \<and> kv_invar d"

text \<open>The only change an operation can make to the database.\<close>

lemma journal_reserve_cases:
  assumes "journal_reserve J f r d = (x, d')"
  shows "(x \<noteq> Ok True \<and> d' = d) \<or>
    (x = Ok True \<and> j_valid J r None = Ok () \<and> journal_key J r \<notin> fst ` set (db_kv d) \<and>
     length (kv_with_prefix d (j_prefix J)) < j_limit J \<and>
     (\<exists>raw. to_json (j_codec J) r = Some raw \<and> length raw \<le> j_max J \<and>
        d' = d\<lparr>db_kv := db_kv d @ [(journal_key J r, raw)]\<rparr>))"
  using assms
  by (auto simp: journal_reserve_def kv_exists_def kv_count_def kv_insert_ignore_def
      split: result.splits if_splits bool.splits option.splits)

lemma journal_update_cases:
  assumes "journal_update J f r r' d = (x, d')"
  shows "(x \<noteq> Ok True \<and> d' = d) \<or>
    (x = Ok True \<and> j_valid J r None = Ok () \<and> j_valid J r' (Some r) = Ok () \<and>
     journal_look J d (journal_key J r) = Some r \<and>
     (\<exists>raw. to_json (j_codec J) r' = Some raw \<and> length raw \<le> j_max J \<and>
        d' = d\<lparr>db_kv := row_update (journal_key J r) raw (db_kv d)\<rparr>))"
  using assms
  by (auto simp: journal_update_def kv_select_def kv_update_def journal_look_def kv_look_def
      split: result.splits if_splits option.splits)

lemma journal_look_written:
  assumes "serde_lawful (j_codec J)" and "to_json (j_codec J) r = Some raw" and "length raw \<le> j_max J"
    and "kv_look d' = (kv_look d)(k \<mapsto> raw)"
  shows "journal_look J d' = (journal_look J d)(k \<mapsto> r)"
  using assms serde_lawfulD [OF assms(1,2)]
  by (auto simp: journal_look_def fun_eq_iff sql_substr_short)

lemma kv_look_append:
  "k \<notin> fst ` set (db_kv d) \<Longrightarrow> kv_look (d\<lparr>db_kv := db_kv d @ [(k, v)]\<rparr>) = (kv_look d)(k \<mapsto> v)"
  by (simp add: kv_look_def map_add_fresh)

lemma journal_look_has: "journal_look J d k = Some r \<Longrightarrow> journal_has d k"
  by (auto simp: journal_look_def journal_has_def split: option.splits)

context journal_validator
begin

lemma reserve_True:
  assumes "journal_invar J d" and "journal_reserve J f r d = (Ok True, d')"
  shows "\<not> journal_has d (journal_key J r)"
    "journal_has d' = (journal_has d)(journal_key J r := True)"
    "journal_look J d' = (journal_look J d)(journal_key J r \<mapsto> r)"
    "journal_invar J d'"
proof -
  let ?k = "journal_key J r"
  from journal_reserve_cases [OF assms(2)] obtain raw where
    fresh: "?k \<notin> fst ` set (db_kv d)" and raw: "to_json (j_codec J) r = Some raw" "length raw \<le> j_max J"
    and d': "d' = d\<lparr>db_kv := db_kv d @ [(?k, raw)]\<rparr>" by auto
  have look: "kv_look d' = (kv_look d)(?k \<mapsto> raw)"
    unfolding d' by (rule kv_look_append [OF fresh])
  show "\<not> journal_has d ?k"
    using fresh by (simp add: journal_has_def kv_look_def map_of_eq_None_iff)
  show "journal_has d' = (journal_has d)(?k := True)"
    by (auto simp: journal_has_def look fun_eq_iff)
  show "journal_look J d' = (journal_look J d)(?k \<mapsto> r)"
    using assms(1) raw look by (intro journal_look_written) (auto simp: journal_invar_def)
  show "journal_invar J d'"
    using assms(1) fresh by (simp add: journal_invar_def d' kv_invar_def)
qed

lemma update_True:
  assumes "journal_invar J d" and "journal_update J f r r' d = (Ok True, d')"
  shows "journal_look J d (journal_key J r) = Some r" "ident r' = ident r"
    "journal_has d' = journal_has d"
    "journal_look J d' = (journal_look J d)(journal_key J r \<mapsto> r')"
    "journal_invar J d'"
proof -
  let ?k = "journal_key J r"
  from journal_update_cases [OF assms(2)] obtain raw where
    valid: "j_valid J r' (Some r) = Ok ()" and look: "journal_look J d ?k = Some r"
    and raw: "to_json (j_codec J) r' = Some raw" "length raw \<le> j_max J"
    and d': "d' = d\<lparr>db_kv := row_update ?k raw (db_kv d)\<rparr>" by auto
  show "journal_look J d ?k = Some r" by (rule look)
  show "ident r' = ident r" using valid_next [OF valid] by blast
  obtain w where w: "kv_look d ?k = Some w"
    using look by (auto simp: journal_look_def split: option.splits)
  have kv: "kv_look d' = (kv_look d)(?k \<mapsto> raw)"
    using w by (simp add: d' kv_look_def map_of_row_update_Some)
  show "journal_has d' = journal_has d"
    using w by (auto simp: journal_has_def kv fun_eq_iff)
  show "journal_look J d' = (journal_look J d)(?k \<mapsto> r')"
    using assms(1) raw kv by (intro journal_look_written) (auto simp: journal_invar_def)
  show "journal_invar J d'"
    using assms(1) by (simp add: journal_invar_def d' kv_invar_def)
qed

end

text \<open>So a validator with these guarantees makes the three operations a caller journal.\<close>

sublocale journal_validator \<subseteq> cj: caller_journal "journal_invar J" journal_has "journal_look J"
  "journal_key J" ident "journal_reserve J" "journal_update J"
proof unfold_locales
  fix d k r
  show "journal_look J d k = Some r \<Longrightarrow> journal_has d k" by (rule journal_look_has)
next
  fix d f r d'
  assume "journal_invar J d" and "journal_reserve J f r d = (Ok True, d')"
  from reserve_True [OF this] show "\<not> journal_has d (journal_key J r) \<and>
    journal_has d' = (journal_has d)(journal_key J r := True) \<and>
    journal_look J d' = (journal_look J d)(journal_key J r \<mapsto> r)" by blast
next
  fix f r d x d'
  assume x: "journal_reserve J f r d = (x, d')" and "x \<noteq> Ok True"
  with journal_reserve_cases [OF x] show "d' = d" by simp
next
  fix d f r r' d'
  assume "journal_invar J d" and "journal_update J f r r' d = (Ok True, d')"
  from update_True [OF this] show "journal_look J d (journal_key J r) = Some r \<and>
    ident r' = ident r \<and> journal_has d' = journal_has d \<and>
    journal_look J d' = (journal_look J d)(journal_key J r \<mapsto> r')" by blast
next
  fix f r r' d x d'
  assume x: "journal_update J f r r' d = (x, d')" and "x \<noteq> Ok True"
  with journal_update_cases [OF x] show "d' = d" by simp
next
  fix d f r
  assume i: "journal_invar J d"
  show "journal_invar J (snd (journal_reserve J f r d))"
  proof (cases "journal_reserve J f r d")
    case (Pair x d')
    then show ?thesis
      using journal_reserve_cases [OF Pair] reserve_True(4) [OF i, of f r d'] i by auto
  qed
next
  fix d f r r'
  assume i: "journal_invar J d"
  show "journal_invar J (snd (journal_update J f r r' d))"
  proof (cases "journal_update J f r r' d")
    case (Pair x d')
    then show ?thesis
      using journal_update_cases [OF Pair] update_True(5) [OF i, of f r r' d'] i by auto
  qed
qed

section \<open>Requests by their id\<close>

text \<open>What a client sees of a journal: the record of a request id.\<close>

definition record_look :: "'r journal \<Rightarrow> db \<Rightarrow> string \<Rightarrow> 'r option" where
  "record_look J d request_id = journal_look J d (j_prefix J @ request_id)"

lemma record_look_init: "init_schema f d = (r, d') \<Longrightarrow> record_look J d' = record_look J d"
  by (simp add: record_look_def journal_look_def kv_look_def init_schema_kv fun_eq_iff)

context journal_validator
begin

lemma reserve_look:
  assumes "serde_lawful (j_codec J)" and "kv_invar d" and "journal_reserve J f r d = (Ok True, d')"
  shows "record_look J d (j_request_id J r) = None" and "kv_invar d'"
    and "record_look J d' = (record_look J d)(j_request_id J r \<mapsto> r)"
proof -
  have i: "journal_invar J d" using assms(1,2) by (simp add: journal_invar_def)
  note r = reserve_True [OF i assms(3)]
  show "kv_invar d'" using r(4) by (simp add: journal_invar_def)
  show "record_look J d (j_request_id J r) = None"
    using r(1) journal_look_has [of J d]
    by (cases "record_look J d (j_request_id J r)") (auto simp: record_look_def journal_key_def)
  show "record_look J d' = (record_look J d)(j_request_id J r \<mapsto> r)"
    using r(3) by (auto simp: record_look_def journal_key_def fun_eq_iff)
qed

lemma update_look:
  assumes "serde_lawful (j_codec J)" and "kv_invar d" and "journal_update J f r r' d = (Ok True, d')"
  shows "record_look J d (j_request_id J r) = Some r" and "ident r' = ident r" and "kv_invar d'"
    and "record_look J d' = (record_look J d)(j_request_id J r \<mapsto> r')"
proof -
  have i: "journal_invar J d" using assms(1,2) by (simp add: journal_invar_def)
  note r = update_True [OF i assms(3)]
  show "record_look J d (j_request_id J r) = Some r" "ident r' = ident r"
    using r(1,2) by (simp_all add: record_look_def journal_key_def)
  show "kv_invar d'" using r(5) by (simp add: journal_invar_def)
  show "record_look J d' = (record_look J d)(j_request_id J r \<mapsto> r')"
    using r(4) by (auto simp: record_look_def journal_key_def fun_eq_iff)
qed

text \<open>Any operations of other clients keep a recorded request and its identity.\<close>

lemma clients_keep:
  assumes "serde_lawful (j_codec J)" and "kv_invar d" and "record_look J d i = Some r"
  shows "kv_invar (snd (run_ops (journal_reserve J) (journal_update J) ops d))"
    and "\<exists>r'. record_look J (snd (run_ops (journal_reserve J) (journal_update J) ops d)) i = Some r' \<and> ident r' = ident r"
proof -
  let ?run = "run_ops (journal_reserve J) (journal_update J) ops d"
  have j: "journal_invar J d" using assms(1,2) by (simp add: journal_invar_def)
  have run: "?run = (fst ?run, snd ?run)" by simp
  show "kv_invar (snd ?run)" using cj.run_ops_invar [OF j run] by (simp add: journal_invar_def)
  show "\<exists>r'. record_look J (snd ?run) i = Some r' \<and> ident r' = ident r"
    using cj.run_ops_keeps [OF j run, of "j_prefix J @ i"] assms(3) by (simp add: record_look_def)
qed

lemma update_keeps:
  assumes "serde_lawful (j_codec J)" and "kv_invar d" and "record_look J d i = Some r"
    and "journal_update J f s s' d = (x, d')"
  shows "\<exists>r'. record_look J d' i = Some r' \<and> ident r' = ident r"
  using clients_keep(2) [OF assms(1-3), of "[Update f s s']"] assms(4) by simp

end

section \<open>A journal can always be read back\<close>

text \<open>
  A journal is well formed for a home directory when every row under its prefix decodes to a
  valid record of that home stored under its own key, and the bounds hold.
\<close>

definition row_ok :: "'r journal \<Rightarrow> host \<Rightarrow> string \<times> string \<Rightarrow> bool" where
  "row_ok J H = (\<lambda>(k, v).
     length v \<le> j_max J \<and>
     (case from_json (j_codec J) v of None \<Rightarrow> False | Some r \<Rightarrow> is_ok (validate_record J H k r)))"

definition journal_wf :: "'r journal \<Rightarrow> host \<Rightarrow> db \<Rightarrow> bool" where
  "journal_wf J H d \<longleftrightarrow>
     kv_invar d \<and> list_all (row_ok J H) (kv_with_prefix d (j_prefix J)) \<and>
     length (kv_with_prefix d (j_prefix J)) \<le> j_limit J"

lemma row_ok_Some:
  "row_ok J H (k, v) \<longleftrightarrow>
     (\<exists>r. from_json (j_codec J) v = Some r \<and> length v \<le> j_max J \<and> k = journal_key J r \<and>
          j_home J r = h_home H \<and> j_valid J r None = Ok ())"
  by (auto simp: row_ok_def validate_record_def is_ok_iff split: option.splits)

lemma read_rows_Ok:
  assumes "list_all (row_ok J H) rows" and "length records + length rows \<le> j_limit J"
  shows "read_rows J H no_faults rows records =
    Ok (records @ map (\<lambda>(k, v). the (from_json (j_codec J) v)) rows)"
  using assms
proof (induction rows arbitrary: records)
  case (Cons row rows)
  obtain k v where row: "row = (k, v)" by fastforce
  with Cons.prems obtain r where r: "from_json (j_codec J) v = Some r" "length v \<le> j_max J"
    "validate_record J H k r = Ok ()"
    by (auto simp: row_ok_def is_ok_iff split: option.splits)
  from Cons.prems Cons.IH [of "records @ [r]"] r show ?case by (simp add: row not_less)
qed simp

lemma kv_with_prefix_in:
  "(k, v) \<in> set (kv_with_prefix d p) \<Longrightarrow> kv_invar d \<Longrightarrow> kv_look d k = Some v \<and> starts_with p k"
  by (auto simp: kv_with_prefix_def kv_invar_def kv_look_def)

lemma kv_look_in_prefix:
  "kv_look d k = Some v \<Longrightarrow> starts_with p k \<Longrightarrow> (k, v) \<in> set (kv_with_prefix d p)"
  by (auto simp: kv_with_prefix_def kv_look_def dest: map_of_SomeD)

lemma journal_rows_wf:
  assumes "journal_wf J H d"
  shows "journal_rows J d = sort_key fst (kv_with_prefix d (j_prefix J))"
proof -
  let ?rows = "sort_key fst (kv_with_prefix d (j_prefix J))"
  have short: "length v \<le> j_max J" if "(k, v) \<in> set ?rows" for k v
    using assms that by (auto simp: journal_wf_def list_all_iff row_ok_def)
  have "map (\<lambda>(k, v). (k, sql_substr (j_max J + 1) v)) ?rows = ?rows"
    using short by (intro map_idI) (auto intro!: sql_substr_short le_SucI)
  moreover have "length ?rows \<le> j_limit J" using assms by (simp add: journal_wf_def)
  ultimately show ?thesis by (simp add: journal_rows_def)
qed

text \<open>A readable host: the database file is there and opens.\<close>

definition readable :: "host \<Rightarrow> db \<Rightarrow> bool" where
  "readable H d \<longleftrightarrow> is_ok (h_lstat H (state_db_path H)) \<and> is_ok (open_readonly H) \<and> has_table d ''kv''"

lemma journal_records_wf:
  assumes wf: "journal_wf J H d" and "readable H d"
  shows "\<exists>rs. journal_records J H no_faults d = Ok rs \<and>
    set rs = {r. \<exists>k. starts_with (j_prefix J) k \<and> journal_look J d k = Some r}"
proof -
  let ?rows = "kv_with_prefix d (j_prefix J)"
  let ?dec = "\<lambda>(k, v). the (from_json (j_codec J) v)"
  have "list_all (row_ok J H) (sort_key fst ?rows)" "length ?rows \<le> j_limit J"
    using wf by (auto simp: journal_wf_def list_all_iff)
  then have "read_rows J H no_faults (journal_rows J d) [] = Ok (map ?dec (sort_key fst ?rows))"
    using read_rows_Ok [of J H "sort_key fst ?rows" "[]"] by (simp add: journal_rows_wf [OF wf])
  with assms(2) have "journal_records J H no_faults d = Ok (map ?dec (sort_key fst ?rows))"
    by (auto simp: journal_records_def readable_def is_ok_iff)
  moreover have "?dec ` set ?rows = {r. \<exists>k. starts_with (j_prefix J) k \<and> journal_look J d k = Some r}"
  proof (intro equalityI subsetI)
    fix r assume "r \<in> ?dec ` set ?rows"
    then obtain k v where kv: "(k, v) \<in> set ?rows" "r = the (from_json (j_codec J) v)" by auto
    with wf have "row_ok J H (k, v)" by (auto simp: journal_wf_def list_all_iff)
    then have "from_json (j_codec J) v = Some r" "length v \<le> j_max J"
      using kv(2) by (auto simp: row_ok_Some)
    with kv_with_prefix_in [OF kv(1)] wf show
      "r \<in> {r. \<exists>k. starts_with (j_prefix J) k \<and> journal_look J d k = Some r}"
      by (auto simp: journal_look_def journal_wf_def sql_substr_short)
  next
    fix r assume "r \<in> {r. \<exists>k. starts_with (j_prefix J) k \<and> journal_look J d k = Some r}"
    then obtain k v where k: "starts_with (j_prefix J) k" "kv_look d k = Some v"
      "from_json (j_codec J) (sql_substr (j_max J + 1) v) = Some r"
      by (auto simp: journal_look_def split: option.splits)
    then have m: "(k, v) \<in> set ?rows" by (simp add: kv_look_in_prefix)
    with wf have "row_ok J H (k, v)" by (auto simp: journal_wf_def list_all_iff)
    with k(3) have "from_json (j_codec J) v = Some r" by (auto simp: row_ok_Some sql_substr_short)
    with m show "r \<in> ?dec ` set ?rows" by force
  qed
  ultimately show ?thesis by auto
qed

lemma journal_wf_reserve:
  assumes lawful: "serde_lawful (j_codec J)" and wf: "journal_wf J H d" and home: "j_home J r = h_home H"
  shows "journal_wf J H (snd (journal_reserve J f r d))"
proof (cases "journal_reserve J f r d")
  case (Pair x d')
  from journal_reserve_cases [OF Pair] show ?thesis
  proof (elim disjE conjE exE)
    assume "d' = d" with wf Pair show ?thesis by simp
  next
    fix raw
    assume valid: "j_valid J r None = Ok ()" and fresh: "journal_key J r \<notin> fst ` set (db_kv d)"
      and room: "length (kv_with_prefix d (j_prefix J)) < j_limit J"
      and raw: "to_json (j_codec J) r = Some raw" "length raw \<le> j_max J"
      and d': "d' = d\<lparr>db_kv := db_kv d @ [(journal_key J r, raw)]\<rparr>"
    have "kv_with_prefix d' (j_prefix J) = kv_with_prefix d (j_prefix J) @ [(journal_key J r, raw)]"
      by (simp add: kv_with_prefix_def d' journal_key_def)
    moreover have "row_ok J H (journal_key J r, raw)"
      using serde_lawfulD [OF lawful raw(1)] raw(2) valid home by (simp add: row_ok_Some)
    moreover have "kv_invar d'" using wf fresh by (simp add: d' kv_invar_def journal_wf_def)
    ultimately show ?thesis using wf room Pair by (simp add: journal_wf_def)
  qed
qed

context journal_validator
begin

lemma journal_wf_update:
  assumes lawful: "serde_lawful (j_codec J)" and wf: "journal_wf J H d"
  shows "journal_wf J H (snd (journal_update J f r r' d))"
proof (cases "journal_update J f r r' d")
  case (Pair x d')
  let ?k = "journal_key J r"
  from journal_update_cases [OF Pair] show ?thesis
  proof (elim disjE conjE exE)
    assume "d' = d" with wf Pair show ?thesis by simp
  next
    fix raw
    assume valid: "j_valid J r' (Some r) = Ok ()" and look: "journal_look J d ?k = Some r"
      and raw: "to_json (j_codec J) r' = Some raw" "length raw \<le> j_max J"
      and d': "d' = d\<lparr>db_kv := row_update ?k raw (db_kv d)\<rparr>"
    obtain w where w: "kv_look d ?k = Some w"
      and dec: "from_json (j_codec J) (sql_substr (j_max J + 1) w) = Some r"
      using look by (auto simp: journal_look_def split: option.splits)
    have "(?k, w) \<in> set (kv_with_prefix d (j_prefix J))"
      using w by (rule kv_look_in_prefix) (simp add: journal_key_def)
    with wf have "row_ok J H (?k, w)" by (auto simp: journal_wf_def list_all_iff)
    with dec have home: "j_home J r = h_home H"
      by (auto simp: row_ok_Some sql_substr_short)
    have new: "row_ok J H (?k, raw)"
      using serde_lawfulD [OF lawful raw(1)] raw(2) valid_next [OF valid] ident_key [of r' r] home
      by (simp add: row_ok_Some journal_key_def)
    have "kv_with_prefix d' (j_prefix J) = row_update ?k raw (kv_with_prefix d (j_prefix J))"
      by (auto simp: kv_with_prefix_def d' row_update_def filter_map comp_def case_prod_beta
          intro!: arg_cong [of _ _ "map _"] filter_cong)
    moreover have "list_all (row_ok J H) (row_update ?k raw (kv_with_prefix d (j_prefix J)))"
      using wf new by (auto simp: journal_wf_def list_all_iff row_update_def)
    moreover have "length (row_update ?k raw (kv_with_prefix d (j_prefix J))) \<le> j_limit J"
      using wf by (simp add: row_update_def journal_wf_def)
    moreover have "kv_invar d'" using wf by (simp add: d' kv_invar_def journal_wf_def)
    ultimately show ?thesis using Pair by (simp add: journal_wf_def)
  qed
qed

text \<open>No request id is reserved twice.\<close>

lemma requests_once:
  assumes "serde_lawful (j_codec J)" and "kv_invar d"
    and "run_ops (journal_reserve J) (journal_update J) ops d = (results, d')"
  shows "reservations (j_request_id J) k ops results \<le> 1"
proof -
  have "journal_key J = (\<lambda>r. j_prefix J @ j_request_id J r)" by (simp add: journal_key_def fun_eq_iff)
  then have "reservations (journal_key J) (j_prefix J @ k) ops results = reservations (j_request_id J) k ops results"
    by (simp add: reservations_prefix)
  with cj.reservations_once [OF _ assms(3)] assms(1,2) show ?thesis
    by (metis journal_invar_def)
qed

text \<open>Every sequence of operations on records of this home keeps the journal well formed.\<close>

lemma journal_wf_run:
  assumes "serde_lawful (j_codec J)" and "journal_wf J H d"
    and "\<forall>f r. Reserve f r \<in> set xs \<longrightarrow> j_home J r = h_home H"
    and "run_ops (journal_reserve J) (journal_update J) xs d = (rs, d')"
  shows "journal_wf J H d'"
  using assms(2-)
proof (induction xs arbitrary: d rs)
  case (Cons x xs)
  obtain y d1 where x: "run_op (journal_reserve J) (journal_update J) x d = (y, d1)" by fastforce
  with Cons.prems(3) obtain ys where ys: "run_ops (journal_reserve J) (journal_update J) xs d1 = (ys, d')"
    by (auto split: prod.splits)
  have "journal_wf J H d1"
    using x journal_wf_reserve [OF assms(1) Cons.prems(1)] journal_wf_update [OF assms(1) Cons.prems(1)]
      Cons.prems(2) by (cases x) (auto, metis snd_conv, metis snd_conv)
  with Cons.IH [OF _ _ ys] Cons.prems(2) show ?case by auto
qed simp

end

lemma run_ops_has_table:
  "run_ops (journal_reserve J) (journal_update J) xs d = (rs, d') \<Longrightarrow> has_table d' t = has_table d t"
proof (induction xs arbitrary: d rs)
  case (Cons x xs)
  obtain y d1 where x: "run_op (journal_reserve J) (journal_update J) x d = (y, d1)" by fastforce
  have "has_table d1 t = has_table d t"
  proof (cases x)
    case (Reserve f r)
    with x journal_reserve_cases [of J f r d y d1] show ?thesis by (auto simp: has_table_def)
  next
    case (Update f r r')
    with x journal_update_cases [of J f r r' d y d1] show ?thesis by (auto simp: has_table_def)
  qed
  with Cons x show ?case by (auto split: prod.splits)
qed simp

text \<open>An empty table is a well-formed journal.\<close>

lemma journal_wf_empty: "db_kv d = [] \<Longrightarrow> journal_wf J H d"
  by (simp add: journal_wf_def kv_invar_def kv_with_prefix_def)

lemmas journal_eval = journal_reserve_def journal_update_def journal_key_def kv_exists_def kv_count_def
  kv_with_prefix_def kv_insert_ignore_def kv_select_def kv_update_def

text \<open>What a journal returns is never longer than its limit.\<close>

lemma read_rows_limit:
  "read_rows J H f rows records = Ok rs \<Longrightarrow> length records \<le> j_limit J \<Longrightarrow> length rs \<le> j_limit J"
proof (induction rows arbitrary: records)
  case (Cons row rows)
  then show ?case by (cases row) (auto split: if_splits option.splits result.splits)
qed simp

lemma journal_records_limit: "journal_records J H f d = Ok rs \<Longrightarrow> length rs \<le> j_limit J"
  by (auto simp: journal_records_def split: result.splits if_splits dest: read_rows_limit)


section \<open>A journal refines a ledger\<close>

text \<open>
  What a journal is to its clients: a partial function from request ids to records. A
  reservation claims a free id, an update is a compare-and-swap, and a failed operation changes
  nothing. The specification replays the results an operation sequence reported; a result the
  ledger cannot give has no successor.
\<close>

fun ledger_step ::
  "('r \<Rightarrow> string) \<Rightarrow> ('f, 'r) journal_op \<Rightarrow> (bool, 'e) result \<Rightarrow> (string \<rightharpoonup> 'r) \<Rightarrow> (string \<rightharpoonup> 'r) option"
where
  "ledger_step key op (Err e) m = Some m"
| "ledger_step key (Reserve f r) (Ok claimed) m =
     (if claimed \<noteq> (m (key r) = None) then None
      else Some (if claimed then m(key r \<mapsto> r) else m))"
| "ledger_step key (Update f r r') (Ok swapped) m =
     (if swapped \<noteq> (m (key r) = Some r) then None
      else Some (if swapped then m(key r \<mapsto> r') else m))"

fun ledger_run ::
  "('r \<Rightarrow> string) \<Rightarrow> ('f, 'r) journal_op list \<Rightarrow> (bool, 'e) result list \<Rightarrow> (string \<rightharpoonup> 'r) \<Rightarrow> (string \<rightharpoonup> 'r) option"
where
  "ledger_run key [] [] m = Some m"
| "ledger_run key (op # ops) (x # xs) m =
     (case ledger_step key op x m of None \<Rightarrow> None | Some m' \<Rightarrow> ledger_run key ops xs m')"
| "ledger_run key _ _ m = None"

lemma journal_reserve_taken:
  "journal_reserve J f r d = (Ok False, d') \<Longrightarrow> journal_has d (journal_key J r)"
  by (auto simp: journal_reserve_def kv_exists_def kv_count_def kv_insert_ignore_def journal_has_def kv_look_def
      map_of_eq_None_iff split: result.splits if_splits bool.splits option.splits)

lemma journal_update_stale:
  "journal_update J f r r' d = (Ok False, d') \<Longrightarrow> journal_look J d (journal_key J r) \<noteq> Some r"
  by (auto simp: journal_update_def kv_select_def kv_update_def journal_look_def kv_look_def
      split: result.splits if_splits option.splits)

text \<open>In a well-formed journal every taken key holds a record.\<close>

lemma journal_wf_has:
  assumes "journal_wf J H d" and "journal_has d (j_prefix J @ i)"
  shows "record_look J d i \<noteq> None"
proof -
  from assms(2) obtain v where v: "kv_look d (j_prefix J @ i) = Some v" by (auto simp: journal_has_def)
  then have "(j_prefix J @ i, v) \<in> set (kv_with_prefix d (j_prefix J))"
    by (rule kv_look_in_prefix) simp
  with assms(1) have "row_ok J H (j_prefix J @ i, v)" by (auto simp: journal_wf_def list_all_iff)
  with v show ?thesis by (auto simp: row_ok_Some record_look_def journal_look_def sql_substr_short)
qed

context journal_validator
begin

lemma ledger_simulation:
  assumes "serde_lawful (j_codec J)" and "journal_wf J H d"
    and "run_op (journal_reserve J) (journal_update J) op d = (x, d')"
  shows "ledger_step (j_request_id J) op x (record_look J d) = Some (record_look J d')"
proof -
  have i: "kv_invar d" using assms(2) by (simp add: journal_wf_def)
  show ?thesis
  proof (cases op)
    case (Reserve f r)
    with assms(3) have r: "journal_reserve J f r d = (x, d')" by simp
    consider e where "x = Err e" "d' = d" | "x = Ok False" "d' = d" | "x = Ok True"
      using journal_reserve_cases [OF r] by (cases x) auto
    then show ?thesis
    proof cases
      case 2
      with journal_wf_has [OF assms(2), of "j_request_id J r"] journal_reserve_taken [of J f r d d'] r Reserve
      show ?thesis by (simp add: journal_key_def)
    next
      case 3
      with reserve_look [OF assms(1) i, of f r d'] r Reserve show ?thesis by simp
    qed simp
  next
    case (Update f r r')
    with assms(3) have u: "journal_update J f r r' d = (x, d')" by simp
    consider e where "x = Err e" "d' = d" | "x = Ok False" "d' = d" | "x = Ok True"
      using journal_update_cases [OF u] by (cases x) auto
    then show ?thesis
    proof cases
      case 2
      with journal_update_stale [of J f r r' d d'] u Update show ?thesis by (simp add: record_look_def journal_key_def)
    next
      case 3
      with update_look [OF assms(1) i, of f r r' d'] u Update show ?thesis by simp
    qed simp
  qed
qed

lemma ledger_refinement:
  assumes "serde_lawful (j_codec J)" and "journal_wf J H d"
    and "\<forall>f r. Reserve f r \<in> set ops \<longrightarrow> j_home J r = h_home H"
    and "run_ops (journal_reserve J) (journal_update J) ops d = (xs, d')"
  shows "ledger_run (j_request_id J) ops xs (record_look J d) = Some (record_look J d')"
  using assms(2-)
proof (induction ops arbitrary: d xs)
  case (Cons op ops)
  obtain x d1 where x: "run_op (journal_reserve J) (journal_update J) op d = (x, d1)" by fastforce
  with Cons.prems(3) obtain ys where ys: "run_ops (journal_reserve J) (journal_update J) ops d1 = (ys, d')" "xs = x # ys"
    by (auto split: prod.splits)
  have "run_ops (journal_reserve J) (journal_update J) [op] d = ([x], d1)" using x by simp
  moreover have "\<forall>f r. Reserve f r \<in> set [op] \<longrightarrow> j_home J r = h_home H" using Cons.prems(2) by auto
  ultimately have "journal_wf J H d1" by (intro journal_wf_run [OF assms(1) Cons.prems(1)])
  with Cons.IH [OF _ _ ys(1)] Cons.prems(2) ledger_simulation [OF assms(1) Cons.prems(1) x] ys(2)
  show ?case by simp
qed simp

end

section \<open>Progress\<close>

text \<open>Without storage failures a fresh, valid record that fits is always reserved.\<close>

lemma journal_reserve_live:
  assumes "j_valid J r None = Ok ()" and "has_table d ''kv''" and "\<not> journal_has d (journal_key J r)"
    and "length (kv_with_prefix d (j_prefix J)) < j_limit J"
    and "to_json (j_codec J) r = Some raw" and "length raw \<le> j_max J"
  shows "fst (journal_reserve J no_faults r d) = Ok True"
  using assms
  by (auto simp: journal_reserve_def kv_exists_def kv_count_def kv_insert_ignore_def journal_has_def kv_look_def
      map_of_eq_None_iff)

lemma journal_update_live:
  assumes "j_valid J r None = Ok ()" and "j_valid J r' (Some r) = Ok ()" and "has_table d ''kv''"
    and "journal_look J d (journal_key J r) = Some r"
    and "to_json (j_codec J) r' = Some raw" and "length raw \<le> j_max J"
  shows "fst (journal_update J no_faults r r' d) = Ok True"
  using assms
  by (auto simp: journal_update_def kv_select_def kv_update_def journal_look_def kv_look_def
      split: option.splits)

end
