(* ===== verification/Session_Types.thy ===== *)
theory Session_Types
  imports Local_Db
begin

text \<open>
  What the session components share: the session row the server lists (\<open>api.rs\<close>), requests as
  the network sees them, the canonical form of a JSON value whose digest is a fingerprint, and
  the digests themselves (\<open>session_creation.rs\<close>, \<open>session_delete.rs\<close>, \<open>session_stop.rs\<close>).
\<close>

section \<open>Sessions and requests\<close>

record session_data =
  sd_id :: string
  sd_tool_type :: string
  sd_user_id :: string
  sd_tool_account_id :: string
  sd_workspace_id :: string
  sd_workspace_local_path :: "string option"
  sd_workspace_remote_path :: "string option"
  sd_node_id :: string
  sd_project_key :: string
  sd_status :: string
  sd_tmux_session_name :: "string option"
  sd_container_id :: "string option"
  sd_runtime_backend :: string
  sd_runtime_resource_id :: "string option"
  sd_replaces_session_id :: "string option"
  sd_create_task_id :: "string option"
  sd_stop_task_id :: "string option"
  sd_skill_finalization_operation_id :: "string option"
  sd_created_at :: string
  sd_updated_at :: string

text \<open>
  A request the client puts on the network: its path and, for a POST, its typed body. A call
  returns its result together with the requests it made, in order.
\<close>

datatype 'b http_request = HttpPost string 'b | HttpGet string

type_synonym 'b network = "'b http_request \<Rightarrow> (http_response, api_error) result"

fun is_post :: "'b http_request \<Rightarrow> bool" where
  "is_post (HttpPost _ _) = True"
| "is_post (HttpGet _) = False"

text \<open>The storage failures of a submission: while initializing, reserving and updating.\<close>

record submit_faults =
  sf_init :: faults
  sf_reserve :: faults
  sf_update :: faults

text \<open>
  One round of a polling loop: the interrupt signal arrives, the deadline passes, or the
  request is answered; then the host and the storage failures met while the answer is
  recorded, and whether the signal arrives during the pause that follows.
\<close>

datatype poll =
    Interrupted
  | TimedOut
  | Answered "(http_response, api_error) result" host faults bool

text \<open>How a polling loop ends: its exit code and the last answer it saw.\<close>

definition observe_exit :: "int \<Rightarrow> 'r option \<Rightarrow> ('r, failure) result" where
  "observe_exit code latest =
     (case latest of
        None \<Rightarrow> Err (ExitCode code)
      | Some r \<Rightarrow> if code \<noteq> 0 then Err (ExitCode code) else Ok r)"

section \<open>Canonical JSON\<close>

text \<open>
  \<open>collect::<BTreeMap<_, _>>()\<close>: entries in key order, the last of equal keys wins.
\<close>

fun btree_insert :: "'k::linorder \<Rightarrow> 'v \<Rightarrow> ('k \<times> 'v) list \<Rightarrow> ('k \<times> 'v) list" where
  "btree_insert k v [] = [(k, v)]"
| "btree_insert k v ((k', v') # es) =
     (if k < k' then (k, v) # (k', v') # es
      else if k = k' then (k, v) # es
      else (k', v') # btree_insert k v es)"

definition btree_collect :: "('k::linorder \<times> 'v) list \<Rightarrow> ('k \<times> 'v) list" where
  "btree_collect es = fold (\<lambda>(k, v). btree_insert k v) es []"

fun canonical_json :: "json \<Rightarrow> json" where
  "canonical_json (JObject es) = JObject (btree_collect (map (\<lambda>(k, v). (k, canonical_json v)) es))"
| "canonical_json (JArray vs) = JArray (map canonical_json vs)"
| "canonical_json v = v"

definition json_digest :: "crates \<Rightarrow> json \<Rightarrow> string" where
  "json_digest X v = ''sha256:'' @ sha256_hex X (json_text X (canonical_json v))"

definition authenticated_scope :: "crates \<Rightarrow> string \<Rightarrow> string" where
  "authenticated_scope X access_token = ''sha256:'' @ sha256_hex X access_token"

definition json_opt :: "string option \<Rightarrow> json" where
  "json_opt v = (case v of None \<Rightarrow> JNull | Some s \<Rightarrow> JString s)"

subsection \<open>Sorted entries\<close>

definition btree :: "('k::linorder \<times> 'v) list \<Rightarrow> bool" where
  "btree es \<longleftrightarrow> strictly_ascending (map fst es)"

lemma btree_Cons: "btree ((k, v) # es) \<longleftrightarrow> btree es \<and> (\<forall>k' \<in> fst ` set es. k < k')"
  by (auto simp: btree_def strictly_ascending_sorted less_le)

lemma keys_btree_insert: "fst ` set (btree_insert k v es) = insert k (fst ` set es)"
  by (induction k v es rule: btree_insert.induct) auto

lemma btree_insert_btree: "btree es \<Longrightarrow> btree (btree_insert k v es)"
proof (induction k v es rule: btree_insert.induct)
  case (2 k v k' v' es)
  consider "k < k'" | "k = k'" | "k' < k" by force
  then show ?case
    using 2 by cases (auto simp: btree_Cons keys_btree_insert not_less_iff_gr_or_eq)
qed (simp add: btree_def)

lemma map_of_btree_insert: "btree es \<Longrightarrow> map_of (btree_insert k v es) = (map_of es)(k \<mapsto> v)"
proof (induction k v es rule: btree_insert.induct)
  case (2 k v k' v' es)
  then show ?case by (auto simp: btree_Cons fun_eq_iff)
qed simp

lemma btree_fold:
  "btree acc \<Longrightarrow> btree (fold (\<lambda>(k, v). btree_insert k v) es acc) \<and>
     map_of (fold (\<lambda>(k, v). btree_insert k v) es acc) = map_of acc ++ map_of (rev es)"
proof (induction es arbitrary: acc)
  case (Cons e es)
  obtain k v where e: "e = (k, v)" by fastforce
  from Cons.prems Cons.IH [of "btree_insert k v acc"] show ?case
    by (auto simp: e btree_insert_btree map_of_btree_insert fun_eq_iff map_add_def split: option.splits)
qed (simp add: btree_def)

lemma btree_collect_btree: "btree (btree_collect es)"
  using btree_fold [of "[]" es] by (simp add: btree_collect_def btree_def)

lemma map_of_btree_collect: "map_of (btree_collect es) = map_of (rev es)"
  using btree_fold [of "[]" es] by (simp add: btree_collect_def btree_def)

lemma btree_unique: "btree xs \<Longrightarrow> btree ys \<Longrightarrow> map_of xs = map_of ys \<Longrightarrow> xs = ys"
  by (rule map_sorted_distinct_set_unique [of fst])
    (use map_of_inject_set [of xs ys] in \<open>auto simp: btree_def strictly_ascending_sorted distinct_map\<close>)

lemma btree_collect_id: "btree es \<Longrightarrow> btree_collect es = es"
proof (rule btree_unique)
  assume b: "btree es"
  then have "distinct (map fst es)" by (simp add: btree_def strictly_ascending_sorted)
  then show "map_of (btree_collect es) = map_of es"
    using map_of_inject_set [of "rev es" es] by (simp add: map_of_btree_collect rev_map [symmetric])
qed (simp_all add: btree_collect_btree)

section \<open>Sample networks\<close>

text \<open>A network that loses every answer, one that answers every request, and decoders for it.\<close>

definition no_submit_faults :: submit_faults where
  "no_submit_faults = \<lparr>sf_init = no_faults, sf_reserve = no_faults, sf_update = no_faults\<rparr>"

definition lost :: "'b network" where
  "lost = (\<lambda>_. Err \<lparr>ae_status = None, ae_code = None, ae_message = ''connection reset''\<rparr>)"

definition receipt_decoders :: "'a \<Rightarrow> 'a decoders" where
  "receipt_decoders r = \<lparr>dec_payload = (\<lambda>_. Ok r), dec_envelope = (\<lambda>_. None), dec_skill = (\<lambda>_. None),
     dec_utf8 = (\<lambda>_. True), dec_show_nat = (\<lambda>_. [])\<rparr>"

lemma init_schema_fresh: "init_schema no_faults fresh_db = (Ok (), created_db\<lparr>db_user_version := 4\<rparr>)"
  by (simp add: init_schema_def initialize_fresh)

definition answered :: "(http_response, api_error) result" where
  "answered = Ok \<lparr>hr_status = 200, hr_content_length = None, hr_chunks = [Ok ''ok'']\<rparr>"

definition answer :: "'b network" where
  "answer = (\<lambda>_. answered)"

lemma send_answer: "send X (receipt_decoders r) (answer q) = Ok r"
  by (simp add: send_def answer_def answered_def receipt_decoders_def read_response_body_def
      read_response_body_bounded_def max_api_response_bytes_def usize_max_def is_success_def)

section \<open>Properties\<close>

lemma canonical_json_entries:
  "canonical_json (JObject es) = JObject fs \<Longrightarrow>
     btree fs \<and> map_of fs = map_option canonical_json \<circ> map_of (rev es)"
  by (auto simp: btree_collect_btree map_of_btree_collect rev_map map_of_map)

lemma canonical_json_idem: "canonical_json (canonical_json v) = canonical_json v"
proof (induction v rule: canonical_json.induct)
  case (1 es)
  define fs where "fs = btree_collect (map (\<lambda>(k, v). (k, canonical_json v)) es)"
  have "(k, canonical_json w) = (k, w)" if "(k, w) \<in> set fs" for k w
  proof -
    have "map_of fs k = Some w"
      using that btree_collect_btree [of "map (\<lambda>(k, v). (k, canonical_json v)) es"]
      by (simp add: fs_def btree_def strictly_ascending_sorted)
    then have "map_of (rev (map (\<lambda>(k, v). (k, canonical_json v)) es)) k = Some w"
      by (simp add: fs_def map_of_btree_collect)
    from map_of_SomeD [OF this] 1 show ?thesis by auto
  qed
  then have "map (\<lambda>(k, v). (k, canonical_json v)) fs = fs" by (intro map_idI) auto
  then show ?case by (simp add: fs_def btree_collect_id btree_collect_btree)
qed auto

text \<open>
  The canonical form is canonical: computing it twice changes nothing, and it does not
  depend on the order in which the entries of an object come, so two objects with the same
  entries, each key once, have the same fingerprint.
\<close>

lemma canonical_json_order:
  assumes "distinct (map fst es)" and "distinct (map fst fs)" and "set es = set fs"
  shows "canonical_json (JObject es) = canonical_json (JObject fs) \<and>
    json_digest X (JObject es) = json_digest X (JObject fs) \<and>
    canonical_json (canonical_json v) = canonical_json v"
proof -
  let ?c = "\<lambda>(k, v). (k, canonical_json v)"
  have "btree_collect (map ?c es) = btree_collect (map ?c fs)"
  proof (rule btree_unique)
    have "distinct (map fst (rev (map ?c es)))" "distinct (map fst (rev (map ?c fs)))"
      using assms(1,2) by (simp_all add: rev_map [symmetric] comp_def case_prod_beta)
    moreover have "set (rev (map ?c es)) = set (rev (map ?c fs))" using assms(3) by simp
    ultimately show "map_of (btree_collect (map ?c es)) = map_of (btree_collect (map ?c fs))"
      using map_of_inject_set by (metis map_of_btree_collect)
  qed (simp_all add: btree_collect_btree)
  then show ?thesis by (simp add: json_digest_def canonical_json_idem)
qed

end
