(* ===== verification/Session_Delete_Api.thy ===== *)
theory Session_Delete_Api
  imports Session_Types
begin

text \<open>
  The transport of caller-key session deletion (\<open>api/session_delete.rs\<close>): the frozen request,
  the receipt the server answers with, their validation, the one mutating POST and the
  observing GET. The network is an argument; a call also returns the requests it made.
\<close>

section \<open>Data\<close>

record session_delete_context =
  dc_session_id :: string
  dc_tool_account_id :: string
  dc_workspace_id :: string
  dc_project_key :: string
  dc_node_id :: string
  dc_runtime_backend :: string
  dc_runtime_resource_id :: "string option"

record session_delete_selection =
  del_tool_type :: string
  del_statuses :: "string list"
  del_project_key :: "string option"

record session_delete_request =
  drq_schema_version :: nat
  drq_request_id :: string
  drq_tool_type :: string
  drq_session_ids :: "string list"
  drq_selection :: session_delete_selection
  drq_selection_digest :: string
  drq_intent_fingerprint :: string
  drq_reason :: string

text \<open>A \<open>BTreeMap\<close> is its list of entries in key order.\<close>

record session_delete_receipt =
  dr_schema_version :: nat
  dr_request_id :: string
  dr_phase :: string
  dr_tool_type :: string
  dr_session_ids :: "string list"
  dr_selection :: session_delete_selection
  dr_selection_digest :: string
  dr_intent_fingerprint :: string
  dr_reason :: string
  dr_delete_task_id :: "string option"
  dr_delete_task_record_id :: "string option"
  dr_task_status :: "string option"
  dr_deleted_session_ids :: "string list"
  dr_session_statuses :: "(string \<times> string) list"
  dr_session_contexts :: "session_delete_context list"
  dr_session_deleted :: bool
  dr_observed_at :: "string option"
  dr_error_code :: "string option"
  dr_result_status :: "string option"
  dr_collection_mismatch :: bool
  dr_retention_blockers :: "string list"

section \<open>Validation\<close>

definition delete_invalid_request :: api_error where
  "delete_invalid_request =
     api_local ''SESSION_DELETE_INVALID_REQUEST'' ''invalid caller-key session delete request''"

definition valid_context :: "crates \<Rightarrow> string list \<Rightarrow> session_delete_context \<Rightarrow> bool" where
  "valid_context X session_ids c \<longleftrightarrow>
     canonical_uuid X (dc_session_id c) \<and>
     canonical_uuid X (dc_tool_account_id c) \<and>
     canonical_uuid X (dc_workspace_id c) \<and>
     canonical_uuid X (dc_node_id c) \<and>
     length (dc_project_key c) \<le> 512 \<and>
     \<not> has_control (dc_project_key c) \<and>
     dc_runtime_backend c \<noteq> [] \<and>
     length (dc_runtime_backend c) \<le> 64 \<and>
     \<not> has_control (dc_runtime_backend c) \<and>
     is_none_or (\<lambda>v. v \<noteq> [] \<and> length v \<le> 256 \<and> \<not> has_control v) (dc_runtime_resource_id c) \<and>
     dc_session_id c \<in> set session_ids"

definition valid_contexts :: "crates \<Rightarrow> session_delete_context list \<Rightarrow> string list \<Rightarrow> bool" where
  "valid_contexts X contexts session_ids \<longleftrightarrow>
     length contexts = length session_ids \<and>
     list_all (valid_context X session_ids) contexts \<and>
     length (remdups (map dc_session_id contexts)) = length session_ids"

definition validate_delete_request :: "crates \<Rightarrow> session_delete_request \<Rightarrow> (unit, api_error) result" where
  "validate_delete_request X r =
     ensure
      (drq_schema_version r = 1 \<and>
       canonical_uuid X (drq_request_id r) \<and>
       valid_text (drq_tool_type r) 64 \<and>
       drq_session_ids r \<noteq> [] \<and>
       length (drq_session_ids r) \<le> 256 \<and>
       strictly_ascending (drq_session_ids r) \<and>
       list_all (canonical_uuid X) (drq_session_ids r) \<and>
       del_tool_type (drq_selection r) = drq_tool_type r \<and>
       del_statuses (drq_selection r) \<noteq> [] \<and>
       length (del_statuses (drq_selection r)) \<le> 16 \<and>
       list_all (\<lambda>s. valid_text s 32) (del_statuses (drq_selection r)) \<and>
       is_none_or (\<lambda>k. valid_text k 512) (del_project_key (drq_selection r)) \<and>
       valid_digest (drq_selection_digest r) \<and>
       valid_digest (drq_intent_fingerprint r) \<and>
       drq_reason r = ''user_requested'')
      delete_invalid_request"

definition valid_delete_receipt_shape :: "crates \<Rightarrow> session_delete_receipt \<Rightarrow> bool" where
  "valid_delete_receipt_shape X r \<longleftrightarrow>
     dr_schema_version r = 1 \<and>
     canonical_uuid X (dr_request_id r) \<and>
     valid_text (dr_tool_type r) 64 \<and>
     dr_session_ids r \<noteq> [] \<and>
     length (dr_session_ids r) \<le> 256 \<and>
     strictly_ascending (dr_session_ids r) \<and>
     list_all (canonical_uuid X) (dr_session_ids r) \<and>
     del_tool_type (dr_selection r) = dr_tool_type r \<and>
     length (del_statuses (dr_selection r)) \<le> 16 \<and>
     list_all (\<lambda>s. valid_text s 32) (del_statuses (dr_selection r)) \<and>
     is_none_or (\<lambda>k. valid_text k 512) (del_project_key (dr_selection r)) \<and>
     valid_digest (dr_selection_digest r) \<and>
     valid_digest (dr_intent_fingerprint r) \<and>
     valid_text (dr_reason r) 64 \<and>
     list_all (\<lambda>i. i \<in> set (dr_session_ids r)) (dr_deleted_session_ids r) \<and>
     list_all (\<lambda>i. i \<in> set (dr_session_ids r)) (map fst (dr_session_statuses r)) \<and>
     valid_contexts X (dr_session_contexts r) (dr_session_ids r)"

definition validate_delete_receipt ::
  "crates \<Rightarrow> session_delete_receipt \<Rightarrow> session_delete_request \<Rightarrow> (unit, api_error) result" where
  "validate_delete_receipt X r q =
     ensure
      (valid_delete_receipt_shape X r \<and>
       dr_request_id r = drq_request_id q \<and>
       dr_tool_type r = drq_tool_type q \<and>
       dr_session_ids r = drq_session_ids q \<and>
       dr_selection r = drq_selection q \<and>
       dr_selection_digest r = drq_selection_digest q \<and>
       dr_intent_fingerprint r = drq_intent_fingerprint q \<and>
       dr_reason r = drq_reason q \<and>
       list_all (\<lambda>i. i \<in> set (drq_session_ids q)) (dr_deleted_session_ids r) \<and>
       list_all (\<lambda>i. i \<in> set (drq_session_ids q)) (map fst (dr_session_statuses r)) \<and>
       valid_contexts X (dr_session_contexts r) (drq_session_ids q))
      delete_invalid_request"

section \<open>Calls\<close>

definition delete_tool_sessions_with_caller_key ::
  "crates \<Rightarrow> session_delete_receipt decoders \<Rightarrow> session_delete_request network \<Rightarrow> session_delete_request \<Rightarrow>
     (session_delete_receipt, api_error) result \<times> session_delete_request http_request list" where
  "delete_tool_sessions_with_caller_key X D net q =
     (case validate_delete_request X q of
        Err e \<Rightarrow> (Err e, [])
      | Ok _ \<Rightarrow>
          let post = HttpPost ''/api/v1/sessions/delete-requests'' q in
          (case send X D (net post) of
             Err e \<Rightarrow> Err e
           | Ok receipt \<Rightarrow>
               (case validate_delete_receipt X receipt q of Err e \<Rightarrow> Err e | Ok _ \<Rightarrow> Ok receipt),
           [post]))"

definition get_tool_session_delete_request ::
  "crates \<Rightarrow> session_delete_receipt decoders \<Rightarrow> session_delete_request network \<Rightarrow> string \<Rightarrow>
     (session_delete_receipt, api_error) result \<times> session_delete_request http_request list" where
  "get_tool_session_delete_request X D net request_id =
     (if \<not> canonical_uuid X request_id then (Err delete_invalid_request, [])
      else
        let get = HttpGet (''/api/v1/sessions/delete-requests/'' @ url_encode request_id) in
        (case send X D (net get) of
           Err e \<Rightarrow> Err e
         | Ok receipt \<Rightarrow>
             if dr_request_id receipt \<noteq> request_id \<or> dr_schema_version receipt \<noteq> 1 \<or>
                \<not> valid_delete_receipt_shape X receipt
             then Err delete_invalid_request else Ok receipt,
         [get]))"

section \<open>Lemmas\<close>

text \<open>
  The contexts of a receipt are in one-to-one correspondence with the frozen collection: each
  session of the collection has exactly one context.
\<close>

lemma valid_contexts_bij:
  assumes "valid_contexts X contexts session_ids"
  shows "distinct (map dc_session_id contexts)" and "set (map dc_session_id contexts) = set session_ids"
    and "distinct session_ids"
proof -
  have c: "length contexts = length session_ids"
    "length (remdups (map dc_session_id contexts)) = length session_ids"
    "set (map dc_session_id contexts) \<subseteq> set session_ids"
    using assms by (auto simp: valid_contexts_def list_all_iff valid_context_def)
  then have "length (remdups (map dc_session_id contexts)) = length (map dc_session_id contexts)" by simp
  then show d: "distinct (map dc_session_id contexts)" by (metis length_remdups_eq remdups_id_iff_distinct)
  have card: "card (set (map dc_session_id contexts)) = length session_ids"
    using distinct_card [OF d] c(1) by simp
  with c(3) show e: "set (map dc_session_id contexts) = set session_ids"
    by (metis List.finite_set card_length card_seteq)
  with card show "distinct session_ids" by (metis card_distinct)
qed

lemma validate_delete_receipt_Ok:
  "validate_delete_receipt X r q = Ok () \<Longrightarrow>
     dr_schema_version r = 1 \<and> dr_request_id r = drq_request_id q \<and> dr_tool_type r = drq_tool_type q \<and>
     dr_session_ids r = drq_session_ids q \<and> dr_selection r = drq_selection q \<and>
     dr_selection_digest r = drq_selection_digest q \<and>
     dr_intent_fingerprint r = drq_intent_fingerprint q \<and> dr_reason r = drq_reason q \<and>
     set (dr_deleted_session_ids r) \<subseteq> set (drq_session_ids q) \<and>
     valid_contexts X (dr_session_contexts r) (drq_session_ids q)"
  by (auto simp: validate_delete_receipt_def valid_delete_receipt_shape_def list_all_iff)

text \<open>The submission makes at most one request, the POST of exactly the given body.\<close>

lemma delete_submission_requests:
  "snd (delete_tool_sessions_with_caller_key X D net q) \<in>
     {[], [HttpPost ''/api/v1/sessions/delete-requests'' q]}"
  by (auto simp: delete_tool_sessions_with_caller_key_def Let_def split: result.splits)

lemma delete_observation_requests:
  "list_all (\<lambda>h. \<not> is_post h) (snd (get_tool_session_delete_request X D net i))"
  by (auto simp: get_tool_session_delete_request_def Let_def)

end
