(* ===== verification/Session_Delete_Journal.thy ===== *)
theory Session_Delete_Journal
  imports Journal Session_Delete_Api
begin

text \<open>
  The journal of session deletion requests (\<open>local_state/session_delete.rs\<close>): the record, its
  validator with the stricter context check of the journal, and the journal operations.
\<close>

section \<open>Records and their validation\<close>

record session_delete_record =
  sdr_home :: string
  sdr_server_url :: string
  sdr_user_id :: string
  sdr_request_id :: string
  sdr_tool_type :: string
  sdr_session_ids :: "string list"
  sdr_selection :: session_delete_selection
  sdr_selection_digest :: string
  sdr_intent_fingerprint :: string
  sdr_reason :: string
  sdr_phase :: string
  sdr_delete_task_id :: "string option"
  sdr_delete_task_record_id :: "string option"
  sdr_task_status :: "string option"
  sdr_deleted_session_ids :: "string list"
  sdr_session_statuses :: "(string \<times> string) list"
  sdr_session_contexts :: "session_delete_context list"
  sdr_session_deleted :: bool
  sdr_result_status :: "string option"
  sdr_last_observation :: "string option"

definition valid_record_context :: "crates \<Rightarrow> string list \<Rightarrow> session_delete_context \<Rightarrow> bool" where
  "valid_record_context X session_ids c \<longleftrightarrow>
     canonical_uuid X (dc_session_id c) \<and>
     canonical_uuid X (dc_tool_account_id c) \<and>
     canonical_uuid X (dc_workspace_id c) \<and>
     canonical_uuid X (dc_node_id c) \<and>
     valid_text (dc_project_key c) 512 \<and>
     valid_text (dc_runtime_backend c) 64 \<and>
     is_none_or (\<lambda>v. valid_text v 256) (dc_runtime_resource_id c) \<and>
     dc_session_id c \<in> set session_ids"

definition valid_record_contexts :: "crates \<Rightarrow> session_delete_context list \<Rightarrow> string list \<Rightarrow> bool" where
  "valid_record_contexts X contexts session_ids \<longleftrightarrow>
     length contexts = length session_ids \<and>
     list_all (valid_record_context X session_ids) contexts \<and>
     length (remdups (map dc_session_id contexts)) = length session_ids"

definition delete_phases :: "string list" where
  "delete_phases =
     [''prepared'', ''accepted'', ''deleting'', ''deleted'', ''failed'', ''unknown'', ''rejected'']"

definition delete_record_ok :: "crates \<Rightarrow> session_delete_record \<Rightarrow> bool" where
  "delete_record_ok X r \<longleftrightarrow>
     path_is_absolute (sdr_home r) \<and>
     valid_text (sdr_server_url r) 2048 \<and>
     http_url (sdr_server_url r) \<and>
     valid_digest (sdr_user_id r) \<and>
     canonical_uuid X (sdr_request_id r) \<and>
     valid_text (sdr_tool_type r) 64 \<and>
     sdr_session_ids r \<noteq> [] \<and>
     length (sdr_session_ids r) \<le> 256 \<and>
     list_all (canonical_uuid X) (sdr_session_ids r) \<and>
     strictly_ascending (sdr_session_ids r) \<and>
     del_tool_type (sdr_selection r) = sdr_tool_type r \<and>
     del_statuses (sdr_selection r) \<noteq> [] \<and>
     length (del_statuses (sdr_selection r)) \<le> 16 \<and>
     list_all (\<lambda>s. valid_text s 32) (del_statuses (sdr_selection r)) \<and>
     is_none_or (\<lambda>k. valid_text k 512) (del_project_key (sdr_selection r)) \<and>
     valid_digest (sdr_selection_digest r) \<and>
     valid_digest (sdr_intent_fingerprint r) \<and>
     sdr_reason r = ''user_requested'' \<and>
     sdr_phase r \<in> set delete_phases \<and>
     list_all (\<lambda>i. i \<in> set (sdr_session_ids r)) (sdr_deleted_session_ids r) \<and>
     list_all (\<lambda>i. i \<in> set (sdr_session_ids r)) (map fst (sdr_session_statuses r)) \<and>
     (sdr_session_contexts r = [] \<and> sdr_phase r \<in> {''prepared'', ''unknown'', ''rejected''} \<or>
      valid_record_contexts X (sdr_session_contexts r) (sdr_session_ids r))"

definition delete_same_identity :: "session_delete_record \<Rightarrow> session_delete_record \<Rightarrow> bool" where
  "delete_same_identity old r \<longleftrightarrow>
     sdr_home r = sdr_home old \<and>
     sdr_server_url r = sdr_server_url old \<and>
     sdr_user_id r = sdr_user_id old \<and>
     sdr_request_id r = sdr_request_id old \<and>
     sdr_tool_type r = sdr_tool_type old \<and>
     sdr_session_ids r = sdr_session_ids old \<and>
     sdr_selection r = sdr_selection old \<and>
     sdr_selection_digest r = sdr_selection_digest old \<and>
     sdr_intent_fingerprint r = sdr_intent_fingerprint old \<and>
     sdr_reason r = sdr_reason old"

definition validate_session_delete ::
  "crates \<Rightarrow> session_delete_record \<Rightarrow> session_delete_record option \<Rightarrow> (unit, failure) result" where
  "validate_session_delete X r original =
     (if \<not> delete_record_ok X r then Err (Bail ''invalid session deletion journal record'')
      else if is_some_and (\<lambda>old. \<not> delete_same_identity old r) original
      then Err (Bail ''session deletion journal identity changed'')
      else Ok ())"

section \<open>The journal\<close>

definition session_delete_journal :: "crates \<Rightarrow> session_delete_record codec \<Rightarrow> session_delete_record journal" where
  "session_delete_journal X c =
     \<lparr>j_prefix = ''session_delete_request:'', j_limit = 256, j_max = 64 * 1024,
      j_label = ''session deletion journal'', j_codec = c, j_request_id = sdr_request_id,
      j_home = sdr_home, j_absent = (\<lambda>e. e = IoNotFound), j_valid = validate_session_delete X\<rparr>"

definition session_delete_records ::
  "crates \<Rightarrow> session_delete_record codec \<Rightarrow> host \<Rightarrow> faults \<Rightarrow> db \<Rightarrow> (session_delete_record list, failure) result"
where
  "session_delete_records X c = journal_records (session_delete_journal X c)"

definition reserve_session_delete ::
  "crates \<Rightarrow> session_delete_record codec \<Rightarrow> faults \<Rightarrow> session_delete_record \<Rightarrow> db \<Rightarrow> (bool, failure) result \<times> db"
where
  "reserve_session_delete X c = journal_reserve (session_delete_journal X c)"

definition update_session_delete ::
  "crates \<Rightarrow> session_delete_record codec \<Rightarrow> faults \<Rightarrow> session_delete_record \<Rightarrow> session_delete_record \<Rightarrow> db \<Rightarrow>
     (bool, failure) result \<times> db" where
  "update_session_delete X c = journal_update (session_delete_journal X c)"

lemmas delete_ops = session_delete_records_def reserve_session_delete_def update_session_delete_def

section \<open>It is a caller journal\<close>

definition delete_ident :: "session_delete_record \<Rightarrow> session_delete_record" where
  "delete_ident r =
     r\<lparr>sdr_phase := [], sdr_delete_task_id := None, sdr_delete_task_record_id := None,
        sdr_task_status := None, sdr_deleted_session_ids := [], sdr_session_statuses := [],
        sdr_session_contexts := [], sdr_session_deleted := False, sdr_result_status := None,
        sdr_last_observation := None\<rparr>"

lemma delete_same_identity_iff: "delete_same_identity old r \<longleftrightarrow> delete_ident r = delete_ident old"
  by (cases r, cases old) (auto simp: delete_same_identity_def delete_ident_def)

lemma validate_session_delete_Ok:
  "validate_session_delete X r original = Ok () \<longleftrightarrow>
     delete_record_ok X r \<and> is_none_or (\<lambda>old. delete_ident r = delete_ident old) original"
  by (cases original) (auto simp: validate_session_delete_def delete_same_identity_iff)

interpretation delete: journal_validator "session_delete_journal X c" delete_ident for X c
proof unfold_locales
  fix r old
  assume "delete_ident r = delete_ident old"
  then have "delete_same_identity old r" by (simp add: delete_same_identity_iff)
  then show "j_request_id (session_delete_journal X c) r = j_request_id (session_delete_journal X c) old \<and>
      j_home (session_delete_journal X c) r = j_home (session_delete_journal X c) old"
    by (simp add: session_delete_journal_def delete_same_identity_def)
qed (simp add: session_delete_journal_def validate_session_delete_Ok)

text \<open>The record stored for a request id.\<close>

definition delete_look ::
  "crates \<Rightarrow> session_delete_record codec \<Rightarrow> db \<Rightarrow> string \<Rightarrow> session_delete_record option" where
  "delete_look X c d request_id = journal_look (session_delete_journal X c) d (''session_delete_request:'' @ request_id)"

lemma session_delete_key:
  "journal_key (session_delete_journal X c) r = ''session_delete_request:'' @ sdr_request_id r"
  by (simp add: journal_key_def session_delete_journal_def)

lemma session_delete_codec [simp]: "j_codec (session_delete_journal X c) = c"
  by (simp add: session_delete_journal_def)

lemma delete_look_record: "delete_look X c = record_look (session_delete_journal X c)"
  by (simp add: delete_look_def record_look_def session_delete_journal_def fun_eq_iff)

lemma session_delete_request_id [simp]: "j_request_id (session_delete_journal X c) = sdr_request_id"
  by (simp add: session_delete_journal_def)

lemma delete_reserve_look:
  assumes "serde_lawful c" and "kv_invar d" and "reserve_session_delete X c f r d = (Ok True, d')"
  shows "delete_look X c d (sdr_request_id r) = None" and "kv_invar d'"
    and "delete_look X c d' = (delete_look X c d)(sdr_request_id r \<mapsto> r)"
  using delete.reserve_look [OF _ assms(2) assms(3) [unfolded delete_ops]] assms(1) by (simp_all add: delete_look_record)

lemma delete_update_look:
  assumes "serde_lawful c" and "kv_invar d" and "update_session_delete X c f r r' d = (Ok True, d')"
  shows "delete_look X c d (sdr_request_id r) = Some r" and "delete_ident r' = delete_ident r" and "kv_invar d'"
    and "delete_look X c d' = (delete_look X c d)(sdr_request_id r \<mapsto> r')"
  using delete.update_look [OF _ assms(2) assms(3) [unfolded delete_ops]] assms(1) by (simp_all add: delete_look_record)

section \<open>Properties\<close>

text \<open>
  The deletion journal keeps what was frozen: over any sequence of reservations and
  updates, with any storage failures, a recorded request stays recorded, and the account, the
  session collection, its digests and every other identity field of the record never change.
\<close>

lemma delete_identity_kept:
  assumes "serde_lawful c" and "kv_invar d"
    and "run_ops (reserve_session_delete X c) (update_session_delete X c) ops d = (results, d')"
    and "delete_look X c d request_id = Some r"
  shows "\<exists>r'. delete_look X c d' request_id = Some r' \<and> delete_same_identity r r'"
proof -
  let ?J = "session_delete_journal X c"
  have "journal_invar ?J d" using assms(1,2) by (simp add: journal_invar_def)
  from delete.cj.run_ops_keeps [OF this assms(3) [unfolded delete_ops],
      of "''session_delete_request:'' @ request_id"] assms(4)
  show ?thesis by (auto simp: delete_look_def delete_same_identity_iff)
qed

definition sample_selection :: session_delete_selection where
  "sample_selection = \<lparr>del_tool_type = ''claude'', del_statuses = [''failed''], del_project_key = None\<rparr>"

definition sample_delete :: session_delete_record where
  "sample_delete =
     \<lparr>sdr_home = ''/h'', sdr_server_url = ''https://s'', sdr_user_id = sample_digest,
      sdr_request_id = sample_id 1, sdr_tool_type = ''claude'', sdr_session_ids = [sample_id 2],
      sdr_selection = sample_selection, sdr_selection_digest = sample_digest,
      sdr_intent_fingerprint = sample_digest, sdr_reason = ''user_requested'', sdr_phase = ''prepared'',
      sdr_delete_task_id = None, sdr_delete_task_record_id = None, sdr_task_status = None,
      sdr_deleted_session_ids = [], sdr_session_statuses = [], sdr_session_contexts = [],
      sdr_session_deleted = False, sdr_result_status = None, sdr_last_observation = None\<rparr>"

definition sample_delete_codec :: "session_delete_record codec" where
  "sample_delete_codec =
     table_codec [(sample_delete, ''1''), (sample_delete\<lparr>sdr_phase := ''unknown''\<rparr>, ''2'')]"

lemma sample_delete_lawful [simp]: "serde_lawful sample_delete_codec"
  by (simp add: sample_delete_codec_def table_codec_lawful)

lemma sample_delete_valid [simp]:
  "validate_session_delete sample_crates sample_delete None = Ok ()"
  "validate_session_delete sample_crates (sample_delete\<lparr>sdr_phase := ''unknown''\<rparr>) (Some sample_delete) = Ok ()"
  by (simp_all add: validate_session_delete_def delete_record_ok_def sample_delete_def
      sample_selection_def delete_phases_def delete_same_identity_def http_url_def valid_text_def
      has_control_def chars_def is_control_def utf8_width_def starts_with_def path_is_absolute_def)

definition delete_db :: db where
  "delete_db = created_db\<lparr>db_kv := [(''session_delete_request:'' @ sample_id 1, ''1'')]\<rparr>"

end
