(* ===== verification/Identifiers.thy ===== *)
theory Identifiers
  imports Prelude
begin

text \<open>
  Abbreviated identifiers (\<open>src/identifiers.rs\<close>): a user may name an object by a prefix of
  its hexadecimal UUID, in any case and with or without dashes. The theory holds the
  normalisation and the matching, and shows that a match is never a guess: it is unique and
  independent of how the reference is spelled.
\<close>

section \<open>Operations\<close>

datatype id_match = Unique string | NotFound | Ambiguous

definition short_id :: "string \<Rightarrow> string" where
  "short_id value = concat (take 12 (filter (\<lambda>c. c \<noteq> ''-'') (utf8_split value)))"

definition normalize_id :: "string \<Rightarrow> string \<Rightarrow> (string, string) result" where
  "normalize_id value kind =
     (let normalized = to_ascii_lowercase (filter (\<lambda>c. c \<noteq> CHR ''-'') value) in
      if normalized = [] \<or> length normalized > 32 \<or> \<not> list_all is_ascii_hexdigit normalized
      then Err (''invalid '' @ kind @ '' ID: '' @ value)
      else Ok normalized)"

definition id_matches :: "string \<Rightarrow> string \<Rightarrow> string \<Rightarrow> bool" where
  "id_matches kind normalized identifier =
     (case normalize_id identifier kind of
        Ok i \<Rightarrow> starts_with normalized i
      | Err _ \<Rightarrow> False)"

definition match_id :: "string \<Rightarrow> string \<Rightarrow> string list \<Rightarrow> (id_match, string) result" where
  "match_id reference kind identifiers =
     (case normalize_id reference kind of
        Err e \<Rightarrow> Err e
      | Ok normalized \<Rightarrow>
          if length normalized < 4
          then Err (kind @ '' ID prefix must contain at least 4 hexadecimal characters'')
          else (case filter (id_matches kind normalized) identifiers of
                  [identifier] \<Rightarrow> Ok (Unique identifier)
                | [] \<Rightarrow> Ok NotFound
                | _ \<Rightarrow> Ok Ambiguous))"

definition resolve_id :: "string \<Rightarrow> string \<Rightarrow> string list \<Rightarrow> (string, string) result" where
  "resolve_id reference kind identifiers =
     (case match_id reference kind identifiers of
        Err e \<Rightarrow> Err e
      | Ok (Unique identifier) \<Rightarrow> Ok identifier
      | Ok NotFound \<Rightarrow> Err (''no '' @ kind @ '' matches ID prefix '' @ reference)
      | Ok Ambiguous \<Rightarrow>
          Err (kind @ '' ID prefix '' @ reference @ '' is ambiguous; use more characters''))"

section \<open>Normalisation\<close>

lemma lowercase_idem: "is_ascii_uppercase c \<Longrightarrow> \<not> is_ascii_uppercase (char_of (byte c + 32))"
  by (auto simp: is_ascii_uppercase_def)

lemma lowercase_not_dash: "is_ascii_uppercase c \<Longrightarrow> char_of (byte c + 32) \<noteq> CHR ''-''"
proof
  assume u: "is_ascii_uppercase c" and "char_of (byte c + 32) = CHR ''-''"
  then have "byte (char_of (byte c + 32) :: char) = byte CHR ''-''" by simp
  with u show False by (simp add: is_ascii_uppercase_def)
qed

lemma to_ascii_lowercase_idem: "to_ascii_lowercase (to_ascii_lowercase s) = to_ascii_lowercase s"
  by (auto simp: to_ascii_lowercase_def lowercase_idem)

lemma normalize_id_Ok:
  "normalize_id v k = Ok n \<longleftrightarrow>
     n = to_ascii_lowercase (filter (\<lambda>c. c \<noteq> CHR ''-'') v) \<and> n \<noteq> [] \<and> length n \<le> 32 \<and>
     list_all is_ascii_hexdigit n"
  by (auto simp: normalize_id_def Let_def)

lemma to_ascii_lowercase_no_dash:
  "CHR ''-'' \<notin> set v \<Longrightarrow> CHR ''-'' \<notin> set (to_ascii_lowercase v)"
  by (auto simp: to_ascii_lowercase_def image_iff split: if_splits)
     (metis lowercase_not_dash)

text \<open>A normalised identifier is its own normal form: spelling is settled in one pass.\<close>

lemma normalize_id_idem:
  assumes "normalize_id v k = Ok n"
  shows "normalize_id n k' = Ok n"
proof -
  let ?w = "filter (\<lambda>c. c \<noteq> CHR ''-'') v"
  from assms have n: "n = to_ascii_lowercase ?w" and
    ok: "n \<noteq> []" "length n \<le> 32" "list_all is_ascii_hexdigit n"
    unfolding normalize_id_Ok by blast+
  have "CHR ''-'' \<notin> set n"
    unfolding n by (rule to_ascii_lowercase_no_dash) simp
  then have "filter (\<lambda>c. c \<noteq> CHR ''-'') n = n"
    by (intro filter_True ballI) metis
  with n ok show ?thesis
    by (simp add: normalize_id_Ok to_ascii_lowercase_idem)
qed

section \<open>Matching\<close>

lemma match_id_cases:
  "match_id r k ids = Ok m \<Longrightarrow>
     \<exists>n. normalize_id r k = Ok n \<and> 4 \<le> length n \<and>
         (m = Unique x \<longrightarrow> filter (id_matches k n) ids = [x])"
  by (auto simp: match_id_def split: result.splits if_splits list.splits)

lemma filter_singleton_unique:
  "filter p xs = [x] \<Longrightarrow> x \<in> set xs \<and> p x \<and> (\<forall>y \<in> set xs. p y \<longrightarrow> y = x)"
proof -
  assume f: "filter p xs = [x]"
  then have "set (filter p xs) = {x}" by simp
  then show ?thesis by auto
qed

text \<open>
  A reference that resolves has at least four hexadecimal digits, the identifier it
  resolves to is one of those offered, and it is the only one offered that has the reference
  as a prefix: the client never picks among candidates.
\<close>

lemma resolve_id_unique:
  assumes "resolve_id reference kind ids = Ok x"
  shows "x \<in> set ids \<and>
    (\<exists>n. normalize_id reference kind = Ok n \<and> 4 \<le> length n \<and> id_matches kind n x \<and>
         (\<forall>y \<in> set ids. id_matches kind n y \<longrightarrow> y = x))"
proof -
  from assms have "match_id reference kind ids = Ok (Unique x)"
    by (auto simp: resolve_id_def split: result.splits id_match.splits)
  from match_id_cases [OF this] obtain n where
    n: "normalize_id reference kind = Ok n" "4 \<le> length n"
    and f: "filter (id_matches kind n) ids = [x]"
    by auto
  from filter_singleton_unique [OF f] n show ?thesis by blast
qed

text \<open>
  Matching does not depend on the spelling of the reference: any two references with the
  same normal form, whatever their dashes and letter case, give the same match.
\<close>

lemma match_id_spelling:
  assumes "normalize_id r k = Ok n" and "normalize_id r' k = Ok n"
  shows "match_id r k ids = match_id r' k ids \<and> match_id r k ids = match_id n k ids"
proof -
  from assms(1) have "normalize_id n k = Ok n" by (rule normalize_id_idem)
  with assms show ?thesis by (simp add: match_id_def)
qed

end
