(* ===== verification/Session_Delete.thy ===== *)
theory Session_Delete
  imports Session_Delete_Journal Identifiers
begin

text \<open>
  Deletion of a frozen session collection (\<open>session_delete.rs\<close>): selection, submission with
  the journal written before the POST, and observation of a submitted request by GET.
\<close>

section \<open>Selection\<close>

definition deletable_statuses :: "string list" where
  "deletable_statuses = [''failed'', ''interrupted'', ''stopped'']"

definition deletable :: "string \<Rightarrow> session_data \<Rightarrow> bool" where
  "deletable tool_type s \<longleftrightarrow> sd_tool_type s = tool_type \<and> sd_status s \<in> set deletable_statuses"

definition delete_resolve_id :: "string \<Rightarrow> string list \<Rightarrow> (string, failure) result" where
  "delete_resolve_id reference ids =
     (case match_id reference ''Claude session'' ids of
        Err e \<Rightarrow> Err (Bail e)
      | Ok (Unique i) \<Rightarrow> Ok i
      | Ok NotFound \<Rightarrow> Err (Bail (''no Claude session matches `'' @ reference @ ''`''))
      | Ok Ambiguous \<Rightarrow> Err (Bail (''Claude session reference `'' @ reference @ ''` is ambiguous'')))"

definition select_sessions :: "session_data list \<Rightarrow> string option \<Rightarrow> (session_data list, failure) result" where
  "select_sessions sessions reference =
     (case reference of
        None \<Rightarrow> Ok sessions
      | Some ref \<Rightarrow>
          (case delete_resolve_id ref (map sd_id sessions) of
             Err e \<Rightarrow> Err e
           | Ok i \<Rightarrow> Ok (filter (\<lambda>s. sd_id s = i) sessions)))"

definition freeze_selection ::
  "session_data list \<Rightarrow> string \<Rightarrow> string option \<Rightarrow> (session_data list, failure) result" where
  "freeze_selection sessions tool_type reference =
     (case select_sessions sessions reference of
        Err e \<Rightarrow> Err e
      | Ok selected \<Rightarrow>
          if selected = [] then Err (Bail ''no deletable Claude sessions were found'')
          else if list_ex (\<lambda>s. \<not> deletable tool_type s) selected
          then Err (Bail ''session is not in a deletable state'')
          else
            let frozen = dedup_by_key sd_id (sort_key sd_id selected) in
            if length frozen > 256 then Err (Bail ''session deletion collection is too large'')
            else Ok frozen)"

section \<open>Fingerprints\<close>

definition selection_json :: "session_delete_selection \<Rightarrow> json" where
  "selection_json s =
     JObject [(''tool_type'', JString (del_tool_type s)),
              (''statuses'', JArray (map JString (del_statuses s))),
              (''project_key'', json_opt (del_project_key s))]"

definition selection_digest :: "crates \<Rightarrow> string \<Rightarrow> string list \<Rightarrow> session_delete_selection \<Rightarrow> string" where
  "selection_digest X tool_type session_ids selection =
     json_digest X
       (JObject [(''schema_version'', JNumber ''1''),
                 (''tool_type'', JString tool_type),
                 (''session_ids'', JArray (map JString session_ids)),
                 (''selection'', selection_json selection)])"

definition delete_intent_fingerprint ::
  "crates \<Rightarrow> string \<Rightarrow> string list \<Rightarrow> session_delete_selection \<Rightarrow> string \<Rightarrow> string" where
  "delete_intent_fingerprint X tool_type session_ids selection reason =
     json_digest X
       (JObject [(''schema_version'', JNumber ''1''),
                 (''tool_type'', JString tool_type),
                 (''session_ids'', JArray (map JString session_ids)),
                 (''selection'', selection_json selection),
                 (''reason'', JString reason)])"

section \<open>Records and receipts\<close>

definition delete_original ::
  "crates \<Rightarrow> host \<Rightarrow> string \<Rightarrow> string \<Rightarrow> session_delete_request \<Rightarrow> session_delete_record" where
  "delete_original X H server_url token q =
     \<lparr>sdr_home = h_home H, sdr_server_url = server_url, sdr_user_id = authenticated_scope X token,
      sdr_request_id = drq_request_id q, sdr_tool_type = drq_tool_type q,
      sdr_session_ids = drq_session_ids q, sdr_selection = drq_selection q,
      sdr_selection_digest = drq_selection_digest q,
      sdr_intent_fingerprint = drq_intent_fingerprint q, sdr_reason = drq_reason q,
      sdr_phase = ''prepared'', sdr_delete_task_id = None, sdr_delete_task_record_id = None,
      sdr_task_status = None, sdr_deleted_session_ids = [], sdr_session_statuses = [],
      sdr_session_contexts = [], sdr_session_deleted = False, sdr_result_status = None,
      sdr_last_observation = None\<rparr>"

definition delete_record_from_receipt ::
  "session_delete_record \<Rightarrow> session_delete_receipt \<Rightarrow> session_delete_record" where
  "delete_record_from_receipt original receipt =
     original\<lparr>sdr_phase := dr_phase receipt,
       sdr_delete_task_id := dr_delete_task_id receipt,
       sdr_delete_task_record_id := dr_delete_task_record_id receipt,
       sdr_task_status := dr_task_status receipt,
       sdr_deleted_session_ids := dr_deleted_session_ids receipt,
       sdr_session_statuses := dr_session_statuses receipt,
       sdr_session_contexts := dr_session_contexts receipt,
       sdr_session_deleted := dr_session_deleted receipt,
       sdr_result_status := dr_result_status receipt,
       sdr_last_observation := option_or (dr_error_code receipt) (dr_observed_at receipt)\<rparr>"

definition delete_receipt_from_record :: "session_delete_record \<Rightarrow> session_delete_receipt" where
  "delete_receipt_from_record r =
     \<lparr>dr_schema_version = 1, dr_request_id = sdr_request_id r, dr_phase = sdr_phase r,
      dr_tool_type = sdr_tool_type r, dr_session_ids = sdr_session_ids r,
      dr_selection = sdr_selection r, dr_selection_digest = sdr_selection_digest r,
      dr_intent_fingerprint = sdr_intent_fingerprint r, dr_reason = sdr_reason r,
      dr_delete_task_id = sdr_delete_task_id r,
      dr_delete_task_record_id = sdr_delete_task_record_id r, dr_task_status = sdr_task_status r,
      dr_deleted_session_ids = sdr_deleted_session_ids r,
      dr_session_statuses = sdr_session_statuses r, dr_session_contexts = sdr_session_contexts r,
      dr_session_deleted = sdr_session_deleted r, dr_observed_at = None,
      dr_error_code = sdr_last_observation r, dr_result_status = sdr_result_status r,
      dr_collection_mismatch = False, dr_retention_blockers = []\<rparr>"

definition delete_is_terminal :: "session_delete_receipt \<Rightarrow> bool" where
  "delete_is_terminal r \<longleftrightarrow>
     dr_session_deleted r \<or> dr_phase r = ''deleted'' \<or>
     (length (dr_session_ids r) = length (dr_deleted_session_ids r) \<and>
      list_all (\<lambda>i. i \<in> set (dr_deleted_session_ids r)) (dr_session_ids r))"

definition delete_is_failed :: "session_delete_receipt \<Rightarrow> bool" where
  "delete_is_failed r \<longleftrightarrow>
     dr_phase r \<in> {''failed'', ''rejected''} \<or>
     is_some_and (\<lambda>s. s \<in> {''failed'', ''cancelled'', ''expired''}) (dr_task_status r) \<or>
     dr_collection_mismatch r \<or> dr_retention_blockers r \<noteq> []"

definition delete_validate_binding ::
  "crates \<Rightarrow> session_delete_record \<Rightarrow> session_delete_receipt \<Rightarrow> (unit, failure) result" where
  "delete_validate_binding X record receipt =
     ensure
      (dr_schema_version receipt = 1 \<and>
       dr_request_id receipt = sdr_request_id record \<and>
       dr_tool_type receipt = sdr_tool_type record \<and>
       dr_session_ids receipt = sdr_session_ids record \<and>
       dr_selection receipt = sdr_selection record \<and>
       dr_selection_digest receipt = sdr_selection_digest record \<and>
       dr_intent_fingerprint receipt = sdr_intent_fingerprint record \<and>
       dr_reason receipt = sdr_reason record \<and>
       list_all (\<lambda>i. i \<in> set (sdr_session_ids record)) (dr_deleted_session_ids receipt) \<and>
       list_all (\<lambda>i. i \<in> set (sdr_session_ids record)) (map fst (dr_session_statuses receipt)) \<and>
       valid_contexts X (dr_session_contexts receipt) (sdr_session_ids record))
      (Bail ''session deletion response differs from the frozen collection'')"

section \<open>Submission\<close>

text \<open>The classification of a failed submission and the record it leaves.\<close>

definition delete_definite :: "api_error \<Rightarrow> bool" where
  "delete_definite e \<longleftrightarrow>
     ae_code e = Some ''SESSION_DELETE_INVALID_REQUEST'' \<or>
     is_some_and (\<lambda>s. 400 \<le> s \<and> s < 500 \<and> s \<noteq> 408 \<and> s \<noteq> 429) (ae_status e)"

definition delete_failed_record :: "session_delete_record \<Rightarrow> api_error \<Rightarrow> session_delete_record" where
  "delete_failed_record original e =
     original\<lparr>sdr_phase := (if delete_definite e then ''rejected'' else ''unknown''),
       sdr_last_observation :=
         Some (case ae_code e of None \<Rightarrow> ''SESSION_DELETE_SUBMISSION_UNKNOWN'' | Some c \<Rightarrow> c)\<rparr>"

text \<open>
  The POST and the record of its outcome, once the key is reserved. \<open>other\<close> is what other
  processes do to the database while the request is on the network.
\<close>

definition post_delete_request ::
  "crates \<Rightarrow> session_delete_record codec \<Rightarrow> session_delete_receipt decoders \<Rightarrow>
     session_delete_request network \<Rightarrow> faults \<Rightarrow> (db \<Rightarrow> db) \<Rightarrow> session_delete_record \<Rightarrow>
     session_delete_request \<Rightarrow> db \<Rightarrow>
     (session_delete_receipt \<times> session_delete_record, failure) result \<times> db \<times>
     session_delete_request http_request list" where
  "post_delete_request X c D net f other original q d =
     (case delete_tool_sessions_with_caller_key X D net q of
        (Ok receipt, log) \<Rightarrow>
          let new = delete_record_from_receipt original receipt in
          (case update_session_delete X c f original new (other d) of
             (Err e, d') \<Rightarrow> (Err e, d', log)
           | (Ok False, d') \<Rightarrow>
               (Err (Bail ''session deletion journal changed while submitting''), d', log)
           | (Ok True, d') \<Rightarrow> (Ok (receipt, new), d', log))
      | (Err e, log) \<Rightarrow>
          let new = delete_failed_record original e;
              d' = snd (update_session_delete X c f original new (other d))
          in (Err (if delete_definite e then ApiErr e else SubmissionUnknown (sdr_request_id original)),
              d', log))"

definition submit_delete_request ::
  "crates \<Rightarrow> session_delete_record codec \<Rightarrow> session_delete_receipt decoders \<Rightarrow> host \<Rightarrow>
     session_delete_request network \<Rightarrow> submit_faults \<Rightarrow> (db \<Rightarrow> db) \<Rightarrow> string \<Rightarrow> string \<Rightarrow>
     session_delete_request \<Rightarrow> db \<Rightarrow>
     (session_delete_receipt \<times> session_delete_record, failure) result \<times> db \<times>
     session_delete_request http_request list" where
  "submit_delete_request X c D H net F other server_url token q d =
     (let original = delete_original X H server_url token q in
      case open_state H of
        Err e \<Rightarrow> (Err e, d, [])
      | Ok _ \<Rightarrow>
          (case init_schema (sf_init F) d of
             (Err e, d1) \<Rightarrow> (Err e, d1, [])
           | (Ok _, d1) \<Rightarrow>
               (case reserve_session_delete X c (sf_reserve F) original d1 of
                  (Err e, d2) \<Rightarrow> (Err e, d2, [])
                | (Ok False, d2) \<Rightarrow>
                    (Err (Bail ''a session deletion request for this caller key is already recorded''), d2, [])
                | (Ok True, d2) \<Rightarrow>
                    post_delete_request X c D net (sf_update F) other original q d2)))"

definition delete_selection :: "string \<Rightarrow> session_delete_selection" where
  "delete_selection tool_type =
     \<lparr>del_tool_type = tool_type, del_statuses = deletable_statuses, del_project_key = None\<rparr>"

definition build_delete_request ::
  "crates \<Rightarrow> string \<Rightarrow> string \<Rightarrow> string list \<Rightarrow> session_delete_request" where
  "build_delete_request X request_id tool_type ids =
     \<lparr>drq_schema_version = 1, drq_request_id = request_id, drq_tool_type = tool_type,
      drq_session_ids = ids, drq_selection = delete_selection tool_type,
      drq_selection_digest = selection_digest X tool_type ids (delete_selection tool_type),
      drq_intent_fingerprint =
        delete_intent_fingerprint X tool_type ids (delete_selection tool_type) ''user_requested'',
      drq_reason = ''user_requested''\<rparr>"

text \<open>\<open>request_id\<close> is the fresh UUID the call generates.\<close>

definition submit_delete ::
  "crates \<Rightarrow> session_delete_record codec \<Rightarrow> session_delete_receipt decoders \<Rightarrow> host \<Rightarrow>
     session_delete_request network \<Rightarrow> submit_faults \<Rightarrow> (db \<Rightarrow> db) \<Rightarrow> string \<Rightarrow> string \<Rightarrow> string \<Rightarrow>
     string \<Rightarrow> session_data list \<Rightarrow> db \<Rightarrow>
     (session_delete_receipt \<times> session_delete_record, failure) result \<times> db \<times>
     session_delete_request http_request list" where
  "submit_delete X c D H net F other server_url token tool_type request_id sessions d =
     (if sessions = [] then (Err (Bail ''session deletion collection cannot be empty''), d, [])
      else
        let ids = dedup_by_key (\<lambda>i. i) (sort (map sd_id sessions)) in
        if length ids \<noteq> length sessions \<or> length ids > 256
        then (Err (Bail ''session deletion collection is invalid''), d, [])
        else if list_ex (\<lambda>s. \<not> deletable tool_type s) sessions
        then (Err (Bail ''session deletion collection contains a non-deletable session''), d, [])
        else submit_delete_request X c D H net F other server_url token
               (build_delete_request X request_id tool_type ids) d)"

section \<open>Observation\<close>

definition persist_delete ::
  "crates \<Rightarrow> session_delete_record codec \<Rightarrow> session_delete_record option \<Rightarrow> session_delete_receipt \<Rightarrow>
     host \<Rightarrow> faults \<Rightarrow> db \<Rightarrow> (unit, failure) result \<times> db" where
  "persist_delete X c original receipt H f d =
     (case original of
        None \<Rightarrow> (Ok (), d)
      | Some record \<Rightarrow>
          (case delete_validate_binding X record receipt of
             Err e \<Rightarrow> (Err e, d)
           | Ok _ \<Rightarrow>
               (case open_state H of
                  Err e \<Rightarrow> (Err e, d)
                | Ok _ \<Rightarrow>
                    (case update_session_delete X c f record (delete_record_from_receipt record receipt) d of
                       (Err e, d') \<Rightarrow> (Err e, d')
                     | (Ok _, d') \<Rightarrow> (Ok (), d')))))"

text \<open>The polling loop over the rounds that happen; \<open>None\<close> while it is still waiting.\<close>

fun observe_delete_loop ::
  "crates \<Rightarrow> session_delete_record codec \<Rightarrow> session_delete_receipt decoders \<Rightarrow>
     session_delete_record option \<Rightarrow> string \<Rightarrow> bool \<Rightarrow> poll list \<Rightarrow> session_delete_receipt option \<Rightarrow> db \<Rightarrow>
     ((session_delete_receipt, failure) result \<times> db) option" where
  "observe_delete_loop X c D original request_id wait [] latest d = None"
| "observe_delete_loop X c D original request_id wait (Interrupted # polls) latest d =
     Some (observe_exit 130 latest, d)"
| "observe_delete_loop X c D original request_id wait (TimedOut # polls) latest d =
     Some (observe_exit 3 latest, d)"
| "observe_delete_loop X c D original request_id wait (Answered outcome H f stop # polls) latest d =
     (case get_tool_session_delete_request X D (\<lambda>_. outcome) request_id of
        (Err e, _) \<Rightarrow> Some (Err (ApiErr e), d)
      | (Ok receipt, _) \<Rightarrow>
          (case persist_delete X c original receipt H f d of
             (Err e, d') \<Rightarrow> Some (Err e, d')
           | (Ok _, d') \<Rightarrow>
               if \<not> wait \<or> delete_is_terminal receipt \<or> delete_is_failed receipt
               then Some (observe_exit (if \<not> wait \<or> delete_is_terminal receipt then 0 else 1) (Some receipt), d')
               else if stop then Some (observe_exit 130 (Some receipt), d')
               else observe_delete_loop X c D original request_id wait polls (Some receipt) d'))"

definition observe_delete ::
  "crates \<Rightarrow> session_delete_record codec \<Rightarrow> session_delete_receipt decoders \<Rightarrow> host \<Rightarrow> faults \<Rightarrow>
     string \<Rightarrow> bool \<Rightarrow> poll list \<Rightarrow> db \<Rightarrow> ((session_delete_receipt, failure) result \<times> db) option" where
  "observe_delete X c D H f request_id wait polls d =
     (if \<not> canonical_uuid X request_id
      then Some (Err (Bail ''delete request ID must be a canonical non-zero UUID''), d)
      else case session_delete_records X c H f d of
        Err e \<Rightarrow> Some (Err e, d)
      | Ok records \<Rightarrow>
          observe_delete_loop X c D (find (\<lambda>r. sdr_request_id r = request_id) records)
            request_id wait polls None d)"

section \<open>Selection: properties\<close>

lemma freeze_selection_Ok:
  assumes "freeze_selection sessions tool_type reference = Ok frozen"
  obtains selected where "select_sessions sessions reference = Ok selected"
    "selected \<noteq> []" "\<forall>s \<in> set selected. deletable tool_type s"
    "frozen = dedup_by_key sd_id (sort_key sd_id selected)" "length frozen \<le> 256"
  using assms
  by (auto simp: freeze_selection_def Let_def list_ex_iff split: result.splits if_splits)

lemma select_sessions_subset: "select_sessions sessions reference = Ok selected \<Longrightarrow> set selected \<subseteq> set sessions"
  by (auto simp: select_sessions_def split: option.splits result.splits)

lemma frozen_facts:
  assumes "freeze_selection sessions tool_type reference = Ok frozen"
  shows "frozen \<noteq> []" and "set frozen \<subseteq> set sessions" and "strictly_ascending (map sd_id frozen)"
    and "\<forall>s \<in> set frozen. deletable tool_type s" and "length frozen \<le> 256"
    and "reference = None \<Longrightarrow> sd_id ` set frozen = sd_id ` set sessions"
proof -
  from assms obtain selected where s: "select_sessions sessions reference = Ok selected"
    "selected \<noteq> []" "\<forall>s \<in> set selected. deletable tool_type s"
    and f: "frozen = dedup_by_key sd_id (sort_key sd_id selected)" and l: "length frozen \<le> 256"
    by (rule freeze_selection_Ok)
  have sub: "set frozen \<subseteq> set selected" using dedup_by_key_subset [of sd_id] by (fastforce simp: f)
  have keys: "sd_id ` set frozen = sd_id ` set selected" by (simp add: f dedup_by_key_keys)
  show "frozen \<noteq> []" using keys s(2) by auto
  show "set frozen \<subseteq> set sessions" using sub select_sessions_subset [OF s(1)] by blast
  show "strictly_ascending (map sd_id frozen)" by (simp add: f dedup_by_key_ascending)
  show "\<forall>s \<in> set frozen. deletable tool_type s" using sub s(3) by blast
  show "length frozen \<le> 256" by (rule l)
  show "sd_id ` set frozen = sd_id ` set sessions" if "reference = None"
    using that s(1) keys by (simp add: select_sessions_def)
qed

lemma submit_frozen:
  assumes "freeze_selection sessions tool_type reference = Ok frozen"
  shows "submit_delete X c D H net F other server_url token tool_type request_id frozen d =
    submit_delete_request X c D H net F other server_url token
      (build_delete_request X request_id tool_type (map sd_id frozen)) d"
proof -
  note f = frozen_facts [OF assms]
  have "sorted (map sd_id frozen)" "distinct (map sd_id frozen)"
    using f(3) by (simp_all add: strictly_ascending_sorted)
  then have "dedup_by_key (\<lambda>i. i) (sort (map sd_id frozen)) = map sd_id frozen"
    by (simp add: sorted_sort_id dedup_by_key_id)
  moreover have "\<not> list_ex (\<lambda>s. \<not> deletable tool_type s) frozen" using f(4) by (simp add: list_ex_iff)
  ultimately show ?thesis using f(1,5) by (simp add: submit_delete_def Let_def)
qed

text \<open>
  What is frozen is what is submitted: the frozen collection is non-empty, strictly sorted,
  within the bound, consists of listed sessions of the tool in a deletable state, covers
  every listed session when no reference is given, and submitting it sends a request for
  exactly its ids.
\<close>

lemma frozen_collection_submitted:
  assumes "freeze_selection sessions tool_type reference = Ok frozen"
  shows "frozen \<noteq> [] \<and> length frozen \<le> 256 \<and> strictly_ascending (map sd_id frozen) \<and>
    set frozen \<subseteq> {s \<in> set sessions. sd_tool_type s = tool_type \<and> sd_status s \<in> set deletable_statuses} \<and>
    (reference = None \<longrightarrow> sd_id ` set frozen = sd_id ` set sessions) \<and>
    submit_delete X c D H net F other server_url token tool_type request_id frozen d =
      submit_delete_request X c D H net F other server_url token
        (build_delete_request X request_id tool_type (map sd_id frozen)) d"
  using frozen_facts [OF assms] submit_frozen [OF assms] by (auto simp: deletable_def)

definition sample_session :: "nat \<Rightarrow> session_data" where
  "sample_session n =
     \<lparr>sd_id = sample_id n, sd_tool_type = ''claude'', sd_user_id = sample_id 1,
      sd_tool_account_id = sample_id 1, sd_workspace_id = sample_id 1,
      sd_workspace_local_path = None, sd_workspace_remote_path = None, sd_node_id = sample_id 1,
      sd_project_key = ''p'', sd_status = ''stopped'', sd_tmux_session_name = None,
      sd_container_id = None, sd_runtime_backend = ''tmux'', sd_runtime_resource_id = None,
      sd_replaces_session_id = None, sd_create_task_id = None, sd_stop_task_id = None,
      sd_skill_finalization_operation_id = None, sd_created_at = ''t'', sd_updated_at = ''t''\<rparr>"

lemma freeze_sample:
  "freeze_selection [sample_session 3, sample_session 2, sample_session 3] ''claude'' None =
     Ok [sample_session 2, sample_session 3]"
  by (simp add: freeze_selection_def select_sessions_def deletable_def deletable_statuses_def
      sample_session_def sample_id_def sample_stem_def less_char_def)

section \<open>Submission: properties\<close>

lemma delete_look_init: "init_schema f d = (r, d') \<Longrightarrow> delete_look X c d' = delete_look X c d"
  by (simp add: delete_look_def journal_look_def kv_look_def init_schema_kv fun_eq_iff)

text \<open>Either nothing was sent, or the key was free, is now reserved, and the rest is the POST.\<close>

lemma submit_delete_request_cases:
  assumes "submit_delete_request X c D H net F other server_url token q d = (r, d', log)"
    and "serde_lawful c" and "kv_invar d"
  defines "original \<equiv> delete_original X H server_url token q"
  shows "(is_ok r \<longrightarrow> log \<noteq> []) \<and> (log \<noteq> [] \<longrightarrow>
    (\<exists>d2. kv_invar d2 \<and> delete_look X c d (drq_request_id q) = None \<and>
       delete_look X c d2 = (delete_look X c d)(drq_request_id q \<mapsto> original) \<and>
       (r, d', log) = post_delete_request X c D net (sf_update F) other original q d2))"
proof (cases "open_state H")
  case (Err e)
  with assms(1) show ?thesis by (auto simp: submit_delete_request_def)
next
  case (Ok p)
  obtain x d1 where i: "init_schema (sf_init F) d = (x, d1)" by fastforce
  obtain y d2 where res: "reserve_session_delete X c (sf_reserve F) original d1 = (y, d2)" by fastforce
  have id: "sdr_request_id original = drq_request_id q" by (simp add: original_def delete_original_def)
  show ?thesis
  proof (cases "x = Ok () \<and> y = Ok True")
    case True
    have "kv_invar d1" using assms(3) kv_invar_init [OF i] by simp
    note look = delete_reserve_look [OF assms(2) this, of X "sf_reserve F" original d2]
    have "(r, d', log) = post_delete_request X c D net (sf_update F) other original q d2"
      using assms(1) Ok i res True by (simp add: submit_delete_request_def original_def)
    moreover from this have "log \<noteq> []" if "is_ok r"
      using that by (auto simp: post_delete_request_def delete_tool_sessions_with_caller_key_def Let_def
          split: prod.splits result.splits bool.splits)
    ultimately show ?thesis using look res True id by (auto simp: delete_look_init [OF i])
  next
    case False
    with assms(1) Ok i res show ?thesis
      by (cases x; cases y) (auto simp: submit_delete_request_def original_def Let_def split: bool.splits)
  qed
qed

text \<open>Other clients of the journal: any sequence of reservations and updates of theirs.\<close>

definition delete_clients ::
  "crates \<Rightarrow> session_delete_record codec \<Rightarrow> (faults, session_delete_record) journal_op list \<Rightarrow> db \<Rightarrow> db" where
  "delete_clients X c ops d = snd (run_ops (reserve_session_delete X c) (update_session_delete X c) ops d)"

lemma delete_clients_keep:
  assumes "serde_lawful c" and "kv_invar d" and "delete_look X c d i = Some r"
  shows "kv_invar (delete_clients X c ops d)"
    and "\<exists>r'. delete_look X c (delete_clients X c ops d) i = Some r' \<and> delete_ident r' = delete_ident r"
  using delete.clients_keep [of X c d i r ops] assms
  by (simp_all add: delete_look_record delete_clients_def delete_ops)

lemma delete_update_keeps:
  assumes "serde_lawful c" and "kv_invar d" and "delete_look X c d i = Some r"
    and "update_session_delete X c f s s' d = (x, d')"
  shows "\<exists>r'. delete_look X c d' i = Some r' \<and> delete_ident r' = delete_ident r"
  using delete_clients_keep(2) [OF assms(1-3), of "[Update f s s']"] assms(4)
  by (simp add: delete_clients_def)

text \<open>
  C2. The journal is written before the POST and outlives it: whenever a submission sends
  anything, it sends one request, the POST of exactly the given frozen body; its caller key was
  free before, and whatever the server answers, whatever the storage does and whatever other
  clients do meanwhile, the key afterwards still holds a record with the submitted identity.
\<close>

theorem submit_delete_journaled:
  assumes "submit_delete_request X c D H net F (delete_clients X c ops) server_url token q d = (r, d', log)"
    and "serde_lawful c" and "kv_invar d" and "log \<noteq> []"
  shows "log = [HttpPost ''/api/v1/sessions/delete-requests'' q] \<and>
    delete_look X c d (drq_request_id q) = None \<and>
    (\<exists>r'. delete_look X c d' (drq_request_id q) = Some r' \<and>
          delete_same_identity (delete_original X H server_url token q) r')"
proof -
  let ?o = "delete_original X H server_url token q"
  from submit_delete_request_cases [OF assms(1-3)] assms(4) obtain d2 where
    inv: "kv_invar d2" and free: "delete_look X c d (drq_request_id q) = None"
    and look: "delete_look X c d2 (drq_request_id q) = Some ?o"
    and post: "post_delete_request X c D net (sf_update F) (delete_clients X c ops) ?o q d2 = (r, d', log)"
    by auto
  from delete_clients_keep [OF assms(2) inv look, of ops] obtain r1 where
    inv1: "kv_invar (delete_clients X c ops d2)" and r1:
    "delete_look X c (delete_clients X c ops d2) (drq_request_id q) = Some r1"
    "delete_ident r1 = delete_ident ?o" by auto
  obtain s' x where u: "update_session_delete X c (sf_update F) ?o s' (delete_clients X c ops d2) = (x, d')"
    using post by (auto simp: post_delete_request_def Let_def split: prod.splits result.splits bool.splits)
      (metis prod.collapse)
  from delete_update_keeps [OF assms(2) inv1 r1(1) u] r1(2) have
    "\<exists>r'. delete_look X c d' (drq_request_id q) = Some r' \<and> delete_same_identity ?o r'"
    by (auto simp: delete_same_identity_iff)
  moreover have "log = snd (delete_tool_sessions_with_caller_key X D net q)"
    using post by (auto simp: post_delete_request_def Let_def split: prod.splits result.splits bool.splits)
  ultimately show ?thesis using free assms(4) delete_submission_requests [of X D net q] by auto
qed

definition sample_delete_request :: session_delete_request where
  "sample_delete_request =
     \<lparr>drq_schema_version = 1, drq_request_id = sample_id 1, drq_tool_type = ''claude'',
      drq_session_ids = [sample_id 2], drq_selection = sample_selection,
      drq_selection_digest = sample_digest, drq_intent_fingerprint = sample_digest,
      drq_reason = ''user_requested''\<rparr>"

lemma sample_delete_original:
  "delete_original sample_crates sample_host ''https://s'' ''t'' sample_delete_request = sample_delete"
  by (simp add: delete_original_def sample_host_def sample_delete_request_def sample_delete_def
      authenticated_scope_def sample_crates_def sample_digest_def)

lemma sample_delete_request_valid: "validate_delete_request sample_crates sample_delete_request = Ok ()"
  by (simp add: validate_delete_request_def sample_delete_request_def sample_selection_def valid_text_def
      has_control_def chars_def is_control_def utf8_width_def)

lemma reserve_sample_delete:
  "to_json c sample_delete = Some ''1'' \<Longrightarrow>
   reserve_session_delete sample_crates c no_faults sample_delete (created_db\<lparr>db_user_version := 4\<rparr>) =
     (Ok True, created_db\<lparr>db_user_version := 4, db_kv := [(''session_delete_request:'' @ sample_id 1, ''1'')]\<rparr>)"
  by (simp add: delete_ops journal_eval session_delete_journal_def
      has_table_def [of "db_user_version_update _ _"] created_db_kv(1) [unfolded has_table_def])
    (simp add: sample_delete_def)

lemma sample_delete_json [simp]: "to_json sample_delete_codec sample_delete = Some ''1''"
  by (simp add: sample_delete_codec_def table_codec_def)

lemma submit_sample:
  "fst (submit_delete_request sample_crates sample_delete_codec D sample_host lost no_submit_faults
      (delete_clients sample_crates sample_delete_codec []) ''https://s'' ''t'' sample_delete_request fresh_db) =
     Err (SubmissionUnknown (sample_id 1))"
  "snd (snd (submit_delete_request sample_crates sample_delete_codec D sample_host lost no_submit_faults
      (delete_clients sample_crates sample_delete_codec []) ''https://s'' ''t'' sample_delete_request fresh_db)) =
     [HttpPost ''/api/v1/sessions/delete-requests'' sample_delete_request]"
  by (simp_all add: submit_delete_request_def no_submit_faults_def open_state_sample init_schema_fresh
      sample_delete_original reserve_sample_delete post_delete_request_def Let_def send_def lost_def
      delete_tool_sessions_with_caller_key_def sample_delete_request_valid delete_definite_def)
    (simp add: sample_delete_def)

definition sample_delete_receipt :: session_delete_receipt where
  "sample_delete_receipt =
     (delete_receipt_from_record sample_delete)\<lparr>dr_phase := ''accepted'',
       dr_session_contexts := [\<lparr>dc_session_id = sample_id 2, dc_tool_account_id = sample_id 3,
         dc_workspace_id = sample_id 4, dc_project_key = ''p'', dc_node_id = sample_id 5,
         dc_runtime_backend = ''tmux'', dc_runtime_resource_id = None\<rparr>]\<rparr>"

theorem submit_delete_journaled_witness:
  "\<exists>r'. delete_look sample_crates sample_delete_codec
      (fst (snd (submit_delete_request sample_crates sample_delete_codec (receipt_decoders sample_delete_receipt)
         sample_host lost no_submit_faults (delete_clients sample_crates sample_delete_codec []) ''https://s'' ''t''
         sample_delete_request fresh_db))) (sample_id 1) = Some r' \<and> delete_same_identity sample_delete r'"
proof -
  let ?s = "submit_delete_request sample_crates sample_delete_codec (receipt_decoders sample_delete_receipt)
     sample_host lost no_submit_faults (delete_clients sample_crates sample_delete_codec []) ''https://s'' ''t''
     sample_delete_request fresh_db"
  have e: "?s = (fst ?s, fst (snd ?s), snd (snd ?s))" by simp
  have i: "kv_invar fresh_db" by (simp add: kv_invar_def fresh_db_def)
  have "snd (snd ?s) \<noteq> []" unfolding submit_sample(2) by simp
  note submit_delete_journaled [OF e sample_delete_lawful i this]
  then show ?thesis unfolding sample_delete_original by (simp add: sample_delete_request_def)
qed


definition sample_accepted :: session_delete_record where
  "sample_accepted = delete_record_from_receipt sample_delete sample_delete_receipt"

definition accepted_codec :: "session_delete_record codec" where
  "accepted_codec = table_codec [(sample_delete, ''1''), (sample_accepted, ''2'')]"

lemma accepted_codec_facts [simp]:
  "serde_lawful accepted_codec" "to_json accepted_codec sample_delete = Some ''1''"
  "from_json accepted_codec ''1'' = Some sample_delete" "to_json accepted_codec sample_accepted = Some ''2''"
proof -
  have "sdr_phase sample_delete \<noteq> sdr_phase sample_accepted"
    by (simp add: sample_accepted_def sample_delete_def delete_record_from_receipt_def sample_delete_receipt_def)
  then have "sample_delete \<noteq> sample_accepted" by (rule contrapos_nn) (erule arg_cong)
  then show "serde_lawful accepted_codec" "to_json accepted_codec sample_delete = Some ''1''"
    "from_json accepted_codec ''1'' = Some sample_delete" "to_json accepted_codec sample_accepted = Some ''2''"
    by (simp_all add: accepted_codec_def table_codec_lawful) (simp_all add: table_codec_def)
qed

lemma sample_receipt_valid:
  "validate_delete_receipt sample_crates sample_delete_receipt sample_delete_request = Ok ()"
  by (simp add: validate_delete_receipt_def valid_delete_receipt_shape_def sample_delete_receipt_def
      sample_delete_request_def delete_receipt_from_record_def sample_delete_def sample_selection_def
      valid_contexts_def valid_context_def valid_text_def has_control_def chars_def is_control_def utf8_width_def)

lemma sample_accepted_valid:
  "validate_session_delete sample_crates sample_accepted (Some sample_delete) = Ok ()"
  by (simp add: validate_session_delete_def delete_record_ok_def sample_accepted_def sample_delete_def
      delete_record_from_receipt_def sample_delete_receipt_def delete_receipt_from_record_def
      sample_selection_def delete_phases_def delete_same_identity_def http_url_def valid_text_def
      has_control_def chars_def is_control_def utf8_width_def starts_with_def path_is_absolute_def
      valid_record_contexts_def valid_record_context_def)

lemma submit_sample_accepted:
  "fst (submit_delete_request sample_crates accepted_codec (receipt_decoders sample_delete_receipt)
     sample_host answer no_submit_faults (delete_clients sample_crates accepted_codec []) ''https://s'' ''t''
     sample_delete_request fresh_db) = Ok (sample_delete_receipt, sample_accepted)"
proof -
  let ?d = "created_db\<lparr>db_user_version := 4, db_kv := [(''session_delete_request:'' @ sample_id 1, ''1'')]\<rparr>"
  have "fst (update_session_delete sample_crates accepted_codec no_faults sample_delete sample_accepted ?d) = Ok True"
    using sample_accepted_valid
    by (simp add: delete_ops journal_eval session_delete_journal_def rust_eval
        has_table_def [of "db_user_version_update _ _"] created_db_kv(1) [unfolded has_table_def])
      (simp add: sample_delete_def)
  then obtain d' where "update_session_delete sample_crates accepted_codec no_faults sample_delete sample_accepted ?d =
      (Ok True, d')" by (metis prod.collapse)
  then show ?thesis
    by (simp add: submit_delete_request_def no_submit_faults_def open_state_sample init_schema_fresh
        sample_delete_original reserve_sample_delete post_delete_request_def Let_def send_answer
        delete_tool_sessions_with_caller_key_def sample_delete_request_valid sample_receipt_valid
        delete_clients_def sample_accepted_def [symmetric])
qed



definition other_receipt :: session_delete_receipt where
  "other_receipt = sample_delete_receipt\<lparr>dr_reason := ''expired''\<rparr>"


section \<open>Observation: properties\<close>

lemma persist_delete_Ok:
  "persist_delete X c original receipt H f d = (Ok (), d') \<Longrightarrow>
     is_none_or (\<lambda>record. delete_validate_binding X record receipt = Ok ()) original"
  by (auto simp: persist_delete_def split: option.splits result.splits)

lemma observe_delete_loop_Ok:
  assumes "observe_delete_loop X c D original request_id wait polls latest d = Some (Ok receipt, d')"
  shows "dr_request_id receipt = request_id \<and> valid_delete_receipt_shape X receipt \<and>
    (\<not> wait \<or> delete_is_terminal receipt) \<and>
    is_none_or (\<lambda>record. delete_validate_binding X record receipt = Ok ()) original"
  using assms
proof (induction X c D original request_id wait polls latest d rule: observe_delete_loop.induct)
  case (4 X c D original request_id wait outcome H f stop polls latest d)
  obtain x log where g: "get_tool_session_delete_request X D (\<lambda>_. outcome) request_id = (x, log)" by fastforce
  show ?case
  proof (cases x)
    case (Err e)
    with "4.prems" g show ?thesis by simp
  next
    case (Ok received)
    with g have shape: "dr_request_id received = request_id" "valid_delete_receipt_shape X received"
      by (auto simp: get_tool_session_delete_request_def Let_def split: if_splits result.splits)
    obtain y d1 where p: "persist_delete X c original received H f d = (y, d1)" by fastforce
    show ?thesis
    proof (cases y)
      case (Err e)
      with "4.prems" g Ok p show ?thesis by simp
    next
      case y: (Ok u)
      note b = persist_delete_Ok [of X c original received H f d d1]
      show ?thesis
      proof (cases "(\<not> wait \<or> delete_is_terminal received \<or> delete_is_failed received) \<or> stop")
        case True
        with "4.prems" g Ok p y have "receipt = received \<and> (\<not> wait \<or> delete_is_terminal received)"
          by (auto simp: observe_exit_def split: if_splits)
        with shape b p y show ?thesis by simp
      next
        case False
        with "4.prems" g Ok p y have "observe_delete_loop X c D original request_id wait polls (Some received) d1 =
            Some (Ok receipt, d')" by simp
        with "4.IH" [of x log received y d1 u] g Ok p y False show ?thesis by auto
      qed
    qed
  qed
qed (auto simp: observe_exit_def split: option.splits)

text \<open>
  An observation is only reported for the original request: a returned receipt has the
  requested id and a valid shape; if the request is in the local journal it is for the
  recorded tool, collection, selection and digests; and a waiting observation returns
  success only when the deletion has finished.
\<close>

lemma observe_delete_bound:
  assumes "observe_delete X c D H f request_id wait polls d = Some (Ok receipt, d')"
    and "session_delete_records X c H f d = Ok records"
  shows "dr_request_id receipt = request_id \<and> valid_delete_receipt_shape X receipt \<and>
    (wait \<longrightarrow> delete_is_terminal receipt) \<and>
    (\<forall>record. find (\<lambda>r. sdr_request_id r = request_id) records = Some record \<longrightarrow>
       dr_session_ids receipt = sdr_session_ids record \<and> dr_selection receipt = sdr_selection record \<and>
       dr_intent_fingerprint receipt = sdr_intent_fingerprint record)"
proof -
  from assms have "observe_delete_loop X c D (find (\<lambda>r. sdr_request_id r = request_id) records)
      request_id wait polls None d = Some (Ok receipt, d')"
    by (simp add: observe_delete_def split: if_splits)
  from observe_delete_loop_Ok [OF this] show ?thesis
    by (auto simp: delete_validate_binding_def)
qed

text \<open>
  Waiting always ends: an observation returns as soon as the deadline has passed or the
  interrupt signal has arrived, and one that does not wait returns after its first round.
\<close>

lemma observe_delete_returns:
  assumes "Interrupted \<in> set polls \<or> TimedOut \<in> set polls \<or> \<not> wait \<and> polls \<noteq> []"
  shows "\<exists>r d'. observe_delete X c D H f request_id wait polls d = Some (r, d')"
proof -
  have "\<exists>r d'. observe_delete_loop X c D original request_id wait polls latest d = Some (r, d')"
    for original latest
    using assms
  proof (induction X c D original request_id wait polls latest d rule: observe_delete_loop.induct)
    case (4 X c D original request_id wait outcome H f stop polls latest d)
    then show ?case by (auto split: prod.splits result.splits)
  qed auto
  then show ?thesis by (simp add: observe_delete_def split: result.splits)
qed

text \<open>
  C30. A waiting observation records at most its first change: once the journal no longer holds
  the record the observation started from (its own first update changes it), no later round
  writes to the database, so the final state of the deletion is reported but not recorded.
\<close>

theorem observe_delete_stale:
  assumes "delete_look X c d (sdr_request_id record) \<noteq> Some record"
    and "observe_delete_loop X c D (Some record) request_id wait polls latest d = Some (r, d')"
  shows "d' = d"
proof -
  have same: "d1 = d" if "persist_delete X c (Some record) receipt H f d = (y, d1)" for receipt H f y d1
  proof -
    obtain x d2 where u: "update_session_delete X c f record (delete_record_from_receipt record receipt) d = (x, d2)"
      by fastforce
    from journal_update_cases [OF u [unfolded delete_ops]] assms(1) have "d2 = d"
      by (auto simp: delete_look_def session_delete_key)
    with that u show ?thesis by (auto simp: persist_delete_def split: result.splits)
  qed
  from assms(2) show ?thesis
  proof (induction polls arbitrary: latest)
    case (Cons p polls)
    show ?case
    proof (cases p)
      case (Answered outcome H f stop)
      with Cons show ?thesis by (auto split: prod.splits result.splits if_splits dest: same)
    qed (use Cons in auto)
  qed simp
qed

theorem observe_delete_stale_witness:
  "snd (the (observe_delete_loop sample_crates sample_delete_codec (receipt_decoders sample_delete_receipt)
     (Some sample_delete) (sample_id 1) True [Answered answered sample_host no_faults True] None fresh_db)) = fresh_db"
proof -
  let ?o = "observe_delete_loop sample_crates sample_delete_codec (receipt_decoders sample_delete_receipt)
     (Some sample_delete) (sample_id 1) True [Answered answered sample_host no_faults True] None fresh_db"
  have "delete_look sample_crates sample_delete_codec fresh_db (sdr_request_id sample_delete) \<noteq> Some sample_delete"
    by (simp add: delete_look_def journal_look_def kv_look_def fresh_db_def)
  moreover have "?o \<noteq> None" by (auto split: prod.splits result.splits)
  then obtain r d' where "?o = Some (r, d')" by (metis not_None_eq prod.collapse)
  ultimately have "d' = fresh_db" using observe_delete_stale by blast
  with \<open>?o = Some (r, d')\<close> show ?thesis by simp
qed

end
