(* ===== verification/Session_Stop_Api.thy ===== *)
theory Session_Stop_Api
  imports Session_Types
begin

text \<open>
  The transport of caller-key session stops (\<open>api/session_stop.rs\<close>): the bound request, the
  receipt, and the compatibility path for servers that answer with a bare session row.
\<close>

section \<open>Data\<close>

record session_stop_request =
  srq_schema_version :: nat
  srq_request_id :: string
  srq_expected_session_id :: string
  srq_expected_node_id :: string
  srq_expected_runtime_backend :: string
  srq_reason :: string
  srq_intent_fingerprint :: string
  srq_expected_stop_task_id :: "string option"

record session_stop_receipt =
  st_schema_version :: nat
  st_request_id :: string
  st_phase :: string
  st_session_id :: string
  st_node_id :: string
  st_runtime_backend :: string
  st_runtime_resource_id :: "string option"
  st_stop_task_id :: "string option"
  st_stop_task_record_id :: "string option"
  st_stop_task_status :: "string option"
  st_session_status :: "string option"
  st_skill_finalization_operation_id :: "string option"
  st_session_deleted :: bool
  st_observed_at :: "string option"
  st_error_code :: "string option"
  st_intent_fingerprint :: string
  st_reason :: string
  st_result_status :: "string option"
  st_process_stopped :: "bool option"
  st_save_status :: "string option"

text \<open>
  The data of a response is a JSON value; \<open>serde_json::from_value\<close> reads it as a receipt or as
  a session row.
\<close>

record stop_values =
  sv_receipt :: "json \<Rightarrow> session_stop_receipt option"
  sv_session :: "json \<Rightarrow> session_data option"

section \<open>Validation\<close>

definition stop_invalid_request :: api_error where
  "stop_invalid_request =
     api_local ''SESSION_STOP_INVALID_REQUEST'' ''invalid caller-key session stop request''"

definition validate_stop_request ::
  "crates \<Rightarrow> string \<Rightarrow> session_stop_request \<Rightarrow> (unit, api_error) result" where
  "validate_stop_request X session_id q =
     ensure
      (srq_schema_version q = 1 \<and>
       canonical_uuid X session_id \<and>
       srq_expected_session_id q = session_id \<and>
       canonical_uuid X (srq_request_id q) \<and>
       canonical_uuid X (srq_expected_session_id q) \<and>
       canonical_uuid X (srq_expected_node_id q) \<and>
       valid_text (srq_expected_runtime_backend q) 64 \<and>
       srq_reason q = ''user_requested'' \<and>
       valid_digest (srq_intent_fingerprint q) \<and>
       is_none_or (\<lambda>v. valid_text v 256) (srq_expected_stop_task_id q))
      stop_invalid_request"

definition validate_stop_receipt ::
  "session_stop_receipt \<Rightarrow> session_stop_request \<Rightarrow> (unit, api_error) result" where
  "validate_stop_receipt r q =
     ensure
      (st_schema_version r = 1 \<and>
       st_request_id r = srq_request_id q \<and>
       st_session_id r = srq_expected_session_id q \<and>
       st_node_id r = srq_expected_node_id q \<and>
       st_runtime_backend r = srq_expected_runtime_backend q \<and>
       st_intent_fingerprint r = srq_intent_fingerprint q \<and>
       st_reason r = srq_reason q \<and>
       is_none_or (\<lambda>t. st_stop_task_id r = Some t) (srq_expected_stop_task_id q))
      stop_invalid_request"

section \<open>Calls\<close>

definition legacy_stop_receipt :: "session_data \<Rightarrow> session_stop_request \<Rightarrow> session_stop_receipt" where
  "legacy_stop_receipt s q =
     \<lparr>st_schema_version = 1, st_request_id = srq_request_id q, st_phase = ''legacy'',
      st_session_id = sd_id s, st_node_id = sd_node_id s, st_runtime_backend = sd_runtime_backend s,
      st_runtime_resource_id = sd_runtime_resource_id s, st_stop_task_id = sd_stop_task_id s,
      st_stop_task_record_id = None, st_stop_task_status = None, st_session_status = Some (sd_status s),
      st_skill_finalization_operation_id = sd_skill_finalization_operation_id s,
      st_session_deleted = False, st_observed_at = Some (sd_updated_at s), st_error_code = None,
      st_intent_fingerprint = srq_intent_fingerprint q, st_reason = srq_reason q,
      st_result_status = None, st_process_stopped = None, st_save_status = None\<rparr>"

definition read_stop_response ::
  "stop_values \<Rightarrow> session_stop_request \<Rightarrow> json \<Rightarrow> (session_stop_receipt, api_error) result" where
  "read_stop_response V q data =
     (case sv_receipt V data of
        Some receipt \<Rightarrow>
          (case validate_stop_receipt receipt q of Err e \<Rightarrow> Err e | Ok _ \<Rightarrow> Ok receipt)
      | None \<Rightarrow>
          (case sv_session V data of
             None \<Rightarrow> Err stop_invalid_request
           | Some s \<Rightarrow>
               if sd_id s \<noteq> srq_expected_session_id q \<or>
                  sd_node_id s \<noteq> srq_expected_node_id q \<or>
                  sd_runtime_backend s \<noteq> srq_expected_runtime_backend q \<or>
                  is_some_and (\<lambda>t. sd_stop_task_id s \<noteq> Some t) (srq_expected_stop_task_id q)
               then Err stop_invalid_request
               else Ok (legacy_stop_receipt s q)))"

definition stop_tool_session_with_caller_key ::
  "crates \<Rightarrow> json decoders \<Rightarrow> stop_values \<Rightarrow> session_stop_request network \<Rightarrow> string \<Rightarrow>
     session_stop_request \<Rightarrow>
     (session_stop_receipt, api_error) result \<times> session_stop_request http_request list" where
  "stop_tool_session_with_caller_key X D V net session_id q =
     (case validate_stop_request X session_id q of
        Err e \<Rightarrow> (Err e, [])
      | Ok _ \<Rightarrow>
          let post = HttpPost (''/api/v1/sessions/'' @ url_encode session_id @ ''/stop'') q in
          (case send X D (net post) of
             Err e \<Rightarrow> Err e
           | Ok data \<Rightarrow> read_stop_response V q data,
           [post]))"

definition get_tool_session_stop_request ::
  "crates \<Rightarrow> session_stop_receipt decoders \<Rightarrow> session_stop_request network \<Rightarrow> string \<Rightarrow>
     (session_stop_receipt, api_error) result \<times> session_stop_request http_request list" where
  "get_tool_session_stop_request X D net request_id =
     (if \<not> canonical_uuid X request_id then (Err stop_invalid_request, [])
      else
        let get = HttpGet (''/api/v1/sessions/stop-requests/'' @ url_encode request_id) in
        (case send X D (net get) of
           Err e \<Rightarrow> Err e
         | Ok receipt \<Rightarrow>
             if st_request_id receipt \<noteq> request_id \<or> st_schema_version receipt \<noteq> 1
             then Err stop_invalid_request else Ok receipt,
         [get]))"

section \<open>Lemmas\<close>

text \<open>Both response formats give a receipt for exactly the bound request.\<close>

lemma read_stop_response_Ok:
  "read_stop_response V q data = Ok r \<Longrightarrow>
     st_schema_version r = 1 \<and> st_request_id r = srq_request_id q \<and>
     st_session_id r = srq_expected_session_id q \<and> st_node_id r = srq_expected_node_id q \<and>
     st_runtime_backend r = srq_expected_runtime_backend q \<and>
     st_intent_fingerprint r = srq_intent_fingerprint q \<and> st_reason r = srq_reason q \<and>
     is_none_or (\<lambda>t. st_stop_task_id r = Some t) (srq_expected_stop_task_id q)"
  by (auto simp: read_stop_response_def validate_stop_receipt_def legacy_stop_receipt_def
      is_none_or_def is_some_and_def split: option.splits result.splits if_splits)

lemma stop_submission_requests:
  "snd (stop_tool_session_with_caller_key X D V net s q) \<in>
     {[], [HttpPost (''/api/v1/sessions/'' @ url_encode s @ ''/stop'') q]}"
  by (auto simp: stop_tool_session_with_caller_key_def Let_def split: result.splits)

lemma stop_submission_Ok:
  assumes "stop_tool_session_with_caller_key X D V net s q = (Ok r, log)"
  obtains data where "send X D (net (HttpPost (''/api/v1/sessions/'' @ url_encode s @ ''/stop'') q)) = Ok data"
    "read_stop_response V q data = Ok r"
  using assms by (auto simp: stop_tool_session_with_caller_key_def Let_def split: result.splits)

end
