(* ===== verification/Session_Stop_Journal.thy ===== *)
theory Session_Stop_Journal
  imports Journal Session_Stop_Api
begin

text \<open>
  The journal of session stop requests (\<open>local_state/session_stop.rs\<close>): the record, its
  validator and the journal operations.
\<close>

section \<open>Records and their validation\<close>

record session_stop_record =
  ssr_home :: string
  ssr_server_url :: string
  ssr_user_id :: string
  ssr_request_id :: string
  ssr_session_id :: string
  ssr_node_id :: string
  ssr_runtime_backend :: string
  ssr_runtime_resource_id :: "string option"
  ssr_expected_stop_task_id :: "string option"
  ssr_intent_fingerprint :: string
  ssr_reason :: string
  ssr_phase :: string
  ssr_stop_task_id :: "string option"
  ssr_stop_task_record_id :: "string option"
  ssr_stop_task_status :: "string option"
  ssr_session_status :: "string option"
  ssr_skill_finalization_operation_id :: "string option"
  ssr_session_deleted :: bool
  ssr_result_status :: "string option"
  ssr_process_stopped :: "bool option"
  ssr_save_status :: "string option"
  ssr_last_observation :: "string option"

definition stop_phases :: "string list" where
  "stop_phases =
     [''prepared'', ''accepted'', ''stopping'', ''stopped'', ''failed'', ''unknown'', ''deleted'',
      ''rejected'', ''legacy'', ''settled'', ''unresolved'']"

definition stop_record_ok :: "crates \<Rightarrow> session_stop_record \<Rightarrow> bool" where
  "stop_record_ok X r \<longleftrightarrow>
     canonical_uuid X (ssr_request_id r) \<and>
     canonical_uuid X (ssr_session_id r) \<and>
     canonical_uuid X (ssr_node_id r) \<and>
     valid_text (ssr_server_url r) 8192 \<and>
     http_url (ssr_server_url r) \<and>
     valid_text (ssr_user_id r) 256 \<and>
     valid_text (ssr_runtime_backend r) 64 \<and>
     is_none_or (\<lambda>v. valid_text v 256) (ssr_runtime_resource_id r) \<and>
     ssr_reason r = ''user_requested'' \<and>
     valid_digest (ssr_intent_fingerprint r) \<and>
     ssr_phase r \<in> set stop_phases \<and>
     is_none_or (\<lambda>v. valid_text v 256) (ssr_expected_stop_task_id r) \<and>
     is_none_or (\<lambda>v. valid_text v 256) (ssr_stop_task_id r) \<and>
     is_none_or (canonical_uuid X) (ssr_stop_task_record_id r) \<and>
     is_none_or (\<lambda>v. valid_text v 64) (ssr_stop_task_status r) \<and>
     is_none_or (\<lambda>v. valid_text v 64) (ssr_session_status r) \<and>
     is_none_or (canonical_uuid X) (ssr_skill_finalization_operation_id r) \<and>
     is_none_or (\<lambda>v. valid_text v 128) (ssr_last_observation r)"

definition stop_same_identity :: "session_stop_record \<Rightarrow> session_stop_record \<Rightarrow> bool" where
  "stop_same_identity old r \<longleftrightarrow>
     ssr_home r = ssr_home old \<and>
     ssr_server_url r = ssr_server_url old \<and>
     ssr_user_id r = ssr_user_id old \<and>
     ssr_request_id r = ssr_request_id old \<and>
     ssr_session_id r = ssr_session_id old \<and>
     ssr_node_id r = ssr_node_id old \<and>
     ssr_runtime_backend r = ssr_runtime_backend old \<and>
     ssr_runtime_resource_id r = ssr_runtime_resource_id old \<and>
     ssr_expected_stop_task_id r = ssr_expected_stop_task_id old \<and>
     ssr_intent_fingerprint r = ssr_intent_fingerprint old \<and>
     ssr_reason r = ssr_reason old"

definition validate_session_stop ::
  "crates \<Rightarrow> session_stop_record \<Rightarrow> session_stop_record option \<Rightarrow> (unit, failure) result" where
  "validate_session_stop X r original =
     (if \<not> stop_record_ok X r then Err (Bail ''invalid session stop journal record'')
      else if is_some_and (\<lambda>old. \<not> stop_same_identity old r) original
      then Err (Bail ''session stop caller binding changed'')
      else Ok ())"

section \<open>The journal\<close>

definition session_stop_journal :: "crates \<Rightarrow> session_stop_record codec \<Rightarrow> session_stop_record journal" where
  "session_stop_journal X c =
     \<lparr>j_prefix = ''session_stop_request:'', j_limit = 256, j_max = 32 * 1024,
      j_label = ''session stop journal'', j_codec = c, j_request_id = ssr_request_id,
      j_home = ssr_home, j_absent = (\<lambda>e. e = IoNotFound), j_valid = validate_session_stop X\<rparr>"

definition session_stop_records ::
  "crates \<Rightarrow> session_stop_record codec \<Rightarrow> host \<Rightarrow> faults \<Rightarrow> db \<Rightarrow> (session_stop_record list, failure) result"
where
  "session_stop_records X c = journal_records (session_stop_journal X c)"

definition reserve_session_stop ::
  "crates \<Rightarrow> session_stop_record codec \<Rightarrow> faults \<Rightarrow> session_stop_record \<Rightarrow> db \<Rightarrow> (bool, failure) result \<times> db"
where
  "reserve_session_stop X c = journal_reserve (session_stop_journal X c)"

definition update_session_stop ::
  "crates \<Rightarrow> session_stop_record codec \<Rightarrow> faults \<Rightarrow> session_stop_record \<Rightarrow> session_stop_record \<Rightarrow> db \<Rightarrow>
     (bool, failure) result \<times> db" where
  "update_session_stop X c = journal_update (session_stop_journal X c)"

lemmas stop_ops = session_stop_records_def reserve_session_stop_def update_session_stop_def

section \<open>It is a caller journal\<close>

definition stop_ident :: "session_stop_record \<Rightarrow> session_stop_record" where
  "stop_ident r =
     r\<lparr>ssr_phase := [], ssr_stop_task_id := None, ssr_stop_task_record_id := None,
        ssr_stop_task_status := None, ssr_session_status := None,
        ssr_skill_finalization_operation_id := None, ssr_session_deleted := False,
        ssr_result_status := None, ssr_process_stopped := None, ssr_save_status := None,
        ssr_last_observation := None\<rparr>"

lemma stop_same_identity_iff: "stop_same_identity old r \<longleftrightarrow> stop_ident r = stop_ident old"
  by (cases r, cases old) (auto simp: stop_same_identity_def stop_ident_def)

lemma validate_session_stop_Ok:
  "validate_session_stop X r original = Ok () \<longleftrightarrow>
     stop_record_ok X r \<and> is_none_or (\<lambda>old. stop_ident r = stop_ident old) original"
  by (cases original) (auto simp: validate_session_stop_def stop_same_identity_iff)

interpretation stop: journal_validator "session_stop_journal X c" stop_ident for X c
proof unfold_locales
  fix r old
  assume "stop_ident r = stop_ident old"
  then have "stop_same_identity old r" by (simp add: stop_same_identity_iff)
  then show "j_request_id (session_stop_journal X c) r = j_request_id (session_stop_journal X c) old \<and>
      j_home (session_stop_journal X c) r = j_home (session_stop_journal X c) old"
    by (simp add: session_stop_journal_def stop_same_identity_def)
qed (simp add: session_stop_journal_def validate_session_stop_Ok)

definition stop_look ::
  "crates \<Rightarrow> session_stop_record codec \<Rightarrow> db \<Rightarrow> string \<Rightarrow> session_stop_record option" where
  "stop_look X c d request_id = journal_look (session_stop_journal X c) d (''session_stop_request:'' @ request_id)"

lemma session_stop_key:
  "journal_key (session_stop_journal X c) r = ''session_stop_request:'' @ ssr_request_id r"
  by (simp add: journal_key_def session_stop_journal_def)

lemma session_stop_codec [simp]: "j_codec (session_stop_journal X c) = c"
  by (simp add: session_stop_journal_def)

lemma stop_look_record: "stop_look X c = record_look (session_stop_journal X c)"
  by (simp add: stop_look_def record_look_def session_stop_journal_def fun_eq_iff)

lemma session_stop_request_id [simp]: "j_request_id (session_stop_journal X c) = ssr_request_id"
  by (simp add: session_stop_journal_def)

lemma stop_reserve_look:
  assumes "serde_lawful c" and "kv_invar d" and "reserve_session_stop X c f r d = (Ok True, d')"
  shows "stop_look X c d (ssr_request_id r) = None" and "kv_invar d'"
    and "stop_look X c d' = (stop_look X c d)(ssr_request_id r \<mapsto> r)"
  using stop.reserve_look [OF _ assms(2) assms(3) [unfolded stop_ops]] assms(1) by (simp_all add: stop_look_record)

lemma stop_update_look:
  assumes "serde_lawful c" and "kv_invar d" and "update_session_stop X c f r r' d = (Ok True, d')"
  shows "stop_look X c d (ssr_request_id r) = Some r" and "stop_ident r' = stop_ident r" and "kv_invar d'"
    and "stop_look X c d' = (stop_look X c d)(ssr_request_id r \<mapsto> r')"
  using stop.update_look [OF _ assms(2) assms(3) [unfolded stop_ops]] assms(1) by (simp_all add: stop_look_record)

section \<open>Properties\<close>

text \<open>
  C20. The stop journal refines a ledger: seen through its records by request id, every sequence
  of reservations of this home and updates, with any storage failures on the way, is a run of
  the ledger with the very results the operations reported. So a reservation succeeds exactly
  on a free id, an update exactly when nobody has changed the record since it was read, and
  failures and refusals change nothing.
\<close>

theorem stop_refines_ledger:
  assumes "serde_lawful c" and "journal_wf (session_stop_journal X c) H d"
    and "list_all (\<lambda>op. case op of Reserve _ r \<Rightarrow> ssr_home r = h_home H | Update _ _ _ \<Rightarrow> True) ops"
    and "run_ops (reserve_session_stop X c) (update_session_stop X c) ops d = (results, d')"
  shows "ledger_run ssr_request_id ops results (stop_look X c d) = Some (stop_look X c d')"
proof -
  let ?J = "session_stop_journal X c"
  have home: "\<forall>f r. Reserve f r \<in> set ops \<longrightarrow> j_home ?J r = h_home H"
    using assms(3) by (auto simp: list_all_iff session_stop_journal_def split: journal_op.splits)
  have "stop_look X c = record_look ?J" "j_request_id ?J = ssr_request_id" "serde_lawful (j_codec ?J)"
    using assms(1) by (simp_all add: stop_look_record session_stop_journal_def fun_eq_iff)
  with stop.ledger_refinement [OF _ assms(2) home assms(4) [unfolded stop_ops]] show ?thesis by simp
qed

definition sample_stop :: session_stop_record where
  "sample_stop =
     \<lparr>ssr_home = ''/h'', ssr_server_url = ''https://s'', ssr_user_id = sample_digest,
      ssr_request_id = sample_id 4, ssr_session_id = sample_id 2, ssr_node_id = sample_id 3,
      ssr_runtime_backend = ''tmux'', ssr_runtime_resource_id = None, ssr_expected_stop_task_id = None,
      ssr_intent_fingerprint = sample_digest, ssr_reason = ''user_requested'', ssr_phase = ''prepared'',
      ssr_stop_task_id = None, ssr_stop_task_record_id = None, ssr_stop_task_status = None,
      ssr_session_status = Some ''running'', ssr_skill_finalization_operation_id = None,
      ssr_session_deleted = False, ssr_result_status = None, ssr_process_stopped = None,
      ssr_save_status = None, ssr_last_observation = None\<rparr>"

definition unknown_stop :: session_stop_record where
  "unknown_stop = sample_stop\<lparr>ssr_phase := ''unknown'',
     ssr_last_observation := Some ''SESSION_STOP_SUBMISSION_UNKNOWN''\<rparr>"

definition sample_stop_codec :: "session_stop_record codec" where
  "sample_stop_codec = table_codec [(sample_stop, ''1''), (unknown_stop, ''2'')]"

lemma unknown_stop_other: "unknown_stop \<noteq> sample_stop"
proof -
  have "ssr_phase unknown_stop \<noteq> ssr_phase sample_stop" by (simp add: unknown_stop_def sample_stop_def)
  then show ?thesis by (rule contrapos_nn) (erule arg_cong)
qed

lemma sample_stop_codec_facts [simp]:
  "serde_lawful sample_stop_codec" "to_json sample_stop_codec sample_stop = Some ''1''"
  "from_json sample_stop_codec ''1'' = Some sample_stop" "to_json sample_stop_codec unknown_stop = Some ''2''"
  using unknown_stop_other by (simp_all add: sample_stop_codec_def table_codec_lawful) (simp_all add: table_codec_def)

lemma sample_stop_valid [simp]:
  "validate_session_stop sample_crates sample_stop None = Ok ()"
  "validate_session_stop sample_crates unknown_stop (Some sample_stop) = Ok ()"
  by (simp_all add: validate_session_stop_def stop_record_ok_def sample_stop_def unknown_stop_def
      stop_phases_def stop_same_identity_def http_url_def starts_with_def)
    (simp_all add: valid_text_def has_control_def chars_def is_control_def utf8_width_def)

definition stop_db :: db where
  "stop_db = created_db\<lparr>db_kv := [(''session_stop_request:'' @ sample_id 4, ''1'')]\<rparr>"

lemma stop_db_wf: "journal_wf (session_stop_journal sample_crates sample_stop_codec) sample_host stop_db"
proof -
  have "validate_record (session_stop_journal sample_crates sample_stop_codec) sample_host
      (''session_stop_request:'' @ sample_id 4) sample_stop = Ok ()"
    by (simp add: validate_record_def session_stop_journal_def journal_key_def)
      (simp add: sample_stop_def sample_host_def)
  then show ?thesis
    by (simp add: journal_wf_def kv_invar_def stop_db_def kv_with_prefix_def session_stop_journal_def row_ok_def)
qed

theorem stop_refines_ledger_witness:
  "ledger_run ssr_request_id [Update no_faults sample_stop unknown_stop] [Ok True :: (bool, failure) result]
     (stop_look sample_crates sample_stop_codec stop_db) =
   Some (stop_look sample_crates sample_stop_codec
     (snd (update_session_stop sample_crates sample_stop_codec no_faults sample_stop unknown_stop stop_db)))"
proof -
  have "fst (update_session_stop sample_crates sample_stop_codec no_faults sample_stop unknown_stop stop_db) = Ok True"
    by (simp add: stop_ops journal_eval session_stop_journal_def stop_db_def rust_eval) (simp add: sample_stop_def)
  then have "run_ops (reserve_session_stop sample_crates sample_stop_codec) (update_session_stop sample_crates sample_stop_codec)
      [Update no_faults sample_stop unknown_stop] stop_db =
      ([Ok True], snd (update_session_stop sample_crates sample_stop_codec no_faults sample_stop unknown_stop stop_db))"
    by (auto split: prod.splits)
  from stop_refines_ledger [OF sample_stop_codec_facts(1) stop_db_wf _ this] show ?thesis by simp
qed

end
