(* ===== verification/Session_Stop.thy ===== *)
theory Session_Stop
  imports Session_Stop_Journal
begin

text \<open>
  Stopping a session (\<open>session_stop.rs\<close>): the binding frozen from the session row, submission
  with the journal written before the POST, and observation of a submitted stop by GET.
\<close>

section \<open>Records and receipts\<close>

definition stop_intent_fingerprint :: "crates \<Rightarrow> session_data \<Rightarrow> string \<Rightarrow> string" where
  "stop_intent_fingerprint X s reason =
     ''sha256:'' @ sha256_hex X (json_text X (JObject (btree_collect
       [(''schema_version'', JNumber ''1''),
        (''session_id'', JString (sd_id s)),
        (''node_id'', JString (sd_node_id s)),
        (''runtime_backend'', JString (sd_runtime_backend s)),
        (''runtime_resource_id'', json_opt (sd_runtime_resource_id s)),
        (''reason'', JString reason)])))"

definition validate_stop_session :: "crates \<Rightarrow> session_data \<Rightarrow> (unit, failure) result" where
  "validate_stop_session X s =
     ensure
      (canonical_uuid X (sd_id s) \<and>
       canonical_uuid X (sd_node_id s) \<and>
       valid_text (sd_runtime_backend s) 64 \<and>
       sd_tool_type s = ''claude'' \<and>
       is_none_or (\<lambda>v. v \<noteq> [] \<and> length v \<le> 256) (sd_stop_task_id s))
      (Bail ''session stop binding is incomplete or invalid'')"

definition stop_original :: "crates \<Rightarrow> host \<Rightarrow> string \<Rightarrow> string \<Rightarrow> string \<Rightarrow> session_data \<Rightarrow> session_stop_record" where
  "stop_original X H server_url token request_id s =
     \<lparr>ssr_home = h_home H, ssr_server_url = server_url, ssr_user_id = authenticated_scope X token,
      ssr_request_id = request_id, ssr_session_id = sd_id s, ssr_node_id = sd_node_id s,
      ssr_runtime_backend = sd_runtime_backend s, ssr_runtime_resource_id = sd_runtime_resource_id s,
      ssr_expected_stop_task_id = sd_stop_task_id s,
      ssr_intent_fingerprint = stop_intent_fingerprint X s ''user_requested'',
      ssr_reason = ''user_requested'', ssr_phase = ''prepared'', ssr_stop_task_id = None,
      ssr_stop_task_record_id = None, ssr_stop_task_status = None,
      ssr_session_status = Some (sd_status s),
      ssr_skill_finalization_operation_id = sd_skill_finalization_operation_id s,
      ssr_session_deleted = False, ssr_result_status = None, ssr_process_stopped = None,
      ssr_save_status = None, ssr_last_observation = None\<rparr>"

definition stop_request :: "crates \<Rightarrow> string \<Rightarrow> session_data \<Rightarrow> session_stop_request" where
  "stop_request X request_id s =
     \<lparr>srq_schema_version = 1, srq_request_id = request_id, srq_expected_session_id = sd_id s,
      srq_expected_node_id = sd_node_id s, srq_expected_runtime_backend = sd_runtime_backend s,
      srq_reason = ''user_requested'',
      srq_intent_fingerprint = stop_intent_fingerprint X s ''user_requested'',
      srq_expected_stop_task_id = sd_stop_task_id s\<rparr>"

definition stop_record_from_receipt ::
  "session_stop_record \<Rightarrow> session_stop_receipt \<Rightarrow> session_stop_record" where
  "stop_record_from_receipt original r =
     original\<lparr>ssr_phase := st_phase r, ssr_stop_task_id := st_stop_task_id r,
       ssr_stop_task_record_id := st_stop_task_record_id r,
       ssr_stop_task_status := st_stop_task_status r, ssr_session_status := st_session_status r,
       ssr_skill_finalization_operation_id := st_skill_finalization_operation_id r,
       ssr_session_deleted := st_session_deleted r, ssr_result_status := st_result_status r,
       ssr_process_stopped := st_process_stopped r, ssr_save_status := st_save_status r,
       ssr_last_observation := option_or (st_error_code r) (st_observed_at r)\<rparr>"

definition stop_validate_binding ::
  "session_stop_record \<Rightarrow> session_stop_receipt \<Rightarrow> (unit, failure) result" where
  "stop_validate_binding record r =
     ensure
      (st_schema_version r = 1 \<and>
       st_request_id r = ssr_request_id record \<and>
       st_session_id r = ssr_session_id record \<and>
       st_node_id r = ssr_node_id record \<and>
       st_runtime_backend r = ssr_runtime_backend record \<and>
       st_runtime_resource_id r = ssr_runtime_resource_id record \<and>
       st_intent_fingerprint r = ssr_intent_fingerprint record \<and>
       st_reason r = ssr_reason record \<and>
       is_none_or (\<lambda>t. st_stop_task_id r = Some t)
         (option_or (ssr_expected_stop_task_id record) (ssr_stop_task_id record)))
      (Bail ''session stop response differs from the frozen request binding'')"

definition stop_terminal :: "session_stop_receipt \<Rightarrow> bool" where
  "stop_terminal r \<longleftrightarrow>
     st_session_deleted r \<or>
     (st_process_stopped r = Some True \<and>
      (st_phase r = ''stopped'' \<or> st_phase r = ''deleted'' \<or> st_session_status r = Some ''stopped''))"

definition stop_failed :: "session_stop_receipt \<Rightarrow> bool" where
  "stop_failed r \<longleftrightarrow>
     st_phase r \<in> {''failed'', ''rejected''} \<or>
     is_some_and (\<lambda>s. s \<in> {''failed'', ''cancelled'', ''expired''}) (st_stop_task_status r)"

section \<open>Submission\<close>

definition stop_definite :: "api_error \<Rightarrow> bool" where
  "stop_definite e \<longleftrightarrow>
     ae_code e = Some ''SESSION_STOP_INVALID_REQUEST'' \<or>
     is_some_and (\<lambda>s. 400 \<le> s \<and> s < 500 \<and> s \<noteq> 408 \<and> s \<noteq> 429) (ae_status e)"

definition stop_failed_record :: "session_stop_record \<Rightarrow> api_error \<Rightarrow> session_stop_record" where
  "stop_failed_record original e =
     original\<lparr>ssr_phase := (if stop_definite e then ''rejected'' else ''unknown''),
       ssr_last_observation :=
         Some (case ae_code e of
                 None \<Rightarrow> ''SESSION_STOP_SUBMISSION_UNKNOWN''
               | Some c \<Rightarrow> if c = [] then ''SESSION_STOP_SUBMISSION_UNKNOWN'' else c)\<rparr>"

text \<open>The POST and the record of its outcome; \<open>other\<close> as for deletion.\<close>

definition post_stop_request ::
  "crates \<Rightarrow> session_stop_record codec \<Rightarrow> json decoders \<Rightarrow> stop_values \<Rightarrow> session_stop_request network \<Rightarrow>
     faults \<Rightarrow> (db \<Rightarrow> db) \<Rightarrow> session_stop_record \<Rightarrow> string \<Rightarrow> session_stop_request \<Rightarrow> db \<Rightarrow>
     (session_stop_receipt \<times> session_stop_record, failure) result \<times> db \<times>
     session_stop_request http_request list" where
  "post_stop_request X c D V net f other original session_id q d =
     (case stop_tool_session_with_caller_key X D V net session_id q of
        (Ok receipt, log) \<Rightarrow>
          let new = stop_record_from_receipt original receipt in
          (case update_session_stop X c f original new (other d) of
             (Err e, d') \<Rightarrow> (Err e, d', log)
           | (Ok False, d') \<Rightarrow>
               (Err (Bail ''session stop journal changed while submitting''), d', log)
           | (Ok True, d') \<Rightarrow> (Ok (receipt, new), d', log))
      | (Err e, log) \<Rightarrow>
          let new = stop_failed_record original e;
              d' = snd (update_session_stop X c f original new (other d))
          in (Err (if stop_definite e then ApiErr e else SubmissionUnknown (ssr_request_id original)),
              d', log))"

definition submit_stop ::
  "crates \<Rightarrow> session_stop_record codec \<Rightarrow> json decoders \<Rightarrow> stop_values \<Rightarrow> host \<Rightarrow>
     session_stop_request network \<Rightarrow> submit_faults \<Rightarrow> (db \<Rightarrow> db) \<Rightarrow> string \<Rightarrow> string \<Rightarrow> string \<Rightarrow>
     session_data \<Rightarrow> db \<Rightarrow>
     (session_stop_receipt \<times> session_stop_record, failure) result \<times> db \<times>
     session_stop_request http_request list" where
  "submit_stop X c D V H net F other server_url token request_id s d =
     (case validate_stop_session X s of
        Err e \<Rightarrow> (Err e, d, [])
      | Ok _ \<Rightarrow>
          let original = stop_original X H server_url token request_id s in
          (case open_state H of
             Err e \<Rightarrow> (Err e, d, [])
           | Ok _ \<Rightarrow>
               (case init_schema (sf_init F) d of
                  (Err e, d1) \<Rightarrow> (Err e, d1, [])
                | (Ok _, d1) \<Rightarrow>
                    (case reserve_session_stop X c (sf_reserve F) original d1 of
                       (Err e, d2) \<Rightarrow> (Err e, d2, [])
                     | (Ok False, d2) \<Rightarrow>
                         (Err (Bail ''a stop request for this caller key is already recorded''), d2, [])
                     | (Ok True, d2) \<Rightarrow>
                         post_stop_request X c D V net (sf_update F) other original (sd_id s)
                           (stop_request X request_id s) d2))))"

section \<open>Observation\<close>

definition persist_stop ::
  "crates \<Rightarrow> session_stop_record codec \<Rightarrow> session_stop_record option \<Rightarrow> session_stop_receipt \<Rightarrow>
     host \<Rightarrow> faults \<Rightarrow> db \<Rightarrow> (unit, failure) result \<times> db" where
  "persist_stop X c original receipt H f d =
     (case original of
        None \<Rightarrow> (Ok (), d)
      | Some record \<Rightarrow>
          (case stop_validate_binding record receipt of
             Err e \<Rightarrow> (Err e, d)
           | Ok _ \<Rightarrow>
               (case open_state H of
                  Err e \<Rightarrow> (Err e, d)
                | Ok _ \<Rightarrow>
                    (case update_session_stop X c f record (stop_record_from_receipt record receipt) d of
                       (Err e, d') \<Rightarrow> (Err e, d')
                     | (Ok _, d') \<Rightarrow> (Ok (), d')))))"

fun observe_stop_loop ::
  "crates \<Rightarrow> session_stop_record codec \<Rightarrow> session_stop_receipt decoders \<Rightarrow>
     session_stop_record option \<Rightarrow> string \<Rightarrow> bool \<Rightarrow> poll list \<Rightarrow> session_stop_receipt option \<Rightarrow> db \<Rightarrow>
     ((session_stop_receipt, failure) result \<times> db) option" where
  "observe_stop_loop X c D original request_id wait [] latest d = None"
| "observe_stop_loop X c D original request_id wait (Interrupted # polls) latest d =
     Some (observe_exit 130 latest, d)"
| "observe_stop_loop X c D original request_id wait (TimedOut # polls) latest d =
     Some (observe_exit 3 latest, d)"
| "observe_stop_loop X c D original request_id wait (Answered outcome H f stop # polls) latest d =
     (case get_tool_session_stop_request X D (\<lambda>_. outcome) request_id of
        (Err e, _) \<Rightarrow> Some (Err (ApiErr e), d)
      | (Ok receipt, _) \<Rightarrow>
          (case persist_stop X c original receipt H f d of
             (Err e, d') \<Rightarrow> Some (Err e, d')
           | (Ok _, d') \<Rightarrow>
               if \<not> wait \<or> stop_terminal receipt \<or> stop_failed receipt
               then Some (observe_exit
                      (if \<not> wait \<or> stop_terminal receipt then 0
                       else if stop_failed receipt then 1 else 3) (Some receipt), d')
               else if stop then Some (observe_exit 130 (Some receipt), d')
               else observe_stop_loop X c D original request_id wait polls (Some receipt) d'))"

definition observe_stop ::
  "crates \<Rightarrow> session_stop_record codec \<Rightarrow> session_stop_receipt decoders \<Rightarrow> host \<Rightarrow> faults \<Rightarrow>
     string \<Rightarrow> bool \<Rightarrow> poll list \<Rightarrow> db \<Rightarrow> ((session_stop_receipt, failure) result \<times> db) option" where
  "observe_stop X c D H f request_id wait polls d =
     (if \<not> canonical_uuid X request_id
      then Some (Err (Bail ''stop request ID must be a canonical non-zero UUID''), d)
      else case session_stop_records X c H f d of
        Err e \<Rightarrow> Some (Err e, d)
      | Ok records \<Rightarrow>
          observe_stop_loop X c D (find (\<lambda>r. ssr_request_id r = request_id) records)
            request_id wait polls None d)"

section \<open>Submission: properties\<close>

lemma stop_look_init: "init_schema f d = (r, d') \<Longrightarrow> stop_look X c d' = stop_look X c d"
  by (simp add: stop_look_def journal_look_def kv_look_def init_schema_kv fun_eq_iff)

lemma post_stop_request_log:
  "post_stop_request X c D V net f other original session_id q d = (r, d', log) \<Longrightarrow>
     log = snd (stop_tool_session_with_caller_key X D V net session_id q)"
  by (auto simp: post_stop_request_def Let_def split: prod.splits result.splits bool.splits)

lemma submit_stop_cases:
  assumes "submit_stop X c D V H net F other server_url token request_id s d = (r, d', log)"
    and "serde_lawful c" and "kv_invar d"
  defines "original \<equiv> stop_original X H server_url token request_id s"
  shows "(is_ok r \<longrightarrow> log \<noteq> []) \<and> (log \<noteq> [] \<longrightarrow>
    (\<exists>d2. kv_invar d2 \<and> stop_look X c d request_id = None \<and>
       stop_look X c d2 = (stop_look X c d)(request_id \<mapsto> original) \<and>
       post_stop_request X c D V net (sf_update F) other original (sd_id s) (stop_request X request_id s) d2 =
         (r, d', log)))"
proof (cases "validate_stop_session X s = Ok () \<and> is_ok (open_state H)")
  case False
  with assms(1) show ?thesis
    by (cases "validate_stop_session X s"; cases "open_state H") (auto simp: submit_stop_def Let_def)
next
  case True
  then obtain p where v: "validate_stop_session X s = Ok ()" "open_state H = Ok p" by (auto simp: is_ok_iff)
  obtain x d1 where i: "init_schema (sf_init F) d = (x, d1)" by fastforce
  obtain y d2 where res: "reserve_session_stop X c (sf_reserve F) original d1 = (y, d2)" by fastforce
  have id: "ssr_request_id original = request_id" by (simp add: original_def stop_original_def)
  show ?thesis
  proof (cases "x = Ok () \<and> y = Ok True")
    case True
    have "kv_invar d1" using assms(3) kv_invar_init [OF i] by simp
    note look = stop_reserve_look [OF assms(2) this, of X "sf_reserve F" original d2]
    have "post_stop_request X c D V net (sf_update F) other original (sd_id s) (stop_request X request_id s) d2 =
        (r, d', log)"
      using assms(1) v i res True by (simp add: submit_stop_def original_def Let_def)
    moreover from this have "log \<noteq> []" if "is_ok r"
      using that by (auto simp: post_stop_request_def stop_tool_session_with_caller_key_def Let_def
          split: prod.splits result.splits bool.splits)
    ultimately show ?thesis using look res True id by (auto simp: stop_look_init [OF i])
  next
    case False
    with assms(1) v i res show ?thesis
      by (cases x; cases y) (auto simp: submit_stop_def original_def Let_def split: bool.splits)
  qed
qed

lemma read_stop_response_Err: "read_stop_response V q data = Err e \<Longrightarrow> e = stop_invalid_request"
  by (auto simp: read_stop_response_def validate_stop_receipt_def split: option.splits result.splits if_splits)


definition stop_values_none :: stop_values where
  "stop_values_none = \<lparr>sv_receipt = (\<lambda>_. None), sv_session = (\<lambda>_. None)\<rparr>"

definition running_session :: session_data where
  "running_session =
     \<lparr>sd_id = sample_id 2, sd_tool_type = ''claude'', sd_user_id = sample_id 1,
      sd_tool_account_id = sample_id 1, sd_workspace_id = sample_id 1,
      sd_workspace_local_path = None, sd_workspace_remote_path = None, sd_node_id = sample_id 3,
      sd_project_key = ''p'', sd_status = ''running'', sd_tmux_session_name = None,
      sd_container_id = None, sd_runtime_backend = ''tmux'', sd_runtime_resource_id = None,
      sd_replaces_session_id = None, sd_create_task_id = None, sd_stop_task_id = None,
      sd_skill_finalization_operation_id = None, sd_created_at = ''t'', sd_updated_at = ''t''\<rparr>"

lemma running_session_valid: "validate_stop_session sample_crates running_session = Ok ()"
  by (simp add: validate_stop_session_def running_session_def valid_text_def has_control_def chars_def
      is_control_def utf8_width_def)

lemma running_fingerprint: "stop_intent_fingerprint sample_crates s r = sample_digest"
  by (simp add: stop_intent_fingerprint_def sample_crates_def sample_digest_def)

lemma running_original:
  "stop_original sample_crates sample_host ''https://s'' ''t'' (sample_id 4) running_session = sample_stop"
  by (simp add: stop_original_def running_session_def sample_stop_def running_fingerprint sample_host_def
      authenticated_scope_def)
    (simp add: sample_crates_def sample_digest_def)

lemma reserve_sample_stop:
  "to_json c sample_stop = Some ''1'' \<Longrightarrow>
   reserve_session_stop sample_crates c no_faults sample_stop (created_db\<lparr>db_user_version := 4\<rparr>) =
     (Ok True, created_db\<lparr>db_user_version := 4, db_kv := [(''session_stop_request:'' @ sample_id 4, ''1'')]\<rparr>)"
  by (simp add: stop_ops journal_eval session_stop_journal_def
      has_table_def [of "db_user_version_update _ _"] created_db_kv(1) [unfolded has_table_def])
    (simp add: sample_stop_def)

lemma running_request_valid:
  "validate_stop_request sample_crates (sample_id 2) (stop_request sample_crates (sample_id 4) running_session) = Ok ()"
  by (simp add: validate_stop_request_def stop_request_def running_fingerprint)
    (simp add: running_session_def valid_text_def has_control_def chars_def is_control_def utf8_width_def)

lemmas stop_submit_eval = submit_stop_def no_submit_faults_def running_session_valid open_state_sample
  init_schema_fresh running_original reserve_sample_stop post_stop_request_def Let_def
  stop_tool_session_with_caller_key_def running_request_valid


text \<open>
  A successful stop is for the session that was frozen: the receipt, in the current or the
  legacy format, names the same session, node, backend and fingerprint as the request, and the
  task the session was already waiting for if there was one; and the journal holds the
  returned record under the request id.
\<close>

lemma submit_stop_success:
  assumes "submit_stop X c D V H net F (\<lambda>d. d) server_url token request_id s d = (Ok (receipt, rec), d', log)"
    and "serde_lawful c" and "kv_invar d"
  shows "st_request_id receipt = request_id \<and> st_session_id receipt = sd_id s \<and>
    st_node_id receipt = sd_node_id s \<and> st_runtime_backend receipt = sd_runtime_backend s \<and>
    st_intent_fingerprint receipt = stop_intent_fingerprint X s ''user_requested'' \<and>
    (\<forall>t. sd_stop_task_id s = Some t \<longrightarrow> st_stop_task_id receipt = Some t) \<and>
    stop_look X c d' request_id = Some rec \<and>
    rec = stop_record_from_receipt (stop_original X H server_url token request_id s) receipt"
proof -
  let ?o = "stop_original X H server_url token request_id s"
  let ?q = "stop_request X request_id s"
  from submit_stop_cases [OF assms] obtain d2 where inv: "kv_invar d2"
    and p: "post_stop_request X c D V net (sf_update F) (\<lambda>d. d) ?o (sd_id s) ?q d2 = (Ok (receipt, rec), d', log)"
    by auto
  have id: "ssr_request_id ?o = request_id" by (simp add: stop_original_def)
  from p have call: "stop_tool_session_with_caller_key X D V net (sd_id s) ?q = (Ok receipt, log)"
    and rec: "rec = stop_record_from_receipt ?o receipt"
    and u: "update_session_stop X c (sf_update F) ?o rec d2 = (Ok True, d')"
    by (auto simp: post_stop_request_def Let_def split: prod.splits result.splits bool.splits)
  from call obtain data where "read_stop_response V ?q data = Ok receipt" by (rule stop_submission_Ok)
  from read_stop_response_Ok [OF this] stop_update_look(4) [OF assms(2) inv u] rec id show ?thesis
    by (auto simp: stop_request_def)
qed

text \<open>A server that answers with the bare session row.\<close>

definition stop_values_legacy :: stop_values where
  "stop_values_legacy = \<lparr>sv_receipt = (\<lambda>_. None), sv_session = (\<lambda>_. Some running_session)\<rparr>"

definition legacy_stop :: session_stop_record where
  "legacy_stop = stop_record_from_receipt sample_stop
     (legacy_stop_receipt running_session (stop_request sample_crates (sample_id 4) running_session))"

definition legacy_stop_codec :: "session_stop_record codec" where
  "legacy_stop_codec = table_codec [(sample_stop, ''1''), (legacy_stop, ''2'')]"

lemma legacy_codec_facts [simp]:
  "serde_lawful legacy_stop_codec" "to_json legacy_stop_codec sample_stop = Some ''1''"
  "from_json legacy_stop_codec ''1'' = Some sample_stop" "to_json legacy_stop_codec legacy_stop = Some ''2''"
proof -
  have "ssr_phase sample_stop \<noteq> ssr_phase legacy_stop"
    by (simp add: legacy_stop_def stop_record_from_receipt_def legacy_stop_receipt_def sample_stop_def)
  then have "sample_stop \<noteq> legacy_stop" by (rule contrapos_nn) (erule arg_cong)
  then show "serde_lawful legacy_stop_codec" "to_json legacy_stop_codec sample_stop = Some ''1''"
    "from_json legacy_stop_codec ''1'' = Some sample_stop" "to_json legacy_stop_codec legacy_stop = Some ''2''"
    by (simp_all add: legacy_stop_codec_def table_codec_lawful) (simp_all add: table_codec_def)
qed

lemma legacy_stop_valid: "validate_session_stop sample_crates legacy_stop (Some sample_stop) = Ok ()"
  by (simp add: validate_session_stop_def stop_record_ok_def sample_stop_def legacy_stop_def
      stop_record_from_receipt_def legacy_stop_receipt_def running_session_def
      stop_phases_def stop_same_identity_def http_url_def starts_with_def)
    (simp add: valid_text_def has_control_def chars_def is_control_def utf8_width_def)

lemma submit_stop_legacy:
  "fst (submit_stop sample_crates legacy_stop_codec (receipt_decoders JNull) stop_values_legacy sample_host answer
     no_submit_faults (\<lambda>d. d) ''https://s'' ''t'' (sample_id 4) running_session fresh_db) =
   Ok (legacy_stop_receipt running_session (stop_request sample_crates (sample_id 4) running_session), legacy_stop)"
proof -
  let ?d = "created_db\<lparr>db_user_version := 4, db_kv := [(''session_stop_request:'' @ sample_id 4, ''1'')]\<rparr>"
  have "fst (update_session_stop sample_crates legacy_stop_codec no_faults sample_stop legacy_stop ?d) = Ok True"
    using legacy_stop_valid
    by (simp add: stop_ops journal_eval session_stop_journal_def rust_eval
        has_table_def [of "db_user_version_update _ _"] created_db_kv(1) [unfolded has_table_def])
      (simp add: sample_stop_def)
  then obtain d' where u: "update_session_stop sample_crates legacy_stop_codec no_faults sample_stop legacy_stop ?d =
      (Ok True, d')" by (metis prod.collapse)
  have id: "sd_id running_session = sample_id 2" by (simp add: running_session_def)
  have "read_stop_response stop_values_legacy (stop_request sample_crates (sample_id 4) running_session) JNull =
      Ok (legacy_stop_receipt running_session (stop_request sample_crates (sample_id 4) running_session))"
    by (simp add: read_stop_response_def stop_values_legacy_def stop_request_def running_session_def)
  with u show ?thesis by (simp add: stop_submit_eval send_answer id legacy_stop_def [symmetric])
qed

text \<open>The request built for a session is valid whenever its journal record is.\<close>

lemma stop_request_valid:
  "stop_record_ok X (stop_original X H server_url token request_id s) \<Longrightarrow>
     validate_stop_request X (sd_id s) (stop_request X request_id s) = Ok ()"
  by (simp add: stop_record_ok_def validate_stop_request_def stop_original_def stop_request_def)

lemma stop_record_ident: "stop_ident (stop_record_from_receipt original receipt) = stop_ident original"
  by (simp add: stop_ident_def stop_record_from_receipt_def)



section \<open>Observation: properties\<close>

lemma persist_stop_Ok:
  "persist_stop X c original receipt H f d = (Ok (), d') \<Longrightarrow>
     is_none_or (\<lambda>record. stop_validate_binding record receipt = Ok ()) original"
  by (auto simp: persist_stop_def split: option.splits result.splits)

lemma persist_stop_keeps:
  assumes "serde_lawful c" and "kv_invar d" and "stop_look X c d i = Some r"
    and "persist_stop X c original receipt H f d = (x, d')"
  shows "kv_invar d' \<and> (\<exists>r'. stop_look X c d' i = Some r' \<and> stop_ident r' = stop_ident r)"
proof (cases "d' = d")
  case False
  then obtain rec x' where u: "update_session_stop X c f rec (stop_record_from_receipt rec receipt) d = (x', d')"
    using assms(4) by (auto simp: persist_stop_def split: option.splits result.splits prod.splits)
  with False have "x' = Ok True" using journal_update_cases [OF u [unfolded stop_ops]] by auto
  with u stop_update_look [OF assms(1,2), of X f rec "stop_record_from_receipt rec receipt" d'] assms(3)
  show ?thesis by auto
qed (use assms in auto)

lemma observe_stop_loop_Ok:
  assumes "observe_stop_loop X c D original request_id wait polls latest d = Some (Ok receipt, d')"
  shows "st_request_id receipt = request_id \<and> (\<not> wait \<or> stop_terminal receipt) \<and>
    is_none_or (\<lambda>record. stop_validate_binding record receipt = Ok ()) original"
  using assms
proof (induction X c D original request_id wait polls latest d rule: observe_stop_loop.induct)
  case (4 X c D original request_id wait outcome H f stop polls latest d)
  from "4.prems" obtain received log d1 where g: "get_tool_session_stop_request X D (\<lambda>_. outcome) request_id = (Ok received, log)"
    and p: "persist_stop X c original received H f d = (Ok (), d1)"
    by (auto split: prod.splits result.splits)
  have id: "st_request_id received = request_id"
    using g by (auto simp: get_tool_session_stop_request_def Let_def split: if_splits result.splits)
  show ?case
  proof (cases "(\<not> wait \<or> stop_terminal received \<or> stop_failed received) \<or> stop")
    case True
    with "4.prems" g p have "receipt = received \<and> (\<not> wait \<or> stop_terminal received)"
      by (auto simp: observe_exit_def split: if_splits)
    with id persist_stop_Ok [OF p] show ?thesis by simp
  next
    case False
    with "4.prems" g p have "observe_stop_loop X c D original request_id wait polls (Some received) d1 =
        Some (Ok receipt, d')" by simp
    with "4.IH" [of "Ok received" log received "Ok ()" d1 "()"] g p False show ?thesis by auto
  qed
qed (auto simp: observe_exit_def split: option.splits)

lemma observe_stop_loop_keeps:
  assumes "observe_stop_loop X c D original request_id wait polls latest d = Some (r, d')"
    and "serde_lawful c" and "kv_invar d" and "stop_look X c d i = Some rec"
  shows "\<exists>rec'. stop_look X c d' i = Some rec' \<and> stop_ident rec' = stop_ident rec"
  using assms(1,3,4)
proof (induction polls arbitrary: latest d rec)
  case (Cons p polls)
  show ?case
  proof (cases p)
    case (Answered outcome H f stop)
    obtain x log where g: "get_tool_session_stop_request X D (\<lambda>_. outcome) request_id = (x, log)" by fastforce
    show ?thesis
    proof (cases x)
      case (Err e)
      with Cons.prems Answered g show ?thesis by auto
    next
      case (Ok received)
      obtain y d1 where q: "persist_stop X c original received H f d = (y, d1)" by fastforce
      from persist_stop_keeps [OF assms(2) Cons.prems(2,3) q] obtain r1 where
        r1: "kv_invar d1" "stop_look X c d1 i = Some r1" "stop_ident r1 = stop_ident rec" by auto
      show ?thesis
      proof (cases "d' = d1")
        case True
        with r1 show ?thesis by auto
      next
        case False
        with Cons.prems(1) Answered g Ok q have
          "observe_stop_loop X c D original request_id wait polls (Some received) d1 = Some (r, d')"
          by (auto split: result.splits if_splits)
        from Cons.IH [OF this r1(1,2)] r1(3) show ?thesis by auto
      qed
    qed
  qed (use Cons.prems in auto)
qed simp

text \<open>
  Observing a stop is bound to the original request and harmless: a returned receipt has
  the requested id, agrees with the journal's session, node, backend and fingerprint if the
  request is recorded there, and is terminal when the call waits; and whatever the outcome,
  every recorded stop request keeps its identity in the database.
\<close>

lemma observe_stop_bound:
  assumes "observe_stop X c D H f request_id wait polls d = Some (r, d')"
    and "session_stop_records X c H f d = Ok records"
    and "serde_lawful c" and "kv_invar d"
  shows "(\<forall>receipt. r = Ok receipt \<longrightarrow> st_request_id receipt = request_id \<and> (wait \<longrightarrow> stop_terminal receipt) \<and>
      (\<forall>record. find (\<lambda>s. ssr_request_id s = request_id) records = Some record \<longrightarrow>
         st_session_id receipt = ssr_session_id record \<and> st_node_id receipt = ssr_node_id record \<and>
         st_runtime_backend receipt = ssr_runtime_backend record \<and>
         st_intent_fingerprint receipt = ssr_intent_fingerprint record)) \<and>
    (\<forall>i rec. stop_look X c d i = Some rec \<longrightarrow>
       (\<exists>rec'. stop_look X c d' i = Some rec' \<and> stop_same_identity rec rec'))"
proof (cases "canonical_uuid X request_id")
  case False
  with assms(1) have "d' = d" "\<not> is_ok r" by (auto simp: observe_stop_def)
  then show ?thesis by (cases r) (auto simp: stop_same_identity_def)
next
  case True
  with assms(1,2) have l: "observe_stop_loop X c D (find (\<lambda>s. ssr_request_id s = request_id) records)
      request_id wait polls None d = Some (r, d')" by (simp add: observe_stop_def)
  have keeps: "\<exists>rec'. stop_look X c d' i = Some rec' \<and> stop_same_identity rec rec'"
    if "stop_look X c d i = Some rec" for i rec
    using observe_stop_loop_keeps [OF l assms(3,4) that] by (simp add: stop_same_identity_iff)
  show ?thesis
  proof (cases r)
    case (Ok receipt)
    from observe_stop_loop_Ok [OF l [unfolded Ok]] keeps Ok show ?thesis
      by (auto simp: stop_validate_binding_def)
  qed (use keeps in auto)
qed

end
