(* ===== verification/Session_Creation_Api.thy ===== *)
theory Session_Creation_Api
  imports Session_Types
begin

text \<open>
  The calls that create sessions: the caller-key transport of \<open>api/session_creation.rs\<close> and the
  admission and takeover calls of \<open>api/session_takeover.rs\<close>.
\<close>

section \<open>Caller-key creation\<close>

record create_session_request =
  cs_tool_type :: string
  cs_tool_account_id :: string
  cs_workspace_id :: string
  cs_project_key :: string
  cs_argv :: "string list"
  cs_replaces_session_id :: "string option"

record caller_create_request =
  cr_session :: create_session_request
  cr_request_id :: string
  cr_schema_version :: nat
  cr_argv_digest :: string
  cr_intent_fingerprint :: string
  cr_sync_target :: "json option"
  cr_sync_target_digest :: "string option"
  cr_prepare_task_id :: "string option"
  cr_prepare_task_record_id :: "string option"

record session_create_receipt =
  ct_schema_version :: nat
  ct_request_id :: string
  ct_tool_type :: string
  ct_tool_account_id :: string
  ct_workspace_id :: string
  ct_project_key :: string
  ct_argv_digest :: string
  ct_intent_fingerprint :: "string option"
  ct_replacement_session_id :: "string option"
  ct_sync_target_digest :: "string option"
  ct_sync_target :: "json option"
  ct_phase :: string
  ct_session_id :: "string option"
  ct_create_task_id :: "string option"
  ct_task_record_id :: "string option"
  ct_task_status :: "string option"
  ct_session_status :: "string option"
  ct_result_status :: "string option"
  ct_session_deleted :: bool
  ct_observed_at :: "string option"
  ct_error_code :: "string option"

definition create_invalid_request :: api_error where
  "create_invalid_request =
     api_local ''SESSION_CREATE_RESPONSE_INVALID'' ''caller-key request or response is invalid''"

definition validate_create_request :: "crates \<Rightarrow> caller_create_request \<Rightarrow> (unit, api_error) result" where
  "validate_create_request X q =
     ensure
      (canonical_uuid X (cr_request_id q) \<and>
       cr_schema_version q = 1 \<and>
       valid_digest (cr_argv_digest q) \<and>
       valid_digest (cr_intent_fingerprint q) \<and>
       is_none_or valid_digest (cr_sync_target_digest q) \<and>
       is_none_or (canonical_uuid X) (cr_prepare_task_record_id q) \<and>
       is_none_or (\<lambda>v. v \<noteq> [] \<and> length v \<le> 256) (cr_prepare_task_id q))
      create_invalid_request"

definition receipt_from_session :: "session_data \<Rightarrow> caller_create_request \<Rightarrow> session_create_receipt" where
  "receipt_from_session s q =
     \<lparr>ct_schema_version = 1, ct_request_id = cr_request_id q, ct_tool_type = sd_tool_type s,
      ct_tool_account_id = sd_tool_account_id s, ct_workspace_id = sd_workspace_id s,
      ct_project_key = sd_project_key s, ct_argv_digest = cr_argv_digest q,
      ct_intent_fingerprint = Some (cr_intent_fingerprint q),
      ct_replacement_session_id = sd_replaces_session_id s,
      ct_sync_target_digest = cr_sync_target_digest q, ct_sync_target = cr_sync_target q,
      ct_phase = ''accepted'', ct_session_id = Some (sd_id s), ct_create_task_id = sd_create_task_id s,
      ct_task_record_id = None, ct_task_status = None, ct_session_status = Some (sd_status s),
      ct_result_status = None, ct_session_deleted = False, ct_observed_at = Some (sd_updated_at s),
      ct_error_code = None\<rparr>"

definition validate_create_receipt ::
  "session_create_receipt \<Rightarrow> caller_create_request \<Rightarrow> (unit, api_error) result" where
  "validate_create_receipt r q =
     ensure
      (ct_schema_version r = 1 \<and>
       ct_request_id r = cr_request_id q \<and>
       ct_tool_type r = cs_tool_type (cr_session q) \<and>
       ct_tool_account_id r = cs_tool_account_id (cr_session q) \<and>
       ct_workspace_id r = cs_workspace_id (cr_session q) \<and>
       ct_project_key r = cs_project_key (cr_session q) \<and>
       ct_argv_digest r = cr_argv_digest q)
      create_invalid_request"

definition create_tool_session_with_caller_key ::
  "crates \<Rightarrow> session_data decoders \<Rightarrow> caller_create_request network \<Rightarrow> caller_create_request \<Rightarrow>
     (session_create_receipt, api_error) result \<times> caller_create_request http_request list" where
  "create_tool_session_with_caller_key X D net q =
     (case validate_create_request X q of
        Err e \<Rightarrow> (Err e, [])
      | Ok _ \<Rightarrow>
          let post = HttpPost ''/api/v1/sessions'' q in
          (case send X D (net post) of
             Err e \<Rightarrow> (Err e, [post])
           | Ok s \<Rightarrow>
               let receipt = receipt_from_session s q in
               (case validate_create_receipt receipt q of
                  Err e \<Rightarrow> (Err e, [post])
                | Ok _ \<Rightarrow> (Ok receipt, [post]))))"

definition get_tool_session_request ::
  "crates \<Rightarrow> session_create_receipt decoders \<Rightarrow> caller_create_request network \<Rightarrow> string \<Rightarrow>
     (session_create_receipt, api_error) result" where
  "get_tool_session_request X D net request_id =
     (if \<not> canonical_uuid X request_id then Err create_invalid_request
      else case send X D (net (HttpGet (''/api/v1/sessions/requests/'' @ url_encode request_id))) of
        Err e \<Rightarrow> Err e
      | Ok r \<Rightarrow>
          if ct_request_id r \<noteq> request_id \<or> ct_schema_version r \<noteq> 1 then Err create_invalid_request
          else Ok r)"

text \<open>\<open>map_caller_key_error\<close>: the match arms in their order.\<close>

definition create_conflicts :: "string list" where
  "create_conflicts =
     [''SESSION_CREATE_REQUEST_CONFLICT'', ''SESSION_CREATE_SYNC_TARGET_CHANGED'',
      ''SESSION_CREATE_SYNC_NOT_READY'', ''SESSION_CREATE_PREPARE_UNPROVEN'',
      ''SESSION_CREATE_NODE_MISMATCH'', ''SESSION_CREATE_REPLACEMENT_INVALID'',
      ''SESSION_CREATE_ADMISSION_PENDING'']"

definition map_caller_key_error :: "api_error \<Rightarrow> string" where
  "map_caller_key_error e =
     (case ae_status e of
        None \<Rightarrow> ''SESSION_CREATE_SUBMISSION_UNKNOWN''
      | Some s \<Rightarrow>
          if s = 409 \<and> is_some_and (\<lambda>c. c \<in> set create_conflicts) (ae_code e) then the (ae_code e)
          else if s = 404 \<and> ae_code e = Some ''SESSION_CREATE_REQUEST_NOT_FOUND''
          then ''SESSION_CREATE_REQUEST_NOT_FOUND''
          else if s = 401 then ''AUTHENTICATION_REQUIRED''
          else if s = 403 then ''PERMISSION_DENIED''
          else if 400 \<le> s \<and> s < 500 \<and> s \<noteq> 408 \<and> s \<noteq> 429 then ''SESSION_CREATE_REJECTED''
          else ''SESSION_CREATE_SUBMISSION_UNKNOWN'')"

section \<open>Admission and takeover\<close>

datatype takeover_phase = TakeoverReserved | TakeoverUploading | TakeoverCommitted

record pending_takeover =
  pt_account_id :: string
  pt_takeover_id :: string
  pt_takeover_status :: takeover_phase
  pt_reservation_committed :: bool
  pt_session_created :: bool

datatype session_admission = Created session_data | Takeover pending_takeover

record takeover_status =
  tk_operation_id :: string
  tk_account_id :: string
  tk_status :: takeover_phase
  tk_task_status :: string
  tk_checkpoint_id :: "string option"
  tk_recovery_required :: bool

text \<open>\<open>canonical_id\<close> admits the nil UUID, unlike \<open>canonical_uuid\<close>.\<close>

definition canonical_id :: "crates \<Rightarrow> string \<Rightarrow> bool" where
  "canonical_id X v = (case uuid_parse X v of None \<Rightarrow> False | Some u \<Rightarrow> uuid_print X u = v)"

definition invalid_takeover_response :: api_error where
  "invalid_takeover_response =
     \<lparr>ae_status = None, ae_code = Some ''INVALID_TAKEOVER_RESPONSE'',
      ae_message = ''Takeover response does not match the original account operation.''\<rparr>"

definition takeover_accepted :: "crates \<Rightarrow> create_session_request \<Rightarrow> string \<times> pending_takeover \<Rightarrow> bool" where
  "takeover_accepted X q = (\<lambda>(code, view).
     code = ''MIGRATION_PENDING'' \<and>
     pt_account_id view = cs_tool_account_id q \<and>
     canonical_id X (pt_account_id view) \<and>
     canonical_id X (pt_takeover_id view) \<and>
     pt_reservation_committed view \<and>
     \<not> pt_session_created view \<and>
     pt_takeover_status view \<noteq> TakeoverCommitted)"

text \<open>\<open>pending\<close> decodes the error envelope of a conflict into its code and details.\<close>

definition create_session_admission ::
  "crates \<Rightarrow> session_data decoders \<Rightarrow> (string \<Rightarrow> (string \<times> pending_takeover) option) \<Rightarrow> create_session_request \<Rightarrow>
     (http_response, api_error) result \<Rightarrow> (session_admission, api_error) result" where
  "create_session_admission X D pending q outcome =
     (case outcome of
        Err e \<Rightarrow> Err e
      | Ok response \<Rightarrow>
          (case read_response_body D response of
             Err e \<Rightarrow> Err e
           | Ok body \<Rightarrow>
               if is_success (hr_status response)
               then (case dec_payload D body of
                       Err m \<Rightarrow> Err (api_decode_error (hr_status response) m)
                     | Ok s \<Rightarrow>
                         if sd_tool_account_id s \<noteq> cs_tool_account_id q \<or> sd_workspace_id s \<noteq> cs_workspace_id q \<or>
                            sd_project_key s \<noteq> cs_project_key q \<or> sd_tool_type s \<noteq> cs_tool_type q
                         then Err invalid_takeover_response else Ok (Created s))
               else if hr_status response = 409 \<and> is_some_and (takeover_accepted X q) (pending body)
               then Ok (Takeover (snd (the (pending body))))
               else Err (from_error_response X D (hr_status response) body)))"

definition takeover_status_ok :: "crates \<Rightarrow> string \<Rightarrow> string \<Rightarrow> takeover_status \<Rightarrow> bool" where
  "takeover_status_ok X operation account v \<longleftrightarrow>
     (let active = tk_task_status v \<in> {''pending'', ''leased'', ''running''};
          finished = tk_task_status v \<in> {''succeeded'', ''failed'', ''cancelled'', ''expired'', ''missing''}
      in tk_operation_id v = operation \<and>
         tk_account_id v = account \<and>
         (active \<or> finished) \<and>
         (tk_status v = TakeoverCommitted) = (tk_checkpoint_id v \<noteq> None) \<and>
         is_none_or (canonical_id X) (tk_checkpoint_id v) \<and>
         \<not> (tk_status v \<noteq> TakeoverCommitted \<and> finished \<and> \<not> tk_recovery_required v))"

definition session_takeover_status ::
  "crates \<Rightarrow> takeover_status decoders \<Rightarrow> string \<Rightarrow> string \<Rightarrow> (http_response, api_error) result \<Rightarrow>
     (takeover_status, api_error) result \<times> create_session_request http_request list" where
  "session_takeover_status X D operation account outcome =
     (if \<not> canonical_id X operation \<or> \<not> canonical_id X account then (Err invalid_takeover_response, [])
      else
        (case send X D outcome of
           Err e \<Rightarrow> Err e
         | Ok v \<Rightarrow> if takeover_status_ok X operation account v then Ok v else Err invalid_takeover_response,
         [HttpGet (''/api/v1/sessions/skill-takeovers/'' @ operation)]))"

section \<open>Lemmas\<close>

lemma map_caller_key_error_definite:
  assumes "map_caller_key_error e \<noteq> ''SESSION_CREATE_SUBMISSION_UNKNOWN''"
  shows "\<exists>s. ae_status e = Some s \<and> 400 \<le> s \<and> s < 500 \<and> s \<noteq> 408 \<and> s \<noteq> 429"
  using assms by (auto simp: map_caller_key_error_def split: option.splits if_splits)

lemma create_call_log:
  "snd (create_tool_session_with_caller_key X D net q) = [] \<or>
   snd (create_tool_session_with_caller_key X D net q) = [HttpPost ''/api/v1/sessions'' q]"
  by (simp add: create_tool_session_with_caller_key_def Let_def split: result.splits)

lemma create_call_Ok:
  assumes "create_tool_session_with_caller_key X D net q = (Ok receipt, log)"
  shows "log = [HttpPost ''/api/v1/sessions'' q] \<and>
    (\<exists>s. send X D (net (HttpPost ''/api/v1/sessions'' q)) = Ok s \<and> receipt = receipt_from_session s q) \<and>
    validate_create_receipt receipt q = Ok ()"
  using assms by (auto simp: create_tool_session_with_caller_key_def Let_def split: result.splits)

text \<open>An answer of success that does not match the request has no status: its outcome is unknown.\<close>

lemma create_call_mismatch:
  assumes "create_tool_session_with_caller_key X D net q = (Err e, log)"
    and "send X D (net (HttpPost ''/api/v1/sessions'' q)) = Ok s"
  shows "map_caller_key_error e = ''SESSION_CREATE_SUBMISSION_UNKNOWN''"
proof -
  have "e = create_invalid_request"
    using assms
    by (auto simp: create_tool_session_with_caller_key_def validate_create_request_def validate_create_receipt_def
        Let_def split: result.splits if_splits)
  then show ?thesis by (simp add: create_invalid_request_def api_local_def map_caller_key_error_def)
qed

lemma admission_Created:
  "create_session_admission X D pending q outcome = Ok (Created s) \<Longrightarrow>
     sd_tool_account_id s = cs_tool_account_id q \<and> sd_workspace_id s = cs_workspace_id q \<and>
     sd_project_key s = cs_project_key q \<and> sd_tool_type s = cs_tool_type q"
  by (auto simp: create_session_admission_def split: result.splits if_splits)

lemma admission_Takeover:
  "create_session_admission X D pending q outcome = Ok (Takeover p) \<Longrightarrow>
     pt_account_id p = cs_tool_account_id q \<and> pt_reservation_committed p \<and> \<not> pt_session_created p"
  by (auto simp: create_session_admission_def takeover_accepted_def is_some_and_def split: result.splits if_splits option.splits)

lemma takeover_status_Ok:
  "session_takeover_status X D operation account outcome = (Ok v, log) \<Longrightarrow>
     takeover_status_ok X operation account v"
  by (auto simp: session_takeover_status_def split: result.splits if_splits)

end
