(* ===== verification/Session_Creation_Journal.thy ===== *)
theory Session_Creation_Journal
  imports Journal
begin

text \<open>
  The journal of session creation requests (\<open>local_state/session_creation.rs\<close>): the record,
  its validator, and the journal operations on it. The interpretation at the end gives it the
  lemmas of a caller journal.
\<close>

section \<open>Records and their validation\<close>

record session_create_record =
  scr_home :: string
  scr_server_url :: string
  scr_user_id :: string
  scr_request_id :: string
  scr_tool_type :: string
  scr_tool_account_id :: string
  scr_workspace_id :: string
  scr_project_key :: string
  scr_argv_digest :: string
  scr_replacement_session_id :: "string option"
  scr_sync_target_digest :: "string option"
  scr_prepare_task_id :: "string option"
  scr_prepare_task_record_id :: "string option"
  scr_phase :: string
  scr_session_id :: "string option"
  scr_create_task_id :: "string option"
  scr_task_record_id :: "string option"
  scr_last_observation :: "string option"

definition valid_text_id :: "string \<Rightarrow> bool" where
  "valid_text_id v \<longleftrightarrow>
     length v \<le> 256 \<and> v \<noteq> [] \<and>
     list_all (\<lambda>b. is_ascii_alphanumeric b \<or> b \<in> set ''-_:'') v"

definition valid_user_scope :: "crates \<Rightarrow> string \<Rightarrow> bool" where
  "valid_user_scope X v \<longleftrightarrow> canonical_uuid X v \<or> valid_digest v"

definition create_phases :: "string list" where
  "create_phases =
     [''prepared'', ''admission_pending'', ''accepted'', ''running'', ''failed'', ''unknown'',
      ''deleted'', ''rejected'']"

definition create_record_ok :: "crates \<Rightarrow> session_create_record \<Rightarrow> bool" where
  "create_record_ok X r \<longleftrightarrow>
     canonical_uuid X (scr_request_id r) \<and>
     valid_user_scope X (scr_user_id r) \<and>
     canonical_uuid X (scr_tool_account_id r) \<and>
     canonical_uuid X (scr_workspace_id r) \<and>
     is_none_or (canonical_uuid X) (scr_replacement_session_id r) \<and>
     is_none_or (canonical_uuid X) (scr_session_id r) \<and>
     valid_text (scr_server_url r) 8192 \<and>
     http_url (scr_server_url r) \<and>
     valid_text (scr_tool_type r) 64 \<and>
     valid_text (scr_project_key r) 4096 \<and>
     valid_digest (scr_argv_digest r) \<and>
     is_none_or valid_digest (scr_sync_target_digest r) \<and>
     is_none_or valid_text_id (scr_prepare_task_id r) \<and>
     is_none_or (canonical_uuid X) (scr_prepare_task_record_id r) \<and>
     is_none_or valid_text_id (scr_create_task_id r) \<and>
     is_none_or (canonical_uuid X) (scr_task_record_id r) \<and>
     scr_phase r \<in> set create_phases \<and>
     is_none_or (\<lambda>v. valid_text v 4096) (scr_last_observation r)"

text \<open>The immutable part of a record.\<close>

definition create_same_identity :: "session_create_record \<Rightarrow> session_create_record \<Rightarrow> bool" where
  "create_same_identity old r \<longleftrightarrow>
     scr_home old = scr_home r \<and>
     scr_server_url old = scr_server_url r \<and>
     scr_user_id old = scr_user_id r \<and>
     scr_request_id old = scr_request_id r \<and>
     scr_tool_type old = scr_tool_type r \<and>
     scr_tool_account_id old = scr_tool_account_id r \<and>
     scr_workspace_id old = scr_workspace_id r \<and>
     scr_project_key old = scr_project_key r \<and>
     scr_argv_digest old = scr_argv_digest r \<and>
     scr_replacement_session_id old = scr_replacement_session_id r \<and>
     scr_sync_target_digest old = scr_sync_target_digest r \<and>
     scr_prepare_task_id old = scr_prepare_task_id r \<and>
     scr_prepare_task_record_id old = scr_prepare_task_record_id r"

definition validate_session_create ::
  "crates \<Rightarrow> session_create_record \<Rightarrow> session_create_record option \<Rightarrow> (unit, failure) result" where
  "validate_session_create X r original =
     (if \<not> create_record_ok X r then Err (Bail ''invalid session creation journal record'')
      else if is_some_and (\<lambda>old. \<not> create_same_identity old r) original
      then Err (Bail ''session creation journal identity changed'')
      else Ok ())"

section \<open>The journal\<close>

definition session_create_journal :: "crates \<Rightarrow> session_create_record codec \<Rightarrow> session_create_record journal" where
  "session_create_journal X c =
     \<lparr>j_prefix = ''session_create_request:'', j_limit = 256, j_max = 32 * 1024,
      j_label = ''session creation journal'', j_codec = c, j_request_id = scr_request_id,
      j_home = scr_home, j_absent = (\<lambda>e. e = IoNotFound), j_valid = validate_session_create X\<rparr>"

definition session_create_records ::
  "crates \<Rightarrow> session_create_record codec \<Rightarrow> host \<Rightarrow> faults \<Rightarrow> db \<Rightarrow> (session_create_record list, failure) result"
where
  "session_create_records X c = journal_records (session_create_journal X c)"

definition reserve_session_create ::
  "crates \<Rightarrow> session_create_record codec \<Rightarrow> faults \<Rightarrow> session_create_record \<Rightarrow> db \<Rightarrow> (bool, failure) result \<times> db"
where
  "reserve_session_create X c = journal_reserve (session_create_journal X c)"

definition update_session_create ::
  "crates \<Rightarrow> session_create_record codec \<Rightarrow> faults \<Rightarrow> session_create_record \<Rightarrow> session_create_record \<Rightarrow> db \<Rightarrow>
     (bool, failure) result \<times> db" where
  "update_session_create X c = journal_update (session_create_journal X c)"

lemmas create_ops = session_create_records_def reserve_session_create_def update_session_create_def

section \<open>It is a caller journal\<close>

text \<open>The identity of a record is the record with its mutable observation fields blanked.\<close>

definition create_ident :: "session_create_record \<Rightarrow> session_create_record" where
  "create_ident r =
     r\<lparr>scr_phase := [], scr_session_id := None, scr_create_task_id := None,
        scr_task_record_id := None, scr_last_observation := None\<rparr>"

lemma create_same_identity_iff: "create_same_identity old r \<longleftrightarrow> create_ident r = create_ident old"
  by (cases r, cases old) (auto simp: create_same_identity_def create_ident_def)

lemma validate_session_create_Ok:
  "validate_session_create X r original = Ok () \<longleftrightarrow>
     create_record_ok X r \<and> is_none_or (\<lambda>old. create_ident r = create_ident old) original"
  by (cases original) (auto simp: validate_session_create_def create_same_identity_iff)

interpretation create: journal_validator "session_create_journal X c" create_ident for X c
proof unfold_locales
  fix r old
  assume "create_ident r = create_ident old"
  then have "create_same_identity old r" by (simp add: create_same_identity_iff)
  then show "j_request_id (session_create_journal X c) r = j_request_id (session_create_journal X c) old \<and>
      j_home (session_create_journal X c) r = j_home (session_create_journal X c) old"
    by (simp add: session_create_journal_def create_same_identity_def)
qed (simp add: session_create_journal_def validate_session_create_Ok)

lemma session_create_key: "journal_key (session_create_journal X c) r = ''session_create_request:'' @ scr_request_id r"
  by (simp add: journal_key_def session_create_journal_def)

lemma session_create_codec [simp]: "j_codec (session_create_journal X c) = c"
  by (simp add: session_create_journal_def)

section \<open>Properties\<close>

text \<open>
  A creation request key is reserved at most once: however reservations and updates are
  interleaved, and whatever storage operations fail, at most one \<open>reserve_session_create\<close> of a
  given request id answers true. The first POST is sent only after such an answer.
\<close>

lemma create_reserved_once:
  assumes "serde_lawful c" and "kv_invar d"
    and "run_ops (reserve_session_create X c) (update_session_create X c) ops d = (results, d')"
  shows "reservations scr_request_id k ops results \<le> 1"
  using create.requests_once [of X c d ops results d' k] assms
  by (simp add: create_ops session_create_journal_def)

definition sample_create :: session_create_record where
  "sample_create =
     \<lparr>scr_home = ''/h'', scr_server_url = ''https://s'', scr_user_id = sample_id 1,
      scr_request_id = sample_id 2, scr_tool_type = ''codex'', scr_tool_account_id = sample_id 3,
      scr_workspace_id = sample_id 4, scr_project_key = ''p'', scr_argv_digest = sample_digest,
      scr_replacement_session_id = None, scr_sync_target_digest = None, scr_prepare_task_id = None,
      scr_prepare_task_record_id = None, scr_phase = ''prepared'', scr_session_id = None,
      scr_create_task_id = None, scr_task_record_id = None, scr_last_observation = None\<rparr>"

definition sample_create_codec :: "session_create_record codec" where
  "sample_create_codec =
     table_codec [(sample_create, ''1''), (sample_create\<lparr>scr_phase := ''accepted''\<rparr>, ''2'')]"

lemma sample_create_lawful [simp]: "serde_lawful sample_create_codec"
  by (simp add: sample_create_codec_def table_codec_lawful)

lemma sample_create_valid:
  "validate_session_create sample_crates sample_create None = Ok ()"
  "validate_session_create sample_crates (sample_create\<lparr>scr_phase := ''accepted''\<rparr>) (Some sample_create) = Ok ()"
  by (simp_all add: validate_session_create_def create_record_ok_def valid_user_scope_def
      sample_create_def create_phases_def create_same_identity_def http_url_def valid_text_def
      has_control_def chars_def is_control_def utf8_width_def starts_with_def)

end
