(* ===== verification/Account_Operations.thy ===== *)
theory Account_Operations
  imports Session_Types
begin

text \<open>
  Confirmed remote account workflows (\<open>account_operations.rs\<close>, \<open>account_operations/projection.rs\<close>
  and the account calls of \<open>api.rs\<close>): the check of the selected context, the authority a call
  needs, the projection of what the server reports, and the mutations. What the configuration
  file, the locks and the credential store give at each point of a call is an argument.
\<close>

section \<open>Contexts and errors\<close>

text \<open>\<open>Context\<close> of \<open>account_defaults.rs\<close> and \<open>Config\<close> of \<open>config.rs\<close>.\<close>

record account_context =
  ac_home :: string
  ac_server_url :: "string option"
  ac_active_device_id :: "string option"

record client_config =
  cf_server_url :: "string option"
  cf_active_device_id :: "string option"

record op_error =
  oe_code :: string
  oe_http_status :: "nat option"

definition op_error_new :: "string \<Rightarrow> op_error" where
  "op_error_new code = \<lparr>oe_code = code, oe_http_status = None\<rparr>"

definition op_error_read :: "api_error \<Rightarrow> op_error" where
  "op_error_read e =
     \<lparr>oe_code =
        (case ae_status e of
           None \<Rightarrow> ''server_unavailable''
         | Some s \<Rightarrow>
             if s = 401 then ''authentication_required''
             else if s = 403 then ''permission_denied''
             else if s = 404 then ''account_not_found''
             else if s = 429 then ''rate_limited''
             else if 200 \<le> s \<and> s \<le> 299 then ''account_response_invalid''
             else ''server_unavailable''),
      oe_http_status = ae_status e\<rparr>"

definition op_error_submission :: "api_error \<Rightarrow> op_error" where
  "op_error_submission e =
     \<lparr>oe_code = (if is_some_and (\<lambda>v. 400 \<le> v \<and> v < 500) (ae_status e) then ''account_rejected''
                 else ''account_outcome_unknown''),
      oe_http_status = ae_status e\<rparr>"

section \<open>Projections\<close>

definition op_id :: "string \<Rightarrow> bool" where
  "op_id v \<longleftrightarrow> v \<noteq> [] \<and> length v \<le> 128 \<and> list_all (\<lambda>b. is_ascii_alphanumeric b \<or> b \<in> set ''-_'') v"

text \<open>\<open>value.trim() == value\<close> for a non-empty text: neither end is white space.\<close>

definition trimmed :: "string \<Rightarrow> bool" where
  "trimmed v \<longleftrightarrow> chars v = [] \<or> \<not> is_whitespace (hd (chars v)) \<and> \<not> is_whitespace (last (chars v))"

definition op_text :: "string \<Rightarrow> nat \<Rightarrow> bool" where
  "op_text v limit \<longleftrightarrow> v \<noteq> [] \<and> length v \<le> limit \<and> trimmed v \<and> \<not> has_control v"

definition op_tags :: "string list \<Rightarrow> bool" where
  "op_tags vs \<longleftrightarrow> length vs \<le> 64 \<and> list_all (\<lambda>v. op_text v 128) vs"

definition op_status :: "string \<Rightarrow> bool" where
  "op_status v \<longleftrightarrow>
     v \<in> {''binding_requested'', ''binding_session_starting'', ''binding_waiting_user_login'',
          ''binding_verifying'', ''active'', ''expired'', ''disabled'', ''failed'',
          ''node_unavailable'', ''migrating''}"

record tool_account_data =
  ta_id :: string
  ta_user_id :: string
  ta_tool_type :: string
  ta_display_name :: string
  ta_status :: string
  ta_region_code :: string
  ta_timezone :: string
  ta_locale :: string
  ta_preferred_node_tags :: "string list"
  ta_affinity_node_id :: "string option"
  ta_runtime_backend :: "string option"
  ta_created_at :: string
  ta_updated_at :: string

record binding_status_data =
  bs_tool_account_id :: string
  bs_status :: string
  bs_node_id :: "string option"
  bs_binding_session_id :: "string option"
  bs_tmux_session_name :: "string option"
  bs_account_remote_path :: "string option"
  bs_connect_command :: "string option"
  bs_task_id :: "string option"
  bs_verifier :: "string option"
  bs_error :: "string option"

record op_account =
  oa_id :: string
  oa_tool_type :: string
  oa_display_name :: string
  oa_status :: string
  oa_region_code :: string
  oa_timezone :: string
  oa_locale :: string
  oa_preferred_node_tags :: "string list"
  oa_affinity_node_id :: "string option"
  oa_runtime_backend :: "string option"
  oa_created_at :: string
  oa_updated_at :: string

record op_binding =
  ob_tool_account_id :: string
  ob_status :: string
  ob_node_id :: "string option"
  ob_binding_session_id :: "string option"
  ob_tmux_session_name :: "string option"
  ob_account_remote_path :: "string option"
  ob_task_id :: "string option"
  ob_error_code :: "string option"

definition project_account :: "tool_account_data \<Rightarrow> (op_account, op_error) result" where
  "project_account v =
     (if \<not> op_id (ta_id v) \<or>
         \<not> op_id (ta_tool_type v) \<or>
         \<not> op_text (ta_display_name v) 256 \<or>
         \<not> op_status (ta_status v) \<or>
         \<not> op_text (ta_region_code v) 64 \<or>
         \<not> op_text (ta_timezone v) 128 \<or>
         \<not> op_text (ta_locale v) 128 \<or>
         \<not> op_tags (ta_preferred_node_tags v) \<or>
         is_some_and (\<lambda>i. \<not> op_id i) (ta_affinity_node_id v) \<or>
         is_some_and (\<lambda>b. b \<notin> {''native'', ''docker_sandbox''}) (ta_runtime_backend v) \<or>
         \<not> op_text (ta_created_at v) 128 \<or>
         \<not> op_text (ta_updated_at v) 128
      then Err (op_error_new ''account_response_invalid'')
      else Ok \<lparr>oa_id = ta_id v, oa_tool_type = ta_tool_type v, oa_display_name = ta_display_name v,
               oa_status = ta_status v, oa_region_code = ta_region_code v, oa_timezone = ta_timezone v,
               oa_locale = ta_locale v, oa_preferred_node_tags = ta_preferred_node_tags v,
               oa_affinity_node_id = ta_affinity_node_id v, oa_runtime_backend = ta_runtime_backend v,
               oa_created_at = ta_created_at v, oa_updated_at = ta_updated_at v\<rparr>)"

definition project_binding :: "binding_status_data \<Rightarrow> string \<Rightarrow> (op_binding, op_error) result" where
  "project_binding v expected_id =
     (if bs_tool_account_id v \<noteq> expected_id \<or>
         \<not> op_status (bs_status v) \<or>
         is_some_and (\<lambda>i. \<not> op_id i) (bs_node_id v) \<or>
         is_some_and (\<lambda>t. \<not> op_text t 512) (bs_binding_session_id v) \<or>
         is_some_and (\<lambda>t. \<not> op_text t 512) (bs_tmux_session_name v) \<or>
         is_some_and (\<lambda>t. \<not> op_text t 4096) (bs_account_remote_path v) \<or>
         is_some_and (\<lambda>t. \<not> op_text t 512) (bs_task_id v)
      then Err (op_error_new ''account_response_invalid'')
      else Ok \<lparr>ob_tool_account_id = bs_tool_account_id v, ob_status = bs_status v, ob_node_id = bs_node_id v,
               ob_binding_session_id = bs_binding_session_id v, ob_tmux_session_name = bs_tmux_session_name v,
               ob_account_remote_path = bs_account_remote_path v, ob_task_id = bs_task_id v,
               ob_error_code = map_option (\<lambda>_. ''binding_failed'') (bs_error v)\<rparr>)"

section \<open>Authority\<close>

text \<open>
  What one authorization finds: the loaded configuration (\<open>None\<close> when it cannot be loaded) each
  of the three times it is read, whether the login lock and the configuration lock are
  obtained, the device token with the server it belongs to, and whether a client can be built.
\<close>

record device_token =
  dt_token :: string
  dt_server_url :: string

record op_world =
  ow_config_before :: "client_config option"
  ow_login :: bool
  ow_config_locked :: "client_config option"
  ow_token :: "device_token option"
  ow_lock :: bool
  ow_config_final :: "client_config option"
  ow_client :: bool

definition check_context ::
  "host \<Rightarrow> client_config option \<Rightarrow> account_context \<Rightarrow> (client_config, op_error) result" where
  "check_context H loaded expected =
     (if h_home H \<noteq> ac_home expected then Err (op_error_new ''configuration_changed'')
      else case loaded of
        None \<Rightarrow> Err (op_error_new ''configuration_unavailable'')
      | Some actual \<Rightarrow>
          if cf_server_url actual \<noteq> ac_server_url expected \<or>
             cf_active_device_id actual \<noteq> ac_active_device_id expected
          then Err (op_error_new ''configuration_changed'')
          else if cf_server_url actual = None \<or> cf_active_device_id actual = None
          then Err (op_error_new ''authentication_required'')
          else Ok actual)"

definition op_authorize :: "host \<Rightarrow> op_world \<Rightarrow> account_context \<Rightarrow> (device_token, op_error) result" where
  "op_authorize H W expected =
     (case check_context H (ow_config_before W) expected of
        Err e \<Rightarrow> Err e
      | Ok _ \<Rightarrow>
          if \<not> ow_login W then Err (op_error_new ''credential_unavailable'')
          else case check_context H (ow_config_locked W) expected of
            Err e \<Rightarrow> Err e
          | Ok _ \<Rightarrow>
              (case ow_token W of
                 None \<Rightarrow> Err (op_error_new ''credential_unavailable'')
               | Some token \<Rightarrow>
                   if \<not> ow_lock W then Err (op_error_new ''configuration_unavailable'')
                   else case check_context H (ow_config_final W) expected of
                     Err e \<Rightarrow> Err e
                   | Ok _ \<Rightarrow>
                       if \<not> ow_client W then Err (op_error_new ''configuration_unavailable'')
                       else Ok token))"

section \<open>Operations\<close>

record create_account =
  ca_tool :: string
  ca_name :: string
  ca_region :: string
  ca_timezone :: string
  ca_locale :: string
  ca_tags :: "string list"

definition create_valid :: "create_account \<Rightarrow> bool" where
  "create_valid c \<longleftrightarrow>
     op_id (ca_tool c) \<and> op_text (ca_name c) 256 \<and> op_text (ca_region c) 64 \<and>
     op_text (ca_timezone c) 128 \<and> op_text (ca_locale c) 128 \<and> op_tags (ca_tags c)"

definition create_matches :: "create_account \<Rightarrow> op_account \<Rightarrow> bool" where
  "create_matches c a \<longleftrightarrow>
     oa_tool_type a = ca_tool c \<and> oa_display_name a = ca_name c \<and> oa_region_code a = ca_region c \<and>
     oa_timezone a = ca_timezone c \<and> oa_locale a = ca_locale c \<and> oa_preferred_node_tags a = ca_tags c"

datatype mutation =
    CreateAccount create_account
  | BindAccount string
  | VerifyAccount string
  | DisableAccount string

fun mutation_valid :: "mutation \<Rightarrow> bool" where
  "mutation_valid (CreateAccount c) = create_valid c"
| "mutation_valid (BindAccount i) = op_id i"
| "mutation_valid (VerifyAccount i) = op_id i"
| "mutation_valid (DisableAccount i) = op_id i"

text \<open>The one request of a mutation; a \<open>post_empty\<close> has no body.\<close>

fun mutation_post :: "mutation \<Rightarrow> create_account option http_request" where
  "mutation_post (CreateAccount c) = HttpPost ''/api/v1/tool-accounts'' (Some c)"
| "mutation_post (BindAccount i) = HttpPost (''/api/v1/tool-accounts/'' @ i @ ''/bind/start'') None"
| "mutation_post (VerifyAccount i) = HttpPost (''/api/v1/tool-accounts/'' @ i @ ''/bind/verify'') None"
| "mutation_post (DisableAccount i) = HttpPost (''/api/v1/tool-accounts/'' @ i @ ''/disable'') None"

record op_receipt =
  or_context :: account_context
  or_accepted :: bool
  or_account :: "op_account option"
  or_binding :: "op_binding option"

record op_decoders =
  od_account :: "tool_account_data decoders"
  od_binding :: "binding_status_data decoders"

text \<open>The outcome of a mutation's response, on every branch.\<close>

fun mutation_result ::
  "crates \<Rightarrow> op_decoders \<Rightarrow> (http_response, api_error) result \<Rightarrow> account_context \<Rightarrow> mutation \<Rightarrow>
     (op_receipt, op_error) result"
where
  "mutation_result X D outcome expected (CreateAccount input) =
     (case send X (od_account D) outcome of
        Err e \<Rightarrow> Err (op_error_submission e)
      | Ok v \<Rightarrow>
          (case project_account v of
             Err _ \<Rightarrow> Err (op_error_new ''account_outcome_unknown'')
           | Ok a \<Rightarrow>
               if \<not> create_matches input a then Err (op_error_new ''account_outcome_unknown'')
               else Ok \<lparr>or_context = expected, or_accepted = True, or_account = Some a, or_binding = None\<rparr>))"
| "mutation_result X D outcome expected (DisableAccount i) =
     (case send X (od_account D) outcome of
        Err e \<Rightarrow> Err (op_error_submission e)
      | Ok v \<Rightarrow>
          (case project_account v of
             Err _ \<Rightarrow> Err (op_error_new ''account_outcome_unknown'')
           | Ok a \<Rightarrow>
               if oa_id a \<noteq> i \<or> oa_status a \<noteq> ''disabled'' then Err (op_error_new ''account_outcome_unknown'')
               else Ok \<lparr>or_context = expected, or_accepted = True, or_account = Some a, or_binding = None\<rparr>))"
| "mutation_result X D outcome expected (BindAccount i) =
     (case send X (od_binding D) outcome of
        Err e \<Rightarrow> Err (op_error_submission e)
      | Ok v \<Rightarrow>
          (case project_binding v i of
             Err _ \<Rightarrow> Err (op_error_new ''account_outcome_unknown'')
           | Ok b \<Rightarrow>
               if ob_task_id b = None then Err (op_error_new ''account_outcome_unknown'')
               else Ok \<lparr>or_context = expected, or_accepted = True, or_account = None, or_binding = Some b\<rparr>))"
| "mutation_result X D outcome expected (VerifyAccount i) =
     (case send X (od_binding D) outcome of
        Err e \<Rightarrow> Err (op_error_submission e)
      | Ok v \<Rightarrow>
          (case project_binding v i of
             Err _ \<Rightarrow> Err (op_error_new ''account_outcome_unknown'')
           | Ok b \<Rightarrow>
               if ob_task_id b = None then Err (op_error_new ''account_outcome_unknown'')
               else Ok \<lparr>or_context = expected, or_accepted = True, or_account = None, or_binding = Some b\<rparr>))"

definition op_mutate ::
  "crates \<Rightarrow> op_decoders \<Rightarrow> host \<Rightarrow> op_world \<Rightarrow> (device_token \<Rightarrow> create_account option network) \<Rightarrow>
     account_context \<Rightarrow> mutation \<Rightarrow> (op_receipt, op_error) result \<times> create_account option http_request list" where
  "op_mutate X D H W net expected action =
     (if \<not> mutation_valid action then (Err (op_error_new ''invalid_params''), [])
      else case op_authorize H W expected of
        Err e \<Rightarrow> (Err e, [])
      | Ok token \<Rightarrow> (mutation_result X D (net token (mutation_post action)) expected action, [mutation_post action]))"

record op_status_report =
  os_context :: account_context
  os_account :: op_account
  os_binding :: op_binding

definition op_status_call ::
  "crates \<Rightarrow> op_decoders \<Rightarrow> host \<Rightarrow> op_world \<Rightarrow> (device_token \<Rightarrow> create_account option network) \<Rightarrow>
     account_context \<Rightarrow> string \<Rightarrow> (op_status_report, op_error) result" where
  "op_status_call X D H W net expected account_id =
     (if \<not> op_id account_id then Err (op_error_new ''invalid_params'')
      else case op_authorize H W expected of
        Err e \<Rightarrow> Err e
      | Ok token \<Rightarrow>
          (case send X (od_account D) (net token (HttpGet (''/api/v1/tool-accounts/'' @ account_id))) of
             Err e \<Rightarrow> Err (op_error_read e)
           | Ok v \<Rightarrow>
               (case project_account v of
                  Err e \<Rightarrow> Err e
                | Ok a \<Rightarrow>
                    if oa_id a \<noteq> account_id then Err (op_error_new ''account_response_invalid'')
                    else
                      (case send X (od_binding D)
                          (net token (HttpGet (''/api/v1/tool-accounts/'' @ account_id @ ''/bind/status''))) of
                         Err e \<Rightarrow> Err (op_error_read e)
                       | Ok w \<Rightarrow>
                           (case project_binding w account_id of
                              Err e \<Rightarrow> Err e
                            | Ok b \<Rightarrow> Ok \<lparr>os_context = expected, os_account = a, os_binding = b\<rparr>)))))"

section \<open>Properties\<close>

lemma check_context_Ok:
  "check_context H loaded expected = Ok actual \<longleftrightarrow>
     loaded = Some actual \<and> ac_home expected = h_home H \<and> cf_server_url actual = ac_server_url expected \<and>
     cf_active_device_id actual = ac_active_device_id expected \<and>
     ac_server_url expected \<noteq> None \<and> ac_active_device_id expected \<noteq> None"
  by (auto simp: check_context_def split: option.splits)

lemma op_authorize_Ok:
  "op_authorize H W expected = Ok token \<Longrightarrow>
     ow_login W \<and> ow_lock W \<and> ow_token W = Some token \<and>
     (\<exists>actual. check_context H (ow_config_final W) expected = Ok actual)"
  by (auto simp: op_authorize_def split: result.splits option.splits if_splits)

text \<open>What a reported acceptance of each mutation means.\<close>

fun accepted_for :: "mutation \<Rightarrow> op_receipt \<Rightarrow> bool" where
  "accepted_for (CreateAccount c) r = is_some_and (create_matches c) (or_account r)"
| "accepted_for (DisableAccount i) r = is_some_and (\<lambda>a. oa_id a = i \<and> oa_status a = ''disabled'') (or_account r)"
| "accepted_for (BindAccount i) r = is_some_and (\<lambda>b. ob_tool_account_id b = i \<and> ob_task_id b \<noteq> None) (or_binding r)"
| "accepted_for (VerifyAccount i) r = is_some_and (\<lambda>b. ob_tool_account_id b = i \<and> ob_task_id b \<noteq> None) (or_binding r)"

lemma project_binding_Ok: "project_binding v i = Ok b \<Longrightarrow> ob_tool_account_id b = i"
  by (auto simp: project_binding_def split: if_splits)

lemma mutation_result_Ok:
  "mutation_result X D outcome expected action = Ok r \<Longrightarrow> or_context r = expected \<and> accepted_for action r"
  by (cases action) (auto split: result.splits if_splits dest: project_binding_Ok)

lemma mutation_result_Err:
  assumes "mutation_result X D outcome expected action = Err e"
  shows "oe_code e = ''account_outcome_unknown'' \<or>
    oe_code e = ''account_rejected'' \<and> (\<exists>s. oe_http_status e = Some s \<and> 400 \<le> s \<and> s < 500)"
proof -
  have "(\<exists>a. e = op_error_submission a) \<or> e = op_error_new ''account_outcome_unknown''"
    using assms by (cases action) (auto split: result.splits if_splits)
  then show ?thesis by (auto simp: op_error_submission_def op_error_new_def is_some_and_def split: option.splits if_splits)
qed

text \<open>
  A mutation sends at most one request, and only with authority: a request is sent only
  for valid parameters, while the login and the configuration lock are held and the
  configuration still selects the expected home, server and device; success is reported only
  when the server's answer shows the requested effect on the requested account; and a failure
  after the request was sent is either a definite client error with its status or reported as
  of unknown outcome.
\<close>

lemma mutate_once:
  assumes "op_mutate X D H W net expected action = (r, log)"
  shows "(log \<noteq> [] \<longrightarrow> log = [mutation_post action] \<and> mutation_valid action \<and> ow_login W \<and> ow_lock W \<and>
            ac_home expected = h_home H \<and>
            is_some_and (\<lambda>cfg. cf_server_url cfg = ac_server_url expected \<and>
               cf_active_device_id cfg = ac_active_device_id expected) (ow_config_final W)) \<and>
    (\<forall>receipt. r = Ok receipt \<longrightarrow> log = [mutation_post action] \<and> accepted_for action receipt) \<and>
    (\<forall>e. r = Err e \<longrightarrow> log \<noteq> [] \<longrightarrow>
       oe_code e = ''account_outcome_unknown'' \<or>
       oe_code e = ''account_rejected'' \<and> (\<exists>s. oe_http_status e = Some s \<and> 400 \<le> s \<and> s < 500))"
proof (cases "log = []")
  case True
  with assms show ?thesis by (auto simp: op_mutate_def split: if_splits result.splits)
next
  case False
  with assms obtain token where v: "mutation_valid action" and a: "op_authorize H W expected = Ok token"
    and r: "r = mutation_result X D (net token (mutation_post action)) expected action"
    and log: "log = [mutation_post action]"
    by (auto simp: op_mutate_def split: if_splits result.splits)
  from op_authorize_Ok [OF a] obtain actual where
    "ow_login W" "ow_lock W" "check_context H (ow_config_final W) expected = Ok actual" by blast
  with v log r show ?thesis using mutation_result_Ok mutation_result_Err
    by (fastforce simp: check_context_Ok)
qed

definition sample_context :: account_context where
  "sample_context = \<lparr>ac_home = ''/h'', ac_server_url = Some ''https://s'', ac_active_device_id = Some ''d1''\<rparr>"

definition sample_op_world :: op_world where
  "sample_op_world =
     (let cfg = Some \<lparr>cf_server_url = Some ''https://s'', cf_active_device_id = Some ''d1''\<rparr> in
      \<lparr>ow_config_before = cfg, ow_login = True, ow_config_locked = cfg,
       ow_token = Some \<lparr>dt_token = ''t'', dt_server_url = ''https://s''\<rparr>, ow_lock = True,
       ow_config_final = cfg, ow_client = True\<rparr>)"

lemma sample_authorized:
  "op_authorize sample_host sample_op_world sample_context = Ok \<lparr>dt_token = ''t'', dt_server_url = ''https://s''\<rparr>"
  by (simp add: op_authorize_def check_context_def sample_op_world_def sample_context_def sample_host_def Let_def)

definition disabled_account :: tool_account_data where
  "disabled_account =
     \<lparr>ta_id = ''a1'', ta_user_id = ''u'', ta_tool_type = ''claude'', ta_display_name = ''Main'',
      ta_status = ''disabled'', ta_region_code = ''eu'', ta_timezone = ''UTC'', ta_locale = ''en'',
      ta_preferred_node_tags = [], ta_affinity_node_id = None, ta_runtime_backend = Some ''native'',
      ta_created_at = ''t0'', ta_updated_at = ''t1''\<rparr>"

definition sample_op_decoders :: op_decoders where
  "sample_op_decoders =
     \<lparr>od_account = receipt_decoders disabled_account,
      od_binding = receipt_decoders
        \<lparr>bs_tool_account_id = ''a1'', bs_status = ''active'', bs_node_id = None, bs_binding_session_id = None,
         bs_tmux_session_name = None, bs_account_remote_path = None, bs_connect_command = None,
         bs_task_id = Some ''t9'', bs_verifier = None, bs_error = None\<rparr>\<rparr>"

lemma disabled_account_valid:
  "\<exists>a. project_account disabled_account = Ok a \<and> oa_id a = ''a1'' \<and> oa_status a = ''disabled''"
  by (simp add: project_account_def disabled_account_def op_id_def op_text_def op_tags_def op_status_def
      trimmed_def rust_eval)

end
