(* ===== verification/Session_Creation.thy ===== *)
theory Session_Creation
  imports Session_Creation_Api Session_Creation_Journal Account_Operations
begin

text \<open>
  Creating a session: the fingerprints and the bounded wait for an account takeover of
  \<open>session_creation.rs\<close>, and the caller-key operations of \<open>desktop_control/session_creation.rs\<close>.
\<close>

section \<open>Fingerprints\<close>

definition argv_digest :: "crates \<Rightarrow> string list \<Rightarrow> string" where
  "argv_digest X argv = ''sha256:'' @ sha256_hex X (json_text X (JArray (map JString argv)))"

text \<open>A \<open>serde_json\<close> object is a sorted map, so its text has the keys in order.\<close>

definition create_intent_fingerprint ::
  "crates \<Rightarrow> string \<Rightarrow> string \<Rightarrow> string \<Rightarrow> string \<Rightarrow> string \<Rightarrow> string option \<Rightarrow> string option \<Rightarrow> string" where
  "create_intent_fingerprint X tool account workspace project digest replacement sync_digest =
     ''sha256:'' @ sha256_hex X (json_text X (JObject (btree_collect
       [(''tool_type'', JString tool), (''tool_account_id'', JString account),
        (''workspace_id'', JString workspace), (''project_key'', JString project),
        (''argv_digest'', JString digest), (''replacement_session_id'', json_opt replacement),
        (''sync_target_digest'', json_opt sync_digest)])))"

definition intent_fingerprint_wire ::
  "crates \<Rightarrow> string \<Rightarrow> string \<Rightarrow> string \<Rightarrow> string \<Rightarrow> string \<Rightarrow> string option \<Rightarrow> json \<Rightarrow> string" where
  "intent_fingerprint_wire X tool account workspace project digest replacement sync_target =
     json_digest X (JObject
       [(''schema_version'', JNumber ''1''), (''tool_type'', JString tool), (''tool_account_id'', JString account),
        (''workspace_id'', JString workspace), (''project_key'', JString project),
        (''argv_digest'', JString digest), (''replacement_session_id'', json_opt replacement),
        (''sync_target'', sync_target)])"

definition reserve_caller_key ::
  "crates \<Rightarrow> session_create_record codec \<Rightarrow> host \<Rightarrow> submit_faults \<Rightarrow> session_create_record \<Rightarrow> db \<Rightarrow>
     (bool, failure) result \<times> db" where
  "reserve_caller_key X c H F r d =
     (case open_state H of
        Err e \<Rightarrow> (Err e, d)
      | Ok _ \<Rightarrow>
          (case init_schema (sf_init F) d of
             (Err e, d1) \<Rightarrow> (Err e, d1)
           | (Ok _, d1) \<Rightarrow> reserve_session_create X c (sf_reserve F) r d1))"

definition update_caller_key ::
  "crates \<Rightarrow> session_create_record codec \<Rightarrow> host \<Rightarrow> faults \<Rightarrow> session_create_record \<Rightarrow> session_create_record \<Rightarrow> db \<Rightarrow>
     (bool, failure) result \<times> db" where
  "update_caller_key X c H f original new d =
     (case open_state H of
        Err e \<Rightarrow> (Err e, d)
      | Ok _ \<Rightarrow> update_session_create X c f original new d)"

section \<open>Waiting for a takeover\<close>

text \<open>
  One step of waiting: the signal or the deadline, with whether the request was already on its
  way, or an answer with whether the signal arrives during the pause that follows it.
\<close>

datatype wait_round = WaitSignal bool | WaitDeadline bool | WaitAnswer "(http_response, api_error) result" bool

record create_decoders =
  cd_session :: "session_data decoders"
  cd_pending :: "string \<Rightarrow> (string \<times> pending_takeover) option"
  cd_takeover :: "takeover_status decoders"

text \<open>One admission attempt, in one round.\<close>

fun admission_round ::
  "crates \<Rightarrow> create_decoders \<Rightarrow> create_session_request \<Rightarrow> wait_round \<Rightarrow>
     (session_admission, failure) result \<times> create_session_request http_request list"
where
  "admission_round X D q (WaitSignal sent) =
     (Err (ExitCode 130), if sent then [HttpPost ''/api/v1/sessions'' q] else [])"
| "admission_round X D q (WaitDeadline sent) =
     (Err (ExitCode 3), if sent then [HttpPost ''/api/v1/sessions'' q] else [])"
| "admission_round X D q (WaitAnswer outcome _) =
     (map_err ApiErr (create_session_admission X (cd_session D) (cd_pending D) q outcome),
      [HttpPost ''/api/v1/sessions'' q])"

text \<open>The observation loop; \<open>Some (Ok rest)\<close> leaves the loop with the rounds that remain.\<close>

fun takeover_loop ::
  "crates \<Rightarrow> create_decoders \<Rightarrow> pending_takeover \<Rightarrow> wait_round list \<Rightarrow>
     (wait_round list, failure) result option \<times> create_session_request http_request list"
where
  "takeover_loop X D p [] = (None, [])"
| "takeover_loop X D p (WaitSignal sent # rounds) =
     (Some (Err (ExitCode 130)),
      if sent then [HttpGet (''/api/v1/sessions/skill-takeovers/'' @ pt_takeover_id p)] else [])"
| "takeover_loop X D p (WaitDeadline sent # rounds) =
     (Some (Err (ExitCode 3)),
      if sent then [HttpGet (''/api/v1/sessions/skill-takeovers/'' @ pt_takeover_id p)] else [])"
| "takeover_loop X D p (WaitAnswer outcome stop # rounds) =
     (case session_takeover_status X (cd_takeover D) (pt_takeover_id p) (pt_account_id p) outcome of
        (Err e, log) \<Rightarrow> (Some (Err (ApiErr e)), log)
      | (Ok status, log) \<Rightarrow>
          if tk_recovery_required status
          then (Some (Err (Bail (''Account takeover requires recovery; retain operation '' @ pt_takeover_id p @ ''.''))), log)
          else if tk_status status = TakeoverCommitted then (Some (Ok rounds), log)
          else if stop then (Some (Err (ExitCode 130)), log)
          else (case takeover_loop X D p rounds of (r, log') \<Rightarrow> (r, log @ log')))"

definition create_with_takeover_wait ::
  "crates \<Rightarrow> create_decoders \<Rightarrow> create_session_request \<Rightarrow> wait_round list \<Rightarrow>
     (session_data, failure) result option \<times> create_session_request http_request list" where
  "create_with_takeover_wait X D q rounds =
     (case rounds of
        [] \<Rightarrow> (None, [])
      | first # rounds1 \<Rightarrow>
          (case admission_round X D q first of
             (Err e, log) \<Rightarrow> (Some (Err e), log)
           | (Ok (Created s), log) \<Rightarrow> (Some (Ok s), log)
           | (Ok (Takeover p), log) \<Rightarrow>
               (case takeover_loop X D p rounds1 of
                  (None, log1) \<Rightarrow> (None, log @ log1)
                | (Some (Err e), log1) \<Rightarrow> (Some (Err e), log @ log1)
                | (Some (Ok []), log1) \<Rightarrow> (None, log @ log1)
                | (Some (Ok (second # rounds2)), log1) \<Rightarrow>
                    (case admission_round X D q second of
                       (Err e, log2) \<Rightarrow> (Some (Err e), log @ log1 @ log2)
                     | (Ok (Created s), log2) \<Rightarrow> (Some (Ok s), log @ log1 @ log2)
                     | (Ok (Takeover _), log2) \<Rightarrow>
                         (Some (Err (Bail
                           ''Account admission remains pending after the original takeover committed.'')),
                          log @ log1 @ log2)))))"

section \<open>Caller-key creation\<close>

text \<open>The failure a desktop call reports.\<close>

record desktop_failure =
  df_code :: string
  df_retryable :: bool
  df_http_status :: "nat option"

definition failure_new :: "string \<Rightarrow> desktop_failure" where
  "failure_new code = \<lparr>df_code = code, df_retryable = False, df_http_status = None\<rparr>"

record replacement =
  rl_session_id :: string
  rl_tool_account_id :: string
  rl_workspace_id :: string
  rl_project_key :: string
  rl_node_id :: string
  rl_runtime_backend :: string

record create_input =
  ci_confirmed :: bool
  ci_schema_version :: nat
  ci_expected_context :: account_context
  ci_tool_type :: string
  ci_tool_account_id :: string
  ci_workspace_id :: string
  ci_project_key :: string
  ci_argv_digest :: string
  ci_intent_fingerprint :: "string option"
  ci_replacement :: "replacement option"
  ci_sync_target :: json

fun is_object :: "json \<Rightarrow> bool" where
  "is_object (JObject _) = True"
| "is_object _ = False"

text \<open>\<open>value.get(key).and_then(Value::as_str)\<close>.\<close>

fun get_str :: "json \<Rightarrow> string \<Rightarrow> string option" where
  "get_str (JObject es) k = (case map_of es k of Some (JString v) \<Rightarrow> Some v | _ \<Rightarrow> None)"
| "get_str _ k = None"

definition create_input_ok :: "crates \<Rightarrow> create_input \<Rightarrow> bool" where
  "create_input_ok X i \<longleftrightarrow>
     ci_confirmed i \<and> ci_schema_version i = 1 \<and>
     canonical_uuid X (ci_tool_account_id i) \<and>
     canonical_uuid X (ci_workspace_id i) \<and>
     valid_digest (ci_argv_digest i) \<and>
     is_object (ci_sync_target i) \<and>
     is_none_or (\<lambda>v. canonical_uuid X (rl_session_id v) \<and> canonical_uuid X (rl_tool_account_id v) \<and>
         canonical_uuid X (rl_workspace_id v) \<and> canonical_uuid X (rl_node_id v) \<and>
         rl_project_key v \<noteq> [] \<and> rl_runtime_backend v \<noteq> []) (ci_replacement i)"

definition create_original ::
  "crates \<Rightarrow> host \<Rightarrow> string \<Rightarrow> string \<Rightarrow> string \<Rightarrow> create_input \<Rightarrow> session_create_record" where
  "create_original X H server token request_id i =
     \<lparr>scr_home = h_home H, scr_server_url = server, scr_user_id = authenticated_scope X token,
      scr_request_id = request_id, scr_tool_type = ci_tool_type i, scr_tool_account_id = ci_tool_account_id i,
      scr_workspace_id = ci_workspace_id i, scr_project_key = ci_project_key i,
      scr_argv_digest = ci_argv_digest i,
      scr_replacement_session_id = map_option rl_session_id (ci_replacement i),
      scr_sync_target_digest = get_str (ci_sync_target i) ''target_digest'',
      scr_prepare_task_id = None, scr_prepare_task_record_id = None, scr_phase = ''prepared'',
      scr_session_id = None, scr_create_task_id = None, scr_task_record_id = None,
      scr_last_observation = None\<rparr>"

definition create_payload :: "crates \<Rightarrow> string \<Rightarrow> create_input \<Rightarrow> caller_create_request" where
  "create_payload X request_id i =
     (let replacement = map_option rl_session_id (ci_replacement i) in
      \<lparr>cr_session = \<lparr>cs_tool_type = ci_tool_type i, cs_tool_account_id = ci_tool_account_id i,
         cs_workspace_id = ci_workspace_id i, cs_project_key = ci_project_key i, cs_argv = [],
         cs_replaces_session_id = replacement\<rparr>,
       cr_request_id = request_id, cr_schema_version = 1, cr_argv_digest = ci_argv_digest i,
       cr_intent_fingerprint =
         (case ci_intent_fingerprint i of
            Some v \<Rightarrow> v
          | None \<Rightarrow> intent_fingerprint_wire X (ci_tool_type i) (ci_tool_account_id i) (ci_workspace_id i)
                     (ci_project_key i) (ci_argv_digest i) replacement (ci_sync_target i)),
       cr_sync_target = Some (ci_sync_target i),
       cr_sync_target_digest = get_str (ci_sync_target i) ''target_digest'',
       cr_prepare_task_id = None, cr_prepare_task_record_id = None\<rparr>)"

definition create_record_from_receipt ::
  "session_create_record \<Rightarrow> session_create_receipt \<Rightarrow> string \<Rightarrow> session_create_record" where
  "create_record_from_receipt original receipt phase =
     original\<lparr>scr_phase := phase, scr_session_id := ct_session_id receipt,
       scr_create_task_id := ct_create_task_id receipt, scr_task_record_id := ct_task_record_id receipt,
       scr_last_observation := option_or (ct_result_status receipt) (Some (ct_phase receipt))\<rparr>"

definition create_refused_record :: "session_create_record \<Rightarrow> string \<Rightarrow> session_create_record" where
  "create_refused_record original code =
     original\<lparr>scr_phase := (if code = ''SESSION_CREATE_ADMISSION_PENDING'' then ''admission_pending'' else ''rejected''),
       scr_last_observation := Some code\<rparr>"

text \<open>What is reported: a receipt, or the journaled identity of a request of unknown outcome.\<close>

datatype create_report = CreateReceipt session_create_receipt | CreateUnknown session_create_record

text \<open>
  The POST and the record of its outcome. \<open>other\<close> is what other clients do to the journal while
  the request is on its way; \<open>f\<close> and \<open>g\<close> are the failures of the update and of the reading.
\<close>

definition post_create ::
  "crates \<Rightarrow> session_create_record codec \<Rightarrow> session_data decoders \<Rightarrow> host \<Rightarrow> caller_create_request network \<Rightarrow>
     faults \<Rightarrow> faults \<Rightarrow> (db \<Rightarrow> db) \<Rightarrow> session_create_record \<Rightarrow> caller_create_request \<Rightarrow> db \<Rightarrow>
     (create_report, desktop_failure) result \<times> db \<times> caller_create_request http_request list" where
  "post_create X c D H net f g other original q d =
     (case create_tool_session_with_caller_key X D net q of
        (Ok receipt, log) \<Rightarrow>
          (case update_session_create X c f original (create_record_from_receipt original receipt ''accepted'') (other d) of
             (Err _, d') \<Rightarrow> (Err (failure_new ''session_create_outcome_unknown''), d', log)
           | (Ok _, d') \<Rightarrow> (Ok (CreateReceipt receipt), d', log))
      | (Err e, log) \<Rightarrow>
          let code = map_caller_key_error e;
              failed = \<lparr>df_code = code, df_retryable = (code = ''SESSION_CREATE_SUBMISSION_UNKNOWN''),
                        df_http_status = ae_status e\<rparr>
          in if code \<noteq> ''SESSION_CREATE_SUBMISSION_UNKNOWN''
             then (Err failed, snd (update_session_create X c f original (create_refused_record original code) (other d)), log)
             else
               (case session_create_records X c H g (other d) of
                  Err _ \<Rightarrow> (Err failed, other d, log)
                | Ok records \<Rightarrow>
                    (case find (\<lambda>r. scr_request_id r = scr_request_id original \<and> create_same_identity original r) records of
                       None \<Rightarrow> (Err failed, other d, log)
                     | Some r \<Rightarrow> (Ok (CreateUnknown r), other d, log))))"

text \<open>What a desktop call finds: the configuration, the device token with its device, a client.\<close>

record desktop_world =
  de_config :: "client_config option"
  de_token :: "(string \<times> string) option"
  de_client :: bool

definition desktop_create ::
  "crates \<Rightarrow> session_create_record codec \<Rightarrow> session_data decoders \<Rightarrow> host \<Rightarrow> desktop_world \<Rightarrow>
     caller_create_request network \<Rightarrow> submit_faults \<Rightarrow> faults \<Rightarrow> (db \<Rightarrow> db) \<Rightarrow> string \<Rightarrow> create_input \<Rightarrow> db \<Rightarrow>
     (create_report, desktop_failure) result \<times> db \<times> caller_create_request http_request list" where
  "desktop_create X c D H W net F g other request_id i d =
     (if \<not> create_input_ok X i then (Err (failure_new ''invalid_params''), d, [])
      else case de_config W of
        None \<Rightarrow> (Err (failure_new ''configuration_unavailable''), d, [])
      | Some cfg \<Rightarrow>
          (case cf_server_url cfg of
             None \<Rightarrow> (Err (failure_new ''authentication_required''), d, [])
           | Some server \<Rightarrow>
               (case de_token W of
                  None \<Rightarrow> (Err (failure_new ''credential_unavailable''), d, [])
                | Some (device_id, token) \<Rightarrow>
                    if ac_home (ci_expected_context i) \<noteq> h_home H \<or>
                       ac_server_url (ci_expected_context i) \<noteq> Some server \<or>
                       ac_active_device_id (ci_expected_context i) \<noteq> Some device_id
                    then (Err (failure_new ''configuration_changed''), d, [])
                    else
                      let original = create_original X H server token request_id i in
                      (case open_state H of
                         Err _ \<Rightarrow> (Err (failure_new ''session_create_journal_unavailable''), d, [])
                       | Ok _ \<Rightarrow>
                           (case init_schema (sf_init F) d of
                              (Err _, d1) \<Rightarrow> (Err (failure_new ''session_create_journal_unavailable''), d1, [])
                            | (Ok _, d1) \<Rightarrow>
                                (case reserve_session_create X c (sf_reserve F) original d1 of
                                   (Err _, d2) \<Rightarrow> (Err (failure_new ''session_create_journal_unavailable''), d2, [])
                                 | (Ok False, d2) \<Rightarrow> (Err (failure_new ''session_create_pending''), d2, [])
                                 | (Ok True, d2) \<Rightarrow>
                                     if \<not> de_client W
                                     then (Err (failure_new ''configuration_unavailable''), d2, [])
                                     else post_create X c D H net (sf_update F) g other original
                                            (create_payload X request_id i) d2))))))"

definition create_valid_context :: "crates \<Rightarrow> account_context \<Rightarrow> bool" where
  "create_valid_context X c \<longleftrightarrow>
     path_is_absolute (ac_home c) \<and>
     is_some_and (\<lambda>url. http_url url \<and> \<not> has_control url) (ac_server_url c) \<and>
     is_some_and (canonical_uuid X) (ac_active_device_id c)"

definition desktop_create_observe ::
  "crates \<Rightarrow> session_create_receipt decoders \<Rightarrow> host \<Rightarrow> desktop_world \<Rightarrow> caller_create_request network \<Rightarrow>
     string \<Rightarrow> account_context \<Rightarrow> (session_create_receipt, desktop_failure) result" where
  "desktop_create_observe X D H W net request_id expected =
     (if \<not> canonical_uuid X request_id \<or> \<not> create_valid_context X expected
      then Err (failure_new ''invalid_params'')
      else case de_config W of
        None \<Rightarrow> Err (failure_new ''configuration_unavailable'')
      | Some cfg \<Rightarrow>
          (case cf_server_url cfg of
             None \<Rightarrow> Err (failure_new ''authentication_required'')
           | Some server \<Rightarrow>
               (case de_token W of
                  None \<Rightarrow> Err (failure_new ''credential_unavailable'')
                | Some (_, token) \<Rightarrow>
                    if \<lparr>ac_home = h_home H, ac_server_url = cf_server_url cfg,
                        ac_active_device_id = cf_active_device_id cfg\<rparr> \<noteq> expected
                    then Err (failure_new ''configuration_changed'')
                    else if \<not> de_client W then Err (failure_new ''configuration_unavailable'')
                    else map_err (\<lambda>e. \<lparr>df_code = map_caller_key_error e, df_retryable = False,
                             df_http_status = ae_status e\<rparr>)
                           (get_tool_session_request X D net request_id))))"

section \<open>Properties of the wait\<close>

lemma admission_round_posts:
  "admission_round X D q w = (r, log) \<Longrightarrow> log = [] \<or> log = [HttpPost ''/api/v1/sessions'' q]"
  by (cases w) (auto split: if_splits)

lemma admission_round_Ok:
  "admission_round X D q w = (Ok a, log) \<Longrightarrow>
     \<exists>outcome stop. w = WaitAnswer outcome stop \<and>
       create_session_admission X (cd_session D) (cd_pending D) q outcome = Ok a"
  by (cases w) (auto split: if_splits elim: map_err.elims)

lemma takeover_status_gets: "filter is_post (snd (session_takeover_status X D i a outcome)) = []"
  by (simp add: session_takeover_status_def)

lemma takeover_loop_gets: "takeover_loop X D p rounds = (r, log) \<Longrightarrow> filter is_post log = []"
proof (induction X D p rounds arbitrary: r log rule: takeover_loop.induct)
  case (4 X D p outcome stop rounds)
  obtain x l where s: "session_takeover_status X (cd_takeover D) (pt_takeover_id p) (pt_account_id p) outcome = (x, l)"
    by fastforce
  have "filter is_post l = []" using takeover_status_gets [of X "cd_takeover D" "pt_takeover_id p" "pt_account_id p" outcome] s by simp
  with 4 s show ?case by (auto split: result.splits if_splits prod.splits)
qed (auto split: if_splits)

text \<open>The loop is left for a second attempt only after the takeover was seen committed.\<close>

lemma takeover_loop_committed:
  "takeover_loop X D p rounds = (Some (Ok rest), log) \<Longrightarrow>
     \<exists>outcome stop v log'. WaitAnswer outcome stop \<in> set rounds \<and>
       session_takeover_status X (cd_takeover D) (pt_takeover_id p) (pt_account_id p) outcome = (Ok v, log') \<and>
       tk_status v = TakeoverCommitted \<and> \<not> tk_recovery_required v \<and> set rest \<subseteq> set rounds"
proof (induction X D p rounds arbitrary: log rule: takeover_loop.induct)
  case (4 X D p outcome stop rounds)
  obtain x l where s: "session_takeover_status X (cd_takeover D) (pt_takeover_id p) (pt_account_id p) outcome = (x, l)"
    by fastforce
  show ?case
  proof (cases x)
    case (Err e)
    with 4 s show ?thesis by simp
  next
    case (Ok v)
    show ?thesis
    proof (cases "tk_status v = TakeoverCommitted \<and> \<not> tk_recovery_required v")
      case True
      with 4 s Ok show ?thesis by auto
    next
      case False
      with 4 s Ok show ?thesis by (fastforce split: if_splits prod.splits)
    qed
  qed
qed auto

text \<open>
  A creation is never replayed on doubt: waiting for a takeover sends at most two POSTs, both
  of the original request; the second one is sent only when the first was answered by an exact
  receipt that no session was created, and the very takeover it names was afterwards observed
  as committed without need of recovery; and a session is returned only if it is for the
  requested account, workspace, project and tool.
\<close>

lemma takeover_posts_bounded:
  assumes "create_with_takeover_wait X D q rounds = (r, log)"
  shows "length (filter is_post log) \<le> 2 \<and> set (filter is_post log) \<subseteq> {HttpPost ''/api/v1/sessions'' q} \<and>
    (length (filter is_post log) = 2 \<longrightarrow>
       (\<exists>outcome stop rest p. rounds = WaitAnswer outcome stop # rest \<and>
          create_session_admission X (cd_session D) (cd_pending D) q outcome = Ok (Takeover p) \<and>
          pt_reservation_committed p \<and> \<not> pt_session_created p \<and>
          (\<exists>outcome' stop' v log'. WaitAnswer outcome' stop' \<in> set rest \<and>
             session_takeover_status X (cd_takeover D) (pt_takeover_id p) (pt_account_id p) outcome' = (Ok v, log') \<and>
             tk_status v = TakeoverCommitted \<and> \<not> tk_recovery_required v))) \<and>
    (\<forall>s. r = Some (Ok s) \<longrightarrow>
       sd_tool_account_id s = cs_tool_account_id q \<and> sd_workspace_id s = cs_workspace_id q \<and>
       sd_project_key s = cs_project_key q \<and> sd_tool_type s = cs_tool_type q)"
proof (cases rounds)
  case Nil
  with assms show ?thesis by (simp add: create_with_takeover_wait_def)
next
  case (Cons w rounds1)
  obtain a log1 where w: "admission_round X D q w = (a, log1)" by fastforce
  note posts1 = admission_round_posts [OF w]
  show ?thesis
  proof (cases "\<exists>p. a = Ok (Takeover p)")
    case False
    with assms Cons w have "log = log1" "\<And>s. r = Some (Ok s) \<Longrightarrow> a = Ok (Created s)"
      by (auto simp: create_with_takeover_wait_def split: result.splits session_admission.splits)
    with posts1 admission_round_Ok [of X D q w] w admission_Created show ?thesis by fastforce
  next
    case True
    then obtain p where p: "a = Ok (Takeover p)" by blast
    from admission_round_Ok [OF w [unfolded p]] obtain outcome stop where
      f: "w = WaitAnswer outcome stop" "create_session_admission X (cd_session D) (cd_pending D) q outcome = Ok (Takeover p)" by blast
    obtain l log2 where l: "takeover_loop X D p rounds1 = (l, log2)" by fastforce
    note gets = takeover_loop_gets [OF l]
    show ?thesis
    proof (cases "\<exists>w2 rounds2. l = Some (Ok (w2 # rounds2))")
      case False
      with assms Cons w p l have "log = log1 @ log2" "\<And>s. r \<noteq> Some (Ok s)"
        by (auto simp: create_with_takeover_wait_def split: option.splits result.splits list.splits)
      with posts1 gets show ?thesis by fastforce
    next
      case True
      then obtain w2 rounds2 where w2: "l = Some (Ok (w2 # rounds2))" by blast
      obtain b log3 where b: "admission_round X D q w2 = (b, log3)" by fastforce
      from assms Cons w p l w2 b have r: "log = log1 @ log2 @ log3" "\<And>s. r = Some (Ok s) \<Longrightarrow> b = Ok (Created s)"
        by (auto simp: create_with_takeover_wait_def split: result.splits session_admission.splits)
      have "sd_tool_account_id s = cs_tool_account_id q \<and> sd_workspace_id s = cs_workspace_id q \<and>
          sd_project_key s = cs_project_key q \<and> sd_tool_type s = cs_tool_type q" if "r = Some (Ok s)" for s
        using admission_round_Ok [OF b [unfolded r(2) [OF that]]] admission_Created by blast
      with r(1) posts1 admission_round_posts [OF b] gets f takeover_loop_committed [OF l [unfolded w2]] admission_Takeover [OF f(2)] Cons
      show ?thesis by fastforce
    qed
  qed
qed

fun ends_wait :: "wait_round \<Rightarrow> bool" where
  "ends_wait (WaitSignal _) = True"
| "ends_wait (WaitDeadline _) = True"
| "ends_wait (WaitAnswer _ stop) = False"

lemma takeover_loop_returns:
  "list_ex ends_wait rounds \<Longrightarrow>
     \<exists>r log. takeover_loop X D p rounds = (Some r, log) \<and> (\<forall>rest. r = Ok rest \<longrightarrow> list_ex ends_wait rest)"
proof (induction X D p rounds rule: takeover_loop.induct)
  case (4 X D p outcome stop rounds)
  obtain x l where s: "session_takeover_status X (cd_takeover D) (pt_takeover_id p) (pt_account_id p) outcome = (x, l)"
    by fastforce
  show ?case
  proof (cases x)
    case (Ok v)
    show ?thesis
    proof (cases "tk_recovery_required v \<or> tk_status v = TakeoverCommitted \<or> stop")
      case False
      with 4 s Ok have "\<exists>r log. takeover_loop X D p rounds = (Some r, log) \<and>
          (\<forall>rest. r = Ok rest \<longrightarrow> list_ex ends_wait rest)" by simp
      then obtain r log where "takeover_loop X D p rounds = (Some r, log)"
        "\<forall>rest. r = Ok rest \<longrightarrow> list_ex ends_wait rest" by blast
      with s Ok False show ?thesis by simp
    qed (use 4 s Ok in auto)
  qed (use 4 s in auto)
qed auto


definition sample_create_request :: create_session_request where
  "sample_create_request =
     \<lparr>cs_tool_type = ''claude'', cs_tool_account_id = sample_id 3, cs_workspace_id = sample_id 4,
      cs_project_key = ''p'', cs_argv = [], cs_replaces_session_id = None\<rparr>"

definition created_session :: session_data where
  "created_session =
     \<lparr>sd_id = sample_id 5, sd_tool_type = ''claude'', sd_user_id = sample_id 6, sd_tool_account_id = sample_id 3,
      sd_workspace_id = sample_id 4, sd_workspace_local_path = None, sd_workspace_remote_path = None,
      sd_node_id = sample_id 7, sd_project_key = ''p'', sd_status = ''starting'', sd_tmux_session_name = None,
      sd_container_id = None, sd_runtime_backend = ''tmux'', sd_runtime_resource_id = None,
      sd_replaces_session_id = None, sd_create_task_id = None, sd_stop_task_id = None,
      sd_skill_finalization_operation_id = None, sd_created_at = ''t'', sd_updated_at = ''t''\<rparr>"

definition sample_takeover :: pending_takeover where
  "sample_takeover =
     \<lparr>pt_account_id = sample_id 3, pt_takeover_id = sample_id 8, pt_takeover_status = TakeoverReserved,
      pt_reservation_committed = True, pt_session_created = False\<rparr>"

definition sample_create_decoders :: create_decoders where
  "sample_create_decoders =
     \<lparr>cd_session = receipt_decoders created_session,
      cd_pending = (\<lambda>_. Some (''MIGRATION_PENDING'', sample_takeover)),
      cd_takeover = receipt_decoders
        \<lparr>tk_operation_id = sample_id 8, tk_account_id = sample_id 3, tk_status = TakeoverCommitted,
         tk_task_status = ''succeeded'', tk_checkpoint_id = Some (sample_id 9), tk_recovery_required = False\<rparr>\<rparr>"

definition sample_rounds :: "wait_round list" where
  "sample_rounds =
     [WaitAnswer (Ok \<lparr>hr_status = 409, hr_content_length = None, hr_chunks = [Ok ''pending'']\<rparr>) False,
      WaitAnswer answered False, WaitAnswer answered False, WaitDeadline False]"

lemma canonical_uuid_id: "canonical_uuid X v \<Longrightarrow> canonical_id X v"
  by (auto simp: canonical_uuid_def canonical_id_def split: option.splits)

lemma sample_admission:
  "create_session_admission sample_crates (receipt_decoders created_session) (\<lambda>_. Some (''MIGRATION_PENDING'', sample_takeover))
     sample_create_request (Ok \<lparr>hr_status = 409, hr_content_length = None, hr_chunks = [Ok ''pending'']\<rparr>) =
   Ok (Takeover sample_takeover)"
  "create_session_admission sample_crates (receipt_decoders created_session) pending sample_create_request answered =
   Ok (Created created_session)"
  by (simp_all add: create_session_admission_def answered_def receipt_decoders_def read_response_body_def
      read_response_body_bounded_def max_api_response_bytes_def usize_max_def is_success_def takeover_accepted_def
      sample_takeover_def sample_create_request_def created_session_def canonical_uuid_id)

lemma sample_takeover_committed:
  "\<exists>v log. session_takeover_status sample_crates (cd_takeover sample_create_decoders) (sample_id 8) (sample_id 3) answered = (Ok v, log) \<and>
     tk_status v = TakeoverCommitted \<and> \<not> tk_recovery_required v \<and> filter is_post log = []"
  by (simp add: session_takeover_status_def send_answer [unfolded answer_def] sample_create_decoders_def takeover_status_ok_def canonical_uuid_id
      Let_def)

lemma sample_wait:
  "\<exists>log. create_with_takeover_wait sample_crates sample_create_decoders sample_create_request sample_rounds =
     (Some (Ok created_session), log) \<and> length (filter is_post log) = 2"
proof -
  from sample_takeover_committed obtain v log where
    "session_takeover_status sample_crates (cd_takeover sample_create_decoders) (sample_id 8) (sample_id 3) answered = (Ok v, log)"
    "tk_status v = TakeoverCommitted" "\<not> tk_recovery_required v" "filter is_post log = []" by blast
  moreover have "pt_takeover_id sample_takeover = sample_id 8" "pt_account_id sample_takeover = sample_id 3"
    by (simp_all add: sample_takeover_def)
  moreover have "cd_session sample_create_decoders = receipt_decoders created_session"
    "cd_pending sample_create_decoders = (\<lambda>_. Some (''MIGRATION_PENDING'', sample_takeover))"
    by (simp_all add: sample_create_decoders_def)
  ultimately show ?thesis
    by (simp add: create_with_takeover_wait_def sample_rounds_def sample_admission)
qed


section \<open>Properties of caller-key creation\<close>

text \<open>Other clients of the journal, as for deletions.\<close>

definition create_clients ::
  "crates \<Rightarrow> session_create_record codec \<Rightarrow> (faults, session_create_record) journal_op list \<Rightarrow> db \<Rightarrow> db" where
  "create_clients X c ops d = snd (run_ops (reserve_session_create X c) (update_session_create X c) ops d)"

lemma session_create_request_id [simp]: "j_request_id (session_create_journal X c) = scr_request_id"
  by (simp add: session_create_journal_def)

lemma desktop_create_sent:
  assumes "desktop_create X c D H W net F g other request_id i d = (r, d', log)"
    and "serde_lawful c" and "kv_invar d" and "log \<noteq> []"
  shows "\<exists>server device token d2. create_input_ok X i \<and> de_token W = Some (device, token) \<and>
    ci_expected_context i = \<lparr>ac_home = h_home H, ac_server_url = Some server, ac_active_device_id = Some device\<rparr> \<and>
    kv_invar d2 \<and> record_look (session_create_journal X c) d request_id = None \<and>
    record_look (session_create_journal X c) d2 request_id = Some (create_original X H server token request_id i) \<and>
    post_create X c D H net (sf_update F) g other (create_original X H server token request_id i)
      (create_payload X request_id i) d2 = (r, d', log)"
proof -
  let ?J = "session_create_journal X c"
  from assms(1,4) obtain server device token d1 d2 where
    o: "create_input_ok X i" "de_token W = Some (device, token)"
      "ac_home (ci_expected_context i) = h_home H" "ac_server_url (ci_expected_context i) = Some server"
      "ac_active_device_id (ci_expected_context i) = Some device"
    and init: "init_schema (sf_init F) d = (Ok (), d1)"
    and res: "reserve_session_create X c (sf_reserve F) (create_original X H server token request_id i) d1 = (Ok True, d2)"
    and post: "post_create X c D H net (sf_update F) g other (create_original X H server token request_id i)
      (create_payload X request_id i) d2 = (r, d', log)"
    by (auto simp: desktop_create_def Let_def split: if_splits option.splits result.splits prod.splits bool.splits)
  have "kv_invar d1" using assms(3) kv_invar_init [OF init] by simp
  note look = create.reserve_look [OF _ this res [unfolded create_ops]]
  have "scr_request_id (create_original X H server token request_id i) = request_id" by (simp add: create_original_def)
  with look assms(2) o post show ?thesis
    by (cases "ci_expected_context i") (auto simp: record_look_init [OF init])
qed

lemma post_create_keeps:
  assumes "post_create X c D H net f g (create_clients X c ops) original q d = (r, d', log)"
    and "serde_lawful c" and "kv_invar d" and "record_look (session_create_journal X c) d k = Some original"
  shows "\<exists>rec. record_look (session_create_journal X c) d' k = Some rec \<and> create_same_identity original rec"
proof -
  let ?J = "session_create_journal X c"
  let ?d = "create_clients X c ops d"
  from create.clients_keep [of X c d k original ops] assms(2-4) obtain r1 where
    inv: "kv_invar ?d" and r1: "record_look ?J ?d k = Some r1" "create_ident r1 = create_ident original"
    by (auto simp: create_clients_def create_ops)
  have "d' = ?d \<or> (\<exists>s'. d' = snd (journal_update ?J f original s' ?d))"
    using assms(1)
    by (auto simp: post_create_def create_ops Let_def split: prod.splits result.splits option.splits if_splits)
      (metis snd_conv)+
  then show ?thesis
  proof
    assume "\<exists>s'. d' = snd (journal_update ?J f original s' ?d)"
    then obtain s' where "journal_update ?J f original s' ?d = (fst (journal_update ?J f original s' ?d), d')" by (metis prod.collapse)
    with create.update_keeps [OF _ inv r1(1) this] assms(2) r1(2) show ?thesis by (auto simp: create_same_identity_iff)
  qed (use r1 in \<open>auto simp: create_same_identity_iff\<close>)
qed

lemma post_create_outcome:
  assumes "post_create X c D H net f g other original q d = (r, d', log)" and "log \<noteq> []"
  defines "post \<equiv> HttpPost ''/api/v1/sessions'' q"
  shows "log = [post]"
    and "send X D (net post) = Ok s \<Longrightarrow>
       (\<exists>receipt. r = Ok (CreateReceipt receipt) \<and> receipt = receipt_from_session s q \<and>
          validate_create_receipt receipt q = Ok ()) \<or>
       (\<exists>rec. r = Ok (CreateUnknown rec) \<and> scr_request_id rec = scr_request_id original) \<or>
       (\<exists>e. r = Err e \<and> df_code e \<in> {''session_create_outcome_unknown'', ''SESSION_CREATE_SUBMISSION_UNKNOWN''})"
    and "r = Err e \<Longrightarrow>
       df_code e \<in> {''session_create_outcome_unknown'', ''SESSION_CREATE_SUBMISSION_UNKNOWN''} \<or>
       (\<exists>st. df_http_status e = Some st \<and> 400 \<le> st \<and> st < 500 \<and> st \<noteq> 408 \<and> st \<noteq> 429)"
proof -
  obtain x l where call: "create_tool_session_with_caller_key X D net q = (x, l)" by fastforce
  have l: "log = l"
    using assms(1) call by (auto simp: post_create_def Let_def split: prod.splits result.splits option.splits if_splits)
  then show "log = [post]" using create_call_log [of X D net q] call assms(2) by (auto simp: post_def)
  show "r = Err e \<Longrightarrow> df_code e \<in> {''session_create_outcome_unknown'', ''SESSION_CREATE_SUBMISSION_UNKNOWN''} \<or>
       (\<exists>st. df_http_status e = Some st \<and> 400 \<le> st \<and> st < 500 \<and> st \<noteq> 408 \<and> st \<noteq> 429)"
    using assms(1) call map_caller_key_error_definite
    by (fastforce simp: post_create_def failure_new_def Let_def split: prod.splits result.splits option.splits if_splits)
  show "(\<exists>receipt. r = Ok (CreateReceipt receipt) \<and> receipt = receipt_from_session s q \<and>
          validate_create_receipt receipt q = Ok ()) \<or>
       (\<exists>rec. r = Ok (CreateUnknown rec) \<and> scr_request_id rec = scr_request_id original) \<or>
       (\<exists>e. r = Err e \<and> df_code e \<in> {''session_create_outcome_unknown'', ''SESSION_CREATE_SUBMISSION_UNKNOWN''})"
    if ok: "send X D (net post) = Ok s"
  proof (cases x)
    case (Ok receipt)
    with create_call_Ok [OF call [unfolded Ok]] ok assms(1) call show ?thesis
      by (auto simp: post_create_def post_def failure_new_def split: prod.splits result.splits)
  next
    case (Err e)
    from create_call_mismatch [OF call [unfolded Err]] ok have
      "map_caller_key_error e = ''SESSION_CREATE_SUBMISSION_UNKNOWN''" by (simp add: post_def)
    with assms(1) call Err show ?thesis
      by (auto simp: post_create_def Let_def find_Some_iff split: result.splits option.splits)
  qed
qed

text \<open>
  C18. Only a definite refusal closes a creation. Whenever creating a session sends anything, the
  call was confirmed for the configured home, server and device, exactly one POST of the
  reviewed intent was sent, its key was free and is journaled, whatever other clients do. An
  answer of success is never reported as a rejection: either it matches the request and its
  receipt is returned or the outcome is reported as unknown. And a failure other than an
  unknown outcome carries a client error status that is neither a timeout nor a rate limit.
\<close>

theorem create_rejection_definite:
  assumes "desktop_create X c D H W net F g (create_clients X c ops) request_id i d = (r, d', log)"
    and "serde_lawful c" and "kv_invar d" and "log \<noteq> []"
  defines "post \<equiv> HttpPost ''/api/v1/sessions'' (create_payload X request_id i)"
  shows "ci_confirmed i \<and> ac_home (ci_expected_context i) = h_home H \<and> log = [post] \<and>
    record_look (session_create_journal X c) d request_id = None \<and>
    (\<exists>rec. record_look (session_create_journal X c) d' request_id = Some rec \<and>
       scr_tool_account_id rec = ci_tool_account_id i \<and> scr_workspace_id rec = ci_workspace_id i \<and>
       scr_project_key rec = ci_project_key i \<and> scr_argv_digest rec = ci_argv_digest i) \<and>
    (\<forall>s. send X D (net post) = Ok s \<longrightarrow>
       (\<exists>receipt. r = Ok (CreateReceipt receipt) \<and> ct_session_id receipt = Some (sd_id s) \<and>
          ct_tool_account_id receipt = ci_tool_account_id i \<and> ct_workspace_id receipt = ci_workspace_id i) \<or>
       (\<exists>rec. r = Ok (CreateUnknown rec) \<and> scr_request_id rec = request_id) \<or>
       (\<exists>e. r = Err e \<and> df_code e \<in> {''session_create_outcome_unknown'', ''SESSION_CREATE_SUBMISSION_UNKNOWN''})) \<and>
    (\<forall>e. r = Err e \<longrightarrow>
       df_code e \<in> {''session_create_outcome_unknown'', ''SESSION_CREATE_SUBMISSION_UNKNOWN''} \<or>
       (\<exists>st. df_http_status e = Some st \<and> 400 \<le> st \<and> st < 500 \<and> st \<noteq> 408 \<and> st \<noteq> 429))"
proof -
  from desktop_create_sent [OF assms(1-4)] obtain server device token d2 where
    o: "create_input_ok X i" "ac_home (ci_expected_context i) = h_home H"
    and inv: "kv_invar d2" and free: "record_look (session_create_journal X c) d request_id = None"
    and look: "record_look (session_create_journal X c) d2 request_id = Some (create_original X H server token request_id i)"
    and p: "post_create X c D H net (sf_update F) g (create_clients X c ops) (create_original X H server token request_id i)
      (create_payload X request_id i) d2 = (r, d', log)"
    by auto
  note out = post_create_outcome [OF p assms(4), folded post_def]
  have fields: "cs_tool_account_id (cr_session (create_payload X request_id i)) = ci_tool_account_id i"
    "cs_workspace_id (cr_session (create_payload X request_id i)) = ci_workspace_id i"
    by (simp_all add: create_payload_def Let_def)
  have id: "scr_request_id (create_original X H server token request_id i) = request_id" by (simp add: create_original_def)
  have "\<exists>rec. record_look (session_create_journal X c) d' request_id = Some rec \<and>
       scr_tool_account_id rec = ci_tool_account_id i \<and> scr_workspace_id rec = ci_workspace_id i \<and>
       scr_project_key rec = ci_project_key i \<and> scr_argv_digest rec = ci_argv_digest i"
    using post_create_keeps [OF p assms(2) inv look] by (auto simp: create_same_identity_def create_original_def)
  moreover have "(\<exists>receipt. r = Ok (CreateReceipt receipt) \<and> ct_session_id receipt = Some (sd_id s) \<and>
          ct_tool_account_id receipt = ci_tool_account_id i \<and> ct_workspace_id receipt = ci_workspace_id i) \<or>
       (\<exists>rec. r = Ok (CreateUnknown rec) \<and> scr_request_id rec = request_id) \<or>
       (\<exists>e. r = Err e \<and> df_code e \<in> {''session_create_outcome_unknown'', ''SESSION_CREATE_SUBMISSION_UNKNOWN''})"
    if "send X D (net post) = Ok s" for s
    using out(2) [OF that] fields id
    by (auto simp: validate_create_receipt_def receipt_from_session_def split: if_splits)
  ultimately show ?thesis using o free out(1,3) by (auto simp: create_input_ok_def)
qed

definition sample_create_input :: create_input where
  "sample_create_input =
     \<lparr>ci_confirmed = True, ci_schema_version = 1, ci_expected_context = sample_context, ci_tool_type = ''codex'',
      ci_tool_account_id = sample_id 3, ci_workspace_id = sample_id 4, ci_project_key = ''p'',
      ci_argv_digest = sample_digest, ci_intent_fingerprint = None, ci_replacement = None,
      ci_sync_target = JObject []\<rparr>"

definition sample_desktop :: desktop_world where
  "sample_desktop = \<lparr>de_config = Some \<lparr>cf_server_url = Some ''https://s'', cf_active_device_id = Some ''d1''\<rparr>,
     de_token = Some (''d1'', ''t''), de_client = True\<rparr>"

definition scoped_create :: session_create_record where
  "scoped_create = sample_create\<lparr>scr_user_id := sample_digest\<rparr>"

definition scoped_codec :: "session_create_record codec" where
  "scoped_codec = table_codec [(scoped_create, ''1'')]"

lemma sample_create_original:
  "create_original sample_crates sample_host ''https://s'' ''t'' (sample_id 2) sample_create_input = scoped_create"
  by (simp add: create_original_def sample_create_input_def scoped_create_def sample_create_def sample_host_def
      authenticated_scope_def sample_crates_def sample_digest_def)

lemma scoped_create_valid: "validate_session_create sample_crates scoped_create None = Ok ()"
  by (simp add: validate_session_create_def create_record_ok_def valid_user_scope_def scoped_create_def
      sample_create_def create_phases_def http_url_def valid_text_def has_control_def chars_def is_control_def
      utf8_width_def starts_with_def)

lemma reserve_scoped_create:
  "reserve_session_create sample_crates scoped_codec no_faults scoped_create (created_db\<lparr>db_user_version := 4\<rparr>) =
     (Ok True, created_db\<lparr>db_user_version := 4, db_kv := [(''session_create_request:'' @ sample_id 2, ''1'')]\<rparr>)"
  by (simp add: create_ops journal_eval session_create_journal_def scoped_create_valid scoped_codec_def table_codec_def
      has_table_def [of "db_user_version_update _ _"] created_db_kv(1) [unfolded has_table_def])
    (simp add: scoped_create_def sample_create_def)

lemma sample_create_payload_valid:
  "validate_create_request sample_crates (create_payload sample_crates (sample_id 2) sample_create_input) = Ok ()"
proof -
  have "json_digest sample_crates v = sample_digest" for v
    by (simp add: json_digest_def sample_crates_def sample_digest_def)
  then show ?thesis
    by (simp add: validate_create_request_def create_payload_def sample_create_input_def Let_def intent_fingerprint_wire_def)
qed

lemma sample_create_input_valid:
  "create_input_ok sample_crates sample_create_input" "ci_expected_context sample_create_input = sample_context"
  by (simp_all add: create_input_ok_def sample_create_input_def)

lemma post_scoped_create:
  "\<exists>r d'. post_create sample_crates c D H lost f g other original
     (create_payload sample_crates (sample_id 2) sample_create_input) d =
     (r, d', [HttpPost ''/api/v1/sessions'' (create_payload sample_crates (sample_id 2) sample_create_input)])"
  by (simp add: post_create_def create_tool_session_with_caller_key_def sample_create_payload_valid Let_def send_def
      lost_def map_caller_key_error_def split: result.splits option.splits)

definition created_by_desktop ::
  "(create_report, desktop_failure) result \<times> db \<times> caller_create_request http_request list" where
  "created_by_desktop =
     desktop_create sample_crates scoped_codec (receipt_decoders created_session) sample_host sample_desktop lost
       no_submit_faults no_faults (create_clients sample_crates scoped_codec []) (sample_id 2) sample_create_input fresh_db"

theorem create_rejection_definite_witness:
  "\<exists>rec. record_look (session_create_journal sample_crates scoped_codec) (fst (snd created_by_desktop)) (sample_id 2) =
     Some rec \<and> scr_tool_account_id rec = sample_id 3"
proof -
  let ?q = "create_payload sample_crates (sample_id 2) sample_create_input"
  have "ac_home sample_context = h_home sample_host" "ac_server_url sample_context = Some ''https://s''"
    "ac_active_device_id sample_context = Some ''d1''"
    by (simp_all add: sample_context_def sample_host_def)
  moreover from post_scoped_create [of scoped_codec "receipt_decoders created_session" sample_host no_faults no_faults
      "create_clients sample_crates scoped_codec []" scoped_create
      "created_db\<lparr>db_user_version := 4, db_kv := [(''session_create_request:'' @ sample_id 2, ''1'')]\<rparr>"]
  obtain r d' where "post_create sample_crates scoped_codec (receipt_decoders created_session) sample_host lost no_faults
      no_faults (create_clients sample_crates scoped_codec []) scoped_create ?q
      (created_db\<lparr>db_user_version := 4, db_kv := [(''session_create_request:'' @ sample_id 2, ''1'')]\<rparr>) =
      (r, d', [HttpPost ''/api/v1/sessions'' ?q])" by blast
  ultimately have e: "created_by_desktop = (r, d', [HttpPost ''/api/v1/sessions'' ?q])"
    by (simp add: created_by_desktop_def desktop_create_def sample_create_input_valid sample_desktop_def Let_def
        sample_create_original open_state_sample init_schema_fresh no_submit_faults_def reserve_scoped_create)
  have "serde_lawful scoped_codec" "kv_invar fresh_db"
    by (simp_all add: scoped_codec_def table_codec_lawful kv_invar_def fresh_db_def)
  note sent = create_rejection_definite [OF e [unfolded created_by_desktop_def] this list.distinct(2)]
  from sent [THEN conjunct2, THEN conjunct2, THEN conjunct2, THEN conjunct2, THEN conjunct1]
  show ?thesis by (elim exE conjE) (simp add: e sample_create_input_def)
qed

end
