(* ===== verification/Port_Forward_Journal.thy ===== *)
theory Port_Forward_Journal
  imports Journal
begin

text \<open>
  The journal of port-forward creation requests (\<open>local_state/port_forward.rs\<close>). Unlike the
  session journals its reader treats every failure to stat the database as an empty journal.
\<close>

section \<open>Records and their validation\<close>

record port_forward_record =
  pfr_home :: string
  pfr_server_url :: string
  pfr_user_id :: string
  pfr_request_id :: string
  pfr_session_id :: string
  pfr_node_id :: string
  pfr_runtime_backend :: string
  pfr_remote_port :: "16 word"
  pfr_local_port :: "16 word"
  pfr_client_instance_id :: string
  pfr_ttl_seconds :: "64 word option"
  pfr_phase :: string
  pfr_forward_id :: "string option"
  pfr_last_observation :: "string option"

definition pf_user_scope :: "crates \<Rightarrow> string \<Rightarrow> bool" where
  "pf_user_scope X v \<longleftrightarrow> canonical_uuid X v \<or> valid_digest v"

definition pf_phases :: "string list" where
  "pf_phases = [''prepared'', ''created'', ''unknown'', ''failed'', ''settled'']"

definition pf_record_ok :: "crates \<Rightarrow> port_forward_record \<Rightarrow> bool" where
  "pf_record_ok X r \<longleftrightarrow>
     path_is_absolute (pfr_home r) \<and>
     valid_text (pfr_server_url r) 8192 \<and>
     http_url (pfr_server_url r) \<and>
     pf_user_scope X (pfr_user_id r) \<and>
     canonical_uuid X (pfr_request_id r) \<and>
     canonical_uuid X (pfr_session_id r) \<and>
     canonical_uuid X (pfr_node_id r) \<and>
     valid_text (pfr_runtime_backend r) 64 \<and>
     (1 \<le> pfr_remote_port r \<and> pfr_remote_port r \<le> 65535) \<and>
     (1 \<le> pfr_local_port r \<and> pfr_local_port r \<le> 65535) \<and>
     valid_text (pfr_client_instance_id r) 128 \<and>
     is_none_or (\<lambda>ttl. 60 \<le> ttl \<and> ttl \<le> 604800) (pfr_ttl_seconds r) \<and>
     pfr_phase r \<in> set pf_phases \<and>
     is_none_or (canonical_uuid X) (pfr_forward_id r) \<and>
     is_none_or (\<lambda>v. valid_text v 4096) (pfr_last_observation r)"

definition pf_same_identity :: "port_forward_record \<Rightarrow> port_forward_record \<Rightarrow> bool" where
  "pf_same_identity old r \<longleftrightarrow>
     pfr_home old = pfr_home r \<and>
     pfr_server_url old = pfr_server_url r \<and>
     pfr_user_id old = pfr_user_id r \<and>
     pfr_request_id old = pfr_request_id r \<and>
     pfr_session_id old = pfr_session_id r \<and>
     pfr_node_id old = pfr_node_id r \<and>
     pfr_runtime_backend old = pfr_runtime_backend r \<and>
     pfr_remote_port old = pfr_remote_port r \<and>
     pfr_local_port old = pfr_local_port r \<and>
     pfr_client_instance_id old = pfr_client_instance_id r \<and>
     pfr_ttl_seconds old = pfr_ttl_seconds r"

definition validate_port_forward ::
  "crates \<Rightarrow> port_forward_record \<Rightarrow> port_forward_record option \<Rightarrow> (unit, failure) result" where
  "validate_port_forward X r original =
     (if \<not> pf_record_ok X r then Err (Bail ''invalid port-forward creation journal record'')
      else if is_some_and (\<lambda>old. \<not> pf_same_identity old r) original
      then Err (Bail ''port-forward creation journal identity changed'')
      else Ok ())"

section \<open>The journal\<close>

definition port_forward_journal :: "crates \<Rightarrow> port_forward_record codec \<Rightarrow> port_forward_record journal" where
  "port_forward_journal X c =
     \<lparr>j_prefix = ''port_forward_create_request:'', j_limit = 256, j_max = 32 * 1024,
      j_label = ''port-forward creation journal'', j_codec = c, j_request_id = pfr_request_id,
      j_home = pfr_home, j_absent = (\<lambda>_. True), j_valid = validate_port_forward X\<rparr>"

definition port_forward_create_records ::
  "crates \<Rightarrow> port_forward_record codec \<Rightarrow> host \<Rightarrow> faults \<Rightarrow> db \<Rightarrow> (port_forward_record list, failure) result"
where
  "port_forward_create_records X c = journal_records (port_forward_journal X c)"

definition reserve_port_forward_create ::
  "crates \<Rightarrow> port_forward_record codec \<Rightarrow> faults \<Rightarrow> port_forward_record \<Rightarrow> db \<Rightarrow> (bool, failure) result \<times> db"
where
  "reserve_port_forward_create X c = journal_reserve (port_forward_journal X c)"

definition update_port_forward_create ::
  "crates \<Rightarrow> port_forward_record codec \<Rightarrow> faults \<Rightarrow> port_forward_record \<Rightarrow> port_forward_record \<Rightarrow> db \<Rightarrow>
     (bool, failure) result \<times> db" where
  "update_port_forward_create X c = journal_update (port_forward_journal X c)"

lemmas pf_ops = port_forward_create_records_def reserve_port_forward_create_def update_port_forward_create_def

section \<open>It is a caller journal\<close>

definition pf_ident :: "port_forward_record \<Rightarrow> port_forward_record" where
  "pf_ident r = r\<lparr>pfr_phase := [], pfr_forward_id := None, pfr_last_observation := None\<rparr>"

lemma pf_same_identity_iff: "pf_same_identity old r \<longleftrightarrow> pf_ident r = pf_ident old"
  by (cases r, cases old) (auto simp: pf_same_identity_def pf_ident_def)

lemma validate_port_forward_Ok:
  "validate_port_forward X r original = Ok () \<longleftrightarrow>
     pf_record_ok X r \<and> is_none_or (\<lambda>old. pf_ident r = pf_ident old) original"
  by (cases original) (auto simp: validate_port_forward_def pf_same_identity_iff)

interpretation port_forward: journal_validator "port_forward_journal X c" pf_ident for X c
proof unfold_locales
  fix r old
  assume "pf_ident r = pf_ident old"
  then have "pf_same_identity old r" by (simp add: pf_same_identity_iff)
  then show "j_request_id (port_forward_journal X c) r = j_request_id (port_forward_journal X c) old \<and>
      j_home (port_forward_journal X c) r = j_home (port_forward_journal X c) old"
    by (simp add: port_forward_journal_def pf_same_identity_def)
qed (simp add: port_forward_journal_def validate_port_forward_Ok)

section \<open>Properties\<close>

lemma pf_journal_simps [simp]:
  "j_codec (port_forward_journal X c) = c" "j_home (port_forward_journal X c) = pfr_home"
  "j_prefix (port_forward_journal X c) = ''port_forward_create_request:''"
  by (simp_all add: port_forward_journal_def)

text \<open>
  The port-forward journal can always be read back: starting from an empty table, after any
  sequence of reservations of this home and updates, with any storage failures on the way,
  reading the journal succeeds and returns exactly the records that are stored, within the
  limit.
\<close>

lemma port_forward_readable:
  assumes "serde_lawful c" and "db_kv d = []" and "readable H d"
    and "list_all (\<lambda>op. case op of Reserve _ r \<Rightarrow> pfr_home r = h_home H | Update _ _ _ \<Rightarrow> True) ops"
    and "run_ops (reserve_port_forward_create X c) (update_port_forward_create X c) ops d = (results, d')"
  shows "\<exists>rs. port_forward_create_records X c H no_faults d' = Ok rs \<and> length rs \<le> 256 \<and>
    set rs = {r. \<exists>k. journal_look (port_forward_journal X c) d' k = Some r \<and>
                     starts_with ''port_forward_create_request:'' k}"
proof -
  let ?J = "port_forward_journal X c"
  have run: "run_ops (journal_reserve ?J) (journal_update ?J) ops d = (results, d')"
    using assms(5) by (simp add: pf_ops)
  have home: "\<forall>f r. Reserve f r \<in> set ops \<longrightarrow> j_home ?J r = h_home H"
    using assms(4) by (auto simp: list_all_iff split: journal_op.splits)
  have wf: "journal_wf ?J H d'"
    using port_forward.journal_wf_run [OF _ journal_wf_empty [OF assms(2)] home run] assms(1) by simp
  have "readable H d'" using assms(3) run_ops_has_table [OF run] by (simp add: readable_def)
  from journal_records_wf [OF wf this] obtain rs where
    rs: "port_forward_create_records X c H no_faults d' = Ok rs"
    "set rs = {r. \<exists>k. starts_with (j_prefix ?J) k \<and> journal_look ?J d' k = Some r}" by (auto simp: pf_ops)
  moreover have "length rs \<le> 256"
    using journal_records_limit [of ?J H no_faults d' rs] rs(1) by (simp add: pf_ops port_forward_journal_def)
  ultimately show ?thesis by auto
qed

definition sample_forward :: port_forward_record where
  "sample_forward =
     \<lparr>pfr_home = ''/h'', pfr_server_url = ''https://s'', pfr_user_id = sample_digest,
      pfr_request_id = sample_id 2, pfr_session_id = sample_id 3, pfr_node_id = sample_id 4,
      pfr_runtime_backend = ''tmux'', pfr_remote_port = 80, pfr_local_port = 8080,
      pfr_client_instance_id = ''c'', pfr_ttl_seconds = Some 60, pfr_phase = ''prepared'',
      pfr_forward_id = None, pfr_last_observation = None\<rparr>"

end
