(* ===== verification/Account_Defaults.thy ===== *)
theory Account_Defaults
  imports Account_Operations Kv_Store Identifiers
begin

text \<open>
  Per-home default accounts (\<open>account_defaults.rs\<close>): reading the default of a tool, and setting
  or clearing it after the context and the previous value have been confirmed. Between two
  reads of one call other processes may change the configuration and the table: each read of
  the configuration is its own \<open>moment\<close>, and the changes of other processes to the table while
  the call waits for the lock and for the server are arguments.
\<close>

section \<open>Reading\<close>

text \<open>The host when the configuration is read, and what \<open>Config::load_strict\<close> gives then.\<close>

record moment =
  mo_host :: host
  mo_config :: "client_config option"

definition config_path :: "host \<Rightarrow> string" where
  "config_path H = path_join (h_home H) ''config.toml''"

definition defaults_config :: "moment \<Rightarrow> (client_config, failure) result" where
  "defaults_config M =
     (case h_lstat (mo_host M) (config_path (mo_host M)) of
        Ok _ \<Rightarrow> (case mo_config M of Some c \<Rightarrow> Ok c | None \<Rightarrow> Err (Bail ''configuration_unavailable''))
      | Err e \<Rightarrow>
          if e = IoNotFound then Ok \<lparr>cf_server_url = None, cf_active_device_id = None\<rparr>
          else Err (Bail ''configuration_unavailable''))"

definition defaults_context :: "moment \<Rightarrow> (account_context, failure) result" where
  "defaults_context M =
     (case defaults_config M of
        Err e \<Rightarrow> Err e
      | Ok c \<Rightarrow> Ok \<lparr>ac_home = h_home (mo_host M), ac_server_url = cf_server_url c,
                   ac_active_device_id = cf_active_device_id c\<rparr>)"

definition defaults_key :: "string \<Rightarrow> string" where
  "defaults_key tool = ''default_tool_account:'' @ tool"

definition defaults_valid_id :: "string \<Rightarrow> bool" where
  "defaults_valid_id v \<longleftrightarrow>
     v \<noteq> [] \<and> length v \<le> 128 \<and> list_all (\<lambda>b. is_ascii_alphanumeric b \<or> b \<in> set ''-_'') v"

record snapshot =
  sn_context :: account_context
  sn_tool :: string
  sn_account_id :: "string option"

text \<open>The two moments of one inspection, before and after the table is read.\<close>

definition defaults_get :: "moment \<Rightarrow> moment \<Rightarrow> faults \<Rightarrow> string \<Rightarrow> db \<Rightarrow> (snapshot, failure) result" where
  "defaults_get M M' f tool d =
     (case defaults_context M of
        Err e \<Rightarrow> Err e
      | Ok initial \<Rightarrow>
          (case read_default (mo_host M) f (defaults_key tool) d of
             Err _ \<Rightarrow> Err (Bail ''state_unavailable'')
           | Ok account_id \<Rightarrow>
               if is_some_and (\<lambda>i. \<not> defaults_valid_id i) account_id then Err (Bail ''state_unavailable'')
               else case defaults_context M' of
                 Err e \<Rightarrow> Err e
               | Ok after \<Rightarrow>
                   if after \<noteq> initial then Err (Bail ''configuration_changed'')
                   else Ok \<lparr>sn_context = initial, sn_tool = tool, sn_account_id = account_id\<rparr>))"

section \<open>Publication\<close>

definition defaults_verify :: "snapshot \<Rightarrow> snapshot option \<Rightarrow> (unit, failure) result" where
  "defaults_verify current expected =
     (case expected of
        None \<Rightarrow> Ok ()
      | Some e \<Rightarrow>
          if sn_context current \<noteq> sn_context e then Err (Bail ''configuration_changed'')
          else if sn_account_id current \<noteq> sn_account_id e \<or> sn_tool current \<noteq> sn_tool e
          then Err (Bail ''default_changed'') else Ok ())"

record default_outcome =
  do_context :: account_context
  do_tool :: string
  do_previous_account_id :: "string option"
  do_account_id :: "string option"
  do_changed :: bool

text \<open>What publication meets: the configuration lock, a moment, and the storage failures.\<close>

record publish_world =
  pw_lock :: bool
  pw_moment :: moment
  pw_init :: faults
  pw_write :: faults

definition defaults_publish ::
  "publish_world \<Rightarrow> snapshot \<Rightarrow> string option \<Rightarrow> db \<Rightarrow> (default_outcome, failure) result \<times> db" where
  "defaults_publish P current new d =
     (let outcome = \<lparr>do_context = sn_context current, do_tool = sn_tool current,
            do_previous_account_id = sn_account_id current, do_account_id = new,
            do_changed = (sn_account_id current \<noteq> new)\<rparr>;
          H = mo_host (pw_moment P)
      in if \<not> pw_lock P then (Err (Bail ''configuration_unavailable''), d)
         else case defaults_context (pw_moment P) of
           Err e \<Rightarrow> (Err e, d)
         | Ok context \<Rightarrow>
             if context \<noteq> sn_context current then (Err (Bail ''configuration_changed''), d)
             else if sn_account_id current \<noteq> new
             then
               (case open_state H of
                  Err _ \<Rightarrow> (Err (Bail ''state_unavailable''), d)
                | Ok _ \<Rightarrow>
                    (case init_schema (pw_init P) d of
                       (Err _, d1) \<Rightarrow> (Err (Bail ''state_unavailable''), d1)
                     | (Ok _, d1) \<Rightarrow>
                         (case compare_default (pw_write P) (defaults_key (sn_tool current))
                             (sn_account_id current) new d1 of
                            (Err _, d2) \<Rightarrow> (Err (Bail ''default_outcome_unknown''), d2)
                          | (Ok swapped, d2) \<Rightarrow>
                              if swapped then (Ok outcome, d2) else (Err (Bail ''default_changed''), d2))))
             else
               (case read_default H (pw_write P) (defaults_key (sn_tool current)) d of
                  Err _ \<Rightarrow> (Err (Bail ''state_unavailable''), d)
                | Ok stored \<Rightarrow>
                    if stored \<noteq> sn_account_id current then (Err (Bail ''default_changed''), d)
                    else (Ok outcome, d)))"

section \<open>Setting and clearing\<close>

record defaults_world =
  dw_first :: "moment \<times> moment"
  dw_first_read :: faults
  dw_login :: bool
  dw_second :: "moment \<times> moment"
  dw_second_read :: faults
  dw_token :: "device_token option"
  dw_client :: bool
  dw_publish :: publish_world

text \<open>Both inspections of a call, the second one under the login lock after \<open>waited\<close>.\<close>

definition defaults_confirm ::
  "defaults_world \<Rightarrow> (db \<Rightarrow> db) \<Rightarrow> string \<Rightarrow> snapshot option \<Rightarrow> db \<Rightarrow> (snapshot, failure) result \<times> db" where
  "defaults_confirm W waited tool expected d =
     (case defaults_get (fst (dw_first W)) (snd (dw_first W)) (dw_first_read W) tool d of
        Err e \<Rightarrow> (Err e, d)
      | Ok initial \<Rightarrow>
          (case defaults_verify initial expected of
             Err e \<Rightarrow> (Err e, d)
           | Ok _ \<Rightarrow>
               if \<not> dw_login W then (Err (Bail ''state_unavailable''), d)
               else
                 let d1 = waited d in
                 (case defaults_get (fst (dw_second W)) (snd (dw_second W)) (dw_second_read W) tool d1 of
                    Err e \<Rightarrow> (Err e, d1)
                  | Ok current \<Rightarrow>
                      (case defaults_verify current (Some (case expected of Some e \<Rightarrow> e | None \<Rightarrow> initial)) of
                         Err e \<Rightarrow> (Err e, d1)
                       | Ok _ \<Rightarrow> (Ok current, d1)))))"

text \<open>The account a reference means: resolved among the listed ones, or taken as it is.\<close>

definition defaults_account ::
  "crates \<Rightarrow> tool_account_data list decoders \<Rightarrow> create_account option network \<Rightarrow> string \<Rightarrow> bool \<Rightarrow> (string, failure) result"
where
  "defaults_account X DL net reference resolve_prefix =
     (if resolve_prefix
      then case send X DL (net (HttpGet ''/api/v1/tool-accounts'')) of
             Err e \<Rightarrow> Err (ApiErr e)
           | Ok accounts \<Rightarrow> map_err Bail (resolve_id reference ''tool account'' (map ta_id accounts))
      else Ok reference)"

definition defaults_set ::
  "crates \<Rightarrow> tool_account_data list decoders \<Rightarrow> tool_account_data decoders \<Rightarrow> (device_token \<Rightarrow> create_account option network) \<Rightarrow>
     defaults_world \<Rightarrow> (db \<Rightarrow> db) \<Rightarrow> (db \<Rightarrow> db) \<Rightarrow> string \<Rightarrow> string \<Rightarrow> snapshot option \<Rightarrow> bool \<Rightarrow> db \<Rightarrow>
     (default_outcome, failure) result \<times> db" where
  "defaults_set X DL DA net W waited asked tool reference expected resolve_prefix d =
     (case defaults_confirm W waited tool expected d of
        (Err e, d1) \<Rightarrow> (Err e, d1)
      | (Ok current, d1) \<Rightarrow>
          if ac_server_url (sn_context current) = None \<or> ac_active_device_id (sn_context current) = None
          then (Err (Bail ''authentication_required''), d1)
          else case dw_token W of
            None \<Rightarrow> (Err (Bail ''credential_unavailable''), d1)
          | Some token \<Rightarrow>
              if \<not> dw_client W then (Err (Bail ''configuration_unavailable''), d1)
              else case defaults_account X DL (net token) reference resolve_prefix of
                Err e \<Rightarrow> (Err e, d1)
              | Ok account_id \<Rightarrow>
                  if \<not> defaults_valid_id account_id then (Err (Bail ''account_mismatch''), d1)
                  else case send X DA (net token (HttpGet (''/api/v1/tool-accounts/'' @ account_id))) of
                    Err e \<Rightarrow> (Err (ApiErr e), d1)
                  | Ok account \<Rightarrow>
                      if ta_id account \<noteq> account_id \<or> ta_tool_type account \<noteq> tool
                      then (Err (Bail ''account_mismatch''), d1)
                      else defaults_publish (dw_publish W) current (Some account_id) (asked d1))"

definition defaults_clear ::
  "defaults_world \<Rightarrow> (db \<Rightarrow> db) \<Rightarrow> string \<Rightarrow> snapshot option \<Rightarrow> db \<Rightarrow> (default_outcome, failure) result \<times> db" where
  "defaults_clear W waited tool expected d =
     (case defaults_confirm W waited tool expected d of
        (Err e, d1) \<Rightarrow> (Err e, d1)
      | (Ok current, d1) \<Rightarrow> defaults_publish (dw_publish W) current None d1)"

section \<open>Properties\<close>

text \<open>A text read through a bound it does not reach was read whole.\<close>

lemma length_concat_ge: "\<forall>g \<in> set gs. g \<noteq> [] \<Longrightarrow> length gs \<le> length (concat gs)"
proof (induction gs)
  case (Cons g gs)
  then have "length g \<ge> 1" by (simp add: Suc_le_eq)
  with Cons show ?case by simp
qed simp

lemma utf8_split_nonempty: "\<forall>g \<in> set (utf8_split s). g \<noteq> []"
  by (induction s rule: utf8_split.induct) auto

lemma sql_substr_whole:
  assumes "length (sql_substr n s) < n"
  shows "sql_substr n s = s"
proof -
  have "length (take n (utf8_split s)) \<le> length (sql_substr n s)"
    unfolding sql_substr_def using utf8_split_nonempty [of s] by (intro length_concat_ge) (auto dest: in_set_takeD)
  with assms have "length (utf8_split s) < n" by simp
  then show ?thesis by (simp add: sql_substr_def)
qed

lemma defaults_context_Ok:
  "defaults_context M = Ok c \<Longrightarrow> ac_home c = h_home (mo_host M)"
  by (auto simp: defaults_context_def split: result.splits)

lemma defaults_get_Ok:
  assumes "defaults_get M M' f tool d = Ok s"
  shows "sn_tool s = tool" and "is_none_or defaults_valid_id (sn_account_id s)" and "defaults_context M' = Ok (sn_context s)"
  using assms
  by (auto simp: defaults_get_def is_none_or_def is_some_and_def split: result.splits option.splits if_splits)

lemma defaults_verify_Ok:
  "defaults_verify current (Some e) = Ok () \<longleftrightarrow>
     sn_context current = sn_context e \<and> sn_account_id current = sn_account_id e \<and> sn_tool current = sn_tool e"
  by (auto simp: defaults_verify_def)

lemma defaults_confirm_Ok:
  assumes "defaults_confirm W waited tool expected d = (Ok current, d1)"
  shows "d1 = waited d" and "sn_tool current = tool" and "is_none_or defaults_valid_id (sn_account_id current)"
    and "is_none_or (\<lambda>e. sn_context current = sn_context e \<and> sn_account_id current = sn_account_id e) expected"
    and "dw_login W"
  using assms
  by (auto simp: defaults_confirm_def Let_def is_none_or_def defaults_verify_Ok
      split: result.splits option.splits if_splits dest: defaults_get_Ok)

lemma defaults_confirm_Err:
  "defaults_confirm W waited tool expected d = (Err e, d1) \<Longrightarrow> d1 = d \<or> d1 = waited d"
  by (auto simp: defaults_confirm_def Let_def split: result.splits option.splits if_splits)

text \<open>A confirmed value is short, so comparing through the bound compares the whole value.\<close>

lemma stored_default:
  assumes "map_option (sql_substr 129) stored = current" and "is_none_or defaults_valid_id current"
  shows "stored = current"
proof (cases stored)
  case (Some v)
  with assms have "length (sql_substr 129 v) < 129" by (auto simp: is_none_or_def defaults_valid_id_def)
  from sql_substr_whole [OF this] Some assms(1) show ?thesis by simp
qed (use assms(1) in simp)

lemma compare_default_True:
  "compare_default f key expected new d = (Ok True, d') \<Longrightarrow>
     map_option (sql_substr 129) (kv_look d key) = expected \<and> kv_look d' = (kv_look d)(key := new)"
  using kv_look_del [of key d]
  by (auto simp: compare_default_def kv_select_def kv_look_def [symmetric] kv_del_def split: if_splits option.splits)

lemma compare_default_else: "compare_default f key expected new d = (r, d') \<Longrightarrow> r \<noteq> Ok True \<Longrightarrow> d' = d"
  by (auto simp: compare_default_def split: if_splits result.splits)

lemma defaults_publish_Err:
  assumes "defaults_publish P current new d = (Err e, d')"
  shows "db_kv d' = db_kv d"
proof -
  have "db_kv d2 = db_kv d" if "init_schema f d = (r, d1)" "compare_default g k x y d1 = (q, d2)" "q \<noteq> Ok True"
    for f r d1 g k x y q d2
    using init_schema_kv [OF that(1)] compare_default_else [OF that(2,3)] by simp
  with assms show ?thesis
    by (auto simp: defaults_publish_def Let_def split: result.splits if_splits prod.splits dest: init_schema_kv)
qed

lemma defaults_publish_Ok:
  assumes "defaults_publish P current new d = (Ok outcome, d')" and "is_none_or defaults_valid_id (sn_account_id current)"
    and "is_ok (h_lstat (mo_host (pw_moment P)) (state_db_path (mo_host (pw_moment P))))"
  shows "kv_look d (defaults_key (sn_tool current)) = sn_account_id current"
    and "kv_look d' = (kv_look d)(defaults_key (sn_tool current) := new)"
    and "outcome = \<lparr>do_context = sn_context current, do_tool = sn_tool current,
            do_previous_account_id = sn_account_id current, do_account_id = new,
            do_changed = (sn_account_id current \<noteq> new)\<rparr>"
    and "pw_lock P" and "defaults_context (pw_moment P) = Ok (sn_context current)"
proof -
  let ?k = "defaults_key (sn_tool current)"
  have "map_option (sql_substr 129) (kv_look d ?k) = sn_account_id current \<and> kv_look d' = (kv_look d)(?k := new)"
  proof (cases "sn_account_id current = new")
    case False
    with assms(1) obtain d1 where i: "init_schema (pw_init P) d = (Ok (), d1)"
      and c: "compare_default (pw_write P) ?k (sn_account_id current) new d1 = (Ok True, d')"
      by (auto simp: defaults_publish_def Let_def split: result.splits if_splits prod.splits)
    have "kv_look d1 = kv_look d" using init_schema_kv [OF i] by (simp add: kv_look_def fun_eq_iff)
    with compare_default_True [OF c] show ?thesis by simp
  next
    case True
    with assms(1) have "read_default (mo_host (pw_moment P)) (pw_write P) ?k d = Ok (sn_account_id current)" "d' = d"
      by (auto simp: defaults_publish_def Let_def split: result.splits if_splits)
    with assms(3) have m: "map_option (sql_substr 129) (kv_look d ?k) = sn_account_id current"
      by (auto simp: read_default_def kv_select_def kv_look_def is_ok_iff split: result.splits if_splits)
    with stored_default [OF m assms(2)] True \<open>d' = d\<close> show ?thesis by (auto simp: fun_eq_iff)
  qed
  then show "kv_look d ?k = sn_account_id current" "kv_look d' = (kv_look d)(?k := new)"
    using stored_default [OF _ assms(2)] by blast+
qed (use assms(1) in \<open>auto simp: defaults_publish_def Let_def split: result.splits if_splits prod.splits\<close>)

text \<open>
  A default account is only ever set as it was confirmed. When setting reports success,
  the server has just reported that account with that id and tool, the login and the
  configuration lock were held, the stored default was exactly the confirmed previous one, and
  now it is the new one while no other key of the table has changed since. When it reports a
  failure, the table holds exactly what it held before or what other processes put there.
\<close>

lemma set_default_confirmed:
  assumes "defaults_set X DL DA net W waited asked tool reference expected resolve_prefix d = (r, d')"
    and "is_ok (h_lstat (mo_host (pw_moment (dw_publish W))) (state_db_path (mo_host (pw_moment (dw_publish W)))))"
  shows "(\<forall>outcome. r = Ok outcome \<longrightarrow>
       dw_login W \<and> pw_lock (dw_publish W) \<and>
       is_none_or (\<lambda>e. do_context outcome = sn_context e \<and> do_previous_account_id outcome = sn_account_id e) expected \<and>
       kv_look (asked (waited d)) (defaults_key tool) = do_previous_account_id outcome \<and>
       kv_look d' = (kv_look (asked (waited d)))(defaults_key tool := do_account_id outcome) \<and>
       (\<exists>token i account. dw_token W = Some token \<and> do_account_id outcome = Some i \<and>
          send X DA (net token (HttpGet (''/api/v1/tool-accounts/'' @ i))) = Ok account \<and>
          ta_id account = i \<and> ta_tool_type account = tool)) \<and>
    (\<forall>e. r = Err e \<longrightarrow> db_kv d' \<in> {db_kv d, db_kv (waited d), db_kv (asked (waited d))})"
proof (cases "defaults_confirm W waited tool expected d")
  case (Pair c d1)
  show ?thesis
  proof (cases c)
    case (Err e)
    with assms(1) Pair defaults_confirm_Err [of W waited tool expected d e d1] show ?thesis
      by (auto simp: defaults_set_def)
  next
    case (Ok current)
    note q = defaults_confirm_Ok [OF Pair [unfolded Ok]]
    show ?thesis
    proof (cases "d' = waited d \<and> (\<exists>e. r = Err e)")
      case False
      with assms(1) Pair Ok q(1) obtain token i account where
        t: "dw_token W = Some token" and
        a: "send X DA (net token (HttpGet (''/api/v1/tool-accounts/'' @ i))) = Ok account" "ta_id account = i"
          "ta_tool_type account = tool" and
        p: "defaults_publish (dw_publish W) current (Some i) (asked (waited d)) = (r, d')"
        by (auto simp: defaults_set_def split: option.splits result.splits if_splits)
      show ?thesis
      proof (cases r)
        case (Ok outcome)
        note pub = defaults_publish_Ok [OF p [unfolded Ok] q(3) assms(2)]
        show ?thesis using Ok pub q t a by (auto simp: is_none_or_def split: option.splits)
      next
        case (Err e)
        with defaults_publish_Err [OF p [unfolded Err]] show ?thesis by simp
      qed
    qed auto
  qed
qed

definition config_file :: "host \<Rightarrow> host" where
  "config_file H = H\<lparr>h_lstat := (\<lambda>p. if p = ''/h/config.toml'' then Ok \<lparr>md_kind = RegularFile, md_nlink = 1,
     md_uid = 1, md_mode = 384, md_dev = 1, md_ino = 3\<rparr> else h_lstat H p)\<rparr>"

definition no_database :: host where
  "no_database = config_file (sample_host\<lparr>h_lstat := (\<lambda>_. Err IoNotFound)\<rparr>)"

definition sample_defaults :: defaults_world where
  "sample_defaults =
     (let cfg = Some \<lparr>cf_server_url = Some ''https://s'', cf_active_device_id = Some ''d1''\<rparr>;
          early = \<lparr>mo_host = no_database, mo_config = cfg\<rparr>
      in \<lparr>dw_first = (early, early), dw_first_read = no_faults, dw_login = True,
          dw_second = (early, early), dw_second_read = no_faults,
          dw_token = Some \<lparr>dt_token = ''t'', dt_server_url = ''https://s''\<rparr>, dw_client = True,
          dw_publish = \<lparr>pw_lock = True, pw_moment = \<lparr>mo_host = config_file sample_host, mo_config = cfg\<rparr>,
            pw_init = no_faults, pw_write = no_faults\<rparr>\<rparr>)"

lemma config_file_simps [simp]:
  "h_home (config_file H) = h_home H" "h_euid (config_file H) = h_euid H" "h_canonicalize (config_file H) = h_canonicalize H"
  "h_create_new (config_file H) = h_create_new H" "h_prepare_dir (config_file H) = h_prepare_dir H"
  "h_connect (config_file H) = h_connect H"
  "h_lstat (config_file H) p = (if p = ''/h/config.toml'' then Ok \<lparr>md_kind = RegularFile, md_nlink = 1,
     md_uid = 1, md_mode = 384, md_dev = 1, md_ino = 3\<rparr> else h_lstat H p)"
  by (simp_all add: config_file_def)

lemma open_state_configured: "open_state (config_file sample_host) = Ok ''/h/state.sqlite3''"
  by (simp add: open_state_def checked_home_def sample_host_def path_components_def rust_eval
      ensure_base_dirs_def path_join_def open_metadata_def database_path_def validate_file_def is_link_def)

lemma sample_defaults_context:
  "mo_host M = no_database \<or> mo_host M = config_file sample_host \<Longrightarrow>
   mo_config M = Some \<lparr>cf_server_url = Some ''https://s'', cf_active_device_id = Some ''d1''\<rparr> \<Longrightarrow>
   defaults_context M = Ok sample_context"
  by (auto simp: defaults_context_def defaults_config_def config_path_def no_database_def path_join_def
      sample_host_def sample_context_def)

lemma sample_read_default: "read_default no_database f k d = Ok None"
  by (simp add: read_default_def no_database_def state_db_path_def path_join_def sample_host_def)

definition sample_snapshot :: snapshot where
  "sample_snapshot = \<lparr>sn_context = sample_context, sn_tool = ''claude'', sn_account_id = None\<rparr>"

lemma sample_confirm: "defaults_confirm sample_defaults (\<lambda>d. d) ''claude'' None d = (Ok sample_snapshot, d)"
  by (simp add: defaults_confirm_def sample_defaults_def Let_def defaults_get_def sample_defaults_context
      sample_read_default defaults_verify_def is_some_and_def sample_snapshot_def)

definition default_set_db :: db where
  "default_set_db = snd (defaults_set sample_crates (receipt_decoders [disabled_account]) (receipt_decoders disabled_account)
     (\<lambda>_. answer) sample_defaults (\<lambda>d. d) (\<lambda>d. d) ''claude'' ''a1'' None False fresh_db)"

end
