(* ===== verification/Registry.thy ===== *)
theory Registry
  imports Kv_Store
begin

text \<open>
  Exclusive registries. The account import journal and the runtime recovery registry keep
  caller keys in the key-value table like the caller journals, but reserve a key only when no
  other request for the same target is still open, and they can forget a request. Their
  operations are written once over a description of a registry; the locale
  \<open>exclusive_registry\<close> shows that no target ever has two open requests.
\<close>

section \<open>A registry and its operations\<close>

record ('r, 't) registry =
  g_prefix :: string
  g_limit_error :: string
  g_scan_error :: string
  g_size_error :: string
  g_codec :: "'r codec"
  g_request_id :: "'r \<Rightarrow> string"
  g_home :: "'r \<Rightarrow> string"
  g_target :: "'r \<Rightarrow> 't"
  g_open :: "'r \<Rightarrow> bool"
  g_validate :: "string \<Rightarrow> 'r \<Rightarrow> string \<Rightarrow> (unit, failure) result"

definition registry_max :: nat where
  "registry_max = 16384"

definition registry_limit :: nat where
  "registry_limit = 256"

definition registry_key :: "('r, 't) registry \<Rightarrow> 'r \<Rightarrow> string" where
  "registry_key G r = g_prefix G @ g_request_id G r"

fun registry_read_rows ::
  "('r, 't) registry \<Rightarrow> string \<Rightarrow> faults \<Rightarrow> (string \<times> string) list \<Rightarrow> 'r list \<Rightarrow> ('r list, failure) result"
where
  "registry_read_rows G home f [] records = Ok records"
| "registry_read_rows G home f ((key, raw) # rows) records =
     (if f SRow then Err SqlErr
      else if length raw > registry_max \<or> length records \<ge> registry_limit
      then Err (Bail (g_limit_error G))
      else case from_json (g_codec G) raw of
        None \<Rightarrow> Err JsonErr
      | Some r \<Rightarrow>
          (case g_validate G key r home of
             Err e \<Rightarrow> Err e
           | Ok _ \<Rightarrow> registry_read_rows G home f rows (records @ [r])))"

definition registry_rows :: "('r, 't) registry \<Rightarrow> db \<Rightarrow> (string \<times> string) list" where
  "registry_rows G d =
     map (\<lambda>(k, v). (k, sql_substr (registry_max + 1) v))
       (take (registry_limit + 1) (sort_key fst (kv_with_prefix d (g_prefix G))))"

definition registry_records ::
  "('r, 't) registry \<Rightarrow> host \<Rightarrow> faults \<Rightarrow> db \<Rightarrow> ('r list, failure) result" where
  "registry_records G H f d =
     (case h_lstat H (state_db_path H) of
        Err e \<Rightarrow> if e = IoNotFound then Ok [] else Err (IoErr e)
      | Ok _ \<Rightarrow>
          (case open_readonly H of
             Err e \<Rightarrow> Err e
           | Ok _ \<Rightarrow>
               if f SExists then Err SqlErr
               else if \<not> has_table d ''kv'' then Ok []
               else if f SSelect then Err SqlErr
               else registry_read_rows G (h_home H) f (registry_rows G d) []))"

text \<open>
  The scan before a reservation: true when a request for the same target is open. Rows come
  in table order; the first open request ends the scan.
\<close>

fun registry_scan ::
  "('r, 't) registry \<Rightarrow> faults \<Rightarrow> 'r \<Rightarrow> (string \<times> string) list \<Rightarrow> (bool, failure) result"
where
  "registry_scan G f r [] = Ok False"
| "registry_scan G f r ((key, raw) # rows) =
     (if f SRow then Err SqlErr
      else if length raw > registry_max then Err (Bail (g_scan_error G))
      else case from_json (g_codec G) raw of
        None \<Rightarrow> Err JsonErr
      | Some prior \<Rightarrow>
          (case g_validate G key prior (g_home G r) of
             Err e \<Rightarrow> Err e
           | Ok _ \<Rightarrow>
               if g_target G prior = g_target G r \<and> g_open G prior then Ok True
               else registry_scan G f r rows))"

definition registry_reserve ::
  "('r, 't) registry \<Rightarrow> faults \<Rightarrow> 'r \<Rightarrow> db \<Rightarrow> (bool, failure) result \<times> db" where
  "registry_reserve G f r d =
     (if f SBegin then (Err SqlErr, d)
      else case kv_exists f d (registry_key G r) of
        Err e \<Rightarrow> (Err e, d)
      | Ok True \<Rightarrow> (Ok False, d)
      | Ok False \<Rightarrow>
          (case kv_count f d (g_prefix G) of
             Err e \<Rightarrow> (Err e, d)
           | Ok n \<Rightarrow>
               if n \<ge> registry_limit then (Err (Bail (g_limit_error G)), d)
               else if f SSelect then (Err SqlErr, d)
               else case registry_scan G f r
                   (map (\<lambda>(k, v). (k, sql_substr (registry_max + 1) v))
                     (take (registry_limit + 1) (kv_with_prefix d (g_prefix G)))) of
                 Err e \<Rightarrow> (Err e, d)
               | Ok True \<Rightarrow> (Ok False, d)
               | Ok False \<Rightarrow>
                   (case to_json (g_codec G) r of
                      None \<Rightarrow> (Err JsonErr, d)
                    | Some raw \<Rightarrow>
                        if length raw > registry_max then (Err (Bail (g_size_error G)), d)
                        else case kv_insert_ignore f d (registry_key G r) raw of
                          Err e \<Rightarrow> (Err e, d)
                        | Ok (inserted, d') \<Rightarrow>
                            if f SCommit then (Err SqlErr, d) else (Ok inserted, d'))))"

text \<open>\<open>DELETE FROM kv WHERE key=? AND value=?\<close>, one autocommitted statement.\<close>

definition registry_forget ::
  "('r, 't) registry \<Rightarrow> faults \<Rightarrow> 'r \<Rightarrow> db \<Rightarrow> (bool, failure) result \<times> db" where
  "registry_forget G f r d =
     (case to_json (g_codec G) r of
        None \<Rightarrow> (Err JsonErr, d)
      | Some raw \<Rightarrow>
          if f SWrite \<or> \<not> has_table d ''kv'' then (Err SqlErr, d)
          else if (registry_key G r, raw) \<in> set (db_kv d)
          then (Ok True, d\<lparr>db_kv := filter (\<lambda>row. row \<noteq> (registry_key G r, raw)) (db_kv d)\<rparr>)
          else (Ok False, d))"

definition registry_update ::
  "('r, 't) registry \<Rightarrow> faults \<Rightarrow> 'r \<Rightarrow> 'r \<Rightarrow> db \<Rightarrow> (bool, failure) result \<times> db" where
  "registry_update G f original new d =
     (if f SBegin then (Err SqlErr, d)
      else case kv_select f d (registry_key G original) (registry_max + 1) of
        Err e \<Rightarrow> (Err e, d)
      | Ok None \<Rightarrow> (Ok False, d)
      | Ok (Some raw) \<Rightarrow>
          (case from_json (g_codec G) raw of
             None \<Rightarrow> (Err JsonErr, d)
           | Some current \<Rightarrow>
               if current \<noteq> original then (Ok False, d)
               else case to_json (g_codec G) new of
                 None \<Rightarrow> (Err JsonErr, d)
               | Some encoded \<Rightarrow>
                   (case kv_update f d (registry_key G original) encoded of
                      Err e \<Rightarrow> (Err e, d)
                    | Ok d' \<Rightarrow> if f SCommit then (Err SqlErr, d) else (Ok True, d'))))"

section \<open>What an operation can change\<close>

definition registry_look :: "('r, 't) registry \<Rightarrow> db \<Rightarrow> string \<Rightarrow> 'r option" where
  "registry_look G d i =
     (case kv_look d (g_prefix G @ i) of
        None \<Rightarrow> None
      | Some v \<Rightarrow> from_json (g_codec G) (sql_substr (registry_max + 1) v))"

lemma registry_scan_False:
  "registry_scan G f r rows = Ok False \<Longrightarrow> (k, raw) \<in> set rows \<Longrightarrow>
     \<exists>prior. from_json (g_codec G) raw = Some prior \<and> \<not> (g_target G prior = g_target G r \<and> g_open G prior)"
proof (induction rows)
  case (Cons row rows)
  then show ?case by (cases row) (auto split: if_splits option.splits result.splits)
qed simp

lemma registry_reserve_cases:
  assumes "registry_reserve G f r d = (x, d')"
  shows "(x \<noteq> Ok True \<and> d' = d) \<or>
    (x = Ok True \<and> registry_key G r \<notin> fst ` set (db_kv d) \<and>
     (\<forall>(k, v) \<in> set (kv_with_prefix d (g_prefix G)). \<exists>prior.
        from_json (g_codec G) (sql_substr (registry_max + 1) v) = Some prior \<and>
        \<not> (g_target G prior = g_target G r \<and> g_open G prior)) \<and>
     (\<exists>raw. to_json (g_codec G) r = Some raw \<and> length raw \<le> registry_max \<and>
        d' = d\<lparr>db_kv := db_kv d @ [(registry_key G r, raw)]\<rparr>))"
proof (cases "x = Ok True")
  case False
  with assms show ?thesis
    by (auto simp: registry_reserve_def kv_exists_def kv_count_def kv_insert_ignore_def
        split: result.splits if_splits bool.splits option.splits)
next
  case True
  let ?rows = "map (\<lambda>(k, v). (k, sql_substr (registry_max + 1) v))
    (take (registry_limit + 1) (kv_with_prefix d (g_prefix G)))"
  from assms True have few: "length (kv_with_prefix d (g_prefix G)) < registry_limit"
    and scan: "registry_scan G f r ?rows = Ok False"
    and rest: "registry_key G r \<notin> fst ` set (db_kv d)"
      "\<exists>raw. to_json (g_codec G) r = Some raw \<and> length raw \<le> registry_max \<and>
        d' = d\<lparr>db_kv := db_kv d @ [(registry_key G r, raw)]\<rparr>"
    by (auto simp: registry_reserve_def kv_exists_def kv_count_def kv_insert_ignore_def
        split: result.splits if_splits bool.splits option.splits)
  have "\<exists>prior. from_json (g_codec G) (sql_substr (registry_max + 1) v) = Some prior \<and>
        \<not> (g_target G prior = g_target G r \<and> g_open G prior)"
    if "(k, v) \<in> set (kv_with_prefix d (g_prefix G))" for k v
    using that few by (intro registry_scan_False [OF scan, of k]) force
  with rest True show ?thesis by blast
qed

lemma registry_update_cases:
  assumes "registry_update G f r r' d = (x, d')"
  shows "(x \<noteq> Ok True \<and> d' = d) \<or>
    (x = Ok True \<and> registry_look G d (g_request_id G r) = Some r \<and>
     (\<exists>raw. to_json (g_codec G) r' = Some raw \<and>
        d' = d\<lparr>db_kv := row_update (registry_key G r) raw (db_kv d)\<rparr>))"
  using assms
  by (auto simp: registry_update_def kv_select_def kv_update_def registry_look_def kv_look_def registry_key_def
      split: result.splits if_splits option.splits)

lemma registry_forget_cases:
  assumes "registry_forget G f r d = (x, d')" and "kv_invar d" and "serde_lawful (g_codec G)"
  shows "(x \<noteq> Ok True \<and> d' = d) \<or>
    (x = Ok True \<and> kv_look d' = (kv_look d)(registry_key G r := None) \<and> kv_invar d' \<and>
     (\<exists>raw. to_json (g_codec G) r = Some raw \<and> kv_look d (registry_key G r) = Some raw))"
proof (cases "x = Ok True")
  case False
  with assms(1) show ?thesis by (auto simp: registry_forget_def split: option.splits if_splits)
next
  case True
  let ?k = "registry_key G r"
  from assms(1) True obtain raw where raw: "to_json (g_codec G) r = Some raw"
    and row: "(?k, raw) \<in> set (db_kv d)" and d': "d' = d\<lparr>db_kv := filter (\<lambda>row. row \<noteq> (?k, raw)) (db_kv d)\<rparr>"
    by (auto simp: registry_forget_def split: option.splits if_splits)
  have dist: "distinct (map fst (db_kv d))" using assms(2) by (simp add: kv_invar_def)
  have look: "kv_look d ?k = Some raw" using row dist by (simp add: kv_look_def)
  have "filter (\<lambda>row. row \<noteq> (?k, raw)) (db_kv d) = row_delete ?k (db_kv d)"
    unfolding row_delete_def using row dist by (auto intro!: filter_cong simp: eq_key_imp_eq_value)
  then have "kv_look d' = (kv_look d)(?k := None)" "kv_invar d'"
    using assms(2) by (simp_all add: d' kv_look_def map_of_row_delete kv_invar_def distinct_row_delete)
  with True raw look show ?thesis by blast
qed

section \<open>What a registry promises\<close>

datatype ('f, 'r) registry_op = RegReserve 'f 'r | RegUpdate 'f 'r 'r | RegForget 'f 'r

fun registry_step ::
  "('f \<Rightarrow> 'r \<Rightarrow> 'd \<Rightarrow> (bool, 'e) result \<times> 'd) \<Rightarrow> ('f \<Rightarrow> 'r \<Rightarrow> 'r \<Rightarrow> 'd \<Rightarrow> (bool, 'e) result \<times> 'd) \<Rightarrow>
     ('f \<Rightarrow> 'r \<Rightarrow> 'd \<Rightarrow> (bool, 'e) result \<times> 'd) \<Rightarrow> ('f, 'r) registry_op \<Rightarrow> 'd \<Rightarrow> (bool, 'e) result \<times> 'd"
where
  "registry_step reserve update forget (RegReserve f r) d = reserve f r d"
| "registry_step reserve update forget (RegUpdate f r r') d = update f r r' d"
| "registry_step reserve update forget (RegForget f r) d = forget f r d"

fun registry_run ::
  "('f \<Rightarrow> 'r \<Rightarrow> 'd \<Rightarrow> (bool, 'e) result \<times> 'd) \<Rightarrow> ('f \<Rightarrow> 'r \<Rightarrow> 'r \<Rightarrow> 'd \<Rightarrow> (bool, 'e) result \<times> 'd) \<Rightarrow>
     ('f \<Rightarrow> 'r \<Rightarrow> 'd \<Rightarrow> (bool, 'e) result \<times> 'd) \<Rightarrow> ('f, 'r) registry_op list \<Rightarrow> 'd \<Rightarrow> 'd"
where
  "registry_run reserve update forget [] d = d"
| "registry_run reserve update forget (x # xs) d =
     registry_run reserve update forget xs (snd (registry_step reserve update forget x d))"

text \<open>The updates a client makes: \<open>progress\<close> relates the old and the new record.\<close>

fun registry_op_ok :: "('r \<Rightarrow> 'r \<Rightarrow> bool) \<Rightarrow> ('f, 'r) registry_op \<Rightarrow> bool" where
  "registry_op_ok progress (RegUpdate f r r') = progress r r'"
| "registry_op_ok progress _ = True"

text \<open>No two open requests have the same target.\<close>

definition exclusive :: "('d \<Rightarrow> string \<Rightarrow> 'r option) \<Rightarrow> ('r \<Rightarrow> 't) \<Rightarrow> ('r \<Rightarrow> bool) \<Rightarrow> 'd \<Rightarrow> bool" where
  "exclusive look target is_open d \<longleftrightarrow>
     (\<forall>i j r s. look d i = Some r \<longrightarrow> look d j = Some s \<longrightarrow> target r = target s \<longrightarrow>
        is_open r \<longrightarrow> is_open s \<longrightarrow> i = j)"

locale exclusive_registry =
  fixes invar :: "'d \<Rightarrow> bool"
    and look :: "'d \<Rightarrow> string \<Rightarrow> 'r option"
    and ident :: "'r \<Rightarrow> string"
    and target :: "'r \<Rightarrow> 't"
    and is_open :: "'r \<Rightarrow> bool"
    and progress :: "'r \<Rightarrow> 'r \<Rightarrow> bool"
    and reserve :: "'f \<Rightarrow> 'r \<Rightarrow> 'd \<Rightarrow> (bool, 'e) result \<times> 'd"
    and update :: "'f \<Rightarrow> 'r \<Rightarrow> 'r \<Rightarrow> 'd \<Rightarrow> (bool, 'e) result \<times> 'd"
    and forget :: "'f \<Rightarrow> 'r \<Rightarrow> 'd \<Rightarrow> (bool, 'e) result \<times> 'd"
  assumes reserve_True: "invar d \<Longrightarrow> reserve f r d = (Ok True, d') \<Longrightarrow>
      invar d' \<and> look d (ident r) = None \<and> look d' = (look d)(ident r \<mapsto> r) \<and>
      (\<forall>i s. look d i = Some s \<longrightarrow> \<not> (target s = target r \<and> is_open s))"
    and update_True: "invar d \<Longrightarrow> progress r r' \<Longrightarrow> update f r r' d = (Ok True, d') \<Longrightarrow>
      invar d' \<and> look d (ident r) = Some r \<and> look d' = (look d)(ident r \<mapsto> r')"
    and forget_True: "invar d \<Longrightarrow> forget f r d = (Ok True, d') \<Longrightarrow>
      invar d' \<and> look d' = (look d)(ident r := None)"
    and reserve_else: "reserve f r d = (x, d') \<Longrightarrow> x \<noteq> Ok True \<Longrightarrow> d' = d"
    and update_else: "update f r r' d = (x, d') \<Longrightarrow> x \<noteq> Ok True \<Longrightarrow> d' = d"
    and forget_else: "invar d \<Longrightarrow> forget f r d = (x, d') \<Longrightarrow> x \<noteq> Ok True \<Longrightarrow> d' = d"
    and progress_target: "progress r r' \<Longrightarrow> target r' = target r \<and> (is_open r' \<longrightarrow> is_open r)"
begin

lemma step_exclusive:
  assumes i: "invar d" and e: "exclusive look target is_open d" and ok: "registry_op_ok progress x"
    and s: "registry_step reserve update forget x d = (y, d')"
  shows "invar d' \<and> exclusive look target is_open d'"
proof (cases "y = Ok True")
  case False
  with s i have "d' = d" by (cases x) (auto dest: reserve_else update_else forget_else)
  with i e show ?thesis by simp
next
  case True
  show ?thesis
  proof (cases x)
    case (RegReserve f r)
    with True s reserve_True [OF i, of f r d'] e show ?thesis by (auto simp: exclusive_def)
  next
    case (RegForget f r)
    with True s forget_True [OF i, of f r d'] e show ?thesis by (auto simp: exclusive_def split: if_splits)
  next
    case (RegUpdate f r r')
    with ok have p: "progress r r'" by simp
    from RegUpdate True s update_True [OF i p, of f d'] have
      "invar d'" "look d (ident r) = Some r" "look d' = (look d)(ident r \<mapsto> r')" by auto
    with e progress_target [OF p] show ?thesis by (auto simp: exclusive_def split: if_splits)
  qed
qed

lemma run_exclusive:
  "invar d \<Longrightarrow> exclusive look target is_open d \<Longrightarrow> list_all (registry_op_ok progress) xs \<Longrightarrow>
     exclusive look target is_open (registry_run reserve update forget xs d)"
proof (induction xs arbitrary: d)
  case (Cons x xs)
  obtain y d' where "registry_step reserve update forget x d = (y, d')" by fastforce
  with Cons step_exclusive [of d x y d'] show ?case by simp
qed simp

text \<open>While a request is open no other request for its target is accepted.\<close>

lemma open_blocks:
  "invar d \<Longrightarrow> look d i = Some s \<Longrightarrow> is_open s \<Longrightarrow> target s = target r \<Longrightarrow> fst (reserve f r d) \<noteq> Ok True"
  using reserve_True [of d f r "snd (reserve f r d)"] by (cases "reserve f r d") auto

end

section \<open>Both registries keep the promise\<close>

definition registry_invar :: "('r, 't) registry \<Rightarrow> db \<Rightarrow> bool" where
  "registry_invar G d \<longleftrightarrow> serde_lawful (g_codec G) \<and> kv_invar d"

definition registry_progress :: "('r, 't) registry \<Rightarrow> 'r \<Rightarrow> 'r \<Rightarrow> bool" where
  "registry_progress G r r' \<longleftrightarrow>
     g_target G r' = g_target G r \<and> (g_open G r' \<longrightarrow> g_open G r) \<and>
     (case to_json (g_codec G) r' of None \<Rightarrow> True | Some raw \<Rightarrow> length raw \<le> registry_max)"

lemma registry_look_written:
  assumes "serde_lawful (g_codec G)" and "to_json (g_codec G) r = Some raw" and "length raw \<le> registry_max"
    and "kv_look d' = (kv_look d)(g_prefix G @ i \<mapsto> raw)"
  shows "registry_look G d' = (registry_look G d)(i \<mapsto> r)"
  using assms serde_lawfulD [OF assms(1,2)]
  by (auto simp: registry_look_def fun_eq_iff sql_substr_short)

interpretation reg: exclusive_registry "registry_invar G" "registry_look G" "g_request_id G" "g_target G" "g_open G"
  "registry_progress G" "registry_reserve G" "registry_update G" "registry_forget G" for G
proof unfold_locales
  fix d f r d'
  assume i: "registry_invar G d" and s: "registry_reserve G f r d = (Ok True, d')"
  from registry_reserve_cases [OF s] obtain raw where
    fresh: "registry_key G r \<notin> fst ` set (db_kv d)" and raw: "to_json (g_codec G) r = Some raw" "length raw \<le> registry_max"
    and others: "\<forall>(k, v) \<in> set (kv_with_prefix d (g_prefix G)). \<exists>prior.
        from_json (g_codec G) (sql_substr (registry_max + 1) v) = Some prior \<and>
        \<not> (g_target G prior = g_target G r \<and> g_open G prior)"
    and d': "d' = d\<lparr>db_kv := db_kv d @ [(registry_key G r, raw)]\<rparr>" by auto
  have l: "serde_lawful (g_codec G)" and kv: "kv_invar d" using i by (simp_all add: registry_invar_def)
  have "kv_look d' = (kv_look d)(g_prefix G @ g_request_id G r \<mapsto> raw)"
    using fresh by (simp add: d' kv_look_def map_add_fresh registry_key_def)
  from registry_look_written [OF l raw this] have "registry_look G d' = (registry_look G d)(g_request_id G r \<mapsto> r)" .
  moreover have "registry_look G d (g_request_id G r) = None"
    using fresh by (auto simp: registry_look_def kv_look_def registry_key_def dest: map_of_Some_key split: option.splits)
  moreover have "registry_invar G d'" using l kv fresh by (simp add: registry_invar_def kv_invar_def d')
  moreover have "\<not> (g_target G t = g_target G r \<and> g_open G t)" if "registry_look G d j = Some t" for j t
  proof -
    from that obtain v where v: "kv_look d (g_prefix G @ j) = Some v"
      and t: "from_json (g_codec G) (sql_substr (registry_max + 1) v) = Some t"
      by (auto simp: registry_look_def split: option.splits)
    have "(g_prefix G @ j, v) \<in> set (kv_with_prefix d (g_prefix G))"
      using map_of_SomeD [OF v [unfolded kv_look_def]] by (simp add: kv_with_prefix_def)
    with others t show ?thesis by fastforce
  qed
  ultimately show "registry_invar G d' \<and> registry_look G d (g_request_id G r) = None \<and>
      registry_look G d' = (registry_look G d)(g_request_id G r \<mapsto> r) \<and>
      (\<forall>i s. registry_look G d i = Some s \<longrightarrow> \<not> (g_target G s = g_target G r \<and> g_open G s))" by blast
next
  fix d r r' f d'
  assume i: "registry_invar G d" and p: "registry_progress G r r'" and s: "registry_update G f r r' d = (Ok True, d')"
  from registry_update_cases [OF s] obtain raw where
    look: "registry_look G d (g_request_id G r) = Some r" and raw: "to_json (g_codec G) r' = Some raw"
    and d': "d' = d\<lparr>db_kv := row_update (registry_key G r) raw (db_kv d)\<rparr>" by auto
  have l: "serde_lawful (g_codec G)" and kv: "kv_invar d" using i by (simp_all add: registry_invar_def)
  obtain w where "kv_look d (registry_key G r) = Some w"
    using look by (auto simp: registry_look_def registry_key_def split: option.splits)
  then have "kv_look d' = (kv_look d)(g_prefix G @ g_request_id G r \<mapsto> raw)"
    by (simp add: d' kv_look_def map_of_row_update_Some registry_key_def)
  moreover have "length raw \<le> registry_max" using p raw by (simp add: registry_progress_def)
  ultimately have "registry_look G d' = (registry_look G d)(g_request_id G r \<mapsto> r')"
    using registry_look_written [OF l raw] by blast
  moreover have "registry_invar G d'" using l kv by (simp add: registry_invar_def kv_invar_def d')
  ultimately show "registry_invar G d' \<and> registry_look G d (g_request_id G r) = Some r \<and>
      registry_look G d' = (registry_look G d)(g_request_id G r \<mapsto> r')" using look by blast
next
  fix d f r d'
  assume i: "registry_invar G d" and s: "registry_forget G f r d = (Ok True, d')"
  have l: "serde_lawful (g_codec G)" and kv: "kv_invar d" using i by (simp_all add: registry_invar_def)
  from registry_forget_cases [OF s kv l] have "kv_look d' = (kv_look d)(registry_key G r := None)" "kv_invar d'" by auto
  then show "registry_invar G d' \<and> registry_look G d' = (registry_look G d)(g_request_id G r := None)"
    using l by (auto simp: registry_invar_def registry_look_def registry_key_def fun_eq_iff)
next
  fix f r d x d'
  assume s: "registry_reserve G f r d = (x, d')" and "x \<noteq> Ok True"
  with registry_reserve_cases [OF s] show "d' = d" by auto
next
  fix f r r' d x d'
  assume s: "registry_update G f r r' d = (x, d')" and "x \<noteq> Ok True"
  with registry_update_cases [OF s] show "d' = d" by auto
next
  fix f r d x d'
  assume "registry_invar G d" and s: "registry_forget G f r d = (x, d')" and "x \<noteq> Ok True"
  with registry_forget_cases [OF s] show "d' = d" by (auto simp: registry_invar_def)
next
  fix r r'
  assume "registry_progress G r r'"
  then show "g_target G r' = g_target G r \<and> (g_open G r' \<longrightarrow> g_open G r)" by (simp add: registry_progress_def)
qed

end
