(* ===== verification/Account_Import.thy ===== *)
theory Account_Import
  imports Registry Account_Operations
begin

text \<open>
  Import of local configuration into a remote account (\<open>account_import.rs\<close>,
  \<open>account_import/types.rs\<close>, \<open>account_import/receipt.rs\<close>, \<open>api/account_import.rs\<close> and
  \<open>local_state/account_import.rs\<close>): the journal of original keys, the validation of an
  acceptance receipt and its manifest, the plan and its digest, applying a confirmed plan,
  observing it by its original key, and forgetting it. Walking the source directory, which
  produces the captured files, is an argument.
\<close>

section \<open>Records\<close>

record import_record =
  ir_context :: account_context
  ir_account_id :: string
  ir_request_id :: string
  ir_digest :: string
  ir_intent_fingerprint :: string
  ir_task_id :: "string option"
  ir_phase :: string

text \<open>Unlike the digests of the session journals these are lower case.\<close>

definition lower_hex :: "char \<Rightarrow> bool" where
  "lower_hex b \<longleftrightarrow> is_ascii_digit b \<or> (97 \<le> byte b \<and> byte b \<le> 102)"

definition import_valid_digest :: "string \<Rightarrow> bool" where
  "import_valid_digest v =
     is_some_and (\<lambda>h. length h = 64 \<and> list_all lower_hex h) (strip_prefix ''sha256:'' v)"

definition import_valid_task :: "crates \<Rightarrow> string \<Rightarrow> string \<Rightarrow> bool" where
  "import_valid_task X task account =
     is_some_and (canonical_uuid X) (strip_prefix (''import_tool_account_config:'' @ account @ '':'') task)"

definition import_phase_ok :: "crates \<Rightarrow> import_record \<Rightarrow> bool" where
  "import_phase_ok X r =
     (if ir_phase r \<in> {''pending'', ''rejected''} then ir_task_id r = None
      else if ir_phase r \<in> {''accepted'', ''succeeded'', ''failed'', ''cancelled'', ''expired''}
      then is_some_and (\<lambda>t. import_valid_task X t (ir_account_id r)) (ir_task_id r)
      else False)"

definition import_server_ok :: "string option \<Rightarrow> bool" where
  "import_server_ok url = is_some_and (\<lambda>v. length v \<le> 8192 \<and> \<not> has_control v \<and> http_url v) url"

definition import_device_ok :: "string option \<Rightarrow> bool" where
  "import_device_ok device =
     is_some_and (\<lambda>v. v \<noteq> [] \<and> length v \<le> 128 \<and>
       list_all (\<lambda>b. is_ascii_alphanumeric b \<or> b \<in> set ''-_'') v) device"

definition validate_import_record :: "crates \<Rightarrow> string \<Rightarrow> import_record \<Rightarrow> string \<Rightarrow> (unit, failure) result" where
  "validate_import_record X key r home =
     ensure
      (key = ''account_import_request:'' @ ir_request_id r \<and>
       ac_home (ir_context r) = home \<and>
       canonical_uuid X (ir_request_id r) \<and>
       canonical_uuid X (ir_account_id r) \<and>
       import_valid_digest (ir_digest r) \<and>
       import_valid_digest (ir_intent_fingerprint r) \<and>
       import_phase_ok X r \<and>
       import_server_ok (ac_server_url (ir_context r)) \<and>
       import_device_ok (ac_active_device_id (ir_context r)))
      (Bail ''invalid import journal record'')"

section \<open>The journal\<close>

definition import_registry ::
  "crates \<Rightarrow> import_record codec \<Rightarrow> (import_record, account_context \<times> string) registry" where
  "import_registry X c =
     \<lparr>g_prefix = ''account_import_request:'', g_limit_error = ''account import journal limit exceeded'',
      g_scan_error = ''invalid import journal record'',
      g_size_error = ''account import journal record too large'', g_codec = c,
      g_request_id = ir_request_id, g_home = (\<lambda>r. ac_home (ir_context r)),
      g_target = (\<lambda>r. (ir_context r, ir_account_id r)),
      g_open = (\<lambda>r. ir_phase r \<in> {''pending'', ''accepted''}), g_validate = validate_import_record X\<rparr>"

definition account_import_records ::
  "crates \<Rightarrow> import_record codec \<Rightarrow> host \<Rightarrow> faults \<Rightarrow> db \<Rightarrow> (import_record list, failure) result" where
  "account_import_records X c = registry_records (import_registry X c)"

definition reserve_account_import ::
  "crates \<Rightarrow> import_record codec \<Rightarrow> faults \<Rightarrow> import_record \<Rightarrow> db \<Rightarrow> (bool, failure) result \<times> db" where
  "reserve_account_import X c = registry_reserve (import_registry X c)"

definition update_account_import ::
  "crates \<Rightarrow> import_record codec \<Rightarrow> faults \<Rightarrow> import_record \<Rightarrow> import_record \<Rightarrow> db \<Rightarrow> (bool, failure) result \<times> db"
where
  "update_account_import X c = registry_update (import_registry X c)"

definition forget_account_import ::
  "crates \<Rightarrow> import_record codec \<Rightarrow> faults \<Rightarrow> import_record \<Rightarrow> db \<Rightarrow> (bool, failure) result \<times> db" where
  "forget_account_import X c = registry_forget (import_registry X c)"

lemmas import_ops = account_import_records_def reserve_account_import_def update_account_import_def
  forget_account_import_def

section \<open>Receipts\<close>

record manifest_entry =
  me_path :: string
  me_size :: "64 word"
  me_sha256 :: string
  me_mode :: "32 word"

record import_receipt =
  ip_schema_version :: nat
  ip_request_id :: string
  ip_tool_account_id :: string
  ip_tool_type :: string
  ip_source :: string
  ip_include :: "string list"
  ip_exclude :: "string list"
  ip_include_resume_history :: bool
  ip_dry_run :: bool
  ip_manifest :: "manifest_entry list"
  ip_intent_fingerprint :: string
  ip_task_id :: string
  ip_accepted :: "string list"
  ip_rejected :: "string list"
  ip_warnings :: "string list"
  ip_account_remote_path :: string
  ip_file_count :: "32 word"

text \<open>The limits of \<open>account_import/source.rs\<close>.\<close>

definition max_entries :: nat where
  "max_entries = 2048"

definition max_file_bytes :: "64 word" where
  "max_file_bytes = 1024 * 1024"

definition max_total_bytes :: "64 word" where
  "max_total_bytes = 8 * 1024 * 1024"

definition manifest_json :: "manifest_entry \<Rightarrow> json" where
  "manifest_json e =
     JObject [(''path'', JString (me_path e)), (''size'', JNumber (decimal (unat (me_size e)))),
              (''sha256'', JString (me_sha256 e)), (''mode'', JNumber (decimal (unat (me_mode e))))]"

definition import_intent ::
  "crates \<Rightarrow> string \<Rightarrow> string \<Rightarrow> string list \<Rightarrow> string list \<Rightarrow> bool \<Rightarrow> manifest_entry list \<Rightarrow> string" where
  "import_intent X account tool include exclude history manifest =
     json_digest X
       (JObject [(''schema_version'', JNumber ''1''),
                 (''tool_account_id'', JString account),
                 (''tool_type'', JString tool),
                 (''source'', JString ''local_cli''),
                 (''include'', JArray (map JString include)),
                 (''exclude'', JArray (map JString exclude)),
                 (''include_resume_history'', JBool history),
                 (''dry_run'', JBool False),
                 (''files'', JArray (map manifest_json manifest))])"

definition import_warning :: "string \<Rightarrow> bool" where
  "import_warning v \<longleftrightarrow>
     v \<in> {''CONFIG_IMPORT_EXECUTABLE_REVIEW_REQUIRED'', ''CONFIG_IMPORT_CUSTOM_MARKDOWN_REVIEW_REQUIRED''}"

definition manifest_entry_ok :: "string \<Rightarrow> manifest_entry \<Rightarrow> bool" where
  "manifest_entry_ok previous e \<longleftrightarrow>
     previous < me_path e \<and>
     starts_with ''~/.claude/'' (me_path e) \<and>
     length (me_path e) \<le> 1024 \<and>
     \<not> list_ex (\<lambda>c. is_control c \<or> c = 92) (chars (me_path e)) \<and>
     \<not> list_ex (\<lambda>c. c = [] \<or> c = ''.'' \<or> c = ''..'') (split_slash (me_path e)) \<and>
     import_valid_digest (me_sha256 e) \<and>
     me_mode e = 384 \<and>
     me_size e \<le> max_file_bytes"

text \<open>The loop over the manifest: the sum of the sizes, or \<open>None\<close> at the first bad entry.\<close>

fun manifest_total :: "string \<Rightarrow> 64 word \<Rightarrow> manifest_entry list \<Rightarrow> 64 word option" where
  "manifest_total previous bytes [] = Some bytes"
| "manifest_total previous bytes (e # es) =
     (if manifest_entry_ok previous e then manifest_total (me_path e) (bytes + me_size e) es else None)"

definition validate_import_receipt :: "crates \<Rightarrow> import_receipt \<Rightarrow> import_record \<Rightarrow> bool" where
  "validate_import_receipt X r rec \<longleftrightarrow>
     ip_schema_version r = 1 \<and>
     ip_request_id r = ir_request_id rec \<and>
     ip_tool_account_id r = ir_account_id rec \<and>
     ip_tool_type r = ''claude'' \<and>
     ip_source r = ''local_cli'' \<and>
     \<not> ip_dry_run r \<and>
     ip_intent_fingerprint r = ir_intent_fingerprint rec \<and>
     import_valid_task X (ip_task_id r) (ir_account_id rec) \<and>
     is_none_or (\<lambda>t. t = ip_task_id r) (ir_task_id rec) \<and>
     ip_accepted r = ip_include r \<and>
     ip_rejected r = [] \<and>
     ip_manifest r \<noteq> [] \<and>
     length (ip_manifest r) \<le> max_entries \<and>
     unat (ip_file_count r) = length (ip_manifest r) \<and>
     length (ip_warnings r) \<le> 2 \<and>
     list_all import_warning (ip_warnings r) \<and>
     length (ip_account_remote_path r) \<le> 4096 \<and>
     \<not> has_control (ip_account_remote_path r) \<and>
     is_some_and (\<lambda>bytes. bytes \<le> max_total_bytes) (manifest_total [] 0 (ip_manifest r)) \<and>
     import_intent X (ip_tool_account_id r) (ip_tool_type r) (ip_include r) (ip_exclude r)
       (ip_include_resume_history r) (ip_manifest r) = ir_intent_fingerprint rec"

section \<open>The plan\<close>

record import_selection =
  sel_tool :: string
  sel_include_resume_history :: bool
  sel_exclude_skills :: bool

record import_file =
  fl_path :: string
  fl_content_base64 :: string
  fl_mode :: "32 word"

text \<open>What \<open>source::capture\<close> returns: the discovery, the manifest and the files.\<close>

record import_capture =
  cp_source_home :: string
  cp_selection :: import_selection
  cp_include :: "string list"
  cp_exclude :: "string list"
  cp_manifest :: "manifest_entry list"
  cp_files :: "import_file list"
  cp_total_bytes :: "64 word"
  cp_fingerprint :: string

record import_plan =
  pl_context :: account_context
  pl_account_id :: string
  pl_selection :: import_selection
  pl_source_home :: string
  pl_include :: "string list"
  pl_exclude :: "string list"
  pl_manifest :: "manifest_entry list"
  pl_total_bytes :: "64 word"
  pl_source_fingerprint :: string
  pl_intent_fingerprint :: string
  pl_digest :: string

text \<open>The serialized plan, its fields in the order of the struct.\<close>

definition plan_json :: "import_plan \<Rightarrow> json" where
  "plan_json p =
     JObject [(''context'', JObject [(''home'', JString (ac_home (pl_context p))),
                (''server_url'', json_opt (ac_server_url (pl_context p))),
                (''active_device_id'', json_opt (ac_active_device_id (pl_context p)))]),
              (''account_id'', JString (pl_account_id p)),
              (''selection'', JObject [(''tool'', JString (sel_tool (pl_selection p))),
                (''include_resume_history'', JBool (sel_include_resume_history (pl_selection p))),
                (''exclude_skills'', JBool (sel_exclude_skills (pl_selection p)))]),
              (''source_home'', JString (pl_source_home p)),
              (''include'', JArray (map JString (pl_include p))),
              (''exclude'', JArray (map JString (pl_exclude p))),
              (''manifest'', JArray (map manifest_json (pl_manifest p))),
              (''total_bytes'', JNumber (decimal (unat (pl_total_bytes p)))),
              (''source_fingerprint'', JString (pl_source_fingerprint p)),
              (''intent_fingerprint'', JString (pl_intent_fingerprint p)),
              (''digest'', JString (pl_digest p))]"

definition plan_intent :: "crates \<Rightarrow> import_plan \<Rightarrow> string" where
  "plan_intent X p =
     import_intent X (pl_account_id p) (sel_tool (pl_selection p)) (pl_include p) (pl_exclude p)
       (sel_include_resume_history (pl_selection p)) (pl_manifest p)"

definition make_plan ::
  "crates \<Rightarrow> account_context \<Rightarrow> string \<Rightarrow> import_capture \<Rightarrow> import_plan \<times> import_file list" where
  "make_plan X context account cap =
     (let value = \<lparr>pl_context = context, pl_account_id = account, pl_selection = cp_selection cap,
            pl_source_home = cp_source_home cap, pl_include = cp_include cap, pl_exclude = cp_exclude cap,
            pl_manifest = cp_manifest cap, pl_total_bytes = cp_total_bytes cap,
            pl_source_fingerprint = cp_fingerprint cap, pl_intent_fingerprint = [], pl_digest = []\<rparr>;
          value = value\<lparr>pl_intent_fingerprint := plan_intent X value\<rparr>
      in (value\<lparr>pl_digest := ''sha256:'' @ sha256_hex X (json_text X (plan_json value))\<rparr>, cp_files cap))"

section \<open>Submission\<close>

record import_error =
  ie_code :: string
  ie_http_status :: "nat option"

definition import_error_new :: "string \<Rightarrow> import_error" where
  "import_error_new code = \<lparr>ie_code = code, ie_http_status = None\<rparr>"

definition import_local_error :: import_error where
  "import_local_error = import_error_new ''account_import_journal_unavailable''"

definition import_submission_error :: "api_error \<Rightarrow> import_error" where
  "import_submission_error e =
     \<lparr>ie_code =
        (if ae_status e = Some 409 \<and> ae_code e = Some ''SKILL_MANAGER_OWNS_PATH''
         then ''account_import_skills_managed''
         else if ae_status e \<in> {Some 400, Some 401, Some 403, Some 404, Some 422}
         then ''account_import_rejected''
         else ''account_import_outcome_unknown''),
      ie_http_status = ae_status e\<rparr>"

definition import_persist ::
  "crates \<Rightarrow> import_record codec \<Rightarrow> host \<Rightarrow> faults \<Rightarrow> import_record \<Rightarrow> import_record \<Rightarrow> db \<Rightarrow>
     (unit, import_error) result \<times> db" where
  "import_persist X c H f original new d =
     (case open_state H of
        Err _ \<Rightarrow> (Err import_local_error, d)
      | Ok _ \<Rightarrow>
          (case update_account_import X c f original new d of
             (Err _, d') \<Rightarrow> (Err import_local_error, d')
           | (Ok updated, d') \<Rightarrow> (if updated then Ok () else Err import_local_error, d')))"

record public_receipt =
  pr_context :: account_context
  pr_account_id :: string
  pr_request_id :: string
  pr_digest :: string
  pr_intent_fingerprint :: string
  pr_task_id :: string
  pr_phase :: string
  pr_accepted :: bool
  pr_file_count :: "32 word"
  pr_warning_codes :: "string list"

definition import_public :: "import_receipt \<Rightarrow> import_record \<Rightarrow> string \<Rightarrow> 32 word \<Rightarrow> public_receipt" where
  "import_public receipt rec phase count =
     \<lparr>pr_context = ir_context rec, pr_account_id = ir_account_id rec, pr_request_id = ir_request_id rec,
      pr_digest = ir_digest rec, pr_intent_fingerprint = ir_intent_fingerprint rec,
      pr_task_id = ip_task_id receipt, pr_phase = phase, pr_accepted = True, pr_file_count = count,
      pr_warning_codes = ip_warnings receipt\<rparr>"

definition submit_account_import ::
  "crates \<Rightarrow> import_receipt decoders \<Rightarrow> 'q network \<Rightarrow> string \<Rightarrow> 'q \<Rightarrow>
     (import_receipt, api_error) result \<times> 'q http_request list" where
  "submit_account_import X D net account q =
     (let post = HttpPost (''/api/v1/tool-accounts/'' @ account @ ''/config-import-requests'') q in
      (send X D (net post), [post]))"

text \<open>
  The end of \<open>apply\<close>: \<open>rec\<close> is the new record and \<open>q\<close> the request body made from the plan.
\<close>

definition submit_import ::
  "crates \<Rightarrow> import_record codec \<Rightarrow> import_receipt decoders \<Rightarrow> host \<Rightarrow> 'q network \<Rightarrow> submit_faults \<Rightarrow>
     import_record \<Rightarrow> 'q \<Rightarrow> db \<Rightarrow> (public_receipt, import_error) result \<times> db \<times> 'q http_request list" where
  "submit_import X c D H net F rec q d =
     (case open_state H of
        Err _ \<Rightarrow> (Err import_local_error, d, [])
      | Ok _ \<Rightarrow>
          (case init_schema (sf_init F) d of
             (Err _, d1) \<Rightarrow> (Err import_local_error, d1, [])
           | (Ok _, d1) \<Rightarrow>
               (case reserve_account_import X c (sf_reserve F) rec d1 of
                  (Err _, d2) \<Rightarrow> (Err import_local_error, d2, [])
                | (Ok False, d2) \<Rightarrow> (Err (import_error_new ''account_import_recovery_required''), d2, [])
                | (Ok True, d2) \<Rightarrow>
                    (case submit_account_import X D net (ir_account_id rec) q of
                       (Err e, log) \<Rightarrow>
                         let mapped = import_submission_error e in
                         if ie_code mapped \<in> {''account_import_rejected'', ''account_import_skills_managed''}
                         then (case import_persist X c H (sf_update F) rec (rec\<lparr>ir_phase := ''rejected''\<rparr>) d2 of
                                 (Err _, d3) \<Rightarrow> (Err (import_error_new ''account_import_outcome_unknown''), d3, log)
                               | (Ok _, d3) \<Rightarrow> (Err mapped, d3, log))
                         else (Err mapped, d2, log)
                     | (Ok receipt, log) \<Rightarrow>
                         if \<not> validate_import_receipt X receipt rec
                         then (Err (import_error_new ''account_import_outcome_unknown''), d2, log)
                         else
                           let new = rec\<lparr>ir_task_id := Some (ip_task_id receipt), ir_phase := ''accepted''\<rparr> in
                           (case import_persist X c H (sf_update F) rec new d2 of
                              (Err _, d3) \<Rightarrow> (Err (import_error_new ''account_import_outcome_unknown''), d3, log)
                            | (Ok _, d3) \<Rightarrow>
                                (Ok (import_public receipt new ''accepted'' (ip_file_count receipt)), d3, log))))))"

section \<open>Applying a confirmed plan\<close>

record import_request =
  iq_schema_version :: nat
  iq_request_id :: string
  iq_expected_intent_fingerprint :: string
  iq_tool_type :: string
  iq_source :: string
  iq_include :: "string list"
  iq_exclude :: "string list"
  iq_files :: "import_file list"
  iq_include_resume_history :: bool
  iq_dry_run :: bool

record import_apply_input =
  ia_confirmed :: bool
  ia_expected_context :: account_context
  ia_account_id :: string
  ia_selection :: import_selection
  ia_expected_source_home :: string
  ia_expected_digest :: string
  ia_request_id :: string

definition import_mapped :: "op_error \<Rightarrow> import_error" where
  "import_mapped e = \<lparr>ie_code = oe_code e, ie_http_status = oe_http_status e\<rparr>"

definition import_read_error :: "api_error \<Rightarrow> import_error" where
  "import_read_error e =
     \<lparr>ie_code = (if ae_status e = Some 401 then ''authentication_required''
                 else if ae_status e = Some 403 then ''permission_denied''
                 else ''account_import_status_unknown''),
      ie_http_status = ae_status e\<rparr>"

definition import_check ::
  "crates \<Rightarrow> host \<Rightarrow> client_config option \<Rightarrow> account_context \<Rightarrow> string \<Rightarrow> (unit, import_error) result" where
  "import_check X H loaded context account =
     (if \<not> canonical_uuid X account then Err (import_error_new ''invalid_params'')
      else if h_home H \<noteq> ac_home context then Err (import_error_new ''configuration_changed'')
      else case loaded of
        None \<Rightarrow> Err (import_error_new ''configuration_unavailable'')
      | Some actual \<Rightarrow>
          if cf_server_url actual \<noteq> ac_server_url context \<or> cf_active_device_id actual \<noteq> ac_active_device_id context
          then Err (import_error_new ''configuration_changed'') else Ok ())"

definition import_check_source :: "string option \<Rightarrow> string \<Rightarrow> (unit, import_error) result" where
  "import_check_source user_home expected =
     (case user_home of
        None \<Rightarrow> Err (import_error_new ''account_import_source_invalid'')
      | Some home \<Rightarrow> ensure (home = expected) (import_error_new ''account_import_source_changed''))"

definition import_new_record :: "import_apply_input \<Rightarrow> string \<Rightarrow> import_record" where
  "import_new_record input intent =
     \<lparr>ir_context = ia_expected_context input, ir_account_id = ia_account_id input,
      ir_request_id = ia_request_id input, ir_digest = ia_expected_digest input,
      ir_intent_fingerprint = intent, ir_task_id = None, ir_phase = ''pending''\<rparr>"

definition import_new_request :: "import_record \<Rightarrow> import_plan \<Rightarrow> import_file list \<Rightarrow> import_request" where
  "import_new_request rec p files =
     \<lparr>iq_schema_version = 1, iq_request_id = ir_request_id rec,
      iq_expected_intent_fingerprint = ir_intent_fingerprint rec, iq_tool_type = sel_tool (pl_selection p),
      iq_source = ''local_cli'', iq_include = pl_include p, iq_exclude = pl_exclude p, iq_files = files,
      iq_include_resume_history = sel_include_resume_history (pl_selection p), iq_dry_run = False\<rparr>"

text \<open>
  \<open>apply\<close>: \<open>loaded\<close> is the configuration when it is checked, \<open>user_home\<close> the platform's home
  directory and \<open>captured\<close> what reading the source gives.
\<close>

definition import_apply ::
  "crates \<Rightarrow> import_record codec \<Rightarrow> import_receipt decoders \<Rightarrow> host \<Rightarrow> (device_token \<Rightarrow> import_request network) \<Rightarrow>
     client_config option \<Rightarrow> string option \<Rightarrow> (string \<Rightarrow> import_selection \<Rightarrow> (import_capture, import_error) result) \<Rightarrow>
     op_world \<Rightarrow> submit_faults \<Rightarrow> import_apply_input \<Rightarrow> db \<Rightarrow>
     (public_receipt, import_error) result \<times> db \<times> import_request http_request list" where
  "import_apply X c D H net loaded user_home captured W F input d =
     (if \<not> ia_confirmed input then (Err (import_error_new ''confirmation_required''), d, [])
      else if \<not> canonical_uuid X (ia_request_id input) \<or> \<not> import_valid_digest (ia_expected_digest input)
      then (Err (import_error_new ''invalid_params''), d, [])
      else case import_check X H loaded (ia_expected_context input) (ia_account_id input) of
        Err e \<Rightarrow> (Err e, d, [])
      | Ok _ \<Rightarrow>
          (case import_check_source user_home (ia_expected_source_home input) of
             Err e \<Rightarrow> (Err e, d, [])
           | Ok _ \<Rightarrow>
               (case captured (ia_expected_source_home input) (ia_selection input) of
                  Err e \<Rightarrow> (Err e, d, [])
                | Ok cap \<Rightarrow>
                    let (plan, files) = make_plan X (ia_expected_context input) (ia_account_id input) cap in
                    if pl_digest plan \<noteq> ia_expected_digest input
                    then (Err (import_error_new ''account_import_source_changed''), d, [])
                    else if files = [] then (Err (import_error_new ''account_import_empty''), d, [])
                    else
                      (case op_authorize H W (ia_expected_context input) of
                         Err e \<Rightarrow> (Err (import_mapped e), d, [])
                       | Ok token \<Rightarrow>
                           let rec = import_new_record input (plan_intent X plan) in
                           submit_import X c D H (net token) F rec (import_new_request rec plan files) d))))"

section \<open>Observing\<close>

record import_status =
  is_expected_context :: account_context
  is_account_id :: string
  is_request_id :: string
  is_expected_digest :: string
  is_expected_task_id :: "string option"

definition import_pending ::
  "crates \<Rightarrow> import_record codec \<Rightarrow> host \<Rightarrow> faults \<Rightarrow> db \<Rightarrow> (import_record list, import_error) result" where
  "import_pending X c H f d =
     (case account_import_records X c H f d of
        Err _ \<Rightarrow> Err import_local_error
      | Ok items \<Rightarrow>
          if list_ex (\<lambda>i. ac_home (ir_context i) \<noteq> h_home H \<or> \<not> canonical_uuid X (ir_account_id i) \<or>
               \<not> canonical_uuid X (ir_request_id i) \<or> \<not> import_valid_digest (ir_digest i) \<or>
               \<not> import_valid_digest (ir_intent_fingerprint i) \<or>
               is_some_and (\<lambda>t. \<not> import_valid_task X t (ir_account_id i)) (ir_task_id i) \<or>
               ir_phase i \<notin> {''pending'', ''accepted'', ''rejected'', ''succeeded'', ''failed'', ''cancelled'', ''expired''}) items
          then Err import_local_error else Ok items)"

record import_task_data =
  it_task_id :: string
  it_status :: string
  it_files_written :: "string list"
  it_file_count :: "32 word"
  it_error :: "string option"

definition import_task_ok :: "import_task_data \<Rightarrow> import_receipt \<Rightarrow> bool" where
  "import_task_ok task response \<longleftrightarrow>
     it_task_id task = ip_task_id response \<and>
     it_status task \<in> {''pending'', ''leased'', ''running'', ''succeeded'', ''failed'', ''cancelled'', ''expired''} \<and>
     it_file_count task \<le> ip_file_count response \<and>
     length (it_files_written task) \<le> length (ip_manifest response) \<and>
     is_none_or (\<lambda>e. length e \<le> 65536) (it_error task) \<and>
     (it_status task = ''succeeded'' \<longrightarrow> it_file_count task = ip_file_count response)"

definition import_matches :: "import_status \<Rightarrow> import_record \<Rightarrow> bool" where
  "import_matches input rec \<longleftrightarrow>
     ir_context rec = is_expected_context input \<and> ir_account_id rec = is_account_id input \<and>
     ir_digest rec = is_expected_digest input \<and>
     \<not> is_some_and (\<lambda>v. is_some_and (\<lambda>t. t \<noteq> v) (ir_task_id rec)) (is_expected_task_id input)"

definition import_phase_of :: "string \<Rightarrow> string" where
  "import_phase_of status = (if status \<in> {''pending'', ''leased'', ''running''} then ''accepted'' else status)"

definition import_status_call ::
  "crates \<Rightarrow> import_record codec \<Rightarrow> import_receipt decoders \<Rightarrow> import_task_data decoders \<Rightarrow> host \<Rightarrow> faults \<Rightarrow>
     (device_token \<Rightarrow> import_request network) \<Rightarrow> client_config option \<Rightarrow> op_world \<Rightarrow> import_status \<Rightarrow> db \<Rightarrow>
     (public_receipt, import_error) result" where
  "import_status_call X c D DT H f net loaded W input d =
     (case import_check X H loaded (is_expected_context input) (is_account_id input) of
        Err e \<Rightarrow> Err e
      | Ok _ \<Rightarrow>
          if \<not> canonical_uuid X (is_request_id input) \<or> \<not> import_valid_digest (is_expected_digest input) \<or>
             is_some_and (\<lambda>v. \<not> import_valid_task X v (is_account_id input)) (is_expected_task_id input)
          then Err (import_error_new ''invalid_params'')
          else case import_pending X c H f d of
            Err e \<Rightarrow> Err e
          | Ok items \<Rightarrow>
              (case find (\<lambda>r. ir_request_id r = is_request_id input) items of
                 None \<Rightarrow> Err (import_error_new ''account_import_request_not_recorded'')
               | Some rec \<Rightarrow>
                   if \<not> import_matches input rec then Err (import_error_new ''account_import_request_mismatch'')
                   else case op_authorize H W (is_expected_context input) of
                     Err e \<Rightarrow> Err (import_mapped e)
                   | Ok token \<Rightarrow>
                       (case send X D (net token (HttpGet (''/api/v1/tool-accounts/'' @ ir_account_id rec @
                           ''/config-import-requests/'' @ ir_request_id rec))) of
                          Err e \<Rightarrow> Err (import_read_error e)
                        | Ok response \<Rightarrow>
                            if \<not> validate_import_receipt X response rec
                            then Err (import_error_new ''account_import_response_invalid'')
                            else if is_some_and (\<lambda>v. v \<noteq> ip_task_id response) (is_expected_task_id input)
                            then Err (import_error_new ''account_import_response_invalid'')
                            else case send X DT (net token (HttpGet (''/api/v1/tool-accounts/'' @ ir_account_id rec @
                                ''/config-imports/'' @ ip_task_id response))) of
                              Err e \<Rightarrow> Err (import_read_error e)
                            | Ok task \<Rightarrow>
                                if \<not> import_task_ok task response
                                then Err (import_error_new ''account_import_response_invalid'')
                                else Ok (import_public response
                                  (rec\<lparr>ir_task_id := Some (ip_task_id response),
                                      ir_phase := import_phase_of (it_status task)\<rparr>)
                                  (it_status task) (it_file_count task)))))"

section \<open>Forgetting\<close>

record import_forgotten =
  ig_context :: account_context
  ig_account_id :: string
  ig_request_id :: string
  ig_digest :: string
  ig_task_id :: "string option"
  ig_forgotten :: bool

definition forget_stored ::
  "crates \<Rightarrow> import_record codec \<Rightarrow> host \<Rightarrow> faults \<Rightarrow> import_record \<Rightarrow> db \<Rightarrow> (unit, import_error) result \<times> db" where
  "forget_stored X c H f rec d =
     (case open_state H of
        Err _ \<Rightarrow> (Err import_local_error, d)
      | Ok _ \<Rightarrow>
          (case forget_account_import X c f rec d of
             (Err _, d') \<Rightarrow> (Err import_local_error, d')
           | (Ok gone, d') \<Rightarrow>
               (if gone then Ok () else Err (import_error_new ''account_import_request_mismatch''), d')))"

definition import_forget ::
  "crates \<Rightarrow> import_record codec \<Rightarrow> import_receipt decoders \<Rightarrow> import_task_data decoders \<Rightarrow> host \<Rightarrow> faults \<Rightarrow> faults \<Rightarrow>
     (device_token \<Rightarrow> import_request network) \<Rightarrow> client_config option \<Rightarrow> op_world \<Rightarrow> import_status \<Rightarrow> db \<Rightarrow>
     (import_forgotten, import_error) result \<times> db" where
  "import_forget X c D DT H f g net loaded W input d =
     (case import_pending X c H f d of
        Err e \<Rightarrow> (Err e, d)
      | Ok items \<Rightarrow>
          (case find (\<lambda>r. ir_request_id r = is_request_id input) items of
             None \<Rightarrow> (Err (import_error_new ''account_import_request_not_recorded''), d)
           | Some rec \<Rightarrow>
               if \<not> import_matches input rec
               then (Err (import_error_new ''account_import_request_mismatch''), d)
               else if ir_phase rec = ''rejected'' \<and> ir_task_id rec = None
               then
                 if is_expected_task_id input \<noteq> None
                 then (Err (import_error_new ''account_import_request_mismatch''), d)
                 else (case forget_stored X c H g rec d of
                         (Err e, d') \<Rightarrow> (Err e, d')
                       | (Ok _, d') \<Rightarrow>
                           (Ok \<lparr>ig_context = ir_context rec, ig_account_id = ir_account_id rec,
                                ig_request_id = ir_request_id rec, ig_digest = ir_digest rec,
                                ig_task_id = None, ig_forgotten = True\<rparr>, d'))
               else
                 (case import_status_call X c D DT H f net loaded W input d of
                    Err e \<Rightarrow> (Err e, d)
                  | Ok result \<Rightarrow>
                      if pr_phase result \<notin> {''succeeded'', ''failed'', ''cancelled'', ''expired''}
                      then (Err (import_error_new ''account_import_not_settled''), d)
                      else
                        (case forget_stored X c H g rec d of
                           (Err e, d') \<Rightarrow> (Err e, d')
                         | (Ok _, d') \<Rightarrow>
                             (Ok \<lparr>ig_context = pr_context result, ig_account_id = pr_account_id result,
                                  ig_request_id = pr_request_id result, ig_digest = pr_digest result,
                                  ig_task_id = Some (pr_task_id result), ig_forgotten = True\<rparr>, d')))))"

section \<open>Properties of the manifest\<close>

lemma manifest_total_Some:
  assumes "manifest_total previous t es = Some bytes"
  shows "list_all (\<lambda>e. starts_with ''~/.claude/'' (me_path e) \<and> ''..'' \<notin> set (split_slash (me_path e)) \<and>
           me_size e \<le> max_file_bytes) es"
    and "strictly_ascending (previous # map me_path es)"
    and "bytes = t + sum_list (map me_size es)"
  using assms
proof (induction previous t es rule: manifest_total.induct)
  case (2 previous t e es)
  { case 1 with 2 show ?case by (auto simp: manifest_entry_ok_def list_ex_iff split: if_splits) }
  { case 2 with "2.IH"(2) show ?case by (auto simp: manifest_entry_ok_def split: if_splits) }
  { case 3 with "2.IH"(3) show ?case by (auto simp: add.assoc split: if_splits) }
qed simp_all

lemma sum_list_word_bounded:
  fixes xs :: "64 word list"
  assumes "\<forall>x \<in> set xs. unat x \<le> m" and "length xs * m < 2 ^ 64"
  shows "unat (sum_list xs) = sum_list (map unat xs) \<and> unat (sum_list xs) \<le> length xs * m"
  using assms
proof (induction xs)
  case (Cons x xs)
  then have IH: "unat (sum_list xs) = sum_list (map unat xs)" "unat (sum_list xs) \<le> length xs * m"
    and x: "unat x \<le> m" and b: "m + length xs * m < 2 ^ 64" by simp_all
  from IH(2) x b have "unat x + unat (sum_list xs) < 2 ^ LENGTH(64)" by simp
  then have "unat (x + sum_list xs) = unat x + unat (sum_list xs)" by (rule unat_add_lem [THEN iffD1])
  with IH x show ?case by simp
qed simp

text \<open>
  C21. An accepted manifest is safe to act on: every file lies below \<open>~/.claude/\<close> and climbs
  nowhere, no path occurs twice, and the 64-bit total of the sizes is the true sum, it never
  wraps, and stays within the limit of 8 MiB.
\<close>

theorem import_manifest_safe:
  assumes "validate_import_receipt X receipt rec"
  shows "list_all (\<lambda>e. starts_with ''~/.claude/'' (me_path e) \<and> ''..'' \<notin> set (split_slash (me_path e)))
      (ip_manifest receipt) \<and>
    distinct (map me_path (ip_manifest receipt)) \<and>
    unat (sum_list (map me_size (ip_manifest receipt))) = sum_list (map (unat \<circ> me_size) (ip_manifest receipt)) \<and>
    sum_list (map (unat \<circ> me_size) (ip_manifest receipt)) \<le> 8388608"
proof -
  let ?es = "ip_manifest receipt"
  from assms obtain bytes where t: "manifest_total [] 0 ?es = Some bytes" and bytes: "bytes \<le> max_total_bytes"
    and len: "length ?es \<le> 2048"
    by (auto simp: validate_import_receipt_def is_some_and_def max_entries_def split: option.splits)
  note m = manifest_total_Some [OF t]
  have "unat (max_file_bytes) = 1048576" by (simp add: max_file_bytes_def)
  then have "\<forall>x \<in> set (map me_size ?es). unat x \<le> 1048576"
    using m(1) by (auto simp: list_all_iff word_le_nat_alt)
  from sum_list_word_bounded [OF this] len have "unat bytes = sum_list (map unat (map me_size ?es))"
    using m(3) by simp
  moreover have "unat bytes \<le> 8388608"
    using bytes by (simp add: word_le_nat_alt max_total_bytes_def)
  ultimately show ?thesis
    using m by (auto simp: strictly_ascending_sorted list_all_iff)
qed

definition sample_import :: import_record where
  "sample_import =
     \<lparr>ir_context = \<lparr>ac_home = ''/h'', ac_server_url = Some ''https://s'', ac_active_device_id = Some ''d1''\<rparr>,
      ir_account_id = sample_id 2, ir_request_id = sample_id 3, ir_digest = sample_digest,
      ir_intent_fingerprint = sample_digest, ir_task_id = None, ir_phase = ''pending''\<rparr>"

definition sample_import_receipt :: import_receipt where
  "sample_import_receipt =
     \<lparr>ip_schema_version = 1, ip_request_id = sample_id 3, ip_tool_account_id = sample_id 2,
      ip_tool_type = ''claude'', ip_source = ''local_cli'', ip_include = [''~/.claude/a''], ip_exclude = [],
      ip_include_resume_history = False, ip_dry_run = False,
      ip_manifest = [\<lparr>me_path = ''~/.claude/a'', me_size = 1048576, me_sha256 = sample_digest, me_mode = 384\<rparr>],
      ip_intent_fingerprint = sample_digest,
      ip_task_id = ''import_tool_account_config:'' @ sample_id 2 @ '':'' @ sample_id 3,
      ip_accepted = [''~/.claude/a''], ip_rejected = [], ip_warnings = [],
      ip_account_remote_path = [], ip_file_count = 1\<rparr>"

lemma sample_digest_import: "import_valid_digest sample_digest"
  by (simp add: import_valid_digest_def sample_digest_def strip_prefix_def starts_with_def lower_hex_def
      list_all_iff is_ascii_digit_def)

lemma strip_prefix_append [simp]: "strip_prefix p (p @ s) = Some s"
  by (simp add: strip_prefix_Some)

lemma sample_task: "import_valid_task sample_crates (''import_tool_account_config:'' @ sample_id 2 @ '':'' @ sample_id 3) (sample_id 2)"
  using strip_prefix_append [of "''import_tool_account_config:'' @ sample_id 2 @ '':''" "sample_id 3"]
  by (simp add: import_valid_task_def)

lemma sample_import_receipt_valid: "validate_import_receipt sample_crates sample_import_receipt sample_import"
proof -
  have "import_intent sample_crates a t i e h m = sample_digest" for a t i e h m
    by (simp add: import_intent_def json_digest_def sample_crates_def sample_digest_def)
  moreover have "manifest_entry_ok [] \<lparr>me_path = ''~/.claude/a'', me_size = 1048576, me_sha256 = sample_digest, me_mode = 384\<rparr>"
    by (simp add: manifest_entry_ok_def sample_digest_import starts_with_def chars_def utf8_width_def is_control_def
        max_file_bytes_def)
  ultimately show ?thesis
    using sample_task
    by (simp add: validate_import_receipt_def sample_import_receipt_def sample_import_def max_entries_def
        has_control_def chars_def max_total_bytes_def word_le_nat_alt)
qed

theorem import_manifest_safe_witness:
  "sum_list (map (unat \<circ> me_size) (ip_manifest sample_import_receipt)) \<le> 8388608"
  using import_manifest_safe [OF sample_import_receipt_valid] by blast

section \<open>Properties of the journal\<close>

lemma import_registry_simps [simp]:
  "g_codec (import_registry X c) = c" "g_request_id (import_registry X c) = ir_request_id"
  "g_target (import_registry X c) = (\<lambda>r. (ir_context r, ir_account_id r))"
  "g_open (import_registry X c) = (\<lambda>r. ir_phase r \<in> {''pending'', ''accepted''})"
  by (simp_all add: import_registry_def)

text \<open>
  An account never has two imports in flight: starting from an empty journal, after any
  sequence of reservations, updates that keep the account and do not reopen a settled import,
  and removals, with any storage failures, two recorded imports that are pending or accepted
  for the same account in the same context are the same import.
\<close>

lemma import_exclusive:
  assumes "serde_lawful c" and "db_kv d = []"
    and "list_all (registry_op_ok (registry_progress (import_registry X c))) ops"
    and "registry_look (import_registry X c)
           (registry_run (reserve_account_import X c) (update_account_import X c) (forget_account_import X c) ops d) i = Some r"
    and "registry_look (import_registry X c)
           (registry_run (reserve_account_import X c) (update_account_import X c) (forget_account_import X c) ops d) j = Some s"
    and "ir_context r = ir_context s" and "ir_account_id r = ir_account_id s"
    and "ir_phase r \<in> {''pending'', ''accepted''}" and "ir_phase s \<in> {''pending'', ''accepted''}"
  shows "i = j"
proof -
  let ?G = "import_registry X c"
  have inv: "registry_invar ?G d" using assms(1,2) by (simp add: registry_invar_def kv_invar_def)
  have none: "exclusive (registry_look ?G) (g_target ?G) (g_open ?G) d"
    using assms(2) by (simp add: exclusive_def registry_look_def kv_look_def)
  have "exclusive (registry_look ?G) (g_target ?G) (g_open ?G)
      (registry_run (registry_reserve ?G) (registry_update ?G) (registry_forget ?G) ops d)"
    by (rule reg.run_exclusive [OF inv none assms(3)])
  with assms(4-9) show ?thesis unfolding exclusive_def import_ops by fastforce
qed

definition sample_import_codec :: "import_record codec" where
  "sample_import_codec = table_codec [(sample_import, ''1'')]"

lemma sample_import_codec_facts [simp]:
  "serde_lawful sample_import_codec" "to_json sample_import_codec sample_import = Some ''1''"
  "from_json sample_import_codec ''1'' = Some sample_import"
  by (simp_all add: sample_import_codec_def table_codec_lawful) (simp_all add: table_codec_def)

lemma reserve_sample_import:
  assumes "has_table d ''kv''" and "db_kv d = []"
  shows "reserve_account_import sample_crates sample_import_codec no_faults sample_import d =
     (Ok True, d\<lparr>db_kv := [(''account_import_request:'' @ sample_id 3, ''1'')]\<rparr>)"
  using assms
  by (simp add: import_ops registry_reserve_def registry_key_def kv_exists_def kv_count_def kv_with_prefix_def
      kv_insert_ignore_def registry_limit_def registry_max_def)
    (simp add: import_registry_def sample_import_def)

text \<open>A submission that ends without a definite answer leaves its record open.\<close>

lemma submit_import_unknown:
  assumes "submit_import X c D H net F rec q d = (Err e, d', log)"
    and "ie_code e = ''account_import_outcome_unknown''" and "log \<noteq> []"
    and "ir_phase rec = ''pending''" and "serde_lawful c" and "kv_invar d"
  shows "log = [HttpPost (''/api/v1/tool-accounts/'' @ ir_account_id rec @ ''/config-import-requests'') q] \<and>
    registry_look (import_registry X c) d' (ir_request_id rec) = Some rec \<and>
    (\<forall>f r. ir_context r = ir_context rec \<longrightarrow> ir_account_id r = ir_account_id rec \<longrightarrow>
       fst (reserve_account_import X c f r d') \<noteq> Ok True)"
proof -
  let ?G = "import_registry X c"
  from assms(1,3) obtain p d1 d2 where i: "init_schema (sf_init F) d = (Ok (), d1)" and o: "open_state H = Ok p"
    and res: "reserve_account_import X c (sf_reserve F) rec d1 = (Ok True, d2)"
    by (auto simp: submit_import_def split: result.splits prod.splits bool.splits)
  have "registry_invar ?G d1" using assms(5,6) kv_invar_init [OF i] by (simp add: registry_invar_def)
  note r = reg.reserve_True [OF this res [unfolded import_ops]]
  have same: "d3 = d2" if "import_persist X c H f rec new d2 = (Err x, d3)" for f new x d3
  proof -
    obtain y d4 where u: "update_account_import X c f rec new d2 = (y, d4)" by fastforce
    from registry_update_cases [OF u [unfolded import_ops]] that u o show ?thesis
      by (auto simp: import_persist_def split: result.splits if_splits)
  qed
  have d': "d' = d2"
    using assms(1,2) i o res
    by (auto simp: submit_import_def submit_account_import_def Let_def split: result.splits prod.splits if_splits
        dest: same)
  have "log = [HttpPost (''/api/v1/tool-accounts/'' @ ir_account_id rec @ ''/config-import-requests'') q]"
    using assms(1) i o res
    by (auto simp: submit_import_def submit_account_import_def Let_def split: result.splits prod.splits if_splits)
  moreover have look: "registry_look ?G d' (ir_request_id rec) = Some rec" using r d' by simp
  moreover have "fst (reserve_account_import X c f s d') \<noteq> Ok True"
    if "ir_context s = ir_context rec" "ir_account_id s = ir_account_id rec" for f s
    using reg.open_blocks [of ?G d' "ir_request_id rec" rec s f] look r d' assms(4) that by (simp add: import_ops)
  ultimately show ?thesis by blast
qed

lemma import_apply_sent:
  assumes "import_apply X c D H net loaded user_home captured W F input d = (r, d', log)" and "log \<noteq> []"
  obtains cap plan files token where
    "ia_confirmed input" "captured (ia_expected_source_home input) (ia_selection input) = Ok cap"
    "make_plan X (ia_expected_context input) (ia_account_id input) cap = (plan, files)"
    "pl_digest plan = ia_expected_digest input" "op_authorize H W (ia_expected_context input) = Ok token"
    "submit_import X c D H (net token) F (import_new_record input (plan_intent X plan))
       (import_new_request (import_new_record input (plan_intent X plan)) plan files) d = (r, d', log)"
  using assms by (auto simp: import_apply_def Let_def split: if_splits result.splits prod.splits)

lemma unrefused_unknown:
  assumes "ae_status e \<notin> Some ` {400, 401, 403, 404, 409, 422}"
  shows "import_submission_error e = \<lparr>ie_code = ''account_import_outcome_unknown'', ie_http_status = ae_status e\<rparr>"
proof -
  from assms have "ae_status e \<noteq> Some 409" "ae_status e \<notin> {Some 400, Some 401, Some 403, Some 404, Some 422}" by auto
  then show ?thesis by (simp add: import_submission_error_def)
qed

lemma submit_import_lost:
  assumes "submit_import X c D H net F rec q d = (r, d', log)" and "log \<noteq> []"
    and "send X D (net (hd log)) = Err e"
    and "import_submission_error e = \<lparr>ie_code = ''account_import_outcome_unknown'', ie_http_status = s\<rparr>"
  shows "r = Err \<lparr>ie_code = ''account_import_outcome_unknown'', ie_http_status = s\<rparr>"
proof -
  let ?post = "HttpPost (''/api/v1/tool-accounts/'' @ ir_account_id rec @ ''/config-import-requests'') q"
  have call: "submit_account_import X D net (ir_account_id rec) q = (send X D (net ?post), [?post])"
    by (simp add: submit_account_import_def Let_def)
  obtain r1 d1 where one: "init_schema (sf_init F) d = (r1, d1)" by (cases "init_schema (sf_init F) d")
  obtain r2 d2 where two: "reserve_account_import X c (sf_reserve F) rec d1 = (r2, d2)"
    by (cases "reserve_account_import X c (sf_reserve F) rec d1")
  have "is_ok (open_state H) \<and> is_ok r1 \<and> r2 = Ok True"
    using assms(1,2) one two
    by (cases "open_state H"; cases r1; cases r2) (simp_all add: submit_import_def split: bool.splits)
  then obtain h u where opened: "open_state H = Ok h" "r1 = Ok u" "r2 = Ok True" by (auto simp: is_ok_iff)
  have "log = [?post]"
    using assms(1) one two opened call
    by (simp add: submit_import_def Let_def split: result.splits prod.splits if_splits)
  with assms(3) have "send X D (net ?post) = Err e" by simp
  with assms(1,4) one two opened call show ?thesis by (simp add: submit_import_def)
qed


definition sample_file :: import_file where
  "sample_file = \<lparr>fl_path = ''~/.claude/a'', fl_content_base64 = ''YQ=='', fl_mode = 384\<rparr>"

definition sample_capture :: import_capture where
  "sample_capture =
     \<lparr>cp_source_home = ''/home/u'', cp_selection = \<lparr>sel_tool = ''claude'', sel_include_resume_history = False,
        sel_exclude_skills = False\<rparr>, cp_include = [''~/.claude/a''], cp_exclude = [],
      cp_manifest = [\<lparr>me_path = ''~/.claude/a'', me_size = 1, me_sha256 = sample_digest, me_mode = 384\<rparr>],
      cp_files = [sample_file], cp_total_bytes = 1, cp_fingerprint = sample_digest\<rparr>"

definition sample_import_apply :: import_apply_input where
  "sample_import_apply =
     \<lparr>ia_confirmed = True, ia_expected_context = sample_context, ia_account_id = sample_id 2,
      ia_selection = cp_selection sample_capture, ia_expected_source_home = ''/home/u'',
      ia_expected_digest = sample_digest, ia_request_id = sample_id 3\<rparr>"

definition applied_import ::
  "(public_receipt, import_error) result \<times> db \<times> import_request http_request list" where
  "applied_import =
     import_apply sample_crates sample_import_codec (receipt_decoders sample_import_receipt) sample_host (\<lambda>_. lost)
       (ow_config_final sample_op_world) (Some ''/home/u'') (\<lambda>_ _. Ok sample_capture) sample_op_world
       no_submit_faults sample_import_apply fresh_db"

lemma sample_import_apply_simps:
  "ia_confirmed sample_import_apply" "ia_expected_context sample_import_apply = sample_context"
  "ia_account_id sample_import_apply = sample_id 2" "ia_expected_source_home sample_import_apply = ''/home/u''"
  "ia_expected_digest sample_import_apply = sample_digest" "ia_request_id sample_import_apply = sample_id 3"
  by (simp_all add: sample_import_apply_def)

lemma sample_import_new_record: "import_new_record sample_import_apply sample_digest = sample_import"
  by (simp add: import_new_record_def sample_import_apply_def sample_import_def sample_context_def)

lemma sample_import_plan:
  "make_plan sample_crates sample_context (sample_id 2) sample_capture = (plan, files) \<Longrightarrow>
     pl_digest plan = sample_digest \<and> files = [sample_file] \<and> plan_intent sample_crates plan = sample_digest"
  by (auto simp: make_plan_def Let_def plan_intent_def import_intent_def json_digest_def sample_crates_def
      sample_digest_def sample_capture_def)

lemma sample_import_checks:
  "import_check sample_crates sample_host (ow_config_final sample_op_world) sample_context (sample_id 2) = Ok ()"
  by (simp add: import_check_def sample_op_world_def sample_context_def sample_host_def Let_def)


lemma forget_stored_cases:
  assumes "forget_stored X c H g rec d = (r, d')" and "serde_lawful c" and "kv_invar d"
  shows "(\<exists>e. r = Err e) \<and> d' = d \<or>
    r = Ok () \<and> kv_look d' = (kv_look d)(''account_import_request:'' @ ir_request_id rec := None)"
proof (cases "open_state H")
  case (Ok p)
  obtain x d1 where o: "forget_account_import X c g rec d = (x, d1)" by fastforce
  have "g_prefix (import_registry X c) = ''account_import_request:''" by (simp add: import_registry_def)
  with registry_forget_cases [OF o [unfolded import_ops] assms(3)] assms(1,2) o Ok show ?thesis
    by (auto simp: forget_stored_def registry_key_def split: result.splits if_splits)
qed (use assms(1) in \<open>auto simp: forget_stored_def\<close>)

lemma import_status_Ok:
  assumes "import_status_call X c D DT H f net loaded W input d = Ok result"
    and "import_pending X c H f d = Ok items" and "find (\<lambda>r. ir_request_id r = is_request_id input) items = Some rec"
  shows "\<exists>token response task. op_authorize H W (is_expected_context input) = Ok token \<and>
     send X D (net token (HttpGet (''/api/v1/tool-accounts/'' @ ir_account_id rec @
       ''/config-import-requests/'' @ ir_request_id rec))) = Ok response \<and>
     validate_import_receipt X response rec \<and>
     send X DT (net token (HttpGet (''/api/v1/tool-accounts/'' @ ir_account_id rec @
       ''/config-imports/'' @ ip_task_id response))) = Ok task \<and>
     it_task_id task = ip_task_id response \<and> pr_phase result = it_status task"
  using assms
  by (auto simp: import_status_call_def import_public_def import_task_ok_def split: result.splits if_splits)

text \<open>
  Forgetting an import is earned: it is removed from the journal only if it is recorded
  under the given key for exactly the expected context, account, digest and task, and either it
  was rejected before any task existed, or the server has just answered the exact-key query
  with a receipt for this very record and its task is in a final state. Every other call leaves
  the journal as it was.
\<close>

lemma import_forget_earned:
  assumes "import_forget X c D DT H f g net loaded W input d = (r, d')" and "serde_lawful c" and "kv_invar d"
  shows "d' = d \<and> (\<exists>e. r = Err e) \<or>
    (\<exists>rec. ir_request_id rec = is_request_id input \<and> import_matches input rec \<and>
       kv_look d' = (kv_look d)(''account_import_request:'' @ is_request_id input := None) \<and>
       (ir_phase rec = ''rejected'' \<and> ir_task_id rec = None \<and> is_expected_task_id input = None \<or>
        (\<exists>token response task. op_authorize H W (is_expected_context input) = Ok token \<and>
           send X D (net token (HttpGet (''/api/v1/tool-accounts/'' @ is_account_id input @
             ''/config-import-requests/'' @ is_request_id input))) = Ok response \<and>
           validate_import_receipt X response rec \<and>
           send X DT (net token (HttpGet (''/api/v1/tool-accounts/'' @ is_account_id input @
             ''/config-imports/'' @ ip_task_id response))) = Ok task \<and>
           it_task_id task = ip_task_id response \<and>
           it_status task \<in> {''succeeded'', ''failed'', ''cancelled'', ''expired''})))"
proof (cases "d' = d \<and> (\<exists>e. r = Err e)")
  case False
  with assms(1) obtain items rec where items: "import_pending X c H f d = Ok items"
    and found: "find (\<lambda>r. ir_request_id r = is_request_id input) items = Some rec"
    and m: "import_matches input rec"
    by (auto simp: import_forget_def split: result.splits option.splits if_splits)
  have id: "ir_request_id rec = is_request_id input" using found by (auto simp: find_Some_iff)
  have account: "ir_account_id rec = is_account_id input" using m by (simp add: import_matches_def)
  obtain x d1 where o: "forget_stored X c H g rec d = (x, d1)" by fastforce
  note stored = forget_stored_cases [OF o assms(2,3)]
  show ?thesis
  proof (cases "ir_phase rec = ''rejected'' \<and> ir_task_id rec = None")
    case True
    with False assms(1) items found m o stored have
      "kv_look d' = (kv_look d)(''account_import_request:'' @ ir_request_id rec := None)" "is_expected_task_id input = None"
      by (auto simp: import_forget_def split: result.splits if_splits)
    with True id m show ?thesis by auto
  next
    case other: False
    with False assms(1) items found m obtain result where
      st: "import_status_call X c D DT H f net loaded W input d = Ok result"
      and settled: "pr_phase result \<in> {''succeeded'', ''failed'', ''cancelled'', ''expired''}"
      by (auto simp: import_forget_def split: result.splits if_splits)
    have "kv_look d' = (kv_look d)(''account_import_request:'' @ ir_request_id rec := None)"
      using False assms(1) items found m o stored other st settled
      by (auto simp: import_forget_def split: result.splits if_splits)
    with import_status_Ok [OF st items found] settled id m account show ?thesis by metis
  qed
qed simp

definition rejected_import :: import_record where
  "rejected_import = sample_import\<lparr>ir_phase := ''rejected''\<rparr>"

definition rejected_codec :: "import_record codec" where
  "rejected_codec = table_codec [(rejected_import, ''2'')]"

definition rejected_import_db :: db where
  "rejected_import_db = created_db\<lparr>db_kv := [(''account_import_request:'' @ sample_id 3, ''2'')]\<rparr>"

definition sample_import_status :: import_status where
  "sample_import_status = \<lparr>is_expected_context = sample_context, is_account_id = sample_id 2,
     is_request_id = sample_id 3, is_expected_digest = sample_digest, is_expected_task_id = None\<rparr>"

lemma rejected_import_simps:
  "ir_request_id rejected_import = sample_id 3" "ir_context rejected_import = sample_context"
  "ir_account_id rejected_import = sample_id 2" "ir_digest rejected_import = sample_digest"
  "ir_intent_fingerprint rejected_import = sample_digest" "ir_task_id rejected_import = None"
  "ir_phase rejected_import = ''rejected''"
  by (simp_all add: rejected_import_def sample_import_def sample_context_def)

lemma rejected_import_valid:
  "validate_import_record sample_crates (''account_import_request:'' @ sample_id 3) rejected_import ''/h'' = Ok ()"
proof -
  have "import_server_ok (ac_server_url sample_context)" "import_device_ok (ac_active_device_id sample_context)"
    "ac_home sample_context = ''/h''"
    by (simp_all add: import_server_ok_def import_device_ok_def sample_context_def rust_eval)
  then show ?thesis
    by (simp add: validate_import_record_def rejected_import_simps sample_digest_import import_phase_ok_def)
qed

lemma rejected_import_pending:
  "import_pending sample_crates rejected_codec sample_host no_faults rejected_import_db = Ok [rejected_import]"
proof -
  let ?G = "import_registry sample_crates rejected_codec"
  have "g_prefix ?G = ''account_import_request:''" "g_validate ?G = validate_import_record sample_crates"
    by (simp_all add: import_registry_def)
  moreover from this have "registry_rows ?G rejected_import_db = [(''account_import_request:'' @ sample_id 3, ''2'')]"
    by (simp add: registry_rows_def rejected_import_db_def kv_with_prefix_def registry_max_def registry_limit_def rust_eval)
  moreover have "h_home sample_host = ''/h''" "has_table rejected_import_db ''kv''" "ac_home sample_context = ''/h''"
    by (simp_all add: sample_host_def rejected_import_db_def sample_context_def)
  ultimately show ?thesis
    using lstat_sample rejected_import_valid
    by (auto simp: import_pending_def import_ops registry_records_def open_readonly_sample is_ok_iff registry_max_def
        registry_limit_def rejected_codec_def table_codec_def rejected_import_simps sample_digest_import)
qed

end
