(* ===== verification/Recovery_Registry.thy ===== *)
theory Recovery_Registry
  imports Registry Session_Types
begin

text \<open>
  The reviewed administrator recovery of an interrupted backend migration, data part
  (\<open>runtime_recovery/types.rs\<close>, \<open>runtime_recovery/receipt.rs\<close>, \<open>api/runtime_recovery.rs\<close>,
  \<open>local_state/runtime_recovery.rs\<close>): bindings, receipts, their validation, and the registry
  of original caller keys. URL parsing (the \<open>url\<close> crate) is an argument.
\<close>

section \<open>Data\<close>

datatype recovery_action = LegacyVerifySource | LegacyRepairSource

datatype reviewed_action = VerifyTarget | VerifySource | RepairSource

datatype recovery_status =
  RecPending | RecLeased | RecRunning | RecSucceeded | RecFailed | RecCancelled | RecExpired

fun legacy :: "reviewed_action \<Rightarrow> recovery_action option" where
  "legacy VerifyTarget = None"
| "legacy VerifySource = Some LegacyVerifySource"
| "legacy RepairSource = Some LegacyRepairSource"

fun binding_version :: "recovery_action \<Rightarrow> nat" where
  "binding_version LegacyVerifySource = 2"
| "binding_version LegacyRepairSource = 3"

record recovery_binding =
  rb_action :: "recovery_action option"
  rb_version :: nat
  rb_task_id :: string
  rb_task_record_id :: string
  rb_original_task_id :: string
  rb_original_task_record_id :: string
  rb_node_id :: string
  rb_user_id :: string
  rb_tool_account_id :: string
  rb_tool_type :: string
  rb_source_runtime_backend :: string
  rb_target_runtime_backend :: string

record user_context =
  uc_home :: string
  uc_server_url :: string
  uc_actor_user_id :: string

record recovery_original =
  ro_task_id :: string
  ro_task_record_id :: string
  ro_user_id :: string
  ro_tool_account_id :: string
  ro_node_id :: string
  ro_tool_type :: string
  ro_source_runtime_backend :: string
  ro_target_runtime_backend :: string

record recovery_record =
  rcr_context :: user_context
  rcr_account_id :: string
  rcr_request_id :: string
  rcr_digest :: string
  rcr_original :: recovery_original
  rcr_action :: reviewed_action
  rcr_binding :: "recovery_binding option"
  rcr_phase :: string
  rcr_rejection_code :: "string option"

text \<open>What the client reads of a parsed URL.\<close>

record url_parts =
  up_text :: string
  up_host :: "string option"
  up_username :: string
  up_password :: "string option"
  up_query :: "string option"
  up_fragment :: "string option"

type_synonym url_parser = "string \<Rightarrow> url_parts option"

section \<open>Validation\<close>

definition recovery_backends :: "string list" where
  "recovery_backends = [''native'', ''docker_sandbox'']"

definition original_task_matches :: "crates \<Rightarrow> string \<Rightarrow> string \<Rightarrow> bool" where
  "original_task_matches X account original =
     is_some_and (canonical_uuid X)
       (strip_prefix (''migrate_tool_account_runtime:'' @ account @ '':'') original)"

definition original_valid :: "crates \<Rightarrow> recovery_original \<Rightarrow> string \<Rightarrow> bool" where
  "original_valid X r account \<longleftrightarrow>
     canonical_uuid X account \<and>
     ro_tool_account_id r = account \<and>
     original_task_matches X account (ro_task_id r) \<and>
     list_all (canonical_uuid X) [ro_task_record_id r, ro_user_id r, ro_node_id r] \<and>
     ro_tool_type r = ''claude'' \<and>
     ro_source_runtime_backend r \<noteq> ro_target_runtime_backend r \<and>
     list_all (\<lambda>v. v \<in> set recovery_backends) [ro_source_runtime_backend r, ro_target_runtime_backend r]"

definition original_matches :: "recovery_original \<Rightarrow> recovery_binding \<Rightarrow> bool" where
  "original_matches r b \<longleftrightarrow>
     ro_task_id r = rb_original_task_id b \<and>
     ro_task_record_id r = rb_original_task_record_id b \<and>
     ro_user_id r = rb_user_id b \<and>
     ro_node_id r = rb_node_id b \<and>
     ro_tool_account_id r = rb_tool_account_id b \<and>
     ro_tool_type r = rb_tool_type b \<and>
     ro_source_runtime_backend r = rb_source_runtime_backend b \<and>
     ro_target_runtime_backend r = rb_target_runtime_backend b"

definition validate_recovery ::
  "crates \<Rightarrow> recovery_binding \<Rightarrow> string \<Rightarrow> string \<Rightarrow> string option \<Rightarrow> recovery_action option \<Rightarrow> bool" where
  "validate_recovery X b account key original action \<longleftrightarrow>
     canonical_uuid X account \<and>
     canonical_uuid X key \<and>
     (rb_version b, rb_action b) \<in>
       {(1, None), (2, Some LegacyVerifySource), (3, Some LegacyRepairSource)} \<and>
     \<not> (original \<noteq> None \<and> rb_action b \<noteq> action) \<and>
     rb_tool_type b = ''claude'' \<and>
     rb_tool_account_id b = account \<and>
     rb_task_id b = ''recover_tool_account_runtime:'' @ account @ '':'' @ key \<and>
     original_task_matches X account (rb_original_task_id b) \<and>
     is_none_or (\<lambda>i. i = rb_original_task_id b) original \<and>
     rb_task_record_id b \<noteq> rb_original_task_record_id b \<and>
     list_all (canonical_uuid X)
       [rb_task_record_id b, rb_original_task_record_id b, rb_node_id b, rb_user_id b] \<and>
     rb_source_runtime_backend b \<noteq> rb_target_runtime_backend b \<and>
     list_all (\<lambda>v. v \<in> set recovery_backends) [rb_source_runtime_backend b, rb_target_runtime_backend b]"

definition valid_binding ::
  "crates \<Rightarrow> recovery_binding \<Rightarrow> string \<Rightarrow> string \<Rightarrow> (recovery_original \<times> reviewed_action) option \<Rightarrow> bool" where
  "valid_binding X b account key original \<longleftrightarrow>
     validate_recovery X b account key (map_option (\<lambda>(r, _). ro_task_id r) original)
       (case original of None \<Rightarrow> None | Some (_, a) \<Rightarrow> legacy a) \<and>
     is_none_or (\<lambda>(r, _). original_matches r b) original"

text \<open>\<open>trim_end_matches('/')\<close>.\<close>

definition trim_end_slash :: "string \<Rightarrow> string" where
  "trim_end_slash s = rev (dropWhile (\<lambda>c. c = CHR ''/'') (rev s))"

definition canonical_server :: "url_parser \<Rightarrow> string \<Rightarrow> string option" where
  "canonical_server U server =
     (if length server > 8192 \<or> has_control server \<or> \<not> http_url server then None
      else case U server of
        None \<Rightarrow> None
      | Some url \<Rightarrow>
          if up_host url = None \<or> up_username url \<noteq> [] \<or> up_password url \<noteq> None \<or>
             up_query url \<noteq> None \<or> up_fragment url \<noteq> None
          then None else Some (trim_end_slash (up_text url)))"

definition recovery_valid_context :: "crates \<Rightarrow> url_parser \<Rightarrow> user_context \<Rightarrow> bool" where
  "recovery_valid_context X U c \<longleftrightarrow>
     path_is_absolute (uc_home c) \<and> canonical_uuid X (uc_actor_user_id c) \<and>
     canonical_server U (uc_server_url c) = Some (uc_server_url c)"

fun action_name :: "reviewed_action \<Rightarrow> string" where
  "action_name VerifyTarget = ''verify_target''"
| "action_name VerifySource = ''verify_source''"
| "action_name RepairSource = ''repair_source''"

text \<open>The digest of a review, over the serialized tuple in field order.\<close>

definition recovery_digest ::
  "crates \<Rightarrow> user_context \<Rightarrow> string \<Rightarrow> recovery_original \<Rightarrow> reviewed_action \<Rightarrow> string" where
  "recovery_digest X c account r action =
     ''sha256:'' @ sha256_hex X (json_text X
       (JArray [JNumber ''1'',
          JObject [(''home'', JString (uc_home c)), (''server_url'', JString (uc_server_url c)),
                   (''actor_user_id'', JString (uc_actor_user_id c))],
          JString account,
          JObject [(''task_id'', JString (ro_task_id r)),
                   (''task_record_id'', JString (ro_task_record_id r)),
                   (''user_id'', JString (ro_user_id r)),
                   (''tool_account_id'', JString (ro_tool_account_id r)),
                   (''node_id'', JString (ro_node_id r)),
                   (''tool_type'', JString (ro_tool_type r)),
                   (''source_runtime_backend'', JString (ro_source_runtime_backend r)),
                   (''target_runtime_backend'', JString (ro_target_runtime_backend r))],
          JString (action_name action)]))"

definition recovery_phase_ok :: "recovery_record \<Rightarrow> bool" where
  "recovery_phase_ok r =
     (if rcr_phase r = ''unknown'' then rcr_binding r = None \<and> rcr_rejection_code r = None
      else if rcr_phase r = ''accepted'' then rcr_binding r \<noteq> None \<and> rcr_rejection_code r = None
      else if rcr_phase r = ''rejected''
      then rcr_binding r = None \<and>
           rcr_rejection_code r \<in> {Some ''runtime_recovery_rejected'', Some ''runtime_recovery_review_changed''}
      else False)"

definition validate_recovery_record ::
  "crates \<Rightarrow> url_parser \<Rightarrow> string \<Rightarrow> recovery_record \<Rightarrow> string \<Rightarrow> (unit, failure) result" where
  "validate_recovery_record X U key r home =
     ensure
      (key = ''runtime_recovery_request:'' @ rcr_request_id r \<and>
       uc_home (rcr_context r) = home \<and>
       recovery_valid_context X U (rcr_context r) \<and>
       canonical_uuid X (rcr_request_id r) \<and>
       original_valid X (rcr_original r) (rcr_account_id r) \<and>
       recovery_phase_ok r \<and>
       recovery_digest X (rcr_context r) (rcr_account_id r) (rcr_original r) (rcr_action r) = rcr_digest r \<and>
       is_none_or (\<lambda>b. valid_binding X b (rcr_account_id r) (rcr_request_id r)
           (Some (rcr_original r, rcr_action r))) (rcr_binding r))
      (Bail ''invalid runtime recovery registry record'')"

section \<open>The registry\<close>

definition recovery_registry ::
  "crates \<Rightarrow> url_parser \<Rightarrow> recovery_record codec \<Rightarrow> (recovery_record, user_context \<times> string) registry" where
  "recovery_registry X U c =
     \<lparr>g_prefix = ''runtime_recovery_request:'', g_limit_error = ''runtime recovery registry limit exceeded'',
      g_scan_error = ''invalid recovery registry record'',
      g_size_error = ''runtime recovery registry record too large'', g_codec = c,
      g_request_id = rcr_request_id, g_home = (\<lambda>r. uc_home (rcr_context r)),
      g_target = (\<lambda>r. (rcr_context r, rcr_account_id r)),
      g_open = (\<lambda>r. rcr_phase r \<in> {''unknown'', ''accepted''}),
      g_validate = validate_recovery_record X U\<rparr>"

definition runtime_recovery_records ::
  "crates \<Rightarrow> url_parser \<Rightarrow> recovery_record codec \<Rightarrow> host \<Rightarrow> faults \<Rightarrow> db \<Rightarrow> (recovery_record list, failure) result"
where
  "runtime_recovery_records X U c = registry_records (recovery_registry X U c)"

definition reserve_runtime_recovery ::
  "crates \<Rightarrow> url_parser \<Rightarrow> recovery_record codec \<Rightarrow> faults \<Rightarrow> recovery_record \<Rightarrow> db \<Rightarrow> (bool, failure) result \<times> db"
where
  "reserve_runtime_recovery X U c = registry_reserve (recovery_registry X U c)"

definition update_runtime_recovery ::
  "crates \<Rightarrow> url_parser \<Rightarrow> recovery_record codec \<Rightarrow> faults \<Rightarrow> recovery_record \<Rightarrow> recovery_record \<Rightarrow> db \<Rightarrow>
     (bool, failure) result \<times> db" where
  "update_runtime_recovery X U c = registry_update (recovery_registry X U c)"

definition forget_runtime_recovery ::
  "crates \<Rightarrow> url_parser \<Rightarrow> recovery_record codec \<Rightarrow> faults \<Rightarrow> recovery_record \<Rightarrow> db \<Rightarrow> (bool, failure) result \<times> db"
where
  "forget_runtime_recovery X U c = registry_forget (recovery_registry X U c)"

lemmas recovery_ops = runtime_recovery_records_def reserve_runtime_recovery_def update_runtime_recovery_def
  forget_runtime_recovery_def

lemma recovery_registry_simps [simp]:
  "g_codec (recovery_registry X U c) = c" "g_request_id (recovery_registry X U c) = rcr_request_id"
  "g_target (recovery_registry X U c) = (\<lambda>r. (rcr_context r, rcr_account_id r))"
  "g_open (recovery_registry X U c) = (\<lambda>r. rcr_phase r \<in> {''unknown'', ''accepted''})"
  "g_prefix (recovery_registry X U c) = ''runtime_recovery_request:''"
  by (simp_all add: recovery_registry_def)

text \<open>A valid binding determines the legacy action of the review it belongs to.\<close>

lemma valid_binding_action:
  "valid_binding X b account key (Some (r, a)) \<Longrightarrow>
     rb_action b = legacy a \<and> rb_original_task_id b = ro_task_id r \<and>
     rb_task_id b = ''recover_tool_account_runtime:'' @ account @ '':'' @ key \<and> rb_tool_account_id b = account"
  by (auto simp: valid_binding_def validate_recovery_def)

lemma legacy_inj: "legacy a = legacy b \<longleftrightarrow> a = b"
  by (cases a; cases b) auto

end
