(* ===== verification/Runtime_Recovery.thy ===== *)
theory Runtime_Recovery
  imports Recovery_Registry
begin

text \<open>
  The recovery operations (\<open>runtime_recovery.rs\<close>, \<open>runtime_recovery/authority.rs\<close>,
  \<open>runtime_recovery/receipt.rs\<close>, \<open>api/reviewed_recovery.rs\<close>): proof of authority, applying a
  reviewed recovery once, observing it, and forgetting it. What the configuration file, the
  credential store and the locks give at each point of a call is an argument.
\<close>

section \<open>Errors\<close>

record recovery_error =
  re_code :: string
  re_http_status :: "nat option"
  re_submitted :: bool

definition recovery_error_new :: "string \<Rightarrow> recovery_error" where
  "recovery_error_new code = \<lparr>re_code = code, re_http_status = None, re_submitted = False\<rparr>"

definition recovery_local_error :: recovery_error where
  "recovery_local_error = recovery_error_new ''runtime_recovery_registry_unavailable''"

definition recovery_unknown :: recovery_error where
  "recovery_unknown = \<lparr>re_code = ''runtime_recovery_outcome_unknown'', re_http_status = None, re_submitted = True\<rparr>"

definition recovery_submission_error :: "api_error \<Rightarrow> recovery_error" where
  "recovery_submission_error e =
     \<lparr>re_code =
        (if ae_status e = Some 409 \<and> ae_code e = Some ''RUNTIME_MIGRATION_RECOVERY_REVIEW_CHANGED''
         then ''runtime_recovery_review_changed''
         else if is_some_and (\<lambda>s. 400 \<le> s \<and> s < 500 \<and> s \<notin> {408, 409, 429}) (ae_status e)
         then ''runtime_recovery_rejected''
         else ''runtime_recovery_outcome_unknown''),
      re_http_status = ae_status e, re_submitted = True\<rparr>"

definition recovery_read_error :: "api_error \<Rightarrow> recovery_error" where
  "recovery_read_error e =
     \<lparr>re_code = (if ae_status e = Some 401 then ''authentication_required''
                 else if ae_status e = Some 403 then ''permission_denied''
                 else ''runtime_recovery_status_unknown''),
      re_http_status = ae_status e, re_submitted = False\<rparr>"

section \<open>Authority\<close>

record recovery_identity =
  rid_schema_version :: nat
  rid_actor_user_id :: string
  rid_admin :: bool

text \<open>
  What the calls of one authorization find: the configured server when the configuration is
  loaded (\<open>None\<close> when that fails), the stored token each time it is read, whether a client can
  be built, and the identity the server reports.
\<close>

record authority_world =
  aw_config :: "string option option"
  aw_token :: "string option"
  aw_client :: bool
  aw_identity :: "(recovery_identity, api_error) result"
  aw_config_after :: "string option option"
  aw_token_after :: "string option"

record recovery_access =
  ra_context :: user_context
  ra_admin :: bool
  ra_token :: string
  ra_raw_server :: string

text \<open>The loaded configuration, checked against the expected home and server.\<close>

definition authority_config ::
  "url_parser \<Rightarrow> host \<Rightarrow> string option option \<Rightarrow> string \<Rightarrow> string \<Rightarrow> (string, recovery_error) result" where
  "authority_config U H loaded home server =
     (if h_home H \<noteq> home then Err (recovery_error_new ''configuration_changed'')
      else case loaded of
        None \<Rightarrow> Err (recovery_error_new ''configuration_unavailable'')
      | Some None \<Rightarrow> Err (recovery_error_new ''authentication_required'')
      | Some (Some configured) \<Rightarrow>
          (case (canonical_server U configured, canonical_server U server) of
             (Some a, Some b) \<Rightarrow>
               if a \<noteq> b then Err (recovery_error_new ''configuration_changed'') else Ok configured
           | _ \<Rightarrow> Err (recovery_error_new ''configuration_unavailable'')))"

definition authority_read ::
  "crates \<Rightarrow> url_parser \<Rightarrow> host \<Rightarrow> authority_world \<Rightarrow> string \<Rightarrow> string \<Rightarrow> (recovery_access, recovery_error) result"
where
  "authority_read X U H W home server =
     (case authority_config U H (aw_config W) home server of
        Err e \<Rightarrow> Err e
      | Ok raw \<Rightarrow>
          (case aw_token W of
             None \<Rightarrow> Err (recovery_error_new ''credential_unavailable'')
           | Some token \<Rightarrow>
               if \<not> aw_client W then Err (recovery_error_new ''configuration_unavailable'')
               else case aw_identity W of
                 Err e \<Rightarrow> Err (recovery_read_error e)
               | Ok identity \<Rightarrow>
                   if rid_schema_version identity \<noteq> 1 \<or> \<not> canonical_uuid X (rid_actor_user_id identity)
                   then Err (recovery_error_new ''runtime_recovery_response_invalid'')
                   else case authority_config U H (aw_config_after W) home server of
                     Err e \<Rightarrow> Err e
                   | Ok after \<Rightarrow>
                       if after \<noteq> raw then Err (recovery_error_new ''configuration_changed'')
                       else case aw_token_after W of
                         None \<Rightarrow> Err (recovery_error_new ''credential_unavailable'')
                       | Some current \<Rightarrow>
                           if current \<noteq> token then Err (recovery_error_new ''runtime_recovery_context_changed'')
                           else case canonical_server U raw of
                             None \<Rightarrow> Err (recovery_error_new ''configuration_unavailable'')
                           | Some url \<Rightarrow>
                               Ok \<lparr>ra_context = \<lparr>uc_home = h_home H, uc_server_url = url,
                                     uc_actor_user_id = rid_actor_user_id identity\<rparr>,
                                   ra_admin = rid_admin identity, ra_token = token, ra_raw_server = raw\<rparr>))"

definition authority_recheck ::
  "url_parser \<Rightarrow> host \<Rightarrow> string option option \<Rightarrow> string option \<Rightarrow> recovery_access \<Rightarrow> (unit, recovery_error) result"
where
  "authority_recheck U H loaded token access =
     (case authority_config U H loaded (uc_home (ra_context access)) (uc_server_url (ra_context access)) of
        Err e \<Rightarrow> Err e
      | Ok current \<Rightarrow>
          if current \<noteq> ra_raw_server access then Err (recovery_error_new ''configuration_changed'')
          else case token of
            None \<Rightarrow> Err (recovery_error_new ''credential_unavailable'')
          | Some t \<Rightarrow>
              if t \<noteq> ra_token access then Err (recovery_error_new ''runtime_recovery_context_changed'')
              else Ok ())"

definition authorize ::
  "crates \<Rightarrow> url_parser \<Rightarrow> host \<Rightarrow> authority_world \<Rightarrow> user_context \<Rightarrow> (recovery_access, recovery_error) result" where
  "authorize X U H W expected =
     (if \<not> recovery_valid_context X U expected then Err (recovery_error_new ''invalid_params'')
      else case authority_read X U H W (uc_home expected) (uc_server_url expected) of
        Err e \<Rightarrow> Err e
      | Ok access \<Rightarrow>
          if ra_context access \<noteq> expected then Err (recovery_error_new ''runtime_recovery_context_changed'')
          else if \<not> ra_admin access then Err (recovery_error_new ''permission_denied'')
          else Ok access)"

text \<open>The three locks a writer takes, in their order: login, user credential, configuration.\<close>

record write_locks =
  wl_config_before :: "string option option"
  wl_login :: bool
  wl_credential :: bool
  wl_config :: bool

definition authority_write ::
  "crates \<Rightarrow> url_parser \<Rightarrow> host \<Rightarrow> write_locks \<Rightarrow> authority_world \<Rightarrow> user_context \<Rightarrow>
     (recovery_access, recovery_error) result" where
  "authority_write X U H L W expected =
     (case authority_config U H (wl_config_before L) (uc_home expected) (uc_server_url expected) of
        Err e \<Rightarrow> Err e
      | Ok _ \<Rightarrow>
          if \<not> wl_login L then Err (recovery_error_new ''credential_unavailable'')
          else if \<not> wl_credential L then Err (recovery_error_new ''credential_unavailable'')
          else if \<not> wl_config L then Err (recovery_error_new ''configuration_unavailable'')
          else authorize X U H W expected)"

section \<open>Calls\<close>

record recovery_request =
  rq_schema_version :: nat
  rq_request_id :: string
  rq_action :: reviewed_action
  rq_expected_original :: recovery_original

record reviewed_receipt =
  rv_schema_version :: nat
  rv_request_id :: string
  rv_action :: reviewed_action
  rv_binding :: recovery_binding
  rv_status :: recovery_status

definition recovery_apply_call ::
  "crates \<Rightarrow> reviewed_receipt decoders \<Rightarrow> recovery_request network \<Rightarrow> string \<Rightarrow> recovery_request \<Rightarrow>
     (reviewed_receipt, api_error) result \<times> recovery_request http_request list" where
  "recovery_apply_call X D net account q =
     (let post = HttpPost (''/api/v1/tool-accounts/'' @ account @ ''/runtime-migration/recovery-requests'') q in
      (send X D (net post), [post]))"

definition recovery_request_call ::
  "crates \<Rightarrow> reviewed_receipt decoders \<Rightarrow> recovery_request network \<Rightarrow> string \<Rightarrow> string \<Rightarrow>
     (reviewed_receipt, api_error) result" where
  "recovery_request_call X D net account key =
     send X D (net (HttpGet (''/api/v1/tool-accounts/'' @ account @ ''/runtime-migration/recovery-requests/'' @ key)))"

section \<open>Receipts\<close>

record recovery_status_input =
  si_expected_context :: user_context
  si_account_id :: string
  si_request_id :: string
  si_expected_digest :: "string option"
  si_expected_binding :: "recovery_binding option"

record recovery_receipt =
  rp_context :: user_context
  rp_account_id :: string
  rp_request_id :: string
  rp_digest :: "string option"
  rp_binding :: recovery_binding
  rp_status :: recovery_status
  rp_target_completion_confirmed :: bool
  rp_source_restoration_confirmed :: bool

definition make_receipt ::
  "crates \<Rightarrow> reviewed_receipt \<Rightarrow> recovery_status_input \<Rightarrow> recovery_record option \<Rightarrow>
     (recovery_receipt, recovery_error) result" where
  "make_receipt X data input rec =
     (if rv_schema_version data \<noteq> 1 \<or>
         rv_request_id data \<noteq> si_request_id input \<or>
         legacy (rv_action data) \<noteq> rb_action (rv_binding data) \<or>
         \<not> valid_binding X (rv_binding data) (si_account_id input) (si_request_id input)
              (map_option (\<lambda>r. (rcr_original r, rcr_action r)) rec) \<or>
         is_some_and (\<lambda>b. b \<noteq> rv_binding data) (si_expected_binding input)
      then Err (recovery_error_new ''runtime_recovery_response_invalid'')
      else
        let succeeded = (rv_status data = RecSucceeded) in
        Ok \<lparr>rp_context = si_expected_context input, rp_account_id = si_account_id input,
            rp_request_id = si_request_id input, rp_digest = map_option rcr_digest rec,
            rp_binding = rv_binding data, rp_status = rv_status data,
            rp_target_completion_confirmed = (succeeded \<and> rv_action data = VerifyTarget),
            rp_source_restoration_confirmed = (succeeded \<and> rv_action data \<noteq> VerifyTarget)\<rparr>)"

text \<open>\<open>account_import::valid_digest\<close>.\<close>

definition strict_digest :: "string \<Rightarrow> bool" where
  "strict_digest v =
     is_some_and (\<lambda>h. length h = 64 \<and> list_all (\<lambda>b. is_ascii_digit b \<or> (97 \<le> byte b \<and> byte b \<le> 102)) h)
       (strip_prefix ''sha256:'' v)"

definition validate_status_input ::
  "crates \<Rightarrow> url_parser \<Rightarrow> recovery_status_input \<Rightarrow> (unit, recovery_error) result" where
  "validate_status_input X U input =
     ensure
      (recovery_valid_context X U (si_expected_context input) \<and>
       canonical_uuid X (si_account_id input) \<and>
       canonical_uuid X (si_request_id input) \<and>
       is_none_or strict_digest (si_expected_digest input) \<and>
       is_none_or (\<lambda>b. valid_binding X b (si_account_id input) (si_request_id input) None)
         (si_expected_binding input))
      (recovery_error_new ''invalid_params'')"

definition match_recovery_record ::
  "crates \<Rightarrow> url_parser \<Rightarrow> recovery_status_input \<Rightarrow> recovery_record option \<Rightarrow> (unit, recovery_error) result" where
  "match_recovery_record X U input rec =
     (case validate_status_input X U input of
        Err e \<Rightarrow> Err e
      | Ok _ \<Rightarrow>
          ensure
           (case rec of
              None \<Rightarrow> si_expected_digest input = None
            | Some r \<Rightarrow>
                rcr_context r = si_expected_context input \<and>
                rcr_account_id r = si_account_id input \<and>
                si_expected_digest input = Some (rcr_digest r) \<and>
                is_none_or (\<lambda>b. si_expected_binding input = Some b) (rcr_binding r) \<and>
                is_none_or (\<lambda>b. valid_binding X b (rcr_account_id r) (rcr_request_id r)
                    (Some (rcr_original r, rcr_action r))) (si_expected_binding input))
           (recovery_error_new ''runtime_recovery_receipt_changed''))"

definition recovery_terminal :: "recovery_status \<Rightarrow> bool" where
  "recovery_terminal s \<longleftrightarrow> s \<in> {RecSucceeded, RecFailed, RecCancelled, RecExpired}"

section \<open>Operations\<close>

definition recovery_find ::
  "crates \<Rightarrow> url_parser \<Rightarrow> recovery_record codec \<Rightarrow> host \<Rightarrow> faults \<Rightarrow> string \<Rightarrow> db \<Rightarrow>
     (recovery_record option, recovery_error) result" where
  "recovery_find X U c H f key d =
     (case runtime_recovery_records X U c H f d of
        Err _ \<Rightarrow> Err recovery_local_error
      | Ok items \<Rightarrow> Ok (find (\<lambda>r. rcr_request_id r = key) items))"

definition recovery_update ::
  "crates \<Rightarrow> url_parser \<Rightarrow> recovery_record codec \<Rightarrow> host \<Rightarrow> faults \<Rightarrow> recovery_record \<Rightarrow> recovery_record \<Rightarrow> db \<Rightarrow>
     (unit, recovery_error) result \<times> db" where
  "recovery_update X U c H f original new d =
     (case open_state H of
        Err _ \<Rightarrow> (Err recovery_unknown, d)
      | Ok _ \<Rightarrow>
          (case update_runtime_recovery X U c f original new d of
             (Ok True, d') \<Rightarrow> (Ok (), d')
           | (_, d') \<Rightarrow> (Err recovery_unknown, d')))"

record recovery_apply_input =
  ai_confirmed :: bool
  ai_expected_context :: user_context
  ai_account_id :: string
  ai_original :: recovery_original
  ai_action :: reviewed_action
  ai_expected_digest :: string
  ai_request_id :: string

definition recovery_new_record :: "recovery_apply_input \<Rightarrow> recovery_record" where
  "recovery_new_record input =
     \<lparr>rcr_context = ai_expected_context input, rcr_account_id = ai_account_id input,
      rcr_request_id = ai_request_id input, rcr_digest = ai_expected_digest input,
      rcr_original = ai_original input, rcr_action = ai_action input, rcr_binding = None,
      rcr_phase = ''unknown'', rcr_rejection_code = None\<rparr>"

text \<open>The POST and the record of its outcome, once the intent is reserved.\<close>

definition recovery_post ::
  "crates \<Rightarrow> url_parser \<Rightarrow> recovery_record codec \<Rightarrow> reviewed_receipt decoders \<Rightarrow> host \<Rightarrow>
     recovery_request network \<Rightarrow> faults \<Rightarrow> recovery_apply_input \<Rightarrow> db \<Rightarrow>
     (recovery_receipt, recovery_error) result \<times> db \<times> recovery_request http_request list" where
  "recovery_post X U c D H net f input d =
     (let original = recovery_new_record input;
          status_input = \<lparr>si_expected_context = ai_expected_context input, si_account_id = ai_account_id input,
            si_request_id = ai_request_id input, si_expected_digest = Some (ai_expected_digest input),
            si_expected_binding = None\<rparr>
      in case recovery_apply_call X D net (ai_account_id input)
          \<lparr>rq_schema_version = 1, rq_request_id = ai_request_id input, rq_action = ai_action input,
           rq_expected_original = ai_original input\<rparr> of
        (Ok data, log) \<Rightarrow>
          (case make_receipt X data status_input (Some original) of
             Err _ \<Rightarrow> (Err recovery_unknown, d, log)
           | Ok receipt \<Rightarrow>
               (case recovery_update X U c H f original
                   (original\<lparr>rcr_binding := Some (rp_binding receipt), rcr_phase := ''accepted''\<rparr>) d of
                  (Err e, d') \<Rightarrow> (Err e, d', log)
                | (Ok _, d') \<Rightarrow> (Ok receipt, d', log)))
      | (Err e, log) \<Rightarrow>
          let failed = recovery_submission_error e in
          if re_code failed \<noteq> ''runtime_recovery_outcome_unknown''
          then (case recovery_update X U c H f original
                  (original\<lparr>rcr_phase := ''rejected'', rcr_rejection_code := Some (re_code failed)\<rparr>) d of
                  (Err e, d') \<Rightarrow> (Err e, d', log)
                | (Ok _, d') \<Rightarrow> (Err failed, d', log))
          else (Err failed, d, log))"

definition recovery_apply ::
  "crates \<Rightarrow> url_parser \<Rightarrow> recovery_record codec \<Rightarrow> reviewed_receipt decoders \<Rightarrow> host \<Rightarrow>
     recovery_request network \<Rightarrow> write_locks \<Rightarrow> authority_world \<Rightarrow> submit_faults \<Rightarrow> recovery_apply_input \<Rightarrow> db \<Rightarrow>
     (recovery_receipt, recovery_error) result \<times> db \<times> recovery_request http_request list" where
  "recovery_apply X U c D H net L W F input d =
     (if \<not> ai_confirmed input then (Err (recovery_error_new ''confirmation_required''), d, [])
      else if \<not> recovery_valid_context X U (ai_expected_context input) \<or>
              \<not> original_valid X (ai_original input) (ai_account_id input) \<or>
              \<not> canonical_uuid X (ai_request_id input)
      then (Err (recovery_error_new ''invalid_params''), d, [])
      else if recovery_digest X (ai_expected_context input) (ai_account_id input) (ai_original input)
                (ai_action input) \<noteq> ai_expected_digest input
      then (Err (recovery_error_new ''runtime_recovery_review_changed''), d, [])
      else case authority_write X U H L W (ai_expected_context input) of
        Err e \<Rightarrow> (Err e, d, [])
      | Ok _ \<Rightarrow>
          (case open_state H of
             Err _ \<Rightarrow> (Err recovery_local_error, d, [])
           | Ok _ \<Rightarrow>
               (case init_schema (sf_init F) d of
                  (Err _, d1) \<Rightarrow> (Err recovery_local_error, d1, [])
                | (Ok _, d1) \<Rightarrow>
                    (case reserve_runtime_recovery X U c (sf_reserve F) (recovery_new_record input) d1 of
                       (Err _, d2) \<Rightarrow> (Err recovery_local_error, d2, [])
                     | (Ok False, d2) \<Rightarrow> (Err (recovery_error_new ''runtime_recovery_pending''), d2, [])
                     | (Ok True, d2) \<Rightarrow> recovery_post X U c D H net (sf_update F) input d2))))"

text \<open>An exact-key observation; the last two arguments are what the recheck finds.\<close>

definition recovery_status_call ::
  "crates \<Rightarrow> url_parser \<Rightarrow> recovery_record codec \<Rightarrow> reviewed_receipt decoders \<Rightarrow> host \<Rightarrow> faults \<Rightarrow>
     recovery_request network \<Rightarrow> authority_world \<Rightarrow> string option option \<Rightarrow> string option \<Rightarrow>
     recovery_status_input \<Rightarrow> db \<Rightarrow> (recovery_receipt, recovery_error) result" where
  "recovery_status_call X U c D H f net W loaded token input d =
     (case validate_status_input X U input of
        Err e \<Rightarrow> Err e
      | Ok _ \<Rightarrow>
          (case recovery_find X U c H f (si_request_id input) d of
             Err e \<Rightarrow> Err e
           | Ok stored \<Rightarrow>
               (case match_recovery_record X U input stored of
                  Err e \<Rightarrow> Err e
                | Ok _ \<Rightarrow>
                    (case authorize X U H W (si_expected_context input) of
                       Err e \<Rightarrow> Err e
                     | Ok access \<Rightarrow>
                         (case recovery_request_call X D net (si_account_id input) (si_request_id input) of
                            Err e \<Rightarrow> Err (recovery_read_error e)
                          | Ok data \<Rightarrow>
                              (case authority_recheck U H loaded token access of
                                 Err e \<Rightarrow> Err e
                               | Ok _ \<Rightarrow> make_receipt X data input stored))))))"

record recovery_forgotten =
  rf_context :: user_context
  rf_account_id :: string
  rf_request_id :: string
  rf_digest :: string
  rf_forgotten :: bool

definition recovery_forget ::
  "crates \<Rightarrow> url_parser \<Rightarrow> recovery_record codec \<Rightarrow> reviewed_receipt decoders \<Rightarrow> host \<Rightarrow> faults \<Rightarrow> faults \<Rightarrow>
     recovery_request network \<Rightarrow> authority_world \<Rightarrow> string option option \<Rightarrow> string option \<Rightarrow>
     recovery_status_input \<Rightarrow> db \<Rightarrow> (recovery_forgotten, recovery_error) result \<times> db" where
  "recovery_forget X U c D H f g net W loaded token input d =
     (case validate_status_input X U input of
        Err e \<Rightarrow> (Err e, d)
      | Ok _ \<Rightarrow>
          if h_home H \<noteq> uc_home (si_expected_context input) then (Err (recovery_error_new ''configuration_changed''), d)
          else case recovery_find X U c H f (si_request_id input) d of
            Err e \<Rightarrow> (Err e, d)
          | Ok None \<Rightarrow> (Err (recovery_error_new ''runtime_recovery_receipt_changed''), d)
          | Ok (Some original) \<Rightarrow>
              (case match_recovery_record X U input (Some original) of
                 Err e \<Rightarrow> (Err e, d)
               | Ok _ \<Rightarrow>
                   (case
                      (if rcr_phase original = ''rejected''
                       then ensure (si_expected_binding input = None)
                              (recovery_error_new ''runtime_recovery_receipt_changed'')
                       else case recovery_status_call X U c D H f net W loaded token input d of
                         Err e \<Rightarrow> Err e
                       | Ok observed \<Rightarrow>
                           ensure (recovery_terminal (rp_status observed))
                             (recovery_error_new ''runtime_recovery_not_terminal''))
                    of
                      Err e \<Rightarrow> (Err e, d)
                    | Ok _ \<Rightarrow>
                        (case open_state H of
                           Err _ \<Rightarrow> (Err recovery_local_error, d)
                         | Ok _ \<Rightarrow>
                             (case forget_runtime_recovery X U c g original d of
                                (Err _, d') \<Rightarrow> (Err recovery_local_error, d')
                              | (Ok False, d') \<Rightarrow> (Err (recovery_error_new ''runtime_recovery_receipt_changed''), d')
                              | (Ok True, d') \<Rightarrow>
                                  (Ok \<lparr>rf_context = rcr_context original, rf_account_id = rcr_account_id original,
                                       rf_request_id = rcr_request_id original, rf_digest = rcr_digest original,
                                       rf_forgotten = True\<rparr>, d'))))))"

section \<open>Properties\<close>

lemma authorize_Ok:
  assumes "authorize X U H W expected = Ok access"
  shows "ra_context access = expected \<and> ra_admin access \<and> aw_token_after W = Some (ra_token access)"
  using assms by (auto simp: authorize_def authority_read_def split: if_splits result.splits option.splits)

lemma authority_write_Ok:
  assumes "authority_write X U H L W expected = Ok access"
  shows "authorize X U H W expected = Ok access \<and> wl_login L \<and> wl_credential L \<and> wl_config L"
  using assms by (auto simp: authority_write_def split: if_splits result.splits)

lemma recovery_post_log:
  "recovery_post X U c D H net f input d = (r, d', log) \<Longrightarrow>
     log = [HttpPost (''/api/v1/tool-accounts/'' @ ai_account_id input @ ''/runtime-migration/recovery-requests'')
       \<lparr>rq_schema_version = 1, rq_request_id = ai_request_id input, rq_action = ai_action input,
        rq_expected_original = ai_original input\<rparr>]"
  by (auto simp: recovery_post_def recovery_apply_call_def Let_def split: result.splits prod.splits if_splits)

lemma recovery_update_Err: "recovery_update X U c H f r r' d = (Err e, d') \<Longrightarrow> d' = d"
proof -
  assume a: "recovery_update X U c H f r r' d = (Err e, d')"
  obtain x d1 where u: "update_runtime_recovery X U c f r r' d = (x, d1)" by fastforce
  from registry_update_cases [OF u [unfolded recovery_ops]] a u show ?thesis
    by (auto simp: recovery_update_def split: result.splits bool.splits)
qed

lemma recovery_apply_cases:
  assumes "recovery_apply X U c D H net L W F input d = (r, d', log)" and "log \<noteq> []"
    and "serde_lawful c" and "kv_invar d"
  obtains access d2 where "ai_confirmed input"
    "recovery_digest X (ai_expected_context input) (ai_account_id input) (ai_original input) (ai_action input) =
       ai_expected_digest input"
    "authority_write X U H L W (ai_expected_context input) = Ok access"
    "registry_invar (recovery_registry X U c) d2"
    "registry_look (recovery_registry X U c) d2 (ai_request_id input) = Some (recovery_new_record input)"
    "recovery_post X U c D H net (sf_update F) input d2 = (r, d', log)"
proof -
  let ?G = "recovery_registry X U c"
  from assms(1,2) obtain access p d1 d2 where a: "ai_confirmed input"
    "recovery_digest X (ai_expected_context input) (ai_account_id input) (ai_original input) (ai_action input) =
       ai_expected_digest input"
    "authority_write X U H L W (ai_expected_context input) = Ok access"
    and i: "init_schema (sf_init F) d = (Ok (), d1)"
    and res: "reserve_runtime_recovery X U c (sf_reserve F) (recovery_new_record input) d1 = (Ok True, d2)"
    and p: "recovery_post X U c D H net (sf_update F) input d2 = (r, d', log)"
    by (auto simp: recovery_apply_def split: if_splits result.splits prod.splits bool.splits)
  have "registry_invar ?G d1" using assms(3,4) kv_invar_init [OF i] by (simp add: registry_invar_def)
  from reg.reserve_True [OF this res [unfolded recovery_ops]] have
    "registry_invar ?G d2" "registry_look ?G d2 (ai_request_id input) = Some (recovery_new_record input)"
    by (simp_all add: recovery_new_record_def)
  with a p that show ?thesis by blast
qed

text \<open>
  C4. A recovery is only sent under proved authority for exactly what was reviewed: whenever
  applying one sends anything, it was confirmed, its digest is that of the context, account,
  original task and action being sent, all three write locks were held, the server
  identified the caller as the expected user and as administrator with an unchanged token;
  and what is sent is one POST of that action and original.
\<close>

theorem recovery_apply_authorized:
  assumes "recovery_apply X U c D H net L W F input d = (r, d', log)" and "log \<noteq> []"
    and "serde_lawful c" and "kv_invar d"
  shows "ai_confirmed input \<and> wl_login L \<and> wl_credential L \<and> wl_config L \<and>
    recovery_digest X (ai_expected_context input) (ai_account_id input) (ai_original input) (ai_action input) =
      ai_expected_digest input \<and>
    (\<exists>access. authorize X U H W (ai_expected_context input) = Ok access \<and> ra_admin access \<and>
       ra_context access = ai_expected_context input \<and> aw_token_after W = Some (ra_token access)) \<and>
    log = [HttpPost (''/api/v1/tool-accounts/'' @ ai_account_id input @ ''/runtime-migration/recovery-requests'')
      \<lparr>rq_schema_version = 1, rq_request_id = ai_request_id input, rq_action = ai_action input,
       rq_expected_original = ai_original input\<rparr>]"
  using assms
proof (rule recovery_apply_cases)
  fix access d2
  assume *: "ai_confirmed input"
    "recovery_digest X (ai_expected_context input) (ai_account_id input) (ai_original input) (ai_action input) =
       ai_expected_digest input"
    "authority_write X U H L W (ai_expected_context input) = Ok access"
    "recovery_post X U c D H net (sf_update F) input d2 = (r, d', log)"
  from authority_write_Ok [OF *(3)] have w: "authorize X U H W (ai_expected_context input) = Ok access"
    "wl_login L" "wl_credential L" "wl_config L" by auto
  from authorize_Ok [OF w(1)] w * recovery_post_log [OF *(4)] show ?thesis by blast
qed


text \<open>
  The client confirms only what was reviewed: a receipt for a recorded recovery reports
  the completion of the target exactly when the server reports success and the recorded action
  is to verify the target, and the restoration of the source exactly when it reports success
  and the recorded action is another one; the binding is that of the recorded original task.
\<close>

lemma receipt_confirms_reviewed:
  assumes "make_receipt X data input (Some rec) = Ok receipt"
  shows "(rp_target_completion_confirmed receipt \<longleftrightarrow> rp_status receipt = RecSucceeded \<and> rcr_action rec = VerifyTarget) \<and>
    (rp_source_restoration_confirmed receipt \<longleftrightarrow> rp_status receipt = RecSucceeded \<and> rcr_action rec \<noteq> VerifyTarget) \<and>
    rb_original_task_id (rp_binding receipt) = ro_task_id (rcr_original rec) \<and>
    rb_tool_account_id (rp_binding receipt) = si_account_id input \<and>
    rb_task_id (rp_binding receipt) =
      ''recover_tool_account_runtime:'' @ si_account_id input @ '':'' @ si_request_id input"
proof -
  from assms have d: "legacy (rv_action data) = rb_action (rv_binding data)"
    and v: "valid_binding X (rv_binding data) (si_account_id input) (si_request_id input)
      (Some (rcr_original rec, rcr_action rec))"
    and r: "rp_binding receipt = rv_binding data" "rp_status receipt = rv_status data"
      "rp_target_completion_confirmed receipt = (rv_status data = RecSucceeded \<and> rv_action data = VerifyTarget)"
      "rp_source_restoration_confirmed receipt = (rv_status data = RecSucceeded \<and> rv_action data \<noteq> VerifyTarget)"
    by (auto simp: make_receipt_def Let_def split: if_splits)
  from valid_binding_action [OF v] d have "rv_action data = rcr_action rec" by (simp add: legacy_inj)
  with r valid_binding_action [OF v] show ?thesis by simp
qed


section \<open>Witnesses\<close>

definition sample_url :: url_parser where
  "sample_url s = Some \<lparr>up_text = s, up_host = Some s, up_username = [], up_password = None, up_query = None,
     up_fragment = None\<rparr>"

definition sample_user :: user_context where
  "sample_user = \<lparr>uc_home = ''/h'', uc_server_url = ''https://s'', uc_actor_user_id = sample_id 2\<rparr>"

definition sample_original :: recovery_original where
  "sample_original =
     \<lparr>ro_task_id = ''migrate_tool_account_runtime:'' @ sample_id 3 @ '':'' @ sample_id 4,
      ro_task_record_id = sample_id 5, ro_user_id = sample_id 2, ro_tool_account_id = sample_id 3,
      ro_node_id = sample_id 6, ro_tool_type = ''claude'', ro_source_runtime_backend = ''native'',
      ro_target_runtime_backend = ''docker_sandbox''\<rparr>"

definition sample_apply :: recovery_apply_input where
  "sample_apply =
     \<lparr>ai_confirmed = True, ai_expected_context = sample_user, ai_account_id = sample_id 3,
      ai_original = sample_original, ai_action = VerifyTarget, ai_expected_digest = sample_digest,
      ai_request_id = sample_id 7\<rparr>"

definition sample_world :: authority_world where
  "sample_world =
     \<lparr>aw_config = Some (Some ''https://s''), aw_token = Some ''t'', aw_client = True,
      aw_identity = Ok \<lparr>rid_schema_version = 1, rid_actor_user_id = sample_id 2, rid_admin = True\<rparr>,
      aw_config_after = Some (Some ''https://s''), aw_token_after = Some ''t''\<rparr>"

definition sample_locks :: write_locks where
  "sample_locks = \<lparr>wl_config_before = Some (Some ''https://s''), wl_login = True, wl_credential = True, wl_config = True\<rparr>"

definition rejected_recovery :: recovery_record where
  "rejected_recovery = (recovery_new_record sample_apply)\<lparr>rcr_phase := ''rejected'',
     rcr_rejection_code := Some ''runtime_recovery_rejected''\<rparr>"

definition sample_recovery_codec :: "recovery_record codec" where
  "sample_recovery_codec = table_codec [(recovery_new_record sample_apply, ''1''), (rejected_recovery, ''2'')]"

lemma sample_recovery_codec_facts [simp]:
  "serde_lawful sample_recovery_codec" "to_json sample_recovery_codec (recovery_new_record sample_apply) = Some ''1''"
  "from_json sample_recovery_codec ''2'' = Some rejected_recovery"
  "to_json sample_recovery_codec rejected_recovery = Some ''2''"
proof -
  have "rcr_phase (recovery_new_record sample_apply) \<noteq> rcr_phase rejected_recovery"
    by (simp add: rejected_recovery_def recovery_new_record_def)
  then have "recovery_new_record sample_apply \<noteq> rejected_recovery" by (rule contrapos_nn) (erule arg_cong)
  then show "serde_lawful sample_recovery_codec"
    "to_json sample_recovery_codec (recovery_new_record sample_apply) = Some ''1''"
    "from_json sample_recovery_codec ''2'' = Some rejected_recovery"
    "to_json sample_recovery_codec rejected_recovery = Some ''2''"
    by (simp_all add: sample_recovery_codec_def table_codec_lawful) (simp_all add: table_codec_def)
qed

lemma sample_canonical_server: "canonical_server sample_url ''https://s'' = Some ''https://s''"
  by (simp add: canonical_server_def sample_url_def trim_end_slash_def http_url_def starts_with_def has_control_def
      chars_def is_control_def utf8_width_def)

lemma sample_user_valid: "recovery_valid_context sample_crates sample_url sample_user"
  by (simp add: recovery_valid_context_def sample_user_def sample_canonical_server path_is_absolute_def starts_with_def)

lemma sample_original_task: "original_task_matches sample_crates (sample_id 3) (''migrate_tool_account_runtime:'' @ sample_id 3 @ '':'' @ sample_id 4)"
  using strip_prefix_Some [of "''migrate_tool_account_runtime:'' @ sample_id 3 @ '':''"
      "''migrate_tool_account_runtime:'' @ sample_id 3 @ '':'' @ sample_id 4" "sample_id 4"]
  by (simp add: original_task_matches_def)

lemma sample_original_valid: "original_valid sample_crates sample_original (sample_id 3)"
  using sample_original_task by (simp add: original_valid_def sample_original_def recovery_backends_def)

lemma sample_recovery_digest: "recovery_digest sample_crates u a r x = sample_digest"
  by (simp add: recovery_digest_def sample_crates_def sample_digest_def)

lemma sample_user_simps [simp]:
  "uc_home sample_user = ''/h''" "uc_server_url sample_user = ''https://s''" "h_home sample_host = ''/h''"
  by (simp_all add: sample_user_def sample_host_def)

lemma sample_config:
  "authority_config sample_url sample_host (Some (Some ''https://s'')) ''/h'' ''https://s'' = Ok ''https://s''"
  by (simp add: authority_config_def sample_canonical_server)

lemma sample_authorize: "\<exists>access. authorize sample_crates sample_url sample_host sample_world sample_user = Ok access"
  by (simp add: authorize_def sample_user_valid authority_read_def sample_config sample_world_def sample_canonical_server)
    (simp add: sample_user_def)

lemma sample_write: "\<exists>access. authority_write sample_crates sample_url sample_host sample_locks sample_world sample_user = Ok access"
  using sample_authorize by (simp add: authority_write_def sample_config sample_locks_def)

lemma reserve_sample_recovery:
  assumes "has_table d ''kv''" and "db_kv d = []"
  shows "reserve_runtime_recovery sample_crates sample_url sample_recovery_codec no_faults (recovery_new_record sample_apply) d =
     (Ok True, d\<lparr>db_kv := [(''runtime_recovery_request:'' @ sample_id 7, ''1'')]\<rparr>)"
  using assms
  by (simp add: recovery_ops registry_reserve_def registry_key_def kv_exists_def kv_count_def kv_with_prefix_def
      kv_insert_ignore_def registry_limit_def registry_max_def)
    (simp add: recovery_new_record_def sample_apply_def)

lemma sample_recovery_lost:
  "\<exists>d' log. recovery_apply sample_crates sample_url sample_recovery_codec D sample_host lost sample_locks sample_world
     no_submit_faults sample_apply fresh_db =
     (Err recovery_unknown, d', log) \<and> log \<noteq> []"
proof -
  have kv: "has_table (created_db\<lparr>db_user_version := 4\<rparr>) ''kv''" "db_kv (created_db\<lparr>db_user_version := 4\<rparr>) = []"
    using created_db_kv by (simp_all add: has_table_def)
  have a: "ai_confirmed sample_apply" "ai_expected_context sample_apply = sample_user" "ai_account_id sample_apply = sample_id 3"
    "ai_original sample_apply = sample_original" "ai_expected_digest sample_apply = sample_digest"
    "ai_request_id sample_apply = sample_id 7"
    by (simp_all add: sample_apply_def)
  from sample_write obtain access where
    "authority_write sample_crates sample_url sample_host sample_locks sample_world sample_user = Ok access" by blast
  then show ?thesis
    by (simp add: recovery_apply_def a sample_user_valid sample_original_valid sample_recovery_digest open_state_sample
        init_schema_fresh no_submit_faults_def reserve_sample_recovery [OF kv] recovery_post_def recovery_apply_call_def
        Let_def send_def lost_def recovery_submission_error_def recovery_unknown_def)
qed

lemma fresh_db_invar: "kv_invar fresh_db"
  by (simp add: kv_invar_def fresh_db_def)

text \<open>An answer the sample client gets: the recovery it applied, succeeded.\<close>

definition sample_binding :: recovery_binding where
  "sample_binding =
     \<lparr>rb_action = None, rb_version = 1, rb_task_id = ''recover_tool_account_runtime:'' @ sample_id 3 @ '':'' @ sample_id 7,
      rb_task_record_id = sample_id 8, rb_original_task_id = ro_task_id sample_original,
      rb_original_task_record_id = sample_id 5, rb_node_id = sample_id 6, rb_user_id = sample_id 2,
      rb_tool_account_id = sample_id 3, rb_tool_type = ''claude'', rb_source_runtime_backend = ''native'',
      rb_target_runtime_backend = ''docker_sandbox''\<rparr>"

definition sample_reviewed :: reviewed_receipt where
  "sample_reviewed = \<lparr>rv_schema_version = 1, rv_request_id = sample_id 7, rv_action = VerifyTarget,
     rv_binding = sample_binding, rv_status = RecSucceeded\<rparr>"

theorem recovery_apply_authorized_witness:
  "\<exists>access. authorize sample_crates sample_url sample_host sample_world sample_user = Ok access \<and> ra_admin access"
proof -
  from sample_recovery_lost [of "receipt_decoders sample_reviewed"] obtain d' log where
    s: "recovery_apply sample_crates sample_url sample_recovery_codec (receipt_decoders sample_reviewed) sample_host lost
      sample_locks sample_world no_submit_faults sample_apply fresh_db = (Err recovery_unknown, d', log)" "log \<noteq> []" by blast
  have "ai_expected_context sample_apply = sample_user" by (simp add: sample_apply_def)
  with recovery_apply_authorized [OF s sample_recovery_codec_facts(1) fresh_db_invar] show ?thesis by auto
qed


lemma sample_binding_valid:
  "valid_binding sample_crates sample_binding (sample_id 3) (sample_id 7) (Some (sample_original, VerifyTarget))"
  using sample_original_task
  by (simp add: valid_binding_def validate_recovery_def sample_binding_def sample_original_def original_matches_def
      recovery_backends_def)

definition sample_status :: recovery_status_input where
  "sample_status = \<lparr>si_expected_context = sample_user, si_account_id = sample_id 3, si_request_id = sample_id 7,
     si_expected_digest = Some sample_digest, si_expected_binding = None\<rparr>"

definition rejected_db :: db where
  "rejected_db = created_db\<lparr>db_kv := [(''runtime_recovery_request:'' @ sample_id 7, ''2'')]\<rparr>"

lemma rejected_valid:
  "validate_recovery_record sample_crates sample_url (''runtime_recovery_request:'' @ sample_id 7) rejected_recovery ''/h'' = Ok ()"
proof -
  have r: "rcr_request_id rejected_recovery = sample_id 7" "rcr_context rejected_recovery = sample_user"
    "rcr_original rejected_recovery = sample_original" "rcr_account_id rejected_recovery = sample_id 3"
    "rcr_digest rejected_recovery = sample_digest" "rcr_binding rejected_recovery = None" "recovery_phase_ok rejected_recovery"
    by (simp_all add: rejected_recovery_def recovery_new_record_def sample_apply_def recovery_phase_ok_def)
  have "uc_home sample_user = ''/h''" by (simp add: sample_user_def)
  then show ?thesis
    using sample_user_valid sample_original_valid by (simp add: validate_recovery_record_def r sample_recovery_digest)
qed

lemma rejected_found:
  "recovery_find sample_crates sample_url sample_recovery_codec sample_host no_faults (sample_id 7) rejected_db =
     Ok (Some rejected_recovery)"
proof -
  have "registry_rows (recovery_registry sample_crates sample_url sample_recovery_codec) rejected_db =
      [(''runtime_recovery_request:'' @ sample_id 7, ''2'')]"
    by (simp add: registry_rows_def rejected_db_def kv_with_prefix_def registry_max_def registry_limit_def rust_eval)
  moreover have "g_validate (recovery_registry sample_crates sample_url sample_recovery_codec) = validate_recovery_record sample_crates sample_url"
    by (simp add: recovery_registry_def)
  moreover have "rcr_request_id rejected_recovery = sample_id 7"
    by (simp add: rejected_recovery_def recovery_new_record_def sample_apply_def)
  moreover have "h_home sample_host = ''/h''" "has_table rejected_db ''kv''"
    by (simp_all add: sample_host_def rejected_db_def)
  ultimately show ?thesis
    using lstat_sample rejected_valid
    by (auto simp: recovery_find_def recovery_ops registry_records_def open_readonly_sample is_ok_iff
        registry_max_def registry_limit_def)
qed


end
