(* ===== verification/Skill_Api.thy ===== *)
theory Skill_Api
  imports Session_Types
begin

text \<open>
  The Skill library as the server presents it (\<open>api/skills.rs\<close>, \<open>api/skill_mutations.rs\<close>,
  \<open>api/skill_retry.rs\<close>): the result envelope every call returns, the receipt of a change with
  its deployment targets, the typed requests, and the calls that submit a change or look one up.
\<close>

section \<open>Results\<close>

record skill_error =
  sx_code :: string
  sx_message :: string
  sx_object_id :: "string option"
  sx_details :: "(string \<times> json) list"

record 'a skill_envelope =
  se_schema_version :: nat
  se_operation_id :: "string option"
  se_status :: string
  se_committed :: bool
  se_retryable :: bool
  se_data :: "'a option"
  se_errors :: "skill_error list"

record skill_target =
  tg_account_id :: string
  tg_node_id :: "string option"
  tg_readiness :: string
  tg_deploy_on_first_use :: bool
  tg_error_code :: "string option"
  tg_plan_digest :: "string option"
  tg_attempt_id :: "string option"
  tg_attempt_number :: "nat option"
  tg_retryable :: "bool option"

text \<open>Generations are \<open>i64\<close>: integers whose range is checked where they are added.\<close>

record skill_mutation =
  mu_generation :: int
  mu_skill_ids :: "string list"
  mu_revision_ids :: "string list"
  mu_changed :: bool
  mu_warnings :: "string list"
  mu_targets :: "skill_target list"
  mu_replacement_id :: "string option"

type_synonym mutation_reply = "skill_mutation skill_envelope"

definition i64_max :: int where
  "i64_max = 2 ^ 63 - 1"

definition u64_max :: nat where
  "u64_max = 2 ^ 64 - 1"

definition checked_add_i64 :: "int \<Rightarrow> int \<Rightarrow> int option" where
  "checked_add_i64 a b = (if - (2 ^ 63) \<le> a + b \<and> a + b \<le> i64_max then Some (a + b) else None)"

text \<open>An id that is spelled the way it is printed; unlike request ids it may be the nil id.\<close>

definition skill_canonical :: "crates \<Rightarrow> string \<Rightarrow> bool" where
  "skill_canonical X v = (case uuid_parse X v of None \<Rightarrow> False | Some u \<Rightarrow> uuid_print X u = v)"

definition lower_hex64 :: "string \<Rightarrow> bool" where
  "lower_hex64 s \<longleftrightarrow> length s = 64 \<and> list_all (\<lambda>b. is_ascii_digit b \<or> b \<in> set ''abcdef'') s"

definition invalid_skill_response :: api_error where
  "invalid_skill_response =
     \<lparr>ae_status = Some 502, ae_code = Some ''INVALID_SKILL_RESPONSE'',
      ae_message = ''Server returned an invalid skill response.''\<rparr>"

definition attempt_valid :: "crates \<Rightarrow> skill_target \<Rightarrow> bool" where
  "attempt_valid X t =
     (case (tg_attempt_id t, tg_attempt_number t) of
        (None, None) \<Rightarrow> tg_retryable t \<noteq> Some True
      | (Some attempt, Some number) \<Rightarrow>
          skill_canonical X attempt \<and> skill_canonical X (tg_account_id t) \<and>
          is_none_or (skill_canonical X) (tg_node_id t) \<and>
          number > 0 \<and> is_some_and lower_hex64 (tg_plan_digest t) \<and>
          (tg_retryable t \<noteq> Some True \<or>
           tg_readiness t = ''failed'' \<and>
           tg_error_code t \<in> Some ` {''NODE_UNAVAILABLE'', ''TRANSFER_FAILED'', ''QUOTA_EXCEEDED'', ''DEPLOYMENT_INTERRUPTED''})
      | _ \<Rightarrow> False)"

definition validate_mutation_receipt :: "crates \<Rightarrow> mutation_reply \<Rightarrow> (unit, api_error) result" where
  "validate_mutation_receipt X r =
     (case se_data r of
        None \<Rightarrow> Ok ()
      | Some data \<Rightarrow>
          ensure (se_committed r \<and> se_operation_id r \<noteq> None \<and> list_all (attempt_valid X) (mu_targets data))
            invalid_skill_response)"

section \<open>Requests\<close>

record skill_scope =
  sc_tools :: "string list"
  sc_account_id :: "string option"

datatype skill_change =
    Enable skill_scope
  | Disable skill_scope bool
  | Pin skill_scope string
  | Unpin skill_scope
  | Inherit skill_scope string
  | Remove
  | Rollback "string option"

fun change_endpoint :: "skill_change \<Rightarrow> string" where
  "change_endpoint Remove = ''/api/v1/skills/removals''"
| "change_endpoint (Rollback _) = ''/api/v1/skills/rollbacks''"
| "change_endpoint _ = ''/api/v1/skills/rules''"

record skill_mutation_request =
  mq_idempotency_key :: string
  mq_expected_generation :: int
  mq_skill :: string
  mq_change :: skill_change

record skill_source =
  src_kind :: string
  src_locator :: string
  src_subpath :: string

record skill_provenance =
  pv_ref_kind :: string
  pv_ref :: string
  pv_commit :: string

record skill_install_item =
  it_name :: string
  it_source :: skill_source
  it_provenance :: skill_provenance
  it_tree_digest :: string

text \<open>The \<open>command\<close> tags of additions, updates and retries have one value each and are left out.\<close>

record skill_add_request =
  aq_idempotency_key :: string
  aq_expected_generation :: int
  aq_items :: "skill_install_item list"
  aq_scope :: skill_scope
  aq_scope_explicit :: bool

record skill_update_request =
  uq_idempotency_key :: string
  uq_expected_generation :: int
  uq_skill :: string
  uq_item :: skill_install_item
  uq_stage :: bool
  uq_switch_tracking :: bool

record skill_retry_target =
  rt_account_id :: string
  rt_attempt_id :: string

record skill_retry_request =
  ry_idempotency_key :: string
  ry_expected_generation :: int
  ry_targets :: "skill_retry_target list"

datatype skill_payload =
    RulePayload skill_mutation_request
  | AddPayload skill_add_request
  | UpdatePayload skill_update_request
  | RetryPayload skill_retry_request

text \<open>A request on the network: a POST of a payload, or a GET with its query.\<close>

datatype skill_http = SkillPost string skill_payload | SkillGet string "(string \<times> string) list"

type_synonym skill_net = "skill_http \<Rightarrow> (http_response, api_error) result"

section \<open>Calls\<close>

definition skill_transport_failed :: api_error where
  "skill_transport_failed =
     \<lparr>ae_status = None, ae_code = Some ''SKILL_TRANSPORT_FAILED'', ae_message = ''Skill request could not be completed.''\<rparr>"

definition envelope_ok :: "crates \<Rightarrow> nat \<Rightarrow> 'a skill_envelope \<Rightarrow> bool" where
  "envelope_ok X status r \<longleftrightarrow>
     se_schema_version r = 1 \<and> se_status r \<noteq> [] \<and>
     (is_success status \<or> se_errors r \<noteq> [] \<and> se_data r = None \<and> se_status r = ''failed'' \<and> \<not> se_committed r) \<and>
     (is_success status \<longrightarrow> se_data r \<noteq> None) \<and>
     is_none_or (\<lambda>id. uuid_parse X id \<noteq> None) (se_operation_id r)"

definition send_skill_request ::
  "crates \<Rightarrow> 'a skill_envelope decoders \<Rightarrow> (http_response, api_error) result \<Rightarrow> ('a skill_envelope, api_error) result"
where
  "send_skill_request X D outcome =
     (case outcome of
        Err _ \<Rightarrow> Err skill_transport_failed
      | Ok response \<Rightarrow>
          (case read_response_body_bounded D response max_api_response_bytes of
             Err e \<Rightarrow> Err e
           | Ok body \<Rightarrow>
               if \<not> is_success (hr_status response) \<and> dec_envelope D body \<noteq> None
               then Err \<lparr>ae_status = Some (hr_status response),
                         ae_code = ae_code (from_error_response X D (hr_status response) body),
                         ae_message = ''Skill request was rejected by the server.''\<rparr>
               else (case dec_payload D body of
                       Err _ \<Rightarrow> Err invalid_skill_response
                     | Ok r \<Rightarrow> if envelope_ok X (hr_status response) r then Ok r else Err invalid_skill_response)))"

text \<open>The shape the calls share: one request whose answer is a validated receipt.\<close>

definition mutation_call ::
  "crates \<Rightarrow> mutation_reply decoders \<Rightarrow> skill_net \<Rightarrow> skill_http \<Rightarrow> (mutation_reply, api_error) result \<times> skill_http list"
where
  "mutation_call X D net q =
     (case send_skill_request X D (net q) of
        Err e \<Rightarrow> Err e
      | Ok r \<Rightarrow> (case validate_mutation_receipt X r of Err e \<Rightarrow> Err e | Ok _ \<Rightarrow> Ok r),
      [q])"

definition change_skill where
  "change_skill X D net payload = mutation_call X D net (SkillPost (change_endpoint (mq_change payload)) (RulePayload payload))"

definition install_skills where
  "install_skills X D net payload = mutation_call X D net (SkillPost ''/api/v1/skills/installations'' (AddPayload payload))"

definition update_skill where
  "update_skill X D net payload = mutation_call X D net (SkillPost ''/api/v1/skills/updates'' (UpdatePayload payload))"

definition skill_operation_by_key where
  "skill_operation_by_key X D net key = mutation_call X D net (SkillGet ''/api/v1/skills/operations'' [(''key'', key)])"

definition validate_retry_reply :: "crates \<Rightarrow> mutation_reply \<Rightarrow> string \<Rightarrow> (unit, api_error) result" where
  "validate_retry_reply X r operation_id =
     (case validate_mutation_receipt X r of
        Err e \<Rightarrow> Err e
      | Ok _ \<Rightarrow> ensure (se_data r = None \<or> se_operation_id r = Some operation_id) invalid_skill_response)"

definition retry_call ::
  "crates \<Rightarrow> mutation_reply decoders \<Rightarrow> skill_net \<Rightarrow> string \<Rightarrow> (string \<Rightarrow> skill_http) \<Rightarrow>
     (mutation_reply, api_error) result \<times> skill_http list" where
  "retry_call X D net operation_id request =
     (case uuid_parse X operation_id of
        None \<Rightarrow> (Err invalid_skill_response, [])
      | Some uid \<Rightarrow>
          let q = request (''/api/v1/skills/operations/'' @ uuid_print X uid @ ''/retries'') in
          (case send_skill_request X D (net q) of
             Err e \<Rightarrow> Err e
           | Ok r \<Rightarrow> (case validate_retry_reply X r operation_id of Err e \<Rightarrow> Err e | Ok _ \<Rightarrow> Ok r),
           [q]))"

definition retry_skill where
  "retry_skill X D net operation_id payload =
     retry_call X D net operation_id (\<lambda>path. SkillPost path (RetryPayload payload))"

definition skill_retry_by_key where
  "skill_retry_by_key X D net operation_id key =
     retry_call X D net operation_id (\<lambda>path. SkillGet path [(''key'', key)])"

definition skill_status ::
  "crates \<Rightarrow> mutation_reply decoders \<Rightarrow> (http_response, api_error) result \<Rightarrow> string \<Rightarrow> (mutation_reply, api_error) result"
where
  "skill_status X D outcome operation_id =
     (case uuid_parse X operation_id of
        None \<Rightarrow> Err invalid_skill_response
      | Some uid \<Rightarrow>
          (case send_skill_request X D outcome of
             Err e \<Rightarrow> Err e
           | Ok r \<Rightarrow>
               (case se_data r of
                  None \<Rightarrow> Ok r
                | Some data \<Rightarrow>
                    if se_operation_id r \<noteq> Some (uuid_print X uid) \<or> \<not> list_all (attempt_valid X) (mu_targets data)
                    then Err invalid_skill_response else Ok r)))"

end
