(* ===== verification/Skill_Journal.thy ===== *)
theory Skill_Journal
  imports Local_Db
begin

text \<open>
  The journal of Skill commands (\<open>local_state/skill_commands.rs\<close>): one row per accepted or
  uncertain change of the Skill library, in a table of its own. A command is begun by an insert
  that gives way to an uncertain request of the same intent, and is received exactly once. The
  statements run outside of a transaction, so a failing second statement leaves the first.
\<close>

section \<open>Operations\<close>

text \<open>\<open>skill_command_state\<close>: open, initialize, then run the operation.\<close>

definition skill_command_state ::
  "host \<Rightarrow> faults \<Rightarrow> (db \<Rightarrow> ('a, failure) result \<times> db) \<Rightarrow> db \<Rightarrow> ('a, failure) result \<times> db" where
  "skill_command_state H f operation d =
     (case open_state H of
        Err e \<Rightarrow> (Err e, d)
      | Ok _ \<Rightarrow> (case init_schema f d of (Err e, d1) \<Rightarrow> (Err e, d1) | (Ok _, d1) \<Rightarrow> operation d1))"

definition skill_owner :: "string \<Rightarrow> string \<Rightarrow> skill_command_row \<Rightarrow> bool" where
  "skill_owner server user row \<longleftrightarrow> sk_server_url (sw_record row) = server \<and> sk_user_id (sw_record row) = user"

definition pending_for :: "string \<Rightarrow> string \<Rightarrow> string \<Rightarrow> skill_command_row \<Rightarrow> bool" where
  "pending_for server user intent row \<longleftrightarrow>
     skill_owner server user row \<and> sk_intent_digest (sw_record row) = intent \<and> sw_pending row"

definition pending_skill_command ::
  "faults \<Rightarrow> string \<Rightarrow> string \<Rightarrow> string \<Rightarrow> db \<Rightarrow> (skill_command_record option, failure) result" where
  "pending_skill_command f server user intent d =
     (if f SSelect \<or> \<not> has_table d ''skill_commands'' then Err SqlErr
      else Ok (map_option sw_record (find (pending_for server user intent) (db_skill_commands d))))"

text \<open>The rows of a batch, with the running count and the saturating total of request bytes.\<close>

definition saturating_add :: "nat \<Rightarrow> nat \<Rightarrow> nat" where
  "saturating_add a b = min (2 ^ 64 - 1) (a + b)"

fun pending_batch ::
  "faults \<Rightarrow> skill_command_row list \<Rightarrow> nat \<Rightarrow> skill_command_record list \<Rightarrow> (skill_command_record list, failure) result"
where
  "pending_batch f [] bytes records = Ok records"
| "pending_batch f (row # rows) bytes records =
     (let bytes' = saturating_add bytes (length (sk_request_json (sw_record row))) in
      if f SRow then Err SqlErr
      else if length records \<ge> 1000 \<or> bytes' > 16 * 1024 * 1024
      then Err (Bail ''pending skill journal exceeds batch recovery bounds; recover individual commands first'')
      else pending_batch f rows bytes' (records @ [sw_record row]))"

definition pending_skill_commands ::
  "faults \<Rightarrow> string \<Rightarrow> string \<Rightarrow> db \<Rightarrow> (skill_command_record list, failure) result" where
  "pending_skill_commands f server user d =
     (if f SSelect \<or> \<not> has_table d ''skill_commands'' then Err SqlErr
      else pending_batch f
        (take 1001 (filter (\<lambda>row. skill_owner server user row \<and> sw_pending row) (db_skill_commands d))) 0 [])"

definition last_skill_command_record ::
  "faults \<Rightarrow> string \<Rightarrow> string \<Rightarrow> db \<Rightarrow> ((skill_command_record \<times> string option) option, failure) result" where
  "last_skill_command_record f server user d =
     (if f SSelect \<or> \<not> has_table d ''skill_commands'' then Err SqlErr
      else Ok (map_option (\<lambda>row. (sw_record row, sw_operation_id row))
        (find (skill_owner server user) (rev (db_skill_commands d)))))"

text \<open>The primary key and the partial unique index of the table.\<close>

definition skill_key :: "skill_command_record \<Rightarrow> string \<times> string \<times> string" where
  "skill_key r = (sk_server_url r, sk_user_id r, sk_idempotency_key r)"

definition skill_intent :: "skill_command_record \<Rightarrow> string \<times> string \<times> string" where
  "skill_intent r = (sk_server_url r, sk_user_id r, sk_intent_digest r)"

definition has_index :: "db \<Rightarrow> string \<Rightarrow> bool" where
  "has_index d i \<longleftrightarrow> i \<in> fst ` set (db_indexes d)"

definition insert_conflict :: "db \<Rightarrow> skill_command_record \<Rightarrow> bool" where
  "insert_conflict d r \<longleftrightarrow>
     skill_key r \<in> (skill_key \<circ> sw_record) ` set (db_skill_commands d) \<or>
     (has_index d ''skill_commands_pending_intent'' \<and>
      skill_intent r \<in> (skill_intent \<circ> sw_record) ` set (filter sw_pending (db_skill_commands d)))"

definition begin_skill_command ::
  "faults \<Rightarrow> skill_command_record \<Rightarrow> db \<Rightarrow> (skill_command_record, failure) result \<times> db" where
  "begin_skill_command f r d =
     (if length (sk_request_json r) > 4 * 1024 * 1024 \<or> sk_idempotency_key r = [] \<or> length (sk_intent_digest r) \<noteq> 64
      then (Err (Bail ''invalid skill command recovery record''), d)
      else if f SWrite \<or> \<not> has_table d ''skill_commands'' then (Err SqlErr, d)
      else
        let d' = (if insert_conflict d r then d
                  else d\<lparr>db_skill_commands := db_skill_commands d @
                         [\<lparr>sw_record = r, sw_pending = True, sw_operation_id = None\<rparr>]\<rparr>)
        in (case pending_skill_command f (sk_server_url r) (sk_user_id r) (sk_intent_digest r) d' of
              Err e \<Rightarrow> (Err e, d')
            | Ok None \<Rightarrow> (Err (Bail ''skill command identity was already received''), d')
            | Ok (Some retained) \<Rightarrow> (Ok retained, d')))"

definition receivable :: "skill_command_record \<Rightarrow> string option \<Rightarrow> skill_command_row \<Rightarrow> bool" where
  "receivable r operation row \<longleftrightarrow>
     sw_record row = r \<and> (sw_pending row \<or> sw_operation_id row = operation)"

definition receive_skill_command ::
  "faults \<Rightarrow> skill_command_record \<Rightarrow> string option \<Rightarrow> db \<Rightarrow> (unit, failure) result \<times> db" where
  "receive_skill_command f r operation d =
     (if f SWrite \<or> \<not> has_table d ''skill_commands'' then (Err SqlErr, d)
      else
        let d' = d\<lparr>db_skill_commands := map (\<lambda>row. if receivable r operation row
                     then row\<lparr>sw_pending := False, sw_operation_id := operation\<rparr> else row) (db_skill_commands d)\<rparr>
        in if length (filter (receivable r operation) (db_skill_commands d)) \<noteq> 1
           then (Err (Bail ''skill command receipt differs from retained input''), d')
           else (Ok (), d'))"

section \<open>Invariant\<close>

text \<open>The two uniqueness constraints, and that the schema which enforces them is there.\<close>

definition skill_invar :: "db \<Rightarrow> bool" where
  "skill_invar d \<longleftrightarrow>
     has_table d ''skill_commands'' \<and> has_index d ''skill_commands_pending_intent'' \<and>
     distinct (map (skill_key \<circ> sw_record) (db_skill_commands d)) \<and>
     distinct (map (skill_intent \<circ> sw_record) (filter sw_pending (db_skill_commands d)))"

text \<open>What may happen to a row: it stays as it is, or a pending one is received.\<close>

definition row_progress :: "skill_command_row \<Rightarrow> skill_command_row \<Rightarrow> bool" where
  "row_progress old new \<longleftrightarrow> sw_record new = sw_record old \<and> (new = old \<or> sw_pending old \<and> \<not> sw_pending new)"

definition rows_progress :: "skill_command_row list \<Rightarrow> skill_command_row list \<Rightarrow> bool" where
  "rows_progress old new \<longleftrightarrow> length old \<le> length new \<and> (\<forall>i < length old. row_progress (old ! i) (new ! i))"

text \<open>The uncertain request of an intent.\<close>

definition pending_look :: "db \<Rightarrow> string \<times> string \<times> string \<Rightarrow> skill_command_record option" where
  "pending_look d k =
     map_option sw_record (find (\<lambda>row. sw_pending row \<and> skill_intent (sw_record row) = k) (db_skill_commands d))"

lemma pending_for_intent:
  "pending_for server user intent = (\<lambda>row. sw_pending row \<and> skill_intent (sw_record row) = (server, user, intent))"
  by (auto simp: pending_for_def skill_owner_def skill_intent_def fun_eq_iff)

lemma pending_skill_command_look:
  "pending_skill_command f server user intent d =
     (if f SSelect \<or> \<not> has_table d ''skill_commands'' then Err SqlErr else Ok (pending_look d (server, user, intent)))"
  by (simp add: pending_skill_command_def pending_look_def pending_for_intent)

lemma find_app: "find P (xs @ ys) = (case find P xs of None \<Rightarrow> find P ys | Some x \<Rightarrow> Some x)"
  by (induction xs) auto

lemma row_progress_refl [simp]: "row_progress r r"
  by (simp add: row_progress_def)

lemma row_progress_trans: "row_progress a b \<Longrightarrow> row_progress b c \<Longrightarrow> row_progress a c"
  by (auto simp: row_progress_def)

lemma rows_progress_refl [simp]: "rows_progress rows rows"
  by (simp add: rows_progress_def)

lemma rows_progress_trans: "rows_progress a b \<Longrightarrow> rows_progress b c \<Longrightarrow> rows_progress a c"
  unfolding rows_progress_def by (meson order.trans less_le_trans row_progress_trans)

lemma rows_progress_append: "rows_progress rows (rows @ rest)"
  by (simp add: rows_progress_def nth_append)

lemma rows_progress_map: "(\<And>r. r \<in> set rows \<Longrightarrow> row_progress r (h r)) \<Longrightarrow> rows_progress rows (map h rows)"
  by (simp add: rows_progress_def)

lemma pending_look_Some:
  "skill_invar d \<Longrightarrow> pending_look d k = Some r \<longleftrightarrow>
     (\<exists>row \<in> set (db_skill_commands d). sw_pending row \<and> sw_record row = r \<and> skill_intent r = k)"
proof
  assume "pending_look d k = Some r"
  then show "\<exists>row \<in> set (db_skill_commands d). sw_pending row \<and> sw_record row = r \<and> skill_intent r = k"
    by (auto simp: pending_look_def find_Some_iff)
next
  assume i: "skill_invar d"
    and "\<exists>row \<in> set (db_skill_commands d). sw_pending row \<and> sw_record row = r \<and> skill_intent r = k"
  then obtain row where row: "row \<in> set (db_skill_commands d)" "sw_pending row" "sw_record row = r" "skill_intent r = k" by blast
  let ?p = "\<lambda>row. sw_pending row \<and> skill_intent (sw_record row) = k"
  obtain found where found: "find ?p (db_skill_commands d) = Some found"
    using row by (cases "find ?p (db_skill_commands d)") (auto simp: find_None_iff)
  then have "found \<in> set (db_skill_commands d)" "?p found" by (auto simp: find_Some_iff)
  moreover have "inj_on (skill_intent \<circ> sw_record) (set (filter sw_pending (db_skill_commands d)))"
    using i by (simp add: skill_invar_def distinct_map)
  ultimately have "found = row" using row by (auto simp: inj_on_def)
  with found row(3) show "pending_look d k = Some r" by (simp add: pending_look_def)
qed


section \<open>What an operation does\<close>

lemma begin_cases:
  assumes "skill_invar d" and "begin_skill_command f r d = (x, d')"
  obtains (same) "d' = d" "\<And>q. x = Ok q \<Longrightarrow> pending_look d (skill_intent r) = Some q"
  | (fresh) "pending_look d (skill_intent r) = None" "skill_key r \<notin> (skill_key \<circ> sw_record) ` set (db_skill_commands d)"
    "d' = d\<lparr>db_skill_commands := db_skill_commands d @ [\<lparr>sw_record = r, sw_pending = True, sw_operation_id = None\<rparr>]\<rparr>"
    "\<And>q. x = Ok q \<Longrightarrow> q = r"
proof (cases "insert_conflict d r \<or> d' = d")
  case True
  with assms(2) have "d' = d" "\<And>q. x = Ok q \<Longrightarrow> pending_look d (skill_intent r) = Some q"
    by (auto simp: begin_skill_command_def Let_def pending_skill_command_look skill_intent_def
        split: if_splits result.splits option.splits)
  then show ?thesis by (rule same)
next
  case False
  let ?new = "d\<lparr>db_skill_commands := db_skill_commands d @ [\<lparr>sw_record = r, sw_pending = True, sw_operation_id = None\<rparr>]\<rparr>"
  have none: "pending_look d (skill_intent r) = None"
    using False assms(1)
    by (auto simp: insert_conflict_def skill_invar_def pending_look_def find_None_iff image_iff)
  then have "pending_look ?new (skill_intent r) = Some r"
    by (simp add: pending_look_def find_app)
  then have "d' = ?new" "\<And>q. x = Ok q \<Longrightarrow> q = r"
    using assms(2) False
    by (auto simp: begin_skill_command_def Let_def pending_skill_command_look skill_intent_def
        split: if_splits result.splits option.splits)
  with none False show ?thesis by (intro fresh) (auto simp: insert_conflict_def)
qed


lemma begin_keeps:
  assumes "skill_invar d" and "begin_skill_command f r d = (x, d')"
  shows "skill_invar d'" and "rows_progress (db_skill_commands d) (db_skill_commands d')"
    and "\<And>q. x = Ok q \<Longrightarrow> pending_look d' (skill_intent r) = Some q"
proof -
  have "skill_invar d' \<and> rows_progress (db_skill_commands d) (db_skill_commands d') \<and>
      (\<forall>q. x = Ok q \<longrightarrow> pending_look d' (skill_intent r) = Some q)"
    using assms
  proof (cases rule: begin_cases)
    case fresh
    from fresh(1) have "\<forall>row \<in> set (filter sw_pending (db_skill_commands d)). skill_intent (sw_record row) \<noteq> skill_intent r"
      by (auto simp: pending_look_def find_None_iff)
    with fresh assms(1) have "skill_invar d'" by (auto simp: skill_invar_def has_table_def has_index_def)
    moreover from fresh have "pending_look d' (skill_intent r) = Some r" by (simp add: pending_look_def find_app)
    ultimately show ?thesis using fresh(3,4) rows_progress_append by auto
  qed (use assms(1) in auto)
  then show "skill_invar d'" "rows_progress (db_skill_commands d) (db_skill_commands d')"
    "\<And>q. x = Ok q \<Longrightarrow> pending_look d' (skill_intent r) = Some q" by blast+
qed

lemma receive_rows:
  "receive_skill_command f r operation d = (x, d') \<Longrightarrow> d' = d \<or>
     d' = d\<lparr>db_skill_commands := map (\<lambda>row. if receivable r operation row
            then row\<lparr>sw_pending := False, sw_operation_id := operation\<rparr> else row) (db_skill_commands d)\<rparr>"
  by (auto simp: receive_skill_command_def Let_def split: if_splits)

lemma distinct_map_filter_weaken:
  assumes "distinct (map h (filter P xs))" and "\<And>x. x \<in> set xs \<Longrightarrow> h (g x) = h x" and "\<And>x. x \<in> set xs \<Longrightarrow> P (g x) \<Longrightarrow> P x"
  shows "distinct (map h (filter P (map g xs)))"
  using assms
proof (induction xs)
  case (Cons x xs)
  then have "distinct (map h (filter P (map g xs)))" by (cases "P x") auto
  with Cons.prems show ?case by (cases "P x") auto
qed simp

lemma receive_keeps:
  assumes "skill_invar d" and "receive_skill_command f r operation d = (x, d')"
  shows "skill_invar d'" and "rows_progress (db_skill_commands d) (db_skill_commands d')"
proof -
  have "skill_invar d' \<and> rows_progress (db_skill_commands d) (db_skill_commands d')"
    using receive_rows [OF assms(2)]
  proof (elim disjE)
    let ?h = "\<lambda>row. if receivable r operation row then row\<lparr>sw_pending := False, sw_operation_id := operation\<rparr> else row"
    assume d': "d' = d\<lparr>db_skill_commands := map ?h (db_skill_commands d)\<rparr>"
    have "distinct (map (skill_intent \<circ> sw_record) (filter sw_pending (map ?h (db_skill_commands d))))"
      using assms(1) by (intro distinct_map_filter_weaken) (auto simp: skill_invar_def split: if_splits)
    moreover have "map (skill_key \<circ> sw_record) (map ?h (db_skill_commands d)) = map (skill_key \<circ> sw_record) (db_skill_commands d)"
      by simp
    moreover have "row_progress row (?h row)" for row
      by (cases row) (auto simp: row_progress_def receivable_def)
    ultimately show ?thesis
      using assms(1) by (auto simp: d' skill_invar_def has_table_def has_index_def simp del: map_map intro: rows_progress_map)
  qed (use assms(1) in simp)
  then show "skill_invar d'" "rows_progress (db_skill_commands d) (db_skill_commands d')" by blast+
qed


section \<open>Any number of processes\<close>

datatype skill_op = Begin faults skill_command_record | Receive faults skill_command_record "string option"

fun skill_step :: "skill_op \<Rightarrow> db \<Rightarrow> db" where
  "skill_step (Begin f r) d = snd (begin_skill_command f r d)"
| "skill_step (Receive f r operation) d = snd (receive_skill_command f r operation d)"

lemma skill_step_keeps:
  assumes "skill_invar d"
  shows "skill_invar (skill_step op d) \<and> rows_progress (db_skill_commands d) (db_skill_commands (skill_step op d))"
proof (cases op)
  case (Begin f r)
  then show ?thesis using begin_keeps(1,2) [OF assms, of f r] by (metis prod.collapse skill_step.simps(1))
next
  case (Receive f r operation)
  then show ?thesis using receive_keeps [OF assms, of f r operation] by (metis prod.collapse skill_step.simps(2))
qed

lemma skill_run_keeps:
  "skill_invar d \<Longrightarrow> skill_invar (fold skill_step ops d) \<and>
     rows_progress (db_skill_commands d) (db_skill_commands (fold skill_step ops d))"
proof (induction ops arbitrary: d)
  case (Cons op ops)
  from Cons.IH [of "skill_step op d"] skill_step_keeps [OF Cons.prems, of op] show ?case
    by (auto intro: rows_progress_trans)
qed simp

definition receives :: "skill_command_record \<Rightarrow> skill_op \<Rightarrow> bool" where
  "receives q op = (case op of Begin _ _ \<Rightarrow> False | Receive _ r _ \<Rightarrow> r = q)"

lemma skill_step_pending:
  assumes "skill_invar d" and "pending_look d k = Some q" and "\<not> receives q op"
  shows "pending_look (skill_step op d) k = Some q"
proof -
  let ?d = "skill_step op d"
  from assms(1,2) obtain row where row: "row \<in> set (db_skill_commands d)" "sw_pending row" "sw_record row = q" "skill_intent q = k"
    by (auto simp: pending_look_Some)
  have "row \<in> set (db_skill_commands ?d)"
  proof (cases op)
    case (Begin f r)
    obtain x d1 where b: "begin_skill_command f r d = (x, d1)" by fastforce
    from assms(1) b have "set (db_skill_commands d) \<subseteq> set (db_skill_commands d1)" by (cases rule: begin_cases) auto
    with row(1) Begin b show ?thesis by auto
  next
    case (Receive f r operation)
    obtain x d1 where c: "receive_skill_command f r operation d = (x, d1)" by fastforce
    have "\<not> receivable r operation row" using assms(3) Receive row(3) by (auto simp: receives_def receivable_def)
    then have "row \<in> set (db_skill_commands d1)" using receive_rows [OF c] row(1) by force
    with Receive c show ?thesis by simp
  qed
  with row skill_step_keeps [OF assms(1), of op] show ?thesis by (auto simp: pending_look_Some)
qed

lemma skill_run_pending:
  "skill_invar d \<Longrightarrow> pending_look d k = Some q \<Longrightarrow> list_all (\<lambda>op. \<not> receives q op) ops \<Longrightarrow>
     pending_look (fold skill_step ops d) k = Some q"
  by (induction ops arbitrary: d) (auto simp: skill_step_pending skill_step_keeps)

text \<open>
  C10. One intent has one key until it is received. When a process has begun a command and was
  given the retained record, then, whatever other processes begin or receive and whatever
  statements fail, as long as that record has not been received, every process that begins the
  same intent is given that very record, key and request text included, and adds nothing to the
  journal; and all recorded commands are still there, unchanged except for being received.
\<close>

theorem skill_intent_single:
  assumes "skill_invar d" and "begin_skill_command f r d = (Ok q, d1)"
    and "list_all (\<lambda>op. \<not> receives q op) ops"
    and "begin_skill_command g r' (fold skill_step ops d1) = (Ok q', d2)" and "skill_intent r' = skill_intent r"
  shows "q' = q \<and> d2 = fold skill_step ops d1 \<and> skill_invar d2 \<and>
    rows_progress (db_skill_commands d1) (db_skill_commands d2)"
proof -
  note b = begin_keeps [OF assms(1,2)]
  note run = skill_run_keeps [OF b(1), of ops]
  have look: "pending_look (fold skill_step ops d1) (skill_intent r') = Some q"
    using skill_run_pending [OF b(1) b(3) assms(3)] assms(5) by simp
  from run have i: "skill_invar (fold skill_step ops d1)" by blast
  from i assms(4) show ?thesis
  proof (cases rule: begin_cases)
    case same
    with look run show ?thesis by simp
  qed (use look in simp)
qed


section \<open>Initialization\<close>

lemma create_index_has: "create_index i ix d = Ok d' \<Longrightarrow> has_index d' i \<and> db_tables d' = db_tables d"
  by (auto simp: create_index_def has_index_def split: if_splits option.splits)

text \<open>Initializing the schema puts both constraints in place.\<close>

lemma init_schema_skill:
  assumes "init_schema f d = (Ok (), d')"
  shows "has_table d' ''skill_commands''" "has_index d' ''skill_commands_pending_intent''"
    "db_skill_commands d' = db_skill_commands d"
proof -
  from assms obtain i where "initialize_schema f d = (Ok i, d')"
    by (auto simp: init_schema_def split: prod.splits result.splits)
  then obtain d1 where c: "create_schema f d = Ok d1" and d': "d' = d1\<lparr>db_user_version := schema_version\<rparr>"
    by (rule initialize_schema_cases)
  from c obtain d2 where b: "run_batch init_skill_commands d2 = Ok d1"
    by (auto simp: create_schema_def split: if_splits result.splits)
  obtain td ix where e: "init_skill_commands = [CreateTable ''skill_commands'' td, CreateIndex ''skill_commands_pending_intent'' ix]"
    by (simp add: init_skill_commands_def)
  have ix: "create_index ''skill_commands_pending_intent'' ix (create_table ''skill_commands'' td d2) = Ok d1"
    using b [unfolded e] by (auto split: result.splits)
  have "has_table (create_table ''skill_commands'' td d2) ''skill_commands''" by (simp add: create_table_def has_table_def)
  with create_index_has [OF ix] show "has_table d' ''skill_commands''" "has_index d' ''skill_commands_pending_intent''"
    by (simp_all add: d' has_table_def has_index_def)
  show "db_skill_commands d' = db_skill_commands d" using init_schema_rows [OF assms] by (simp add: rows_of_def)
qed

definition skill_rows_ok :: "db \<Rightarrow> bool" where
  "skill_rows_ok d \<longleftrightarrow>
     distinct (map (skill_key \<circ> sw_record) (db_skill_commands d)) \<and>
     distinct (map (skill_intent \<circ> sw_record) (filter sw_pending (db_skill_commands d)))"

lemma init_schema_skill_invar: "init_schema f d = (Ok (), d') \<Longrightarrow> skill_rows_ok d \<Longrightarrow> skill_invar d'"
  by (simp add: skill_invar_def skill_rows_ok_def init_schema_skill)

lemma skill_invar_rows: "skill_invar d \<Longrightarrow> skill_rows_ok d"
  by (simp add: skill_invar_def skill_rows_ok_def)

section \<open>Rows through a sequence of operations\<close>

lemma rows_progress_record:
  "rows_progress old new \<Longrightarrow> row \<in> set old \<Longrightarrow> \<exists>row' \<in> set new. sw_record row' = sw_record row"
  by (auto simp: rows_progress_def row_progress_def in_set_conv_nth) (meson less_le_trans nth_mem)

lemma receive_Ok:
  assumes "receive_skill_command f r operation d = (Ok (), d')"
  shows "\<exists>row \<in> set (db_skill_commands d'). sw_record row = r \<and> \<not> sw_pending row \<and> sw_operation_id row = operation"
proof -
  let ?h = "\<lambda>row. if receivable r operation row then row\<lparr>sw_pending := False, sw_operation_id := operation\<rparr> else row"
  from assms have one: "length (filter (receivable r operation) (db_skill_commands d)) = 1"
    and d': "db_skill_commands d' = map ?h (db_skill_commands d)"
    by (auto simp: receive_skill_command_def Let_def split: if_splits)
  from one obtain row where "row \<in> set (filter (receivable r operation) (db_skill_commands d))"
    by (metis length_greater_0_conv less_numeral_extra(1) nth_mem)
  then have "?h row \<in> set (db_skill_commands d')" "sw_record row = r" "receivable r operation row"
    by (auto simp: d' receivable_def)
  then show ?thesis by (intro bexI [of _ "?h row"]) auto
qed

text \<open>Through \<open>skill_command_state\<close>: the operation runs on an initialized database with the same rows.\<close>

lemma skill_state_Ok:
  assumes "skill_command_state H f operation d = (Ok x, d')"
  obtains d0 where "init_schema f d = (Ok (), d0)" "operation d0 = (Ok x, d')"
  using assms by (auto simp: skill_command_state_def split: result.splits prod.splits)

lemma skill_state_receive:
  assumes "skill_command_state H f (receive_skill_command g r operation) d = (x, d')" and "skill_rows_ok d"
  shows "rows_progress (db_skill_commands d) (db_skill_commands d')"
proof -
  have rows: "db_skill_commands d0 = db_skill_commands d" if "init_schema f d = (y, d0)" for y d0
    using init_schema_rows [OF that] by (simp add: rows_of_def)
  from assms(1) consider "d' = d" | e where "init_schema f d = (Err e, d')"
    | d0 where "init_schema f d = (Ok (), d0)" "receive_skill_command g r operation d0 = (x, d')"
    by (auto simp: skill_command_state_def split: result.splits prod.splits)
  then show ?thesis
  proof cases
    case 3
    from receive_keeps(2) [OF init_schema_skill_invar [OF 3(1) assms(2)] 3(2)] rows [OF 3(1)] show ?thesis by simp
  qed (use rows in auto)
qed

section \<open>Witness\<close>

definition sample_command :: "string \<Rightarrow> skill_command_record" where
  "sample_command key =
     \<lparr>sk_server_url = ''https://s'', sk_user_id = sample_id 2, sk_intent_digest = replicate 64 (CHR ''a''),
      sk_idempotency_key = key, sk_request_json = ''1''\<rparr>"

definition skill_db :: db where
  "skill_db = snd (init_schema no_faults fresh_db)"

lemma skill_db_facts: "skill_invar skill_db" "db_skill_commands skill_db = []"
proof -
  have i: "init_schema no_faults fresh_db = (Ok (), skill_db)" by (simp add: skill_db_def init_schema_def initialize_fresh)
  show "skill_invar skill_db" by (rule init_schema_skill_invar [OF i]) (simp add: skill_rows_ok_def fresh_db_def)
  show "db_skill_commands skill_db = []" using init_schema_skill(3) [OF i] by (simp add: fresh_db_def)
qed

lemma begin_sample:
  "begin_skill_command no_faults (sample_command ''k1'') skill_db =
     (Ok (sample_command ''k1''), skill_db\<lparr>db_skill_commands :=
        [\<lparr>sw_record = sample_command ''k1'', sw_pending = True, sw_operation_id = None\<rparr>]\<rparr>)"
  using skill_db_facts
  by (auto simp: begin_skill_command_def sample_command_def insert_conflict_def pending_skill_command_def pending_for_def
      skill_owner_def skill_invar_def has_table_def Let_def)

theorem skill_intent_single_witness:
  "begin_skill_command no_faults (sample_command ''k2'')
     (snd (begin_skill_command no_faults (sample_command ''k1'') skill_db)) =
   (Ok (sample_command ''k1''), snd (begin_skill_command no_faults (sample_command ''k1'') skill_db))"
proof -
  let ?d = "skill_db\<lparr>db_skill_commands := [\<lparr>sw_record = sample_command ''k1'', sw_pending = True, sw_operation_id = None\<rparr>]\<rparr>"
  have i: "skill_invar ?d" using begin_keeps(1) [OF skill_db_facts(1) begin_sample] .
  then have "\<exists>q d2. begin_skill_command no_faults (sample_command ''k2'') ?d = (Ok q, d2)"
    by (simp add: begin_skill_command_def sample_command_def insert_conflict_def pending_skill_command_def pending_for_def
        skill_owner_def skill_invar_def skill_intent_def Let_def has_table_def)
  then obtain q d2 where b: "begin_skill_command no_faults (sample_command ''k2'') (fold skill_step [] ?d) = (Ok q, d2)" by auto
  have "skill_intent (sample_command ''k2'') = skill_intent (sample_command ''k1'')" by (simp add: skill_intent_def sample_command_def)
  from skill_intent_single [OF skill_db_facts(1) begin_sample _ b this] b begin_sample show ?thesis by simp
qed

end
