(* ===== verification/Skill_Requests.thy ===== *)
theory Skill_Requests
  imports Skill_Api Skill_Journal
begin

text \<open>
  The requests that are kept for exact recovery (\<open>skill_commands/requests.rs\<close>) and the plan of
  a deployment retry (\<open>skill_commands/retry_plan.rs\<close>): how a plan is selected from a failed
  operation, what makes a retained request acceptable, and what a receipt must show of it.
  The codec of requests stands for \<open>serde_json\<close>.
\<close>

section \<open>Retry plans\<close>

record attempt =
  at_number :: nat
  at_plan_digest :: string

record saved =
  sa_operation_id :: string
  sa_request :: skill_retry_request
  sa_attempts :: "attempt list"

definition saved_valid :: "crates \<Rightarrow> saved \<Rightarrow> (unit, failure) result" where
  "saved_valid X s =
     (if \<not> skill_canonical X (sa_operation_id s) \<or>
         ry_expected_generation (sa_request s) < 0 \<or>
         ry_idempotency_key (sa_request s) = [] \<or> length (ry_idempotency_key (sa_request s)) > 128 \<or>
         ry_targets (sa_request s) = [] \<or> length (ry_targets (sa_request s)) > 10000 \<or>
         length (ry_targets (sa_request s)) \<noteq> length (sa_attempts s)
      then Err (Bail ''invalid retained retry identity'')
      else ensure
        (distinct (map rt_account_id (ry_targets (sa_request s))) \<and>
         list_all (\<lambda>(t, a). skill_canonical X (rt_account_id t) \<and> skill_canonical X (rt_attempt_id t) \<and>
             at_number a \<noteq> 0 \<and> at_number a \<noteq> u64_max \<and> lower_hex64 (at_plan_digest a))
           (zip (ry_targets (sa_request s)) (sa_attempts s)))
        (Bail ''invalid retained retry selection''))"

text \<open>The selection loop: \<open>accounts\<close> are the accounts already seen.\<close>

fun retry_select ::
  "string list \<Rightarrow> skill_target list \<Rightarrow> ((skill_retry_target \<times> attempt) list, failure) result"
where
  "retry_select accounts [] = Ok []"
| "retry_select accounts (t # ts) =
     (if tg_account_id t \<in> set accounts then Err (Bail ''operation contains duplicate targets'')
      else if tg_retryable t \<noteq> Some True then retry_select (tg_account_id t # accounts) ts
      else if tg_node_id t = None \<or> tg_readiness t \<noteq> ''failed''
      then Err (Bail ''retry target has no original failed deployment'')
      else case tg_attempt_id t of
        None \<Rightarrow> Err (Bail ''attempt identity missing'')
      | Some attempt_id \<Rightarrow>
          (case tg_attempt_number t of
             None \<Rightarrow> Err (Bail ''attempt number missing'')
           | Some number \<Rightarrow>
               (case tg_plan_digest t of
                  None \<Rightarrow> Err (Bail ''original plan missing'')
                | Some digest \<Rightarrow>
                    (case retry_select (tg_account_id t # accounts) ts of
                       Err e \<Rightarrow> Err e
                     | Ok rest \<Rightarrow> Ok ((\<lparr>rt_account_id = tg_account_id t, rt_attempt_id = attempt_id\<rparr>,
                                      \<lparr>at_number = number, at_plan_digest = digest\<rparr>) # rest)))))"

text \<open>\<open>Saved::from_operation\<close>; \<open>key\<close> is the new random key, if randomness was available.\<close>

definition saved_from_operation ::
  "crates \<Rightarrow> string option \<Rightarrow> mutation_reply \<Rightarrow> (saved, failure) result" where
  "saved_from_operation X key r =
     (case se_data r of
        None \<Rightarrow> Err (Bail ''operation response missing'')
      | Some data \<Rightarrow>
          if \<not> se_committed r \<or> se_status r \<noteq> ''failed'' \<or> \<not> se_retryable r \<or> mu_replacement_id data \<noteq> None \<or>
             list_ex (\<lambda>t. tg_readiness t \<in> {''pending'', ''running'', ''needs_resolution''}) (mu_targets data)
          then Err (Bail ''original operation is not eligible for retry'')
          else (case retry_select [] (mu_targets data) of
                  Err e \<Rightarrow> Err e
                | Ok selected \<Rightarrow>
                    (case se_operation_id r of
                       None \<Rightarrow> Err (Bail ''operation identity missing'')
                     | Some operation_id \<Rightarrow>
                         (case key of
                            None \<Rightarrow> Err (Bail ''random command identity unavailable'')
                          | Some k \<Rightarrow>
                              let s = \<lparr>sa_operation_id = operation_id,
                                       sa_request = \<lparr>ry_idempotency_key = k, ry_expected_generation = mu_generation data,
                                         ry_targets = map fst selected\<rparr>,
                                       sa_attempts = map snd selected\<rparr>
                              in (case saved_valid X s of Err e \<Rightarrow> Err e | Ok _ \<Rightarrow> Ok s)))))"

definition successor :: "skill_target \<Rightarrow> skill_retry_target \<Rightarrow> attempt \<Rightarrow> bool" where
  "successor t selected original \<longleftrightarrow>
     tg_plan_digest t = Some (at_plan_digest original) \<and>
     is_some_and (\<lambda>n. at_number original < n) (tg_attempt_number t) \<and>
     is_some_and (\<lambda>i. i \<noteq> rt_attempt_id selected) (tg_attempt_id t)"

fun check_successors ::
  "skill_target list \<Rightarrow> (skill_retry_target \<times> attempt) list \<Rightarrow> (unit, failure) result" where
  "check_successors targets [] = Ok ()"
| "check_successors targets ((selected, original) # rest) =
     (case find (\<lambda>t. tg_account_id t = rt_account_id selected) targets of
        None \<Rightarrow> Err (Bail ''retry receipt omits selected target'')
      | Some t \<Rightarrow>
          if \<not> successor t selected original
          then Err (Bail ''retry receipt does not observe an original-plan successor'')
          else check_successors targets rest)"

definition saved_validate_receipt :: "saved \<Rightarrow> mutation_reply \<Rightarrow> (unit, failure) result" where
  "saved_validate_receipt s r =
     (case se_data r of
        None \<Rightarrow> Ok ()
      | Some data \<Rightarrow>
          if \<not> se_committed r \<or> se_operation_id r \<noteq> Some (sa_operation_id s) \<or>
             mu_generation data \<noteq> ry_expected_generation (sa_request s)
          then Err (Bail ''retry receipt differs from original operation'')
          else if \<not> distinct (map tg_account_id (mu_targets data))
          then Err (Bail ''retry receipt contains duplicate targets'')
          else check_successors (mu_targets data) (zip (ry_targets (sa_request s)) (sa_attempts s)))"

section \<open>Requests\<close>

datatype skill_request =
    Rule skill_mutation_request
  | Add skill_add_request
  | Update_skill skill_update_request
  | Retry saved

fun request_key :: "skill_request \<Rightarrow> string" where
  "request_key (Rule r) = mq_idempotency_key r"
| "request_key (Add r) = aq_idempotency_key r"
| "request_key (Update_skill r) = uq_idempotency_key r"
| "request_key (Retry r) = ry_idempotency_key (sa_request r)"

fun request_generation :: "skill_request \<Rightarrow> int" where
  "request_generation (Rule r) = mq_expected_generation r"
| "request_generation (Add r) = aq_expected_generation r"
| "request_generation (Update_skill r) = uq_expected_generation r"
| "request_generation (Retry r) = ry_expected_generation (sa_request r)"

fun request_object_id :: "skill_request \<Rightarrow> string option" where
  "request_object_id (Rule r) = Some (mq_skill r)"
| "request_object_id (Add _) = None"
| "request_object_id (Update_skill r) = Some (uq_skill r)"
| "request_object_id (Retry r) = Some (sa_operation_id r)"

fun is_retry :: "skill_request \<Rightarrow> bool" where
  "is_retry (Retry _) = True"
| "is_retry _ = False"

fun retained_kind :: "crates \<Rightarrow> skill_request \<Rightarrow> (unit, failure) result" where
  "retained_kind X (Retry s) = saved_valid X s"
| "retained_kind X (Rule r) = ensure (uuid_parse X (mq_skill r) \<noteq> None) (Bail ''invalid retained skill identity'')"
| "retained_kind X (Add r) =
     ensure (aq_items r \<noteq> [] \<and> length (aq_items r) \<le> 100) (Bail ''invalid retained installation selection'')"
| "retained_kind X (Update_skill r) = ensure (uuid_parse X (uq_skill r) \<noteq> None) (Bail ''invalid retained update identity'')"

definition retained :: "crates \<Rightarrow> skill_request codec \<Rightarrow> skill_command_record \<Rightarrow> (skill_request, failure) result" where
  "retained X c r =
     (case from_json c (sk_request_json r) of
        None \<Rightarrow> Err JsonErr
      | Some q \<Rightarrow>
          if request_key q \<noteq> sk_idempotency_key r \<or> request_generation q < 0 \<or>
             request_generation q = i64_max \<and> \<not> is_retry q
          then Err (Bail ''retained skill request identity differs'')
          else (case to_json c q of
                  None \<Rightarrow> Err JsonErr
                | Some text \<Rightarrow>
                    if text \<noteq> sk_request_json r then Err (Bail ''retained skill request identity differs'')
                    else (case retained_kind X q of Err e \<Rightarrow> Err e | Ok _ \<Rightarrow> Ok q)))"

fun same_intent_kind :: "skill_request \<Rightarrow> skill_request \<Rightarrow> bool" where
  "same_intent_kind (Retry a) (Retry b) \<longleftrightarrow> sa_operation_id a = sa_operation_id b"
| "same_intent_kind (Rule a) (Rule b) \<longleftrightarrow> mq_change a = mq_change b"
| "same_intent_kind (Add a) (Add b) \<longleftrightarrow> aq_scope a = aq_scope b \<and> aq_scope_explicit a = aq_scope_explicit b"
| "same_intent_kind (Update_skill a) (Update_skill b) \<longleftrightarrow>
     uq_skill a = uq_skill b \<and> uq_stage a = uq_stage b \<and> uq_switch_tracking a = uq_switch_tracking b"
| "same_intent_kind _ _ \<longleftrightarrow> False"

fun send_request ::
  "crates \<Rightarrow> mutation_reply decoders \<Rightarrow> skill_net \<Rightarrow> skill_request \<Rightarrow> (mutation_reply, api_error) result \<times> skill_http list"
where
  "send_request X D net (Rule r) = change_skill X D net r"
| "send_request X D net (Add r) = install_skills X D net r"
| "send_request X D net (Update_skill r) = update_skill X D net r"
| "send_request X D net (Retry s) = retry_skill X D net (sa_operation_id s) (sa_request s)"

fun lookup_request ::
  "crates \<Rightarrow> mutation_reply decoders \<Rightarrow> skill_net \<Rightarrow> skill_request \<Rightarrow> (mutation_reply, api_error) result \<times> skill_http list"
where
  "lookup_request X D net (Retry s) =
     skill_retry_by_key X D net (sa_operation_id s) (ry_idempotency_key (sa_request s))"
| "lookup_request X D net q = skill_operation_by_key X D net (request_key q)"

fun receipt_kind_ok :: "crates \<Rightarrow> skill_request \<Rightarrow> skill_mutation \<Rightarrow> bool" where
  "receipt_kind_ok X (Rule r) data \<longleftrightarrow> mu_skill_ids data = [mq_skill r]"
| "receipt_kind_ok X (Update_skill r) data \<longleftrightarrow>
     mu_skill_ids data = [uq_skill r] \<and> length (mu_revision_ids data) = 1 \<and>
     list_all (\<lambda>i. uuid_parse X i \<noteq> None) (mu_revision_ids data)"
| "receipt_kind_ok X (Add r) data \<longleftrightarrow>
     card (set (mu_skill_ids data)) = length (aq_items r) \<and>
     length (mu_skill_ids data) = length (aq_items r) \<and>
     length (mu_revision_ids data) = length (aq_items r) \<and>
     list_all (\<lambda>i. uuid_parse X i \<noteq> None) (mu_skill_ids data @ mu_revision_ids data)"
| "receipt_kind_ok X (Retry s) data \<longleftrightarrow> True"

fun receipt_mismatch :: "skill_request \<Rightarrow> string" where
  "receipt_mismatch (Rule _) = ''skill receipt identity differs from retained plan''"
| "receipt_mismatch (Update_skill _) = ''update receipt differs from retained skill/revision''"
| "receipt_mismatch _ = ''installation receipt differs from retained selection''"

fun validate_skill_receipt :: "crates \<Rightarrow> skill_request \<Rightarrow> mutation_reply \<Rightarrow> (unit, failure) result" where
  "validate_skill_receipt X (Retry s) r = saved_validate_receipt s r"
| "validate_skill_receipt X q r =
     (case se_data r of
        None \<Rightarrow> Ok ()
      | Some data \<Rightarrow>
          if checked_add_i64 (request_generation q) (of_bool (mu_changed data)) \<noteq> Some (mu_generation data)
          then Err (Bail ''skill receipt generation differs from retained plan'')
          else ensure (receipt_kind_ok X q data) (Bail (receipt_mismatch q)))"


section \<open>Properties of retry plans\<close>

text \<open>What is planned for a target that can be retried.\<close>

definition planned :: "skill_target \<Rightarrow> skill_retry_target \<times> attempt" where
  "planned t =
     (\<lparr>rt_account_id = tg_account_id t, rt_attempt_id = the (tg_attempt_id t)\<rparr>,
      \<lparr>at_number = the (tg_attempt_number t), at_plan_digest = the (tg_plan_digest t)\<rparr>)"

definition ended_failed :: "skill_target \<Rightarrow> bool" where
  "ended_failed t \<longleftrightarrow> tg_node_id t \<noteq> None \<and> tg_readiness t = ''failed'' \<and> tg_attempt_id t \<noteq> None \<and>
     tg_attempt_number t \<noteq> None \<and> tg_plan_digest t \<noteq> None"

lemma retry_select_Ok:
  "retry_select accounts ts = Ok selected \<Longrightarrow>
     selected = map planned (filter (\<lambda>t. tg_retryable t = Some True) ts) \<and>
     distinct (map tg_account_id ts) \<and> set accounts \<inter> tg_account_id ` set ts = {} \<and>
     list_all ended_failed (filter (\<lambda>t. tg_retryable t = Some True) ts)"
proof (induction accounts ts arbitrary: selected rule: retry_select.induct)
  case (2 accounts t ts)
  from "2.prems" have new: "tg_account_id t \<notin> set accounts" by (auto split: if_splits)
  show ?case
  proof (cases "tg_retryable t = Some True")
    case False
    with "2.prems" new "2.IH"(1) [of selected] show ?thesis by auto
  next
    case True
    with "2.prems" new obtain rest where e: "ended_failed t" "retry_select (tg_account_id t # accounts) ts = Ok rest"
      "selected = planned t # rest"
      by (auto simp: ended_failed_def planned_def split: if_splits option.splits result.splits)
    from e(1) obtain a n p where "tg_attempt_id t = Some a" "tg_attempt_number t = Some n" "tg_plan_digest t = Some p"
      "tg_node_id t \<noteq> None" "tg_readiness t = ''failed''"
      by (auto simp: ended_failed_def)
    with "2.IH"(2) [OF new _ _ _ _ _ e(2)] True e new show ?thesis by auto
  qed
qed simp

lemma check_successors_Ok:
  "check_successors targets plan = Ok () \<Longrightarrow> (selected, original) \<in> set plan \<Longrightarrow>
     \<exists>t \<in> set targets. tg_account_id t = rt_account_id selected \<and> successor t selected original"
  by (induction targets plan rule: check_successors.induct)
    (auto split: option.splits if_splits simp: find_Some_iff)


lemma saved_receipt_Ok:
  assumes "saved_validate_receipt s r = Ok ()" and "se_data r = Some data"
  shows "se_committed r" "se_operation_id r = Some (sa_operation_id s)"
    "check_successors (mu_targets data) (zip (ry_targets (sa_request s)) (sa_attempts s)) = Ok ()"
  using assms by (auto simp: saved_validate_receipt_def split: if_splits)

text \<open>
  A retry is for exactly the deployments that ended in a transient failure: the plan holds
  every target the failed operation marks as retryable, each with its own account, attempt and
  plan, and no other; and a reply counts as its receipt only if it is of the same operation
  and shows, for every planned target, a later attempt of the same plan with another id. In
  particular the reply the plan was made from is never taken for its receipt.
\<close>

lemma retry_plan_exact:
  assumes "saved_from_operation X key r = Ok s"
  defines "retryable \<equiv> filter (\<lambda>t. tg_retryable t = Some True)"
  shows "\<exists>data. se_data r = Some data \<and> se_committed r \<and> se_status r = ''failed'' \<and>
    retryable (mu_targets data) \<noteq> [] \<and> list_all ended_failed (retryable (mu_targets data)) \<and>
    zip (ry_targets (sa_request s)) (sa_attempts s) = map planned (retryable (mu_targets data)) \<and>
    (\<forall>r' data'. saved_validate_receipt s r' = Ok () \<longrightarrow> se_data r' = Some data' \<longrightarrow>
       se_operation_id r' = se_operation_id r \<and>
       (\<forall>t \<in> set (retryable (mu_targets data)). \<exists>t' \<in> set (mu_targets data').
          tg_account_id t' = tg_account_id t \<and> tg_plan_digest t' = tg_plan_digest t \<and>
          the (tg_attempt_number t) < the (tg_attempt_number t') \<and> tg_attempt_id t' \<noteq> tg_attempt_id t)) \<and>
    saved_validate_receipt s r \<noteq> Ok ()"
proof -
  from assms(1) obtain data selected where d: "se_data r = Some data" "se_committed r" "se_status r = ''failed''"
    and sel: "retry_select [] (mu_targets data) = Ok selected"
    and s: "se_operation_id r = Some (sa_operation_id s)" "ry_targets (sa_request s) = map fst selected"
      "sa_attempts s = map snd selected" and v: "saved_valid X s = Ok ()"
    by (auto simp: saved_from_operation_def Let_def split: option.splits if_splits result.splits)
  note q = retry_select_Ok [OF sel]
  have plan: "zip (ry_targets (sa_request s)) (sa_attempts s) = map planned (retryable (mu_targets data))"
    unfolding s zip_map_fst_snd using q by (simp add: retryable_def)
  have ne: "retryable (mu_targets data) \<noteq> []" using v s q by (auto simp: saved_valid_def retryable_def split: if_splits)
  have later: "\<exists>t' \<in> set (mu_targets data'). tg_account_id t' = tg_account_id t \<and> tg_plan_digest t' = tg_plan_digest t \<and>
      the (tg_attempt_number t) < the (tg_attempt_number t') \<and> tg_attempt_id t' \<noteq> tg_attempt_id t"
    if ok: "saved_validate_receipt s r' = Ok ()" "se_data r' = Some data'" and t: "t \<in> set (retryable (mu_targets data))" for r' data' t
  proof -
    have "ended_failed t" using q t by (simp add: list_all_iff retryable_def)
    moreover obtain a b where "planned t = (a, b)" "(a, b) \<in> set (zip (ry_targets (sa_request s)) (sa_attempts s))"
      using t plan by (metis image_eqI list.set_map prod.collapse)
    moreover from this check_successors_Ok [OF saved_receipt_Ok(3) [OF ok]]
    obtain t' where "t' \<in> set (mu_targets data')" "tg_account_id t' = rt_account_id a" "successor t' a b" by blast
    ultimately show ?thesis
      by (intro bexI [of _ t']) (auto simp: planned_def successor_def ended_failed_def is_some_and_def split: option.splits)
  qed
  have "saved_validate_receipt s r \<noteq> Ok ()"
  proof
    assume ok: "saved_validate_receipt s r = Ok ()"
    from ne obtain t where t: "t \<in> set (retryable (mu_targets data))" by (meson ex_in_conv set_empty)
    from later [OF ok d(1) t] obtain t' where t': "t' \<in> set (mu_targets data)" "tg_account_id t' = tg_account_id t"
      "the (tg_attempt_number t) < the (tg_attempt_number t')" by blast
    have "t' = t" using q t t'(1,2) by (auto simp: retryable_def distinct_map inj_on_def)
    with t'(3) show False by simp
  qed
  with d plan ne q later s saved_receipt_Ok(2) show ?thesis by (auto simp: retryable_def)
qed


definition failed_target :: skill_target where
  "failed_target =
     \<lparr>tg_account_id = sample_id 3, tg_node_id = Some (sample_id 4), tg_readiness = ''failed'',
      tg_deploy_on_first_use = False, tg_error_code = Some ''NODE_UNAVAILABLE'',
      tg_plan_digest = Some (replicate 64 (CHR ''a'')), tg_attempt_id = Some (sample_id 5),
      tg_attempt_number = Some 1, tg_retryable = Some True\<rparr>"

definition failed_operation :: mutation_reply where
  "failed_operation =
     \<lparr>se_schema_version = 1, se_operation_id = Some (sample_id 2), se_status = ''failed'', se_committed = True,
      se_retryable = True,
      se_data = Some \<lparr>mu_generation = 4, mu_skill_ids = [], mu_revision_ids = [], mu_changed = True, mu_warnings = [],
        mu_targets = [failed_target], mu_replacement_id = None\<rparr>,
      se_errors = []\<rparr>"

lemma sample_canonical: "canonical_uuid X v \<Longrightarrow> skill_canonical X v"
  by (auto simp: canonical_uuid_def skill_canonical_def split: option.splits)

lemma retry_sample:
  "is_ok (saved_from_operation sample_crates (Some ''skill-1'') failed_operation)"
proof -
  have "skill_canonical sample_crates (sample_id n)" if "2 \<le> n" "n < 10" for n
    using that by (intro sample_canonical) simp
  then show ?thesis
    by (simp add: saved_from_operation_def failed_operation_def failed_target_def Let_def saved_valid_def u64_max_def
        lower_hex64_def list_all_iff ensure_def)
qed

end
