(* ===== verification/Skill_Acceptance.thy ===== *)
theory Skill_Acceptance
  imports Skill_Requests
begin

text \<open>
  Accepting a Skill change (\<open>skill_commands/acceptance.rs\<close>) and waiting for its deployment
  (\<open>skill_commands.rs\<close>). A change is begun in the journal, submitted up to three times under
  one idempotency key with a lookup of that key before every repetition, received in the
  journal and then observed until it ends. Answers may differ from one request to the next, so
  the network is a function of the number of requests made before.
\<close>

section \<open>Outcomes\<close>

definition retryable_transport :: "api_error \<Rightarrow> bool" where
  "retryable_transport e \<longleftrightarrow>
     ae_code e \<noteq> Some ''INVALID_SKILL_RESPONSE'' \<and> is_none_or (\<lambda>s. s \<ge> 500) (ae_status e)"

definition failed_statuses :: "string list" where
  "failed_statuses = [''failed'', ''conflict'', ''conflicted'', ''needs_resolution'', ''superseded'', ''cancelled'']"

definition pending_statuses :: "string list" where
  "pending_statuses = [''pending'', ''accepted'', ''preparing'', ''running'', ''upload_pending'', ''migration_pending'']"

definition final_statuses :: "string list" where
  "final_statuses = [''stored'', ''ready'', ''succeeded'', ''completed'', ''published'']"

definition operation_exit :: "mutation_reply \<Rightarrow> int" where
  "operation_exit r =
     (case se_data r of
        None \<Rightarrow> 1
      | Some data \<Rightarrow>
          if se_status r \<notin> set (failed_statuses @ pending_statuses @ final_statuses) then 1
          else if se_errors r \<noteq> [] \<or> mu_replacement_id data \<noteq> None \<or> se_status r \<in> set failed_statuses \<or>
             list_ex (\<lambda>t. tg_readiness t \<in> {''failed'', ''unsupported'', ''needs_resolution''}) (mu_targets data)
          then 1
          else if list_ex (\<lambda>t. tg_readiness t \<notin> {''pending'', ''stored'', ''ready''}) (mu_targets data) then 1
          else if se_status r \<in> set pending_statuses \<or> list_ex (\<lambda>t. tg_readiness t = ''pending'') (mu_targets data)
          then 3
          else if se_committed r \<and> se_status r \<in> set final_statuses then 0 else 1)"

section \<open>Waiting\<close>

text \<open>
  A round of the wait: the interrupt arrives (or listening for it fails), the deadline passes,
  or the status request is answered.
\<close>

datatype status_round = StatusSignal bool | StatusDeadline | StatusAnswer "(http_response, api_error) result"

fun wait_status ::
  "crates \<Rightarrow> mutation_reply decoders \<Rightarrow> bool \<Rightarrow> string option \<Rightarrow> status_round list \<Rightarrow> mutation_reply \<Rightarrow>
     (mutation_reply \<times> int, failure) result option"
where
  "wait_status X D wait operation_id rounds r =
     (let state = operation_exit r in
      if \<not> wait \<or> state \<noteq> 3 then Some (Ok (r, if state = 3 then 0 else state))
      else case rounds of
        [] \<Rightarrow> None
      | StatusDeadline # _ \<Rightarrow> Some (Ok (r, 3))
      | StatusSignal listening # _ \<Rightarrow> Some (if listening then Ok (r, 130) else Err (IoErr IoOther))
      | StatusAnswer outcome # rest \<Rightarrow>
          (case operation_id of
             None \<Rightarrow> Some (Err (Bail ''pending operation lacks an ID''))
           | Some original_id \<Rightarrow>
               (case skill_status X D outcome original_id of
                  Ok updated \<Rightarrow>
                    if se_data updated = None
                    then Some (Ok (r\<lparr>se_errors := se_errors r @ se_errors updated\<rparr>, 1))
                    else wait_status X D wait operation_id rest updated
                | Err e \<Rightarrow>
                    if retryable_transport e then wait_status X D wait operation_id rest r
                    else Some (Ok (r\<lparr>se_errors := se_errors r @
                      [\<lparr>sx_code = (case ae_code e of None \<Rightarrow> ''SKILL_QUERY_FAILED'' | Some c \<Rightarrow> c),
                        sx_message = ''Status refresh failed; data contains the last observed operation state.'',
                        sx_object_id = se_operation_id r, sx_details = []\<rparr>]\<rparr>, 1)))))"

declare wait_status.simps [simp del]

section \<open>Submission\<close>

type_synonym skill_network = "nat \<Rightarrow> skill_net"

text \<open>\<open>submit\<close>; \<open>n\<close> attempts remain, \<open>log\<close> are the requests made so far.\<close>

fun submit_skill ::
  "crates \<Rightarrow> mutation_reply decoders \<Rightarrow> skill_network \<Rightarrow> skill_request \<Rightarrow> nat \<Rightarrow> bool \<Rightarrow> skill_http list \<Rightarrow>
     (mutation_reply, failure) result \<times> skill_http list"
where
  "submit_skill X D net q 0 recovering log = (Err (Bail ''skill acceptance could not be confirmed''), log)"
| "submit_skill X D net q (Suc n) recovering log =
     (let (looked, log1) = (if recovering
            then (case lookup_request X D (net (length log)) q of (x, sent) \<Rightarrow> (Some x, log @ sent))
            else (None, log));
          post = (case send_request X D (net (length log1)) q of
              (Ok r, sent) \<Rightarrow>
                ((case validate_skill_receipt X q r of Err e \<Rightarrow> Err e | Ok _ \<Rightarrow> Ok r), log1 @ sent)
            | (Err e, sent) \<Rightarrow>
                if retryable_transport e \<and> n > 0 then submit_skill X D net q n True (log1 @ sent)
                else (Err (ApiErr e), log1 @ sent))
      in case looked of
           None \<Rightarrow> post
         | Some (Ok r) \<Rightarrow>
             if se_data r \<noteq> None
             then ((case validate_skill_receipt X q r of Err e \<Rightarrow> Err e | Ok _ \<Rightarrow> Ok r), log1)
             else (case se_errors r of
                     [e] \<Rightarrow> if sx_code e = ''OPERATION_NOT_FOUND'' then post
                           else (Err (Bail ''original skill operation lookup was rejected''), log1)
                   | _ \<Rightarrow> (Err (Bail ''original skill operation lookup was rejected''), log1))
         | Some (Err e) \<Rightarrow>
             if retryable_transport e \<and> n > 0 then submit_skill X D net q n recovering log1
             else (Err (ApiErr e), log1))"

declare submit_skill.simps [simp del]


section \<open>Acceptance\<close>

text \<open>The storage failures of an acceptance: initializing and beginning, initializing and receiving.\<close>

record skill_faults =
  kf_init :: faults
  kf_begin :: faults
  kf_init_again :: faults
  kf_receive :: faults

definition public_code :: "string \<Rightarrow> bool" where
  "public_code code \<longleftrightarrow>
     length code \<le> 80 \<and> list_all (\<lambda>b. is_ascii_uppercase b \<or> is_ascii_digit b \<or> b = CHR ''_'') code"

definition unknown_reply :: "skill_request \<Rightarrow> failure \<Rightarrow> bool \<Rightarrow> mutation_reply" where
  "unknown_reply q error interrupted =
     (let cause = (case error of ApiErr e \<Rightarrow> Some e | _ \<Rightarrow> None) in
      \<lparr>se_schema_version = 1, se_operation_id = None, se_status = ''unknown'', se_committed = False,
       se_retryable = is_some_and retryable_transport cause, se_data = None,
       se_errors =
         [\<lparr>sx_code =
             (case Option.bind cause ae_code of
                Some code \<Rightarrow> if public_code code then code
                            else if interrupted then ''SKILL_INTERRUPTED'' else ''SKILL_RESULT_UNKNOWN''
              | None \<Rightarrow> if interrupted then ''SKILL_INTERRUPTED'' else ''SKILL_RESULT_UNKNOWN''),
           sx_message = ''Acceptance could not be confirmed. Restore user login/connectivity, then repeat this command or use skill status --last.'',
           sx_object_id = request_object_id q,
           sx_details = [(''commit_state'', JString ''unknown''), (''idempotency_key'', JString (request_key q))]\<rparr>]\<rparr>)"

definition receipt_pending :: "mutation_reply \<Rightarrow> mutation_reply" where
  "receipt_pending r = r\<lparr>se_errors := se_errors r @
     [\<lparr>sx_code = ''LOCAL_RECEIPT_PENDING'',
       sx_message = ''Server result is shown, but local receipt persistence failed. Repeat the same command to recover it.'',
       sx_object_id = se_operation_id r, sx_details = []\<rparr>]\<rparr>"

text \<open>
  The submission races with the interrupt: \<open>Some (k, listening)\<close> is an interrupt after \<open>k\<close>
  requests were made, the last of them perhaps still unanswered; it comes too late when the
  submission has made fewer. \<open>listening\<close> is false when waiting for the signal itself failed.
\<close>

definition race ::
  "(nat \<times> bool) option \<Rightarrow> (mutation_reply, failure) result \<times> skill_http list \<Rightarrow>
     ((mutation_reply, failure) result \<times> bool, failure) result \<times> skill_http list" where
  "race stop submission =
     (case submission of (submitted, log) \<Rightarrow>
        case stop of
          None \<Rightarrow> (Ok (submitted, False), log)
        | Some (k, listening) \<Rightarrow>
            if k > length log then (Ok (submitted, False), log)
            else if listening then (Ok (Err (Bail ''acceptance interrupted''), True), take k log)
            else (Err (IoErr IoOther), take k log))"

text \<open>
  \<open>execute_result\<close>. \<open>other\<close> is what other processes do to the journal while the request is on
  its way; \<open>cancelled\<close> whether the interrupt has arrived by the time the receipt is stored.
\<close>

definition finish_acceptance ::
  "crates \<Rightarrow> mutation_reply decoders \<Rightarrow> bool \<Rightarrow> status_round list \<Rightarrow> bool \<Rightarrow> mutation_reply \<Rightarrow>
     (mutation_reply \<times> int, failure) result option" where
  "finish_acceptance X D cancelled rounds no_wait r =
     (if cancelled then Some (Ok (r, 130))
      else
        let code = operation_exit r in
        if code = 3 \<and> no_wait \<and> se_committed r then Some (Ok (r, 0))
        else if code = 3 then wait_status X D True (se_operation_id r) rounds r
        else Some (Ok (r, code)))"

definition execute_result ::
  "crates \<Rightarrow> skill_request codec \<Rightarrow> mutation_reply decoders \<Rightarrow> host \<Rightarrow> skill_network \<Rightarrow> skill_faults \<Rightarrow> (db \<Rightarrow> db) \<Rightarrow>
     (nat \<times> bool) option \<Rightarrow> bool \<Rightarrow> status_round list \<Rightarrow> skill_command_record \<Rightarrow> bool \<Rightarrow> bool \<Rightarrow> db \<Rightarrow>
     (mutation_reply \<times> int, failure) result option \<times> db \<times> skill_http list" where
  "execute_result X c D H net F other stop cancelled rounds proposed recovering no_wait d =
     (case retained X c proposed of
        Err e \<Rightarrow> (Some (Err e), d, [])
      | Ok proposed_request \<Rightarrow>
          (case skill_command_state H (kf_init F) (begin_skill_command (kf_begin F) proposed) d of
             (Err e, d1) \<Rightarrow> (Some (Err e), d1, [])
           | (Ok record, d1) \<Rightarrow>
               (case retained X c record of
                  Err e \<Rightarrow> (Some (Err e), d1, [])
                | Ok q \<Rightarrow>
                    if \<not> same_intent_kind q proposed_request
                    then (Some (Err (Bail ''retained request kind differs'')), d1, [])
                    else
                      let recovered = recovering \<or> sk_idempotency_key record \<noteq> sk_idempotency_key proposed in
                      (case race stop (submit_skill X D net q 3 recovered []) of
                         (Err e, log) \<Rightarrow> (Some (Err e), other d1, log)
                       | (Ok (Err e, interrupted), log) \<Rightarrow>
                           (Some (Ok (unknown_reply q e interrupted, if interrupted then 130 else 1)), other d1, log)
                       | (Ok (Ok r, interrupted), log) \<Rightarrow>
                           (case skill_command_state H (kf_init_again F)
                               (receive_skill_command (kf_receive F) record (se_operation_id r)) (other d1) of
                              (x, d2) \<Rightarrow>
                                (finish_acceptance X D cancelled rounds no_wait (if is_ok x then r else receipt_pending r),
                                 d2, log))))))"

section \<open>Properties of the submission\<close>

fun is_skill_post :: "skill_http \<Rightarrow> bool" where
  "is_skill_post (SkillPost _ _) = True"
| "is_skill_post (SkillGet _ _) = False"

fun request_payload :: "skill_request \<Rightarrow> skill_payload" where
  "request_payload (Rule r) = RulePayload r"
| "request_payload (Add r) = AddPayload r"
| "request_payload (Update_skill r) = UpdatePayload r"
| "request_payload (Retry s) = RetryPayload (sa_request s)"

text \<open>The server does not know the key: the only answer that allows a repetition.\<close>

definition key_unknown :: "crates \<Rightarrow> mutation_reply decoders \<Rightarrow> skill_net \<Rightarrow> skill_request \<Rightarrow> bool" where
  "key_unknown X D net q =
     (case fst (lookup_request X D net q) of
        Err _ \<Rightarrow> False
      | Ok r \<Rightarrow> se_data r = None \<and> map sx_code (se_errors r) = [''OPERATION_NOT_FOUND''])"

text \<open>
  The discipline of a submission as an automaton over its requests: a POST is allowed only
  when nothing is in doubt, leaves its outcome in doubt, and only a lookup that finds the key
  unknown removes the doubt.
\<close>

fun disciplined ::
  "crates \<Rightarrow> mutation_reply decoders \<Rightarrow> skill_network \<Rightarrow> skill_request \<Rightarrow> bool \<Rightarrow> nat \<Rightarrow> skill_http list \<Rightarrow> bool"
where
  "disciplined X D net q doubt i [] = True"
| "disciplined X D net q doubt i (SkillPost path p # hs) =
     (\<not> doubt \<and> p = request_payload q \<and> disciplined X D net q True (Suc i) hs)"
| "disciplined X D net q doubt i (SkillGet path query # hs) =
     (query = [(''key'', request_key q)] \<and> disciplined X D net q (\<not> key_unknown X D (net i) q) (Suc i) hs)"


lemma invalid_not_retryable [simp]: "\<not> retryable_transport invalid_skill_response"
  by (simp add: retryable_transport_def invalid_skill_response_def)

lemma send_request_shape:
  "(\<exists>path. snd (send_request X D net q) = [SkillPost path (request_payload q)]) \<or>
     send_request X D net q = (Err invalid_skill_response, [])"
  by (cases q) (auto simp: change_skill_def install_skills_def update_skill_def retry_skill_def retry_call_def
      mutation_call_def Let_def split: option.splits)

lemma lookup_request_shape:
  "(\<exists>path. snd (lookup_request X D net q) = [SkillGet path [(''key'', request_key q)]]) \<or>
     lookup_request X D net q = (Err invalid_skill_response, [])"
  by (cases q) (auto simp: skill_operation_by_key_def skill_retry_by_key_def retry_call_def
      mutation_call_def Let_def split: option.splits)

text \<open>What one submission may do: extend the log by disciplined requests with at most \<open>n\<close> POSTs.\<close>

definition submission_ok ::
  "crates \<Rightarrow> mutation_reply decoders \<Rightarrow> skill_network \<Rightarrow> skill_request \<Rightarrow> nat \<Rightarrow> bool \<Rightarrow> skill_http list \<Rightarrow>
     (mutation_reply, failure) result \<times> skill_http list \<Rightarrow> bool" where
  "submission_ok X D net q n doubt log out \<longleftrightarrow>
     (\<exists>hs. snd out = log @ hs \<and> disciplined X D net q doubt (length log) hs \<and>
        length (filter is_skill_post hs) \<le> n \<and> (\<forall>r. fst out = Ok r \<longrightarrow> validate_skill_receipt X q r = Ok ()))"

lemma submission_ok_same: "(\<forall>r. x = Ok r \<longrightarrow> validate_skill_receipt X q r = Ok ()) \<Longrightarrow> submission_ok X D net q n doubt log (x, log)"
  by (auto simp: submission_ok_def)

lemma submission_ok_post:
  assumes "submission_ok X D net q n True (log @ [SkillPost path (request_payload q)]) out"
  shows "submission_ok X D net q (Suc n) False log out"
proof -
  from assms obtain hs where hs: "snd out = log @ SkillPost path (request_payload q) # hs"
    "disciplined X D net q True (Suc (length log)) hs" "length (filter is_skill_post hs) \<le> n"
    "\<forall>r. fst out = Ok r \<longrightarrow> validate_skill_receipt X q r = Ok ()" by (auto simp: submission_ok_def)
  then show ?thesis unfolding submission_ok_def
    by (intro exI [of _ "SkillPost path (request_payload q) # hs"]) auto
qed

lemma submission_ok_get:
  assumes "submission_ok X D net q n doubt' (log @ [SkillGet path [(''key'', request_key q)]]) out"
    and "doubt' = (\<not> key_unknown X D (net (length log)) q)"
  shows "submission_ok X D net q n doubt log out"
proof -
  from assms obtain hs where hs: "snd out = log @ SkillGet path [(''key'', request_key q)] # hs"
    "disciplined X D net q (\<not> key_unknown X D (net (length log)) q) (Suc (length log)) hs"
    "length (filter is_skill_post hs) \<le> n"
    "\<forall>r. fst out = Ok r \<longrightarrow> validate_skill_receipt X q r = Ok ()" by (auto simp: submission_ok_def)
  then show ?thesis unfolding submission_ok_def
    by (intro exI [of _ "SkillGet path [(''key'', request_key q)] # hs"]) auto
qed

lemma submission_ok_more: "submission_ok X D net q n doubt log out \<Longrightarrow> submission_ok X D net q (Suc n) doubt log out"
  by (auto simp: submission_ok_def)


definition post_part ::
  "crates \<Rightarrow> mutation_reply decoders \<Rightarrow> skill_network \<Rightarrow> skill_request \<Rightarrow> nat \<Rightarrow> skill_http list \<Rightarrow>
     (mutation_reply, failure) result \<times> skill_http list" where
  "post_part X D net q n log =
     (case send_request X D (net (length log)) q of
        (Ok r, sent) \<Rightarrow> ((case validate_skill_receipt X q r of Err e \<Rightarrow> Err e | Ok _ \<Rightarrow> Ok r), log @ sent)
      | (Err e, sent) \<Rightarrow>
          if retryable_transport e \<and> n > 0 then submit_skill X D net q n True (log @ sent)
          else (Err (ApiErr e), log @ sent))"

lemma submit_skill_False: "submit_skill X D net q (Suc n) False log = post_part X D net q n log"
  by (simp add: submit_skill.simps(2) post_part_def)

lemma submit_skill_True:
  "submit_skill X D net q (Suc n) True log =
     (case lookup_request X D (net (length log)) q of
        (Ok r, sent) \<Rightarrow>
          if se_data r \<noteq> None
          then ((case validate_skill_receipt X q r of Err e \<Rightarrow> Err e | Ok _ \<Rightarrow> Ok r), log @ sent)
          else if key_unknown X D (net (length log)) q then post_part X D net q n (log @ sent)
          else (Err (Bail ''original skill operation lookup was rejected''), log @ sent)
      | (Err e, sent) \<Rightarrow>
          if retryable_transport e \<and> n > 0 then submit_skill X D net q n True (log @ sent)
          else (Err (ApiErr e), log @ sent))"
proof -
  have one: "map sx_code es = [c] \<longleftrightarrow> (\<exists>e. es = [e] \<and> sx_code e = c)" for es c by auto
  show ?thesis
    by (cases "lookup_request X D (net (length log)) q")
      (auto simp: submit_skill.simps(2) [of X D net q n True] post_part_def [symmetric] key_unknown_def one Let_def
        split: result.splits list.splits)
qed

lemma post_part_ok:
  assumes "\<And>log. submission_ok X D net q n True log (submit_skill X D net q n True log)"
  shows "submission_ok X D net q (Suc n) False log (post_part X D net q n log)"
proof -
  let ?send = "send_request X D (net (length log)) q"
  from send_request_shape consider path where "snd ?send = [SkillPost path (request_payload q)]"
    | "?send = (Err invalid_skill_response, [])" by blast
  then show ?thesis
  proof cases
    case 1
    then have "submission_ok X D net q n True (log @ [SkillPost path (request_payload q)]) (post_part X D net q n log)"
      using assms by (cases ?send; cases "fst ?send")
        (auto simp: post_part_def intro!: submission_ok_same split: result.splits)
    then show ?thesis by (rule submission_ok_post)
  qed (simp add: post_part_def submission_ok_same)
qed

lemma submit_skill_ok: "submission_ok X D net q n doubt log (submit_skill X D net q n doubt log)"
proof (induction n arbitrary: doubt log)
  case 0
  show ?case by (simp add: submit_skill.simps(1) submission_ok_same)
next
  case (Suc n)
  note post = post_part_ok [OF Suc.IH]
  show ?case
  proof (cases doubt)
    case True
    let ?look = "lookup_request X D (net (length log)) q"
    from lookup_request_shape consider path where "snd ?look = [SkillGet path [(''key'', request_key q)]]"
      | "?look = (Err invalid_skill_response, [])" by blast
    then show ?thesis
    proof cases
      case 1
      let ?log = "log @ [SkillGet path [(''key'', request_key q)]]"
      have "submission_ok X D net q (Suc n) (\<not> key_unknown X D (net (length log)) q) ?log (submit_skill X D net q (Suc n) doubt log)"
      proof (cases "fst ?look")
        case (Ok r)
        with 1 True post [of ?log] show ?thesis
          by (cases ?look) (auto simp: submit_skill_True intro!: submission_ok_same split: result.splits)
      next
        case (Err e)
        then have "\<not> key_unknown X D (net (length log)) q" by (simp add: key_unknown_def)
        with 1 Err True submission_ok_more [OF Suc.IH [of True ?log]] show ?thesis
          by (cases ?look) (auto simp: submit_skill_True intro!: submission_ok_same)
      qed
      from submission_ok_get [OF this refl] show ?thesis .
    qed (simp add: True submit_skill_True submission_ok_same)
  qed (simp add: submit_skill_False post)
qed

text \<open>
  C9. A Skill change is never submitted twice on doubt: all POSTs of one submission, at most
  three, carry the one retained request; each of them after the first, and the first too when
  an earlier submission is being recovered, comes only after a lookup of its key which the
  server answered with \<open>OPERATION_NOT_FOUND\<close>; and a result is returned only if it matches the
  retained plan.
\<close>

theorem submit_skill_disciplined:
  assumes "submit_skill X D net q 3 recovering [] = (result, log)"
  shows "disciplined X D net q recovering 0 log \<and> length (filter is_skill_post log) \<le> 3 \<and>
    (\<forall>r. result = Ok r \<longrightarrow> validate_skill_receipt X q r = Ok ())"
  using submit_skill_ok [of X D net q 3 recovering "[]"] assms by (simp add: submission_ok_def)


section \<open>Properties of the wait\<close>

lemma operation_exit_0:
  "operation_exit r = 0 \<Longrightarrow> se_committed r \<and> se_errors r = [] \<and> se_data r \<noteq> None \<and> se_status r \<in> set final_statuses"
  by (auto simp: operation_exit_def split: option.splits if_splits)

lemma operation_exit_3: "operation_exit r = 3 \<Longrightarrow> se_errors r = [] \<and> se_data r \<noteq> None"
  by (auto simp: operation_exit_def split: option.splits if_splits)

lemma wait_status_Ok:
  "wait_status X D wait i rounds r = Some (Ok (r', code)) \<Longrightarrow> se_data r \<noteq> None \<Longrightarrow>
     se_data r' \<noteq> None \<and> (wait \<and> code = 0 \<longrightarrow> operation_exit r' = 0)"
proof (induction X D wait i rounds r rule: wait_status.induct)
  case (1 X D wait i rounds r)
  show ?case
  proof (cases "\<not> wait \<or> operation_exit r \<noteq> 3")
    case True
    with "1.prems" show ?thesis by (auto simp: wait_status.simps [of X D wait i rounds r] Let_def)
  next
    case False
    with "1.prems" "1.IH" show ?thesis
      by (auto simp: wait_status.simps [of X D wait i rounds r] Let_def
          split: list.splits status_round.splits option.splits result.splits if_splits)
  qed
qed

definition ends_status_wait :: "status_round \<Rightarrow> bool" where
  "ends_status_wait w = (case w of StatusAnswer _ \<Rightarrow> False | _ \<Rightarrow> True)"

text \<open>The wait ends at the latest with the deadline or the interrupt.\<close>

lemma wait_status_returns:
  "list_ex ends_status_wait rounds \<Longrightarrow> \<exists>x. wait_status X D wait i rounds r = Some x"
proof (induction rounds arbitrary: r)
  case (Cons w rounds)
  then show ?case
    by (cases w; subst wait_status.simps) (auto simp: Let_def ends_status_wait_def split: option.splits result.splits)
qed simp

lemma finish_acceptance_Ok:
  assumes "finish_acceptance X D cancelled rounds no_wait r = Some (Ok (reply, code))"
  shows "se_data r = None \<longrightarrow> reply = r" and "se_data r \<noteq> None \<longrightarrow> se_data reply \<noteq> None"
    and "code = 0 \<longrightarrow> se_errors r = [] \<and> se_data reply \<noteq> None \<and> se_committed reply \<and> se_errors reply = []"
proof -
  let ?w = "wait_status X D True (se_operation_id r) rounds r"
  have "(se_data r = None \<longrightarrow> reply = r) \<and> (se_data r \<noteq> None \<longrightarrow> se_data reply \<noteq> None) \<and>
      (code = 0 \<longrightarrow> se_errors r = [] \<and> se_data reply \<noteq> None \<and> se_committed reply \<and> se_errors reply = [])"
  proof (cases "\<not> cancelled \<and> operation_exit r = 3 \<and> \<not> (no_wait \<and> se_committed r)")
    case True
    with assms have w: "?w = Some (Ok (reply, code))" by (simp add: finish_acceptance_def)
    from True operation_exit_3 [of r] have "se_errors r = []" "se_data r \<noteq> None" by simp_all
    with wait_status_Ok [OF w] operation_exit_0 [of reply] show ?thesis by blast
  next
    case False
    then have "reply = r" "code = 0 \<longrightarrow> operation_exit r = 0 \<or> operation_exit r = 3 \<and> se_committed r"
      using assms by (auto simp: finish_acceptance_def Let_def split: if_splits)
    with operation_exit_0 [of r] operation_exit_3 [of r] show ?thesis by blast
  qed
  then show "se_data r = None \<longrightarrow> reply = r" "se_data r \<noteq> None \<longrightarrow> se_data reply \<noteq> None"
    "code = 0 \<longrightarrow> se_errors r = [] \<and> se_data reply \<noteq> None \<and> se_committed reply \<and> se_errors reply = []" by blast+
qed


section \<open>Properties of the acceptance\<close>

lemma send_skill_reply: "send_skill_request X D outcome = Ok r \<Longrightarrow> se_data r \<noteq> None \<or> se_status r = ''failed''"
  by (auto simp: send_skill_request_def envelope_ok_def split: result.splits if_splits)

lemma send_request_reply: "send_request X D net q = (Ok r, sent) \<Longrightarrow> se_data r \<noteq> None \<or> se_status r = ''failed''"
  by (cases q) (auto simp: change_skill_def install_skills_def update_skill_def retry_skill_def retry_call_def
      mutation_call_def Let_def dest: send_skill_reply split: option.splits result.splits)

lemma submit_skill_reply:
  "submit_skill X D net q n doubt log = (Ok r, log') \<Longrightarrow> se_data r \<noteq> None \<or> se_status r = ''failed''"
proof (induction n arbitrary: doubt log)
  case (Suc n)
  have post: "se_data r \<noteq> None \<or> se_status r = ''failed''" if "post_part X D net q n log0 = (Ok r, log')" for log0
    using that Suc.IH by (auto simp: post_part_def split: prod.splits result.splits if_splits dest: send_request_reply)
  show ?case
  proof (cases doubt)
    case True
    with Suc.prems Suc.IH post show ?thesis
      by (auto simp: submit_skill_True split: prod.splits result.splits if_splits)
  qed (use Suc.prems post in \<open>simp add: submit_skill_False\<close>)
qed (simp add: submit_skill.simps(1))

text \<open>Every request of a submission names the one key and carries the one payload.\<close>

definition carries :: "skill_request \<Rightarrow> skill_http \<Rightarrow> bool" where
  "carries q h = (case h of SkillPost _ p \<Rightarrow> p = request_payload q | SkillGet _ query \<Rightarrow> query = [(''key'', request_key q)])"

lemma disciplined_carries: "disciplined X D net q doubt i hs \<Longrightarrow> list_all (carries q) hs"
  by (induction X D net q doubt i hs rule: disciplined.induct) (auto simp: carries_def)

lemma list_all_take: "list_all P xs \<Longrightarrow> list_all P (take k xs)"
  by (auto simp: list_all_iff dest: in_set_takeD)

lemma filter_take_le: "length (filter P (take k xs)) \<le> length (filter P xs)"
  by (metis append_take_drop_id filter_append le_add1 length_append)

lemma race_log:
  assumes "race stop (submitted, log) = (x, log')"
  shows "\<exists>k. log' = take k log" and "x = Ok (Ok r, interrupted) \<Longrightarrow> submitted = Ok r"
proof -
  show "\<exists>k. log' = take k log"
    using assms by (auto simp: race_def split: option.splits if_splits) (metis take_all_iff le_refl)+
  show "x = Ok (Ok r, interrupted) \<Longrightarrow> submitted = Ok r"
    using assms by (auto simp: race_def split: option.splits if_splits)
qed

lemma retained_key: "retained X c record = Ok q \<Longrightarrow> request_key q = sk_idempotency_key record"
  by (auto simp: retained_def split: option.splits if_splits result.splits)

text \<open>What an acceptance that sends something has done before and does afterwards.\<close>

lemma execute_cases:
  assumes "execute_result X c D H net F other stop cancelled rounds proposed recovering no_wait d = (result, d', log)"
    and "log \<noteq> []"
  obtains kept q d1 doubt submitted sent where
    "skill_command_state H (kf_init F) (begin_skill_command (kf_begin F) proposed) d = (Ok kept, d1)"
    "retained X c kept = Ok q" "submit_skill X D net q 3 doubt [] = (submitted, sent)"
    "\<exists>k. log = take k sent"
    "(\<exists>e. result = Some (Err e)) \<and> d' = other d1 \<or>
     (\<exists>e interrupted. result = Some (Ok (unknown_reply q e interrupted, if interrupted then 130 else 1))) \<and> d' = other d1 \<or>
     (\<exists>r x. submitted = Ok r \<and>
        skill_command_state H (kf_init_again F) (receive_skill_command (kf_receive F) kept (se_operation_id r)) (other d1) = (x, d') \<and>
        result = finish_acceptance X D cancelled rounds no_wait (if is_ok x then r else receipt_pending r))"
proof -
  from assms obtain kept q d1 doubt x where
    b: "skill_command_state H (kf_init F) (begin_skill_command (kf_begin F) proposed) d = (Ok kept, d1)"
    "retained X c kept = Ok q" "race stop (submit_skill X D net q 3 doubt []) = (x, log)"
    and out: "(case x of
        Err e \<Rightarrow> (Some (Err e), other d1, log)
      | Ok (Err e, interrupted) \<Rightarrow>
          (Some (Ok (unknown_reply q e interrupted, if interrupted then 130 else 1)), other d1, log)
      | Ok (Ok r, interrupted) \<Rightarrow>
          (case skill_command_state H (kf_init_again F)
              (receive_skill_command (kf_receive F) kept (se_operation_id r)) (other d1) of
             (x, d2) \<Rightarrow> (finish_acceptance X D cancelled rounds no_wait (if is_ok x then r else receipt_pending r), d2, log))) =
       (result, d', log)"
    by (auto simp: execute_result_def Let_def split: result.splits prod.splits if_splits)
  obtain submitted sent where s: "submit_skill X D net q 3 doubt [] = (submitted, sent)" by fastforce
  note race = race_log [OF b(3) [unfolded s]]
  have "(\<exists>e. result = Some (Err e)) \<and> d' = other d1 \<or>
     (\<exists>e interrupted. result = Some (Ok (unknown_reply q e interrupted, if interrupted then 130 else 1))) \<and> d' = other d1 \<or>
     (\<exists>r x. submitted = Ok r \<and>
        skill_command_state H (kf_init_again F) (receive_skill_command (kf_receive F) kept (se_operation_id r)) (other d1) = (x, d') \<and>
        result = finish_acceptance X D cancelled rounds no_wait (if is_ok x then r else receipt_pending r))"
    using out race(2) by (fastforce split: result.splits prod.splits)
  with b s race(1) show thesis by (intro that)
qed


lemma receipt_pending_simps [simp]:
  "se_data (receipt_pending r) = se_data r" "se_status (receipt_pending r) = se_status r" "se_errors (receipt_pending r) \<noteq> []"
  by (simp_all add: receipt_pending_def)

text \<open>
  C8. Accepting a Skill change is recoverable. Whenever it sends anything, a record of the same
  intent was journaled before, and all requests, at most three of them POSTs, name its key and
  carry its request; the record is still in the journal afterwards, whatever other processes
  do. When the outcome is reported as unknown, the record is still pending unless another
  process has received it, so the next attempt starts from it. And success is reported only
  for a committed result without errors whose receipt is in the journal.
\<close>

theorem skill_acceptance_recoverable:
  assumes "execute_result X c D H net F (fold skill_step ops) stop cancelled rounds proposed recovering no_wait d = (result, d', log)"
    and "skill_rows_ok d" and "log \<noteq> []"
  shows "\<exists>kept q. retained X c kept = Ok q \<and> skill_intent kept = skill_intent proposed \<and>
    list_all (carries q) log \<and> length (filter is_skill_post log) \<le> 3 \<and>
    (\<exists>row \<in> set (db_skill_commands d'). sw_record row = kept) \<and>
    (\<forall>reply code. result = Some (Ok (reply, code)) \<longrightarrow> se_status reply = ''unknown'' \<longrightarrow> se_data reply = None \<longrightarrow>
       list_all (\<lambda>op. \<not> receives kept op) ops \<longrightarrow> pending_look d' (skill_intent proposed) = Some kept) \<and>
    (\<forall>reply. result = Some (Ok (reply, 0)) \<longrightarrow> se_committed reply \<and> se_data reply \<noteq> None \<and> se_errors reply = [] \<and>
       (\<exists>row \<in> set (db_skill_commands d'). sw_record row = kept \<and> \<not> sw_pending row))"
proof -
  from assms(1,3) obtain kept q d1 doubt submitted sent where
    b: "skill_command_state H (kf_init F) (begin_skill_command (kf_begin F) proposed) d = (Ok kept, d1)"
    and q: "retained X c kept = Ok q" and s: "submit_skill X D net q 3 doubt [] = (submitted, sent)" and k: "\<exists>k. log = take k sent"
    and out: "(\<exists>e. result = Some (Err e)) \<and> d' = fold skill_step ops d1 \<or>
     (\<exists>e interrupted. result = Some (Ok (unknown_reply q e interrupted, if interrupted then 130 else 1))) \<and> d' = fold skill_step ops d1 \<or>
     (\<exists>r x. submitted = Ok r \<and>
        skill_command_state H (kf_init_again F) (receive_skill_command (kf_receive F) kept (se_operation_id r)) (fold skill_step ops d1) = (x, d') \<and>
        result = finish_acceptance X D cancelled rounds no_wait (if is_ok x then r else receipt_pending r))"
    by (rule execute_cases)
  from b obtain d0 where d0: "init_schema (kf_init F) d = (Ok (), d0)" "begin_skill_command (kf_begin F) proposed d0 = (Ok kept, d1)"
    by (rule skill_state_Ok)
  note begun = begin_keeps [OF init_schema_skill_invar [OF d0(1) assms(2)] d0(2)]
  note run = skill_run_keeps [OF begun(1), of ops]
  have look: "pending_look d1 (skill_intent proposed) = Some kept" by (rule begun(3)) simp
  then have intent: "skill_intent kept = skill_intent proposed" and "\<exists>row \<in> set (db_skill_commands d1). sw_record row = kept"
    using begun(1) by (auto simp: pending_look_Some)
  then have row: "\<exists>row \<in> set (db_skill_commands (fold skill_step ops d1)). sw_record row = kept"
    using rows_progress_record run by metis
  have sub: "disciplined X D net q doubt 0 sent" "length (filter is_skill_post sent) \<le> 3"
    using submit_skill_ok [of X D net q 3 doubt "[]"] s by (simp_all add: submission_ok_def)
  have carry: "list_all (carries q) log" "length (filter is_skill_post log) \<le> 3"
    using k disciplined_carries [OF sub(1)] sub(2) filter_take_le order.trans by (auto intro: list_all_take) blast
  from out consider (open_) "d' = fold skill_step ops d1" "\<forall>reply. result \<noteq> Some (Ok (reply, 0))"
    | (received) r x where "submitted = Ok r"
      "skill_command_state H (kf_init_again F) (receive_skill_command (kf_receive F) kept (se_operation_id r)) (fold skill_step ops d1) = (x, d')"
      "result = finish_acceptance X D cancelled rounds no_wait (if is_ok x then r else receipt_pending r)"
    by (auto split: if_splits)
  then show ?thesis
  proof cases
    case open_
    with q intent carry row skill_run_pending [OF begun(1) look] show ?thesis
      by (intro exI [of _ kept] exI [of _ q] conjI allI impI) simp_all
  next
    case received
    let ?r = "if is_ok x then r else receipt_pending r"
    have progress: "rows_progress (db_skill_commands (fold skill_step ops d1)) (db_skill_commands d')"
      using skill_state_receive [OF received(2)] run skill_invar_rows by blast
    have data: "se_data r \<noteq> None \<or> se_status r = ''failed''" using submit_skill_reply s received(1) by blast
    have "\<not> (se_status reply = ''unknown'' \<and> se_data reply = None)" if "result = Some (Ok (reply, code))" for reply code
      using finish_acceptance_Ok(1,2) [OF that [unfolded received(3)]] data by (auto split: if_splits)
    moreover have "se_committed reply \<and> se_data reply \<noteq> None \<and> se_errors reply = [] \<and>
        (\<exists>row \<in> set (db_skill_commands d'). sw_record row = kept \<and> \<not> sw_pending row)" if zero: "result = Some (Ok (reply, 0))" for reply
    proof -
      note z = finish_acceptance_Ok(3) [OF zero [unfolded received(3)]]
      then have "is_ok x" by (auto split: if_splits)
      then obtain d2 where "receive_skill_command (kf_receive F) kept (se_operation_id r) d2 = (Ok (), d')"
        using received(2) skill_state_Ok by (metis is_ok_iff old.unit.exhaust)
      with receive_Ok z show ?thesis by blast
    qed
    moreover have "\<exists>row \<in> set (db_skill_commands d'). sw_record row = kept"
      using row rows_progress_record [OF progress] by metis
    ultimately show ?thesis using q intent carry
      by (intro exI [of _ kept] exI [of _ q] conjI allI impI) blast+
  qed
qed


section \<open>Witnesses\<close>

definition sample_rule :: skill_mutation_request where
  "sample_rule = \<lparr>mq_idempotency_key = ''k1'', mq_expected_generation = 3, mq_skill = sample_id 3,
     mq_change = Enable \<lparr>sc_tools = [], sc_account_id = None\<rparr>\<rparr>"

definition accepted_reply :: mutation_reply where
  "accepted_reply =
     \<lparr>se_schema_version = 1, se_operation_id = Some (sample_id 2), se_status = ''ready'', se_committed = True,
      se_retryable = False,
      se_data = Some \<lparr>mu_generation = 4, mu_skill_ids = [sample_id 3], mu_revision_ids = [], mu_changed = True,
        mu_warnings = [], mu_targets = [], mu_replacement_id = None\<rparr>,
      se_errors = []\<rparr>"

definition absent_reply :: mutation_reply where
  "absent_reply =
     \<lparr>se_schema_version = 1, se_operation_id = None, se_status = ''failed'', se_committed = False,
      se_retryable = False, se_data = None,
      se_errors = [\<lparr>sx_code = ''OPERATION_NOT_FOUND'', sx_message = ''m'', sx_object_id = None, sx_details = []\<rparr>]\<rparr>"

definition skill_decoders :: "mutation_reply decoders" where
  "skill_decoders =
     \<lparr>dec_payload = (\<lambda>b. Ok (if b = ''n'' then absent_reply else accepted_reply)), dec_envelope = (\<lambda>_. None),
      dec_skill = (\<lambda>_. None), dec_utf8 = (\<lambda>_. True), dec_show_nat = (\<lambda>_. [])\<rparr>"

definition skill_answer :: "nat \<Rightarrow> string \<Rightarrow> (http_response, api_error) result" where
  "skill_answer status body = Ok \<lparr>hr_status = status, hr_content_length = None, hr_chunks = [Ok body]\<rparr>"

text \<open>A server that loses the first request, does not know its key, and accepts the repetition.\<close>

definition flaky :: skill_network where
  "flaky i = (\<lambda>_. if i = 0 then Err \<lparr>ae_status = None, ae_code = None, ae_message = ''reset''\<rparr>
     else if i = 1 then skill_answer 404 ''n'' else skill_answer 200 ''y'')"

lemma skill_send_eval:
  "send_skill_request X skill_decoders (Err e) = Err skill_transport_failed"
  "send_skill_request sample_crates skill_decoders (skill_answer 404 ''n'') = Ok absent_reply"
  "send_skill_request sample_crates skill_decoders (skill_answer 200 ''y'') = Ok accepted_reply"
  using sample_id_canonical [of 2]
  by (simp_all add: send_skill_request_def skill_answer_def skill_decoders_def read_response_body_bounded_def
      max_api_response_bytes_def usize_max_def is_success_def envelope_ok_def absent_reply_def accepted_reply_def
      canonical_uuid_def split: option.splits)

lemma skill_transport_retryable [simp]: "retryable_transport skill_transport_failed"
  by (simp add: retryable_transport_def skill_transport_failed_def)

lemma accepted_valid:
  "validate_mutation_receipt sample_crates accepted_reply = Ok ()"
  "validate_skill_receipt sample_crates (Rule sample_rule) accepted_reply = Ok ()"
  "validate_mutation_receipt sample_crates absent_reply = Ok ()"
  by (simp_all add: validate_mutation_receipt_def accepted_reply_def absent_reply_def sample_rule_def checked_add_i64_def
      i64_max_def ensure_def)

lemma key_unknown_flaky: "key_unknown sample_crates skill_decoders (flaky (Suc 0)) (Rule sample_rule)"
  by (simp add: key_unknown_def skill_operation_by_key_def mutation_call_def flaky_def skill_send_eval accepted_valid)
    (simp add: absent_reply_def)

lemma absent_no_data: "se_data absent_reply = None"
  by (simp add: absent_reply_def)

lemma submit_flaky:
  "submit_skill sample_crates skill_decoders flaky (Rule sample_rule) 3 False [] =
     (Ok accepted_reply,
      [SkillPost ''/api/v1/skills/rules'' (RulePayload sample_rule),
       SkillGet ''/api/v1/skills/operations'' [(''key'', ''k1'')],
       SkillPost ''/api/v1/skills/rules'' (RulePayload sample_rule)])"
proof -
  have e: "change_endpoint (mq_change sample_rule) = ''/api/v1/skills/rules''" "mq_idempotency_key sample_rule = ''k1''"
    by (simp_all add: sample_rule_def)
  have "submit_skill sample_crates skill_decoders flaky (Rule sample_rule) (Suc (Suc 0)) True
      [SkillPost ''/api/v1/skills/rules'' (RulePayload sample_rule)] =
     (Ok accepted_reply,
      [SkillPost ''/api/v1/skills/rules'' (RulePayload sample_rule),
       SkillGet ''/api/v1/skills/operations'' [(''key'', ''k1'')],
       SkillPost ''/api/v1/skills/rules'' (RulePayload sample_rule)])"
    by (simp add: submit_skill_True key_unknown_flaky skill_operation_by_key_def mutation_call_def)
      (simp add: flaky_def skill_send_eval accepted_valid absent_no_data e post_part_def change_skill_def mutation_call_def
        del: validate_skill_receipt.simps)
  then show ?thesis
    by (simp add: eval_nat_numeral submit_skill_False post_part_def change_skill_def mutation_call_def)
      (simp add: flaky_def [of 0] skill_send_eval e)
qed

theorem submit_skill_disciplined_witness:
  "disciplined sample_crates skill_decoders flaky (Rule sample_rule) False 0
     [SkillPost ''/api/v1/skills/rules'' (RulePayload sample_rule),
      SkillGet ''/api/v1/skills/operations'' [(''key'', ''k1'')],
      SkillPost ''/api/v1/skills/rules'' (RulePayload sample_rule)]"
  using submit_skill_disciplined [OF submit_flaky] by blast


definition rule_codec :: "skill_request codec" where
  "rule_codec = table_codec [(Rule sample_rule, ''1'')]"

lemma retained_sample: "retained sample_crates rule_codec (sample_command ''k1'') = Ok (Rule sample_rule)"
proof -
  have "uuid_parse sample_crates (sample_id 3) \<noteq> None"
    using sample_id_canonical [of 3, unfolded canonical_uuid_def] by (auto split: option.splits)
  then show ?thesis
    by (simp add: retained_def rule_codec_def table_codec_def sample_command_def)
      (simp add: sample_rule_def i64_max_def ensure_def)
qed

definition no_skill_faults :: skill_faults where
  "no_skill_faults = \<lparr>kf_init = no_faults, kf_begin = no_faults, kf_init_again = no_faults, kf_receive = no_faults\<rparr>"

text \<open>A network that answers nothing.\<close>

definition dead :: skill_network where
  "dead = (\<lambda>_ _. Err \<lparr>ae_status = None, ae_code = None, ae_message = ''reset''\<rparr>)"

lemma submit_dead:
  "\<exists>log. submit_skill sample_crates skill_decoders dead (Rule sample_rule) 3 False [] =
     (Err (ApiErr skill_transport_failed), log) \<and> log \<noteq> []"
proof -
  have "dead i q = Err \<lparr>ae_status = None, ae_code = None, ae_message = ''reset''\<rparr>" for i q by (simp add: dead_def)
  then show ?thesis
    by (simp add: eval_nat_numeral submit_skill_False submit_skill_True post_part_def change_skill_def mutation_call_def
        skill_operation_by_key_def skill_send_eval)
qed

definition accepted_dead where
  "accepted_dead = execute_result sample_crates rule_codec skill_decoders sample_host dead no_skill_faults (fold skill_step [])
     None False [] (sample_command ''k1'') False False fresh_db"

theorem skill_acceptance_recoverable_witness:
  "\<exists>kept. pending_look (fst (snd accepted_dead)) (skill_intent (sample_command ''k1'')) = Some kept"
proof -
  obtain log where sub: "submit_skill sample_crates skill_decoders dead (Rule sample_rule) 3 False [] =
      (Err (ApiErr skill_transport_failed), log)" and sent: "log \<noteq> []" using submit_dead by blast
  let ?reply = "unknown_reply (Rule sample_rule) (ApiErr skill_transport_failed) False"
  have init: "init_schema no_faults fresh_db = (Ok (), skill_db)" by (simp add: skill_db_def init_schema_fresh)
  have run: "accepted_dead = (Some (Ok (?reply, 1)), snd (begin_skill_command no_faults (sample_command ''k1'') skill_db), log)"
    by (simp add: accepted_dead_def execute_result_def retained_sample skill_command_state_def open_state_sample init
        no_skill_faults_def begin_sample sub race_def)
  have "skill_rows_ok fresh_db" by (simp add: skill_rows_ok_def fresh_db_def)
  note ok = skill_acceptance_recoverable [OF run [unfolded accepted_dead_def] this sent]
  have "se_status ?reply = ''unknown''" "se_data ?reply = None" by (simp_all add: unknown_reply_def Let_def)
  with ok show ?thesis by (auto simp: run)
qed

end
