(* ===== verification/Local_Tables.thy ===== *)
theory Local_Tables
  imports Local_Db
begin

text \<open>
  The relational tables of the metadata database (\<open>src/local_state.rs\<close>): devices, workspaces,
  sync sessions and ego browser bindings, each with its upsert, queries and deletions. One SQL
  statement is one function on the rows; \<open>now\<close> is \<open>CURRENT_TIMESTAMP\<close>. The locale
  \<open>keyed_table\<close> states what a table with a primary key promises, and every such table is an
  instance of it.
\<close>

section \<open>Rows with a primary key\<close>

text \<open>\<open>INSERT \<dots> ON CONFLICT(id) DO UPDATE\<close>: the row is replaced in place or added at the end.\<close>

definition upsert_by :: "('r \<Rightarrow> 'k) \<Rightarrow> 'r \<Rightarrow> 'r list \<Rightarrow> 'r list" where
  "upsert_by key r rows =
     (if key r \<in> key ` set rows then map (\<lambda>x. if key x = key r then r else x) rows
      else rows @ [r])"

text \<open>\<open>SELECT \<dots> WHERE id = ?\<close> with \<open>query_row(..).optional()\<close>: the first row, if any.\<close>

definition select_by :: "('r \<Rightarrow> 'k) \<Rightarrow> 'k \<Rightarrow> 'r list \<Rightarrow> 'r option" where
  "select_by key k rows = find (\<lambda>r. key r = k) rows"

text \<open>\<open>DELETE \<dots> WHERE p\<close>.\<close>

definition delete_where :: "('r \<Rightarrow> bool) \<Rightarrow> 'r list \<Rightarrow> 'r list" where
  "delete_where p rows = filter (\<lambda>r. \<not> p r) rows"

text \<open>\<open>ORDER BY updated_at DESC\<close>; rows written in the same second stay in table order.\<close>

definition newest_first :: "('r \<times> nat) list \<Rightarrow> ('r \<times> nat) list" where
  "newest_first rows = sort_key (\<lambda>(r, t). - int t) rows"

section \<open>Devices\<close>

definition upsert_device :: "faults \<Rightarrow> local_device \<Rightarrow> db \<Rightarrow> (unit, failure) result \<times> db" where
  "upsert_device f r d =
     (if f SWrite \<or> \<not> has_table d ''devices'' then (Err SqlErr, d)
      else (Ok (), d\<lparr>db_devices := upsert_by ld_id r (db_devices d)\<rparr>))"

definition get_device :: "faults \<Rightarrow> string \<Rightarrow> db \<Rightarrow> (local_device option, failure) result" where
  "get_device f i d =
     (if f SSelect \<or> \<not> has_table d ''devices'' then Err SqlErr
      else Ok (select_by ld_id i (db_devices d)))"

section \<open>Workspaces\<close>

definition lw_project :: "local_workspace \<Rightarrow> string \<times> string" where
  "lw_project w = (lw_server_url w, lw_project_key w)"

text \<open>
  The unique index \<open>workspaces_server_project_idx\<close> refuses a row whose server and project key
  are those of another row. The conflict clause of the statement names the primary key only,
  so such a collision is an error and not an update.
\<close>

definition project_taken :: "db \<Rightarrow> local_workspace \<Rightarrow> bool" where
  "project_taken d w \<longleftrightarrow>
     (case map_of (db_indexes d) ''workspaces_server_project_idx'' of
        None \<Rightarrow> False
      | Some ix \<Rightarrow> ix_unique ix \<and>
          list_ex (\<lambda>v. lw_id v \<noteq> lw_id w \<and> lw_project v = lw_project w) (db_workspaces d))"

definition upsert_workspace :: "faults \<Rightarrow> local_workspace \<Rightarrow> db \<Rightarrow> (unit, failure) result \<times> db" where
  "upsert_workspace f w d =
     (if f SWrite \<or> \<not> has_table d ''workspaces'' \<or> project_taken d w then (Err SqlErr, d)
      else (Ok (), d\<lparr>db_workspaces := upsert_by lw_id w (db_workspaces d)\<rparr>))"

definition get_workspace_by_project_key ::
  "faults \<Rightarrow> string \<Rightarrow> string \<Rightarrow> db \<Rightarrow> (local_workspace option, failure) result" where
  "get_workspace_by_project_key f server key d =
     (if f SSelect \<or> \<not> has_table d ''workspaces'' then Err SqlErr
      else Ok (select_by lw_project (server, key) (db_workspaces d)))"

definition get_workspace_by_id ::
  "faults \<Rightarrow> string \<Rightarrow> db \<Rightarrow> (local_workspace option, failure) result" where
  "get_workspace_by_id f i d =
     (if f SSelect \<or> \<not> has_table d ''workspaces'' then Err SqlErr
      else Ok (select_by lw_id i (db_workspaces d)))"

text \<open>
  Two statements without a transaction: when the second fails the sync sessions are gone and
  the workspace stays.
\<close>

definition delete_workspace_mapping ::
  "faults \<Rightarrow> faults \<Rightarrow> string \<Rightarrow> db \<Rightarrow> (unit, failure) result \<times> db" where
  "delete_workspace_mapping f g i d =
     (if f SWrite \<or> \<not> has_table d ''sync_sessions'' then (Err SqlErr, d)
      else
        let d' = d\<lparr>db_sync_sessions :=
                     delete_where (\<lambda>(s, t). ls_workspace_id s = i) (db_sync_sessions d)\<rparr> in
        if g SWrite \<or> \<not> has_table d' ''workspaces'' then (Err SqlErr, d')
        else (Ok (), d'\<lparr>db_workspaces := delete_where (\<lambda>w. lw_id w = i) (db_workspaces d')\<rparr>))"

section \<open>Sync sessions\<close>

abbreviation sync_row_id :: "local_sync_session \<times> nat \<Rightarrow> string" where
  "sync_row_id r \<equiv> ls_id (fst r)"

definition delete_sync_session :: "faults \<Rightarrow> string \<Rightarrow> db \<Rightarrow> (unit, failure) result \<times> db" where
  "delete_sync_session f i d =
     (if f SWrite \<or> \<not> has_table d ''sync_sessions'' then (Err SqlErr, d)
      else (Ok (), d\<lparr>db_sync_sessions :=
                        delete_where (\<lambda>r. sync_row_id r = i) (db_sync_sessions d)\<rparr>))"

definition upsert_sync_session ::
  "faults \<Rightarrow> nat \<Rightarrow> local_sync_session \<Rightarrow> db \<Rightarrow> (unit, failure) result \<times> db" where
  "upsert_sync_session f now s d =
     (if f SWrite \<or> \<not> has_table d ''sync_sessions'' then (Err SqlErr, d)
      else (Ok (), d\<lparr>db_sync_sessions := upsert_by sync_row_id (s, now) (db_sync_sessions d)\<rparr>))"

text \<open>The rows of one workspace, the most recently written first.\<close>

definition workspace_syncs :: "db \<Rightarrow> string \<Rightarrow> (local_sync_session \<times> nat) list" where
  "workspace_syncs d i = filter (\<lambda>(s, t). ls_workspace_id s = i) (db_sync_sessions d)"

definition get_sync_session_for_workspace ::
  "faults \<Rightarrow> string \<Rightarrow> db \<Rightarrow> (local_sync_session option, failure) result" where
  "get_sync_session_for_workspace f i d =
     (if f SRow \<or> \<not> has_table d ''sync_sessions'' then Err SqlErr
      else Ok (case newest_first (workspace_syncs d i) of [] \<Rightarrow> None | (s, t) # _ \<Rightarrow> Some s))"

section \<open>Ego browser bindings\<close>

abbreviation binding_row_id :: "local_ego_browser_binding \<times> nat \<Rightarrow> string" where
  "binding_row_id r \<equiv> lb_id (fst r)"

text \<open>
  An SQLite integer has 64 bits with a sign: \<open>rusqlite\<close> refuses to bind a \<open>u64\<close> above
  \<open>i64::MAX\<close>, so that such a binding is never stored.
\<close>

definition fits_i64 :: "64 word \<Rightarrow> bool" where
  "fits_i64 g \<longleftrightarrow> unat g < 2 ^ 63"

definition upsert_ego_browser_binding ::
  "faults \<Rightarrow> nat \<Rightarrow> local_ego_browser_binding \<Rightarrow> db \<Rightarrow> (unit, failure) result \<times> db" where
  "upsert_ego_browser_binding f now b d =
     (if f SWrite \<or> \<not> has_table d ''ego_browser_bindings'' \<or> \<not> fits_i64 (lb_generation b)
      then (Err SqlErr, d)
      else (Ok (), d\<lparr>db_ego_bindings := upsert_by binding_row_id (b, now) (db_ego_bindings d)\<rparr>))"

definition list_ego_browser_bindings ::
  "faults \<Rightarrow> string \<Rightarrow> db \<Rightarrow> (local_ego_browser_binding list, failure) result" where
  "list_ego_browser_bindings f server d =
     (if f SPrepare \<or> f SRow \<or> \<not> has_table d ''ego_browser_bindings'' then Err SqlErr
      else Ok (map fst (newest_first
                 (filter (\<lambda>(b, t). lb_server_url b = server) (db_ego_bindings d)))))"

definition delete_ego_browser_binding ::
  "faults \<Rightarrow> string \<Rightarrow> string \<Rightarrow> db \<Rightarrow> (unit, failure) result \<times> db" where
  "delete_ego_browser_binding f server i d =
     (if f SWrite \<or> \<not> has_table d ''ego_browser_bindings'' then (Err SqlErr, d)
      else (Ok (), d\<lparr>db_ego_bindings :=
              delete_where (\<lambda>(b, t). lb_server_url b = server \<and> lb_id b = i) (db_ego_bindings d)\<rparr>))"

definition delete_ego_browser_bindings_for_device ::
  "faults \<Rightarrow> string \<Rightarrow> string \<Rightarrow> db \<Rightarrow> (unit, failure) result \<times> db" where
  "delete_ego_browser_bindings_for_device f server device d =
     (if f SWrite \<or> \<not> has_table d ''ego_browser_bindings'' then (Err SqlErr, d)
      else (Ok (), d\<lparr>db_ego_bindings :=
              delete_where (\<lambda>(b, t). lb_server_url b = server \<and> lb_ego_browser_device_id b = device)
                (db_ego_bindings d)\<rparr>))"

section \<open>A table with a primary key as an interface\<close>

text \<open>
  What a caller of a table relies on: a written row is found under its key and no other key is
  affected. From that it follows that the last write to a key wins, through any history.
\<close>

locale keyed_table =
  fixes invar :: "'d \<Rightarrow> bool"
    and look :: "'d \<Rightarrow> 'k \<Rightarrow> 'v option"
    and key :: "'v \<Rightarrow> 'k"
    and put :: "'v \<Rightarrow> 'd \<Rightarrow> 'd"
  assumes look_put: "invar d \<Longrightarrow> look (put v d) = (look d)(key v \<mapsto> v)"
    and invar_put: "invar d \<Longrightarrow> invar (put v d)"
begin

lemma put_commute:
  "invar d \<Longrightarrow> key v \<noteq> key w \<Longrightarrow> look (put v (put w d)) = look (put w (put v d))"
  by (simp add: look_put invar_put fun_upd_twist)

lemma invar_fold: "invar d \<Longrightarrow> invar (fold put vs d)"
  by (induction vs arbitrary: d) (simp_all add: invar_put)

lemma look_fold:
  "invar d \<Longrightarrow> look (fold put vs d) k =
     (case filter (\<lambda>v. key v = k) (rev vs) of [] \<Rightarrow> look d k | v # _ \<Rightarrow> Some v)"
proof (induction vs rule: rev_induct)
  case (snoc v vs)
  then show ?case by (simp add: look_put invar_fold)
qed simp

end

section \<open>Lemmas on rows\<close>

lemma find_snoc:
  "find P (xs @ [y]) = (case find P xs of None \<Rightarrow> if P y then Some y else None | Some x \<Rightarrow> Some x)"
  by (induction xs) auto

lemma find_map_same:
  "(\<And>x. x \<in> set xs \<Longrightarrow> P (g x) = P x) \<Longrightarrow> find P (map g xs) = map_option g (find P xs)"
  by (induction xs) auto

lemma select_by_upsert:
  "select_by key k (upsert_by key r rows) = (if k = key r then Some r else select_by key k rows)"
proof (cases "key r \<in> key ` set rows")
  case True
  let ?g = "\<lambda>x. if key x = key r then r else x"
  have "select_by key k (map ?g rows) = map_option ?g (select_by key k rows)"
    unfolding select_by_def by (rule find_map_same) auto
  moreover have "\<exists>x. select_by key (key r) rows = Some x"
    using True by (auto simp: select_by_def find_None_iff not_None_eq [symmetric])
  moreover have "key x = k" if "select_by key k rows = Some x" for x
    using that by (auto simp: select_by_def find_Some_iff)
  ultimately show ?thesis
    using True by (cases "select_by key k rows") (auto simp: upsert_by_def)
next
  case False
  then have "select_by key (key r) rows = None"
    unfolding select_by_def find_None_iff by (metis image_eqI)
  with False show ?thesis
    by (auto simp: upsert_by_def select_by_def find_snoc split: option.splits)
qed

lemma upsert_by_keys:
  "map key (upsert_by key r rows) =
     (if key r \<in> key ` set rows then map key rows else map key rows @ [key r])"
  by (auto simp: upsert_by_def)

lemma distinct_upsert_by:
  "distinct (map key rows) \<Longrightarrow> distinct (map key (upsert_by key r rows))"
  by (simp add: upsert_by_keys)

lemma set_upsert_by:
  "set (upsert_by key r rows) = insert r {x \<in> set rows. key x \<noteq> key r}"
  by (auto simp: upsert_by_def image_iff)

lemma distinct_delete_where:
  "distinct (map g rows) \<Longrightarrow> distinct (map g (delete_where p rows))"
  by (simp add: delete_where_def distinct_map_filter)

lemma set_delete_where [simp]: "set (delete_where p rows) = {x \<in> set rows. \<not> p x}"
  by (auto simp: delete_where_def)

lemma select_by_Some: "select_by key k rows = Some r \<Longrightarrow> r \<in> set rows \<and> key r = k"
  by (auto simp: select_by_def find_Some_iff)

lemma select_by_unique:
  "distinct (map key rows) \<Longrightarrow> r \<in> set rows \<Longrightarrow> select_by key (key r) rows = Some r"
  by (induction rows) (auto simp: select_by_def)

lemma select_by_None: "select_by key k rows = None \<longleftrightarrow> k \<notin> key ` set rows"
  by (auto simp: select_by_def find_None_iff)

lemma newest_first_set [simp]: "set (newest_first rows) = set rows"
  by (simp add: newest_first_def)

lemma length_newest_first [simp]: "length (newest_first rows) = length rows"
  by (simp add: newest_first_def)

lemma newest_first_sorted: "sorted_wrt (\<ge>) (map snd (newest_first rows))"
proof -
  have "sorted (map (\<lambda>(r, t). - int t) (newest_first rows))" by (simp add: newest_first_def)
  then show ?thesis by (simp add: sorted_map sorted_wrt_map case_prod_beta)
qed


section \<open>The type of the tables\<close>

text \<open>
  What the columns and keys of the schema say of the rows: primary keys are unique, no two
  workspaces share a server and project key, and every stored generation is one that SQLite can
  represent.
\<close>

definition tables_ok :: "db \<Rightarrow> bool" where
  "tables_ok d \<longleftrightarrow>
     distinct (map ld_id (db_devices d)) \<and>
     distinct (map lw_id (db_workspaces d)) \<and> distinct (map lw_project (db_workspaces d)) \<and>
     distinct (map sync_row_id (db_sync_sessions d)) \<and>
     distinct (map binding_row_id (db_ego_bindings d)) \<and>
     list_all (\<lambda>(b, t). fits_i64 (lb_generation b)) (db_ego_bindings d)"

definition project_index :: "db \<Rightarrow> bool" where
  "project_index d \<longleftrightarrow>
     (case map_of (db_indexes d) ''workspaces_server_project_idx'' of
        None \<Rightarrow> False | Some ix \<Rightarrow> ix_unique ix)"

text \<open>Every operation of \<open>LocalState\<close> that changes one of these tables.\<close>

datatype table_op =
    UpsertDevice local_device
  | UpsertWorkspace local_workspace
  | DeleteWorkspaceMapping faults string
  | DeleteSyncSession string
  | UpsertSyncSession nat local_sync_session
  | UpsertBinding nat local_ego_browser_binding
  | DeleteBinding string string
  | DeleteBindingsForDevice string string

fun table_step :: "faults \<Rightarrow> table_op \<Rightarrow> db \<Rightarrow> (unit, failure) result \<times> db" where
  "table_step f (UpsertDevice r) d = upsert_device f r d"
| "table_step f (UpsertWorkspace w) d = upsert_workspace f w d"
| "table_step f (DeleteWorkspaceMapping g i) d = delete_workspace_mapping f g i d"
| "table_step f (DeleteSyncSession i) d = delete_sync_session f i d"
| "table_step f (UpsertSyncSession now s) d = upsert_sync_session f now s d"
| "table_step f (UpsertBinding now b) d = upsert_ego_browser_binding f now b d"
| "table_step f (DeleteBinding server i) d = delete_ego_browser_binding f server i d"
| "table_step f (DeleteBindingsForDevice server device) d =
     delete_ego_browser_bindings_for_device f server device d"

fun table_run :: "(faults \<times> table_op) list \<Rightarrow> db \<Rightarrow> db" where
  "table_run [] d = d"
| "table_run ((f, p) # ps) d = table_run ps (snd (table_step f p d))"

lemmas table_defs = upsert_device_def upsert_workspace_def delete_workspace_mapping_def
  delete_sync_session_def upsert_sync_session_def upsert_ego_browser_binding_def
  delete_ego_browser_binding_def delete_ego_browser_bindings_for_device_def

lemma table_step_schema:
  "db_tables (snd (table_step f p d)) = db_tables d \<and>
   db_indexes (snd (table_step f p d)) = db_indexes d \<and> db_kv (snd (table_step f p d)) = db_kv d"
  by (cases p) (simp_all add: table_defs Let_def)

lemma distinct_upsert_other:
  assumes "distinct (map key rows)" and "distinct (map g rows)"
    and "\<And>v. v \<in> set rows \<Longrightarrow> key v \<noteq> key r \<Longrightarrow> g v \<noteq> g r"
  shows "distinct (map g (upsert_by key r rows))"
proof (cases "key r \<in> key ` set rows")
  case True
  then obtain xs x ys where rows: "rows = xs @ x # ys" and x: "key x = key r"
    by (metis imageE in_set_conv_decomp)
  have other: "key y \<noteq> key r" if "y \<in> set xs \<union> set ys" for y
    using assms(1) that x by (auto simp: rows) (metis image_eqI)+
  have "map (\<lambda>y. if key y = key r then r else y) zs = zs" if "set zs \<subseteq> set xs \<union> set ys" for zs
    using other that by (intro map_idI) auto
  then have "upsert_by key r rows = xs @ r # ys"
    using True x by (simp add: upsert_by_def rows)
  moreover have "g r \<noteq> g y" if "y \<in> set xs \<union> set ys" for y
    using assms(3) [of y] other that by (auto simp: rows)
  ultimately show ?thesis using assms(2) by (auto simp: rows)
next
  case False
  have "g r \<notin> g ` set rows"
  proof
    assume "g r \<in> g ` set rows"
    then obtain v where "v \<in> set rows" "g v = g r" by auto
    with False assms(3) show False by (metis image_eqI)
  qed
  with False assms(2) show ?thesis by (simp add: upsert_by_def)
qed

lemma upsert_workspace_project:
  assumes "distinct (map lw_id (db_workspaces d))" "distinct (map lw_project (db_workspaces d))"
    and "project_index d" and "\<not> project_taken d w"
  shows "distinct (map lw_project (upsert_by lw_id w (db_workspaces d)))"
  using assms
  by (intro distinct_upsert_other)
    (auto simp: project_index_def project_taken_def list_ex_iff split: option.splits)

lemma table_step_ok:
  assumes "tables_ok d" "project_index d"
  shows "tables_ok (snd (table_step f p d))"
proof (cases p)
  case (UpsertWorkspace w)
  with assms show ?thesis
    by (simp add: upsert_workspace_def tables_ok_def distinct_upsert_by upsert_workspace_project)
next
  case (UpsertBinding now b)
  with assms show ?thesis
    by (auto simp: upsert_ego_browser_binding_def tables_ok_def distinct_upsert_by list_all_iff set_upsert_by)
qed (use assms in \<open>auto simp: table_defs tables_ok_def Let_def distinct_upsert_by distinct_delete_where
      list_all_iff\<close>)



definition sample_workspace :: local_workspace where
  "sample_workspace = \<lparr>lw_id = sample_id 2, lw_server_url = ''https://s'', lw_project_key = ''p'',
     lw_local_path = ''/w'', lw_display_name = ''w'', lw_remote_path = None\<rparr>"

definition sample_sync :: local_sync_session where
  "sample_sync = \<lparr>ls_id = sample_id 3, ls_server_url = ''https://s'', ls_workspace_id = sample_id 2,
     ls_node_id = None, ls_status = ''active'', ls_conflict_status = ''none'',
     ls_mutagen_session_id = None, ls_remote_endpoint = None\<rparr>"

definition mapped_db :: db where
  "mapped_db = created_db\<lparr>db_user_version := 4, db_workspaces := [sample_workspace],
     db_sync_sessions := [(sample_sync, 1)]\<rparr>"

lemma mapped_db_schema:
  "db_tables mapped_db = db_tables created_db" "db_indexes mapped_db = db_indexes created_db"
  "db_workspaces mapped_db = [sample_workspace]" "db_sync_sessions mapped_db = [(sample_sync, 1)]"
  "db_ego_bindings mapped_db = []" "db_devices mapped_db = []"
  by (simp_all add: mapped_db_def created_db_def fresh_db_def)

lemma created_tables:
  "has_table created_db ''workspaces''" "has_table created_db ''sync_sessions''"
  "has_table created_db ''devices''" "has_table created_db ''ego_browser_bindings''"
  by (simp_all add: has_table_def created_db_def schema_batch_def init_skill_commands_def)

text \<open>On a database with the current schema, initialization changes nothing.\<close>

lemma init_schema_current:
  assumes "db_tables d = db_tables created_db" "db_indexes d = db_indexes created_db"
    and "db_user_version d = 4" "db_quick_check d = ''ok''"
  shows "init_schema no_faults d = (Ok (), d)"
proof -
  have "stmt_present created_db s" if "s \<in> set schema_batch \<union> set init_skill_commands" for s
    using that by (auto simp: created_db_def schema_batch_def init_skill_commands_def has_table_def)
  moreover have "stmt_present d s = stmt_present created_db s" for s
    using assms(1,2) by (cases s) (simp_all add: has_table_def)
  ultimately have "create_schema no_faults d = Ok d" by (simp add: create_schema_def run_batch_noop)
  moreover have "validate_schema no_faults d = validate_schema no_faults created_db"
    using assms(1,2) by (simp add: validate_schema_def validate_indexes_def columns_ok_def key_ok_def index_ok_def)
  moreover have "d\<lparr>db_user_version := 4\<rparr> = d" using assms(3) by simp
  ultimately show ?thesis
    using assms(3,4) by (simp add: init_schema_def initialize_schema_def schema_version_def validate_created)
qed

lemma has_table_mapped [simp]: "has_table mapped_db t = has_table created_db t"
  by (simp add: has_table_def mapped_db_schema)

lemma project_index_mapped: "project_index mapped_db"
  by (simp add: project_index_def mapped_db_schema created_db_def schema_batch_def init_skill_commands_def)

lemma tables_ok_mapped: "tables_ok mapped_db"
  by (simp add: tables_ok_def mapped_db_schema)


section \<open>Lookups\<close>

interpretation devices: keyed_table "\<lambda>_. True" "\<lambda>d k. select_by ld_id k (db_devices d)" ld_id
  "\<lambda>r d. d\<lparr>db_devices := upsert_by ld_id r (db_devices d)\<rparr>"
  by unfold_locales (auto simp: select_by_upsert fun_eq_iff)

interpretation workspaces: keyed_table "\<lambda>_. True" "\<lambda>d k. select_by lw_id k (db_workspaces d)" lw_id
  "\<lambda>r d. d\<lparr>db_workspaces := upsert_by lw_id r (db_workspaces d)\<rparr>"
  by unfold_locales (auto simp: select_by_upsert fun_eq_iff)

interpretation sync_rows: keyed_table "\<lambda>_. True"
  "\<lambda>d k. select_by sync_row_id k (db_sync_sessions d)" sync_row_id
  "\<lambda>r d. d\<lparr>db_sync_sessions := upsert_by sync_row_id r (db_sync_sessions d)\<rparr>"
  by unfold_locales (auto simp: select_by_upsert fun_eq_iff)

interpretation bindings: keyed_table "\<lambda>_. True"
  "\<lambda>d k. select_by binding_row_id k (db_ego_bindings d)" binding_row_id
  "\<lambda>r d. d\<lparr>db_ego_bindings := upsert_by binding_row_id r (db_ego_bindings d)\<rparr>"
  by unfold_locales (auto simp: select_by_upsert fun_eq_iff)

text \<open>After any sequence of upserts a device is the one written last under its id.\<close>

lemma get_device_history:
  assumes "has_table d ''devices''"
  shows "get_device no_faults k (fold (\<lambda>r d. snd (upsert_device no_faults r d)) rs d) =
    Ok (case filter (\<lambda>r. ld_id r = k) (rev rs) of
          [] \<Rightarrow> select_by ld_id k (db_devices d) | r # _ \<Rightarrow> Some r)"
proof -
  let ?put = "\<lambda>r d. d\<lparr>db_devices := upsert_by ld_id r (db_devices d)\<rparr>"
  have e: "fold (\<lambda>r d. snd (upsert_device no_faults r d)) rs d = fold ?put rs d \<and>
      has_table (fold ?put rs d) ''devices''"
    using assms by (induction rs arbitrary: d) (simp_all add: upsert_device_def has_table_def)
  then show ?thesis using devices.look_fold [where d = d and vs = rs and k = k] by (simp add: get_device_def)
qed

text \<open>
  An accepted workspace is found under its project key and under its id, and the rows of every
  other id are untouched.
\<close>

lemma upsert_workspace_Ok:
  assumes "tables_ok d" "project_index d" "upsert_workspace f w d = (Ok u, d')"
  shows "select_by lw_project (lw_project w) (db_workspaces d') = Some w"
    and "select_by lw_id i (db_workspaces d') =
           (if i = lw_id w then Some w else select_by lw_id i (db_workspaces d))"
proof -
  from assms(3) have d': "d' = d\<lparr>db_workspaces := upsert_by lw_id w (db_workspaces d)\<rparr>"
    and nt: "\<not> project_taken d w"
    by (auto simp: upsert_workspace_def split: if_splits)
  have "distinct (map lw_project (db_workspaces d'))"
    using assms(1,2) nt by (simp add: d' tables_ok_def upsert_workspace_project)
  moreover have "w \<in> set (db_workspaces d')" by (simp add: d' set_upsert_by)
  ultimately show "select_by lw_project (lw_project w) (db_workspaces d') = Some w"
    by (rule select_by_unique)
  show "select_by lw_id i (db_workspaces d') =
      (if i = lw_id w then Some w else select_by lw_id i (db_workspaces d))"
    by (simp add: d' select_by_upsert)
qed

text \<open>The sync session of a workspace is one of its rows, and none of them is newer.\<close>

lemma get_sync_session_newest:
  assumes "get_sync_session_for_workspace f i d = Ok (Some s)"
  obtains t where "(s, t) \<in> set (db_sync_sessions d)" "ls_workspace_id s = i"
    "\<And>s' t'. (s', t') \<in> set (db_sync_sessions d) \<Longrightarrow> ls_workspace_id s' = i \<Longrightarrow> t' \<le> t"
proof -
  from assms obtain t rest where n: "newest_first (workspace_syncs d i) = (s, t) # rest"
    by (auto simp: get_sync_session_for_workspace_def split: if_splits list.splits)
  have "(s, t) \<in> set (workspace_syncs d i)"
    using n newest_first_set [of "workspace_syncs d i"] by auto
  moreover have "t' \<le> t" if "(s', t') \<in> set (workspace_syncs d i)" for s' t'
  proof -
    have "(s', t') \<in> set ((s, t) # rest)" using that n newest_first_set by metis
    with newest_first_sorted [of "workspace_syncs d i"] show ?thesis by (auto simp: n)
  qed
  ultimately show thesis by (intro that [of t]) (auto simp: workspace_syncs_def)
qed

text \<open>
  The bindings listed for a server are exactly the stored rows of that server, the most
  recently written first.
\<close>

lemma list_bindings_exact:
  assumes "list_ego_browser_bindings f server d = Ok bs"
  shows "set bs = {b. lb_server_url b = server \<and> b \<in> fst ` set (db_ego_bindings d)}"
  using assms by (force simp: list_ego_browser_bindings_def split: if_splits)

end
