(* ===== verification/Sync_State.thy ===== *)
theory Sync_State
  imports Local_Tables
begin

text \<open>
  Reviewed sync mappings (\<open>src/local_state/sync.rs\<close>): a snapshot of the workspace and of its one
  sync session, the compare-and-swap that replaces a reviewed snapshot, and the removal that
  deletes the reviewed rows and nothing else. Each operation is one transaction: whenever it does
  not commit, the database is the one before.
\<close>

section \<open>Snapshots\<close>

record sync_snapshot =
  sn_workspace :: "local_workspace option"
  sn_sync :: "local_sync_session option"

definition sync_count :: "faults \<Rightarrow> string \<Rightarrow> db \<Rightarrow> (nat, failure) result" where
  "sync_count f i d =
     (if f SCount \<or> \<not> has_table d ''sync_sessions'' then Err SqlErr
      else Ok (length (workspace_syncs d i)))"

definition read_sync_snapshot ::
  "faults \<Rightarrow> string \<Rightarrow> string \<Rightarrow> db \<Rightarrow> (sync_snapshot, failure) result" where
  "read_sync_snapshot f server key d =
     (case get_workspace_by_project_key f server key d of
        Err e \<Rightarrow> Err e
      | Ok None \<Rightarrow> Ok \<lparr>sn_workspace = None, sn_sync = None\<rparr>
      | Ok (Some w) \<Rightarrow>
          (case sync_count f (lw_id w) d of
             Err e \<Rightarrow> Err e
           | Ok n \<Rightarrow>
               if \<not> n \<le> 1 then Err (Bail ''ambiguous local sync mapping'')
               else (case get_sync_session_for_workspace f (lw_id w) d of
                       Err e \<Rightarrow> Err e
                     | Ok s \<Rightarrow> Ok \<lparr>sn_workspace = Some w, sn_sync = s\<rparr>)))"

text \<open>
  \<open>try_exists\<close> follows links, as \<open>canonicalize\<close> does: the database is missing when the path
  does not resolve.
\<close>

definition read_snapshot ::
  "host \<Rightarrow> faults \<Rightarrow> string \<Rightarrow> string \<Rightarrow> db \<Rightarrow> (sync_snapshot, failure) result" where
  "read_snapshot H f server key d =
     (case h_canonicalize H (state_db_path H) of
        Err IoNotFound \<Rightarrow> Ok \<lparr>sn_workspace = None, sn_sync = None\<rparr>
      | Err e \<Rightarrow> Err (IoErr e)
      | Ok _ \<Rightarrow>
          (case open_readonly H of
             Err e \<Rightarrow> Err e
           | Ok _ \<Rightarrow> read_sync_snapshot f server key d))"

section \<open>Replacement\<close>

definition write_workspace ::
  "faults \<Rightarrow> local_workspace option \<Rightarrow> db \<Rightarrow> (unit, failure) result \<times> db" where
  "write_workspace f w d = (case w of None \<Rightarrow> (Ok (), d) | Some w \<Rightarrow> upsert_workspace f w d)"

definition write_sync ::
  "faults \<Rightarrow> nat \<Rightarrow> local_sync_session option \<Rightarrow> db \<Rightarrow> (unit, failure) result \<times> db" where
  "write_sync f now s d = (case s of None \<Rightarrow> (Ok (), d) | Some s \<Rightarrow> upsert_sync_session f now s d)"

definition compare_sync_snapshot ::
  "faults \<Rightarrow> nat \<Rightarrow> string \<Rightarrow> string \<Rightarrow> sync_snapshot \<Rightarrow> local_workspace option \<Rightarrow>
     local_sync_session option \<Rightarrow> db \<Rightarrow> (bool, failure) result \<times> db" where
  "compare_sync_snapshot f now server key expected w s d =
     (if f SBegin then (Err SqlErr, d)
      else case read_sync_snapshot f server key d of
             Err e \<Rightarrow> (Err e, d)
           | Ok current \<Rightarrow>
               if current \<noteq> expected then (Ok False, d)
               else case write_workspace f w d of
                      (Err e, _) \<Rightarrow> (Err e, d)
                    | (Ok _, d1) \<Rightarrow>
                        (case write_sync f now s d1 of
                           (Err e, _) \<Rightarrow> (Err e, d)
                         | (Ok _, d2) \<Rightarrow> if f SCommit then (Err SqlErr, d) else (Ok True, d2)))"

section \<open>Removal\<close>

text \<open>The two deletions of the reviewed rows; each gives the number of rows it deleted.\<close>

definition delete_reviewed_sync ::
  "string \<Rightarrow> local_workspace \<Rightarrow> local_sync_session \<Rightarrow> db \<Rightarrow> nat \<times> db" where
  "delete_reviewed_sync server w s d =
     (let p = (\<lambda>(r, t). ls_id r = ls_id s \<and> ls_workspace_id r = lw_id w \<and> ls_server_url r = server) in
      (length (filter p (db_sync_sessions d)),
       d\<lparr>db_sync_sessions := delete_where p (db_sync_sessions d)\<rparr>))"

definition delete_reviewed_workspace ::
  "string \<Rightarrow> string \<Rightarrow> local_workspace \<Rightarrow> db \<Rightarrow> nat \<times> db" where
  "delete_reviewed_workspace server key w d =
     (let p = (\<lambda>r. lw_id r = lw_id w \<and> lw_server_url r = server \<and> lw_project_key r = key) in
      (length (filter p (db_workspaces d)),
       d\<lparr>db_workspaces := delete_where p (db_workspaces d)\<rparr>))"

definition remove_sync_snapshot ::
  "faults \<Rightarrow> string \<Rightarrow> string \<Rightarrow> sync_snapshot \<Rightarrow> bool \<Rightarrow> db \<Rightarrow> (bool, failure) result \<times> db" where
  "remove_sync_snapshot f server key expected remove_workspace d =
     (if f SBegin then (Err SqlErr, d)
      else case read_sync_snapshot f server key d of
        Err e \<Rightarrow> (Err e, d)
      | Ok current \<Rightarrow>
          if current \<noteq> expected then (Ok False, d)
          else case sn_workspace expected of
            None \<Rightarrow> (Ok False, d)
          | Some w \<Rightarrow>
              (case sync_count f (lw_id w) d of
                 Err e \<Rightarrow> (Err e, d)
               | Ok n \<Rightarrow>
                   if n \<noteq> (if sn_sync expected = None then 0 else 1) then (Ok False, d)
                   else if f SWrite then
                     (if sn_sync expected = None \<and> \<not> remove_workspace
                      then (if f SCommit then (Err SqlErr, d) else (Ok True, d))
                      else (Err SqlErr, d))
                   else
                     let (n1, d1) = (case sn_sync expected of
                            None \<Rightarrow> (1, d) | Some s \<Rightarrow> delete_reviewed_sync server w s d) in
                     if n1 \<noteq> 1 then (Ok False, d)
                     else
                       let (n2, d2) = (if remove_workspace
                             then delete_reviewed_workspace server key w d1 else (1, d1)) in
                       if n2 \<noteq> 1 then (Ok False, d)
                       else if f SCommit then (Err SqlErr, d)
                       else (Ok True, d2)))"


section \<open>Lemmas\<close>

text \<open>What a snapshot says of the database it was read from.\<close>

definition snapshot_of :: "string \<Rightarrow> string \<Rightarrow> db \<Rightarrow> sync_snapshot \<Rightarrow> bool" where
  "snapshot_of server key d sn \<longleftrightarrow>
     sn_workspace sn = select_by lw_project (server, key) (db_workspaces d) \<and>
     (case sn_workspace sn of
        None \<Rightarrow> sn_sync sn = None
      | Some w \<Rightarrow>
          (case sn_sync sn of
             None \<Rightarrow> workspace_syncs d (lw_id w) = []
           | Some s \<Rightarrow> \<exists>t. workspace_syncs d (lw_id w) = [(s, t)]))"

lemma snapshot_of_workspace:
  "select_by lw_project (server, key) (db_workspaces d) = Some w \<Longrightarrow>
   snapshot_of server key d \<lparr>sn_workspace = Some w, sn_sync = s\<rparr> \<longleftrightarrow>
     (case s of None \<Rightarrow> workspace_syncs d (lw_id w) = []
      | Some s \<Rightarrow> \<exists>t. workspace_syncs d (lw_id w) = [(s, t)])"
  by (simp add: snapshot_of_def)

lemma snapshot_of_SomeD:
  assumes "snapshot_of server key d sn" "sn_workspace sn = Some w"
  shows "select_by lw_project (server, key) (db_workspaces d) = Some w"
    and "case sn_sync sn of None \<Rightarrow> workspace_syncs d (lw_id w) = []
         | Some s \<Rightarrow> \<exists>t. workspace_syncs d (lw_id w) = [(s, t)]"
  using assms by (simp_all add: snapshot_of_def)

lemma newest_first_short [simp]: "newest_first [] = []" "newest_first [r] = [r]"
  by (simp_all add: newest_first_def)

lemma read_sync_snapshot_Ok:
  assumes "read_sync_snapshot f server key d = Ok sn"
  shows "snapshot_of server key d sn"
proof (cases "select_by lw_project (server, key) (db_workspaces d)")
  case None
  with assms show ?thesis
    by (auto simp: read_sync_snapshot_def get_workspace_by_project_key_def snapshot_of_def split: if_splits)
next
  case (Some w)
  with assms have le: "length (workspace_syncs d (lw_id w)) \<le> 1"
    and sn: "get_sync_session_for_workspace f (lw_id w) d = Ok (sn_sync sn)" "sn_workspace sn = Some w"
    by (auto simp: read_sync_snapshot_def get_workspace_by_project_key_def sync_count_def
        split: if_splits result.splits)
  then consider "workspace_syncs d (lw_id w) = []" | s t where "workspace_syncs d (lw_id w) = [(s, t)]"
    by (cases "workspace_syncs d (lw_id w)") auto
  then show ?thesis
  proof cases
    case 1
    with Some sn show ?thesis
      by (auto simp: snapshot_of_def get_sync_session_for_workspace_def split: if_splits)
  next
    case 2
    with sn(1) have "sn_sync sn = Some s"
      by (auto simp: get_sync_session_for_workspace_def split: if_splits)
    with 2 Some sn(2) show ?thesis by (simp add: snapshot_of_def)
  qed
qed

text \<open>Conversely, on a readable database the snapshot is what is read.\<close>

lemma read_sync_snapshot_complete:
  assumes "snapshot_of server key d sn" "has_table d ''workspaces''" "has_table d ''sync_sessions''"
  shows "read_sync_snapshot no_faults server key d = Ok sn"
  using assms
  by (auto simp: read_sync_snapshot_def get_workspace_by_project_key_def sync_count_def
      get_sync_session_for_workspace_def snapshot_of_def split: option.splits)

lemma read_sync_snapshot_tables:
  assumes "read_sync_snapshot f server key d = Ok sn"
  shows "has_table d ''workspaces''" "sn_workspace sn \<noteq> None \<Longrightarrow> has_table d ''sync_sessions''"
  using assms
  by (auto simp: read_sync_snapshot_def get_workspace_by_project_key_def sync_count_def
      split: if_splits option.splits result.splits)

lemma compare_sync_snapshot_True:
  assumes "compare_sync_snapshot f now server key expected w s d = (Ok True, d')"
  obtains d1 where "read_sync_snapshot f server key d = Ok expected"
    "write_workspace f w d = (Ok (), d1)" "write_sync f now s d1 = (Ok (), d')"
  using assms by (auto simp: compare_sync_snapshot_def split: if_splits result.splits prod.splits)

lemma compare_sync_snapshot_unchanged:
  "compare_sync_snapshot f now server key expected w s d = (r, d') \<Longrightarrow> r \<noteq> Ok True \<Longrightarrow> d' = d"
  by (auto simp: compare_sync_snapshot_def split: if_splits result.splits prod.splits)

lemma remove_sync_snapshot_unchanged:
  "remove_sync_snapshot f server key expected rw d = (r, d') \<Longrightarrow> r \<noteq> Ok True \<Longrightarrow> d' = d"
  by (auto simp: remove_sync_snapshot_def Let_def split: if_splits result.splits prod.splits option.splits)

lemma snapshot_sync_row:
  assumes "snapshot_of server key d sn" "sn_workspace sn = Some w" "sn_sync sn = Some s"
  obtains t where "(s, t) \<in> set (db_sync_sessions d)" "ls_workspace_id s = lw_id w"
    "\<And>r. r \<in> set (db_sync_sessions d) \<Longrightarrow> ls_workspace_id (fst r) = lw_id w \<Longrightarrow> r = (s, t)"
proof -
  from assms obtain t where t: "workspace_syncs d (lw_id w) = [(s, t)]"
    by (auto simp: snapshot_of_def)
  have "r \<in> set (workspace_syncs d (lw_id w)) \<longleftrightarrow>
      r \<in> set (db_sync_sessions d) \<and> ls_workspace_id (fst r) = lw_id w" for r
    by (cases r) (simp add: workspace_syncs_def)
  with t have *: "r \<in> set (db_sync_sessions d) \<and> ls_workspace_id (fst r) = lw_id w \<longleftrightarrow> r = (s, t)" for r
    by simp
  show thesis using * [of "(s, t)"] * by (intro that [of t]) auto
qed


section \<open>Properties\<close>

lemma tables_ok_sync:
  assumes "tables_ok d" "r \<in> set (db_sync_sessions d)" "q \<in> set (db_sync_sessions d)"
    "sync_row_id r = sync_row_id q"
  shows "r = q"
  using assms inj_onD [of sync_row_id "set (db_sync_sessions d)"] by (auto simp: tables_ok_def distinct_map)

lemma tables_ok_workspace:
  assumes "tables_ok d" "r \<in> set (db_workspaces d)" "q \<in> set (db_workspaces d)" "lw_id r = lw_id q"
  shows "r = q"
  using assms inj_onD [of lw_id "set (db_workspaces d)"] by (auto simp: tables_ok_def distinct_map)

text \<open>Deleting the reviewed sync session deletes that row and no other.\<close>

lemma delete_reviewed_sync_exact:
  assumes "tables_ok d" and "snapshot_of server key d sn" "sn_workspace sn = Some w" "sn_sync sn = Some s"
    and "delete_reviewed_sync server w s d = (1, d1)"
  shows "d1 = d\<lparr>db_sync_sessions := filter (\<lambda>(r, t). r \<noteq> s) (db_sync_sessions d)\<rparr>"
    and "workspace_syncs d1 (lw_id w) = []"
proof -
  let ?p = "\<lambda>(r, t). ls_id r = ls_id s \<and> ls_workspace_id r = lw_id w \<and> ls_server_url r = server"
  obtain t where t: "(s, t) \<in> set (db_sync_sessions d)" "ls_workspace_id s = lw_id w"
    "\<And>r. r \<in> set (db_sync_sessions d) \<Longrightarrow> ls_workspace_id (fst r) = lw_id w \<Longrightarrow> r = (s, t)"
    using snapshot_sync_row [OF assms(2,3,4)] by blast
  from assms(5) have one: "length (filter ?p (db_sync_sessions d)) = 1"
    and d1: "d1 = d\<lparr>db_sync_sessions := delete_where ?p (db_sync_sessions d)\<rparr>"
    by (auto simp: delete_reviewed_sync_def Let_def)
  from one have "hd (filter ?p (db_sync_sessions d)) \<in> set (filter ?p (db_sync_sessions d))"
    by (intro hd_in_set) auto
  then obtain q where q: "q \<in> set (db_sync_sessions d)" "?p q" by auto
  then have "q = (s, t)" using t(3) by (auto simp: case_prod_beta)
  with q(2) have p: "?p (s, t)" by simp
  have same: "?p r \<longleftrightarrow> fst r = s" if "r \<in> set (db_sync_sessions d)" for r
  proof
    assume "?p r"
    then show "fst r = s" using t(3) [OF that] by (auto simp: case_prod_beta)
  next
    assume "fst r = s"
    then show "?p r" using p by (auto simp: case_prod_beta)
  qed
  have e: "delete_where ?p (db_sync_sessions d) = filter (\<lambda>(r, t). r \<noteq> s) (db_sync_sessions d)"
    unfolding delete_where_def by (rule filter_cong) (use same in \<open>auto simp: case_prod_beta\<close>)
  then show "d1 = d\<lparr>db_sync_sessions := filter (\<lambda>(r, t). r \<noteq> s) (db_sync_sessions d)\<rparr>"
    by (simp add: d1)
  show "workspace_syncs d1 (lw_id w) = []"
    using t(3) by (auto simp: workspace_syncs_def d1 e filter_empty_conv)
qed

lemma delete_reviewed_workspace_exact:
  assumes "tables_ok d" and "snapshot_of server key d sn" "sn_workspace sn = Some w"
  shows "delete_reviewed_workspace server key w d =
    (length (filter (\<lambda>r. r = w) (db_workspaces d)),
     d\<lparr>db_workspaces := filter (\<lambda>r. r \<noteq> w) (db_workspaces d)\<rparr>)"
proof -
  let ?p = "\<lambda>r. lw_id r = lw_id w \<and> lw_server_url r = server \<and> lw_project_key r = key"
  from assms have w: "w \<in> set (db_workspaces d)" "lw_project w = (server, key)"
    by (auto simp: snapshot_of_def dest!: sym [of "Some w"] select_by_Some)
  have same: "?p r \<longleftrightarrow> r = w" if "r \<in> set (db_workspaces d)" for r
    using w tables_ok_workspace [OF assms(1) that w(1)] by (auto simp: lw_project_def)
  have "filter ?p (db_workspaces d) = filter (\<lambda>r. r = w) (db_workspaces d)"
    by (rule filter_cong) (use same in auto)
  moreover have "filter (\<lambda>r. \<not> ?p r) (db_workspaces d) = filter (\<lambda>r. r \<noteq> w) (db_workspaces d)"
    by (rule filter_cong) (use same in auto)
  ultimately show ?thesis by (simp add: delete_reviewed_workspace_def delete_where_def)
qed

lemma remove_sync_snapshot_True:
  assumes "remove_sync_snapshot f server key expected rw d = (Ok True, d')"
  obtains w d1 where "read_sync_snapshot f server key d = Ok expected" "sn_workspace expected = Some w"
    "case sn_sync expected of None \<Rightarrow> d1 = d | Some s \<Rightarrow> delete_reviewed_sync server w s d = (1, d1)"
    "if rw then delete_reviewed_workspace server key w d1 = (1, d') else d' = d1"
proof -
  from assms have read: "read_sync_snapshot f server key d = Ok expected"
    by (cases "read_sync_snapshot f server key d") (auto simp: remove_sync_snapshot_def split: if_splits)
  with assms obtain w where w: "sn_workspace expected = Some w"
    by (cases "sn_workspace expected") (auto simp: remove_sync_snapshot_def split: if_splits)
  with assms read obtain n where n: "sync_count f (lw_id w) d = Ok n"
    by (cases "sync_count f (lw_id w) d") (auto simp: remove_sync_snapshot_def split: if_splits)
  define x where "x = (case sn_sync expected of None \<Rightarrow> (1, d) | Some s \<Rightarrow> delete_reviewed_sync server w s d)"
  from assms read w n show thesis
    by (intro that [of w "snd x"])
      (auto simp: remove_sync_snapshot_def x_def Let_def case_prod_beta split: if_splits option.splits
        intro!: prod_eqI)
qed

text \<open>What each outcome of a removal leaves.\<close>

lemma remove_sync_snapshot_rows:
  assumes "tables_ok d"
    and "remove_sync_snapshot f server key expected remove_workspace d = (r, d')"
  shows "if r = Ok True
    then \<exists>w. sn_workspace expected = Some w \<and>
      d' = d\<lparr>db_sync_sessions := filter (\<lambda>(s, t). Some s \<noteq> sn_sync expected) (db_sync_sessions d),
             db_workspaces := (if remove_workspace then filter (\<lambda>v. v \<noteq> w) (db_workspaces d)
                               else db_workspaces d)\<rparr> \<and>
      workspace_syncs d' (lw_id w) = []
    else d' = d"
proof (cases "r = Ok True")
  case False
  with remove_sync_snapshot_unchanged [OF assms(2)] show ?thesis by simp
next
  case True
  with assms(2) obtain w d1 where read: "read_sync_snapshot f server key d = Ok expected"
    and w: "sn_workspace expected = Some w"
    and d1: "case sn_sync expected of None \<Rightarrow> d1 = d | Some s \<Rightarrow> delete_reviewed_sync server w s d = (1, d1)"
    and d2: "if remove_workspace then delete_reviewed_workspace server key w d1 = (1, d') else d' = d1"
    using remove_sync_snapshot_True [of f server key expected remove_workspace d d'] by blast
  have sn: "snapshot_of server key d expected" by (rule read_sync_snapshot_Ok [OF read])
  have e1: "d1 = d\<lparr>db_sync_sessions := filter (\<lambda>(s, t). Some s \<noteq> sn_sync expected) (db_sync_sessions d)\<rparr>
      \<and> workspace_syncs d1 (lw_id w) = []"
  proof (cases "sn_sync expected")
    case None
    with sn w d1 show ?thesis by (simp add: snapshot_of_def case_prod_beta)
  next
    case (Some s)
    with d1 delete_reviewed_sync_exact [OF assms(1) sn w Some] show ?thesis by simp
  qed
  have ok: "tables_ok d1"
    using assms(1) e1 by (auto simp: tables_ok_def distinct_map_filter)
  have "db_workspaces d1 = db_workspaces d" using e1 by simp
  moreover have "select_by lw_project (server, key) (db_workspaces d) = Some w"
    using sn w by (simp add: snapshot_of_def)
  ultimately have "snapshot_of server key d1 \<lparr>sn_workspace = Some w, sn_sync = None\<rparr>"
    using conjunct2 [OF e1] by (simp add: snapshot_of_def)
  from delete_reviewed_workspace_exact [OF ok this] d2
  have "d' = d1\<lparr>db_workspaces := (if remove_workspace then filter (\<lambda>v. v \<noteq> w) (db_workspaces d1)
      else db_workspaces d1)\<rparr>"
    by (auto split: if_splits)
  with True w e1 show ?thesis by (auto simp: workspace_syncs_def)
qed


text \<open>
  Removal never broadens: when it commits, the sync rows that are gone are exactly the
  reviewed session (none when the snapshot had none), the workspace row that is gone is exactly
  the reviewed one and only if its removal was asked for, no other table changed, and no session
  of the workspace is left behind; in every other case nothing changed.
\<close>

lemma remove_sync_snapshot_exact:
  assumes "tables_ok d"
    and "remove_sync_snapshot f server key expected remove_workspace d = (r, d')"
  shows "if r = Ok True
    then \<exists>w. sn_workspace expected = Some w \<and>
      d' = d\<lparr>db_sync_sessions := filter (\<lambda>(s, t). Some s \<noteq> sn_sync expected) (db_sync_sessions d),
             db_workspaces := (if remove_workspace then filter (\<lambda>v. v \<noteq> w) (db_workspaces d)
                               else db_workspaces d)\<rparr> \<and>
      workspace_syncs d' (lw_id w) = []
    else d' = d"
  using assms by (rule remove_sync_snapshot_rows)

definition mapped_snapshot :: sync_snapshot where
  "mapped_snapshot = \<lparr>sn_workspace = Some sample_workspace, sn_sync = Some sample_sync\<rparr>"

lemma workspace_syncs_mapped: "workspace_syncs mapped_db (sample_id 2) = [(sample_sync, 1)]"
  by (simp add: workspace_syncs_def mapped_db_schema sample_sync_def)

lemma read_mapped: "read_sync_snapshot no_faults ''https://s'' ''p'' mapped_db = Ok mapped_snapshot"
proof (rule read_sync_snapshot_complete)
  have "lw_id sample_workspace = sample_id 2" "lw_project sample_workspace = (''https://s'', ''p'')"
    by (simp_all add: sample_workspace_def lw_project_def)
  then show "snapshot_of ''https://s'' ''p'' mapped_db mapped_snapshot"
    by (simp add: snapshot_of_def mapped_snapshot_def mapped_db_schema select_by_def workspace_syncs_mapped)
qed (simp_all add: created_tables)

lemma single_row:
  assumes "distinct (map key rows)" and "set rows = {r}"
  shows "rows = [r]"
proof -
  have "distinct rows" using assms(1) by (simp add: distinct_map)
  then have "length rows = 1" using assms(2) distinct_card [of rows] by simp
  then obtain x where "rows = [x]" by (cases rows) auto
  with assms(2) show ?thesis by simp
qed

lemma snapshot_eta [simp]: "\<lparr>sn_workspace = sn_workspace sn, sn_sync = sn_sync sn\<rparr> = sn"
  by simp

lemma write_workspace_snapshot:
  assumes "tables_ok d" "project_index d" and sn: "snapshot_of server key d sn"
    and "write_workspace f w d = (Ok u, d')"
    and w: "is_none_or (\<lambda>w. lw_project w = (server, key) \<and>
              (sn_workspace sn = None \<longrightarrow> workspace_syncs d (lw_id w) = [])) w"
  shows "snapshot_of server key d' \<lparr>sn_workspace = option_or w (sn_workspace sn), sn_sync = sn_sync sn\<rparr>"
    and "tables_ok d'" and "db_tables d' = db_tables d"
proof -
  have "(d' = d \<and> w = None) \<or> (\<exists>v. w = Some v \<and> upsert_workspace f v d = (Ok (), d'))"
    using assms(4) by (auto simp: write_workspace_def split: option.splits)
  moreover have "tables_ok (snd (upsert_workspace f v d))" for v
    using table_step_ok [OF assms(1,2), of f "UpsertWorkspace v"] by simp
  ultimately show "tables_ok d'" using assms(1) by (metis snd_conv)
  show "db_tables d' = db_tables d"
    using assms(4) by (auto simp: write_workspace_def upsert_workspace_def split: option.splits if_splits)
  show "snapshot_of server key d' \<lparr>sn_workspace = option_or w (sn_workspace sn), sn_sync = sn_sync sn\<rparr>"
  proof (cases w)
    case None
    with assms(4) sn show ?thesis by (simp add: write_workspace_def)
  next
    case (Some v)
    then have up: "upsert_workspace f v d = (Ok u, d')" using assms(4) by (simp add: write_workspace_def)
    then have d': "d' = d\<lparr>db_workspaces := upsert_by lw_id v (db_workspaces d)\<rparr>" "\<not> project_taken d v"
      by (auto simp: upsert_workspace_def split: if_splits)
    have syncs: "workspace_syncs d' i = workspace_syncs d i" for i
      by (simp add: workspace_syncs_def d')
    have "lw_id v = lw_id v0" if "sn_workspace sn = Some v0" for v0
    proof -
      have "select_by lw_project (server, key) (db_workspaces d) = Some v0"
        using sn that by (simp add: snapshot_of_def)
      from select_by_Some [OF this] d'(2) assms(2) w Some show ?thesis
        by (auto simp: project_taken_def project_index_def list_ex_iff split: option.splits)
    qed
    moreover have "select_by lw_project (server, key) (db_workspaces d') = Some v"
      using upsert_workspace_Ok(1) [OF assms(1,2) up] w Some by simp
    moreover have "sn_sync sn = None" if "sn_workspace sn = None"
      using sn that by (simp add: snapshot_of_def)
    ultimately show ?thesis
      using w Some snapshot_of_SomeD(2) [OF sn]
      by (cases "sn_workspace sn"; cases "sn_sync sn") (simp_all add: snapshot_of_workspace syncs)
  qed
qed

lemma write_sync_snapshot:
  assumes "tables_ok d" and sn: "snapshot_of server key d sn"
    and "write_sync f now s d = (Ok u, d')"
    and s: "is_none_or (\<lambda>s. \<exists>v. sn_workspace sn = Some v \<and> ls_workspace_id s = lw_id v \<and>
              is_none_or (\<lambda>s0. ls_id s0 = ls_id s) (sn_sync sn)) s"
  shows "snapshot_of server key d' \<lparr>sn_workspace = sn_workspace sn, sn_sync = option_or s (sn_sync sn)\<rparr>"
proof (cases s)
  case None
  with assms show ?thesis by (simp add: write_sync_def)
next
  case (Some r)
  with assms(3) have d': "d' = d\<lparr>db_sync_sessions := upsert_by sync_row_id (r, now) (db_sync_sessions d)\<rparr>"
    by (auto simp: write_sync_def upsert_sync_session_def split: if_splits)
  from s Some obtain v where v: "sn_workspace sn = Some v" "ls_workspace_id r = lw_id v"
    and old: "is_none_or (\<lambda>s0. ls_id s0 = ls_id r) (sn_sync sn)" by auto
  have "workspace_syncs d' (lw_id v) = [(r, now)]"
  proof (rule single_row)
    have "distinct (map sync_row_id (upsert_by sync_row_id (r, now) (db_sync_sessions d)))"
      using assms(1) by (intro distinct_upsert_by) (simp add: tables_ok_def)
    then show "distinct (map sync_row_id (workspace_syncs d' (lw_id v)))"
      by (simp add: workspace_syncs_def d' distinct_map_filter)
    have "sync_row_id q = ls_id r" if "q \<in> set (workspace_syncs d (lw_id v))" for q
      using sn v(1) old that by (cases "sn_sync sn") (auto simp: snapshot_of_def)
    then show "set (workspace_syncs d' (lw_id v)) = {(r, now)}"
      using v(2) by (force simp: workspace_syncs_def d' set_upsert_by)
  qed
  moreover have "select_by lw_project (server, key) (db_workspaces d') = Some v"
    using snapshot_of_SomeD(1) [OF sn v(1)] by (simp add: d')
  ultimately show ?thesis using v(1) Some by (simp add: snapshot_of_workspace)
qed

text \<open>
  The compare-and-swap of a reviewed mapping: when it reports success, the reviewed snapshot
  was the stored one, and a later read gives exactly the snapshot that the caller goes on with
  (the new rows where it gave any, the reviewed ones elsewhere). The workspace must be the one of
  that project, without sessions left over from an unknown mapping, and the session must belong
  to it and keep the reviewed id.
\<close>

lemma compare_sync_snapshot_swaps:
  assumes "tables_ok d" "project_index d" "has_table d ''sync_sessions''"
    and "compare_sync_snapshot f now server key expected w s d = (Ok True, d')"
    and "is_none_or (\<lambda>w. lw_project w = (server, key) \<and>
              (sn_workspace expected = None \<longrightarrow> workspace_syncs d (lw_id w) = [])) w"
    and "is_none_or (\<lambda>s. \<exists>v. option_or w (sn_workspace expected) = Some v \<and>
              ls_workspace_id s = lw_id v \<and> is_none_or (\<lambda>s0. ls_id s0 = ls_id s) (sn_sync expected)) s"
  shows "read_sync_snapshot no_faults server key d =  Ok expected \<and>
    read_sync_snapshot no_faults server key d' =
      Ok \<lparr>sn_workspace = option_or w (sn_workspace expected), sn_sync = option_or s (sn_sync expected)\<rparr>"
proof -
  from assms(4) obtain d1 where read: "read_sync_snapshot f server key d = Ok expected"
    and ww: "write_workspace f w d = (Ok (), d1)" and ws: "write_sync f now s d1 = (Ok (), d')"
    using compare_sync_snapshot_True by blast
  note sn = read_sync_snapshot_Ok [OF read]
  note w1 = write_workspace_snapshot [OF assms(1,2) sn ww assms(5)]
  note w2 = write_sync_snapshot [OF w1(2,1) ws, simplified, OF assms(6)]
  have t: "has_table d ''workspaces''" by (rule read_sync_snapshot_tables(1) [OF read])
  have "db_tables d' = db_tables d1"
    using ws by (auto simp: write_sync_def upsert_sync_session_def split: option.splits if_splits)
  then have t': "has_table d' x = has_table d x" for x using w1(3) by (simp add: has_table_def)
  show ?thesis
    using read_sync_snapshot_complete [OF sn t assms(3)] read_sync_snapshot_complete [OF w2] t t' assms(3)
    by simp
qed


text \<open>
  Two reviewers of the same snapshot: once one of them has changed it, the other's
  compare-and-swap and removal report false and change nothing.
\<close>

lemma stale_snapshot_refused:
  assumes "read_sync_snapshot f server key d = Ok current" "current \<noteq> expected"
  shows "compare_sync_snapshot f now server key expected w s d \<in> {(Ok False, d), (Err SqlErr, d)}"
    and "remove_sync_snapshot f server key expected rw d \<in> {(Ok False, d), (Err SqlErr, d)}"
  using assms by (simp_all add: compare_sync_snapshot_def remove_sync_snapshot_def)

end
