(* ===== verification/Sync_Target.thy ===== *)
theory Sync_Target
  imports Sync_State Session_Types Account_Operations
begin

text \<open>
  What a synchronization is about (\<open>workspace.rs\<close>, \<open>api/sync.rs\<close>, the sync types of \<open>api.rs\<close>,
  \<open>sync_operations/types.rs\<close> and \<open>sync_operations/state.rs\<close>): the identity of a local
  directory, the session the server reports and its fingerprint, the conditional server calls,
  the reviewed target, the validation of what the server answered, and the persistence of a
  mapping.
\<close>

section \<open>Workspace identity\<close>

record workspace_identity =
  wi_local_path :: string
  wi_project_key :: string
  wi_display_name :: string

definition backslash :: char where
  "backslash = char_of (92 :: nat)"

definition normalized_project_path :: "string \<Rightarrow> string" where
  "normalized_project_path p = map (\<lambda>c. if c = backslash then CHR ''/'' else c) p"

text \<open>\<open>Path::file_name\<close> of a canonical path: its last component, none for the root.\<close>

definition file_name :: "string \<Rightarrow> string option" where
  "file_name p =
     (let parts = filter (\<lambda>c. c \<noteq> []) (split_slash p) in if parts = [] then None else Some (last parts))"

definition path_is_dir :: "host \<Rightarrow> string \<Rightarrow> bool" where
  "path_is_dir H p = (case h_lstat H p of Ok m \<Rightarrow> md_kind m = DirectoryFile | Err _ \<Rightarrow> False)"

definition identify_workspace :: "crates \<Rightarrow> host \<Rightarrow> string \<Rightarrow> (workspace_identity, failure) result" where
  "identify_workspace X H raw =
     (case h_canonicalize H raw of
        Err e \<Rightarrow> Err (IoErr e)
      | Ok p \<Rightarrow>
          if \<not> path_is_dir H p then Err (Bail ''workspace path must be a directory'')
          else Ok \<lparr>wi_local_path = p,
                   wi_project_key = ''sha256:'' @ sha256_hex X (normalized_project_path p),
                   wi_display_name = (case file_name p of Some n \<Rightarrow> n | None \<Rightarrow> ''workspace'')\<rparr>)"

definition default_excludes :: "string list" where
  "default_excludes =
     [''.agent-remote-workspace.json'', ''.git/**/*.lock'', ''.git/hooks'', ''.git/index'', ''.git/logs'',
      ''.git/worktrees'', ''node_modules'', ''target'', ''dist'', ''.venv'', ''__pycache__'',
      ''.mypy_cache'', ''.pytest_cache'', ''.ruff_cache'', ''.tox'', ''.nox'', ''.coverage'',
      ''.coverage.*'', ''htmlcov'']"

section \<open>Server data\<close>

record git_sync_policy =
  gp_exclude_hooks :: bool
  gp_exclude_locks :: bool
  gp_require_clean_git_lock :: bool
  gp_warn_concurrent_git :: bool

definition default_git_sync_policy :: git_sync_policy where
  "default_git_sync_policy =
     \<lparr>gp_exclude_hooks = True, gp_exclude_locks = True, gp_require_clean_git_lock = True,
      gp_warn_concurrent_git = True\<rparr>"

record create_workspace_request =
  cw_device_id :: string
  cw_project_key :: string
  cw_local_start_path :: string
  cw_display_name :: string
  cw_sync_git :: bool
  cw_git_sync_policy :: git_sync_policy

record workspace_data =
  wd_id :: string
  wd_user_id :: string
  wd_device_id :: string
  wd_project_key :: string
  wd_local_start_path :: string
  wd_display_name :: string
  wd_remote_path :: "string option"
  wd_sync_git :: bool
  wd_git_sync_policy :: git_sync_policy
  wd_created_at :: string
  wd_updated_at :: string

record create_sync_session_request =
  cs_workspace_id :: string
  cs_node_id :: "string option"
  cs_local_path :: "string option"
  cs_sync_mode :: string
  cs_sync_git :: bool
  cs_exclude :: "string list"

record sync_session_data =
  xd_id :: string
  xd_user_id :: string
  xd_workspace_id :: string
  xd_node_id :: "string option"
  xd_local_path :: string
  xd_remote_path :: string
  xd_status :: string
  xd_conflict_status :: string
  xd_sync_mode :: string
  xd_sync_git :: bool
  xd_exclude :: "string list"
  xd_mutagen_session_id :: "string option"
  xd_remote_endpoint :: "string option"
  xd_prepare_task_id :: "string option"
  xd_created_at :: string
  xd_updated_at :: string

record expected_sync_target =
  et_id :: string
  et_workspace_id :: string
  et_node_id :: "string option"
  et_local_path :: string
  et_remote_path :: string
  et_mutagen_session_id :: "string option"
  et_remote_endpoint :: "string option"
  et_sync_mode :: string
  et_sync_git :: bool
  et_exclude :: "string list"

record confirmed_sync_action =
  ca_note :: "string option"
  ca_expected_target :: expected_sync_target

record checked_sync_session =
  ck_sync :: sync_session_data
  ck_target_precondition_version :: "32 word"
  ck_target_precondition_checked :: bool

datatype sync_body =
    WorkspaceBody create_workspace_request
  | SyncBody create_sync_session_request
  | ActionBody confirmed_sync_action

record sync_decoders =
  sy_workspace :: "workspace_data decoders"
  sy_session :: "sync_session_data decoders"
  sy_checked :: "checked_sync_session decoders"

definition checked_validate :: "bool \<Rightarrow> checked_sync_session \<Rightarrow> (sync_session_data, api_error) result" where
  "checked_validate submitted c =
     (if ck_target_precondition_version c \<noteq> 1 \<or> submitted \<and> \<not> ck_target_precondition_checked c
      then Err \<lparr>ae_status = Some 200, ae_code = None, ae_message = ''sync target precondition unsupported''\<rparr>
      else Ok (ck_sync c))"

text \<open>The requests, and the reading of each answer.\<close>

definition workspace_get :: "string \<Rightarrow> sync_body http_request" where
  "workspace_get i = HttpGet (''/api/v1/workspaces/'' @ i)"

definition workspace_post :: "create_workspace_request \<Rightarrow> sync_body http_request" where
  "workspace_post q = HttpPost ''/api/v1/workspaces'' (WorkspaceBody q)"

definition sync_get :: "string \<Rightarrow> sync_body http_request" where
  "sync_get i = HttpGet (''/api/v1/sync-sessions/'' @ i)"

definition sync_post :: "create_sync_session_request \<Rightarrow> sync_body http_request" where
  "sync_post q = HttpPost ''/api/v1/sync-sessions'' (SyncBody q)"

definition expected_target_of :: "sync_session_data \<Rightarrow> expected_sync_target" where
  "expected_target_of s =
     \<lparr>et_id = xd_id s, et_workspace_id = xd_workspace_id s, et_node_id = xd_node_id s,
      et_local_path = xd_local_path s, et_remote_path = xd_remote_path s,
      et_mutagen_session_id = xd_mutagen_session_id s, et_remote_endpoint = xd_remote_endpoint s,
      et_sync_mode = xd_sync_mode s, et_sync_git = xd_sync_git s, et_exclude = xd_exclude s\<rparr>"

definition action_post :: "string \<Rightarrow> sync_session_data \<Rightarrow> sync_body http_request" where
  "action_post action s =
     HttpPost (''/api/v1/sync-sessions/'' @ xd_id s @ ''/'' @ action)
       (ActionBody \<lparr>ca_note = None, ca_expected_target = expected_target_of s\<rparr>)"

definition read_checked ::
  "crates \<Rightarrow> sync_decoders \<Rightarrow> bool \<Rightarrow> (http_response, api_error) result \<Rightarrow>
     (sync_session_data, api_error) result" where
  "read_checked X D submitted outcome =
     (case send X (sy_checked D) outcome of Err e \<Rightarrow> Err e | Ok c \<Rightarrow> checked_validate submitted c)"

section \<open>Targets and receipts\<close>

record sync_target =
  tg_local_path :: string
  tg_project_key :: string
  tg_workspace_id :: "string option"
  tg_sync_session_id :: "string option"
  tg_fingerprint :: "string option"

record sync_view =
  vw_id :: string
  vw_workspace_id :: string
  vw_node_id :: "string option"
  vw_local_path :: string
  vw_remote_path :: string
  vw_status :: string
  vw_conflict_status :: string
  vw_sync_mode :: string
  vw_sync_git :: bool
  vw_exclude :: "string list"
  vw_mutagen_session_id :: "string option"
  vw_remote_endpoint :: "string option"

definition sync_view_of :: "sync_session_data \<Rightarrow> sync_view" where
  "sync_view_of s =
     \<lparr>vw_id = xd_id s, vw_workspace_id = xd_workspace_id s, vw_node_id = xd_node_id s,
      vw_local_path = xd_local_path s, vw_remote_path = xd_remote_path s, vw_status = xd_status s,
      vw_conflict_status = xd_conflict_status s, vw_sync_mode = xd_sync_mode s,
      vw_sync_git = xd_sync_git s, vw_exclude = xd_exclude s,
      vw_mutagen_session_id = xd_mutagen_session_id s, vw_remote_endpoint = xd_remote_endpoint s\<rparr>"

definition json_opt :: "string option \<Rightarrow> json" where
  "json_opt x = (case x of None \<Rightarrow> JNull | Some s \<Rightarrow> JString s)"

definition fingerprint_fields :: "sync_session_data \<Rightarrow> json" where
  "fingerprint_fields s =
     JArray [JString (xd_id s), JString (xd_workspace_id s), json_opt (xd_node_id s),
             JString (xd_local_path s), JString (xd_remote_path s), JString (xd_sync_mode s),
             JBool (xd_sync_git s), JArray (map JString (xd_exclude s)),
             json_opt (xd_mutagen_session_id s), json_opt (xd_remote_endpoint s)]"

definition fingerprint :: "crates \<Rightarrow> sync_session_data \<Rightarrow> string" where
  "fingerprint X s = ''sha256:'' @ sha256_hex X (json_text X (fingerprint_fields s))"

record sync_observation =
  ov_state :: string
  ov_conflicts :: string
  ov_paused :: "bool option"
  ov_status :: "string option"
  ov_conflict_count :: "64 word option"

definition observation_unavailable :: sync_observation where
  "observation_unavailable =
     \<lparr>ov_state = ''unavailable'', ov_conflicts = ''unknown'', ov_paused = None, ov_status = None,
      ov_conflict_count = None\<rparr>"

record sync_stage =
  sg_name :: string
  sg_state :: string

record sync_receipt =
  rc_context :: account_context
  rc_method :: string
  rc_target :: sync_target
  rc_result_target :: sync_target
  rc_dry_run :: bool
  rc_outcome :: string
  rc_stages :: "sync_stage list"
  rc_sync :: "sync_view option"
  rc_mutagen :: "sync_observation option"
  rc_error_code :: "string option"

definition sync_error_read :: "api_error \<Rightarrow> op_error" where
  "sync_error_read e =
     \<lparr>oe_code =
        (case ae_status e of
           None \<Rightarrow> ''server_unavailable''
         | Some s \<Rightarrow>
             if s = 401 then ''authentication_required''
             else if s = 403 then ''permission_denied''
             else if s = 404 then ''sync_not_found''
             else if s = 429 then ''rate_limited''
             else if 200 \<le> s \<and> s \<le> 299 then ''sync_response_invalid''
             else ''server_unavailable''),
      oe_http_status = ae_status e\<rparr>"

definition sync_error_write :: "api_error \<Rightarrow> op_error" where
  "sync_error_write e =
     \<lparr>oe_code = (if is_some_and (\<lambda>s. 400 \<le> s \<and> s < 500) (ae_status e) then ''sync_rejected''
                 else ''sync_outcome_unknown''),
      oe_http_status = ae_status e\<rparr>"

section \<open>Local state\<close>

definition paths_equal :: "string \<Rightarrow> string \<Rightarrow> bool" where
  "paths_equal l r \<longleftrightarrow> l = r"

definition identify :: "crates \<Rightarrow> host \<Rightarrow> string \<Rightarrow> (workspace_identity, op_error) result" where
  "identify X H path =
     (if path = [] \<or> length path > 32768 \<or> has_control path \<or> \<not> path_is_absolute path
      then Err (op_error_new ''invalid_params'')
      else case identify_workspace X H path of
             Err _ \<Rightarrow> Err (op_error_new ''sync_target_changed'')
           | Ok w \<Rightarrow>
               if \<not> paths_equal path (wi_local_path w) then Err (op_error_new ''sync_target_changed'')
               else Ok (w\<lparr>wi_local_path := path\<rparr>))"

text \<open>
  One use of the local state: the host and the failing statements then, the current time, and
  what other processes did to the database since the last use.
\<close>

record sync_point =
  sp_host :: host
  sp_read :: faults
  sp_init :: faults
  sp_write :: faults
  sp_now :: nat
  sp_others :: "db \<Rightarrow> db"

definition state_snapshot ::
  "sync_point \<Rightarrow> string \<Rightarrow> string \<Rightarrow> db \<Rightarrow> (sync_snapshot, op_error) result" where
  "state_snapshot P server key d =
     map_err (\<lambda>_. op_error_new ''state_unavailable'') (read_snapshot (sp_host P) (sp_read P) server key d)"

definition sync_valid_id :: "crates \<Rightarrow> string \<Rightarrow> bool" where
  "sync_valid_id X s = (case uuid_parse X s of None \<Rightarrow> False | Some u \<Rightarrow> uuid_print X u = s)"

definition state_target ::
  "crates \<Rightarrow> workspace_identity \<Rightarrow> sync_snapshot \<Rightarrow> (sync_target, op_error) result" where
  "state_target X ident sn =
     (if is_some_and (\<lambda>w. \<not> paths_equal (lw_local_path w) (wi_local_path ident) \<or> \<not> sync_valid_id X (lw_id w))
           (sn_workspace sn)
      then Err (op_error_new ''sync_target_changed'')
      else if is_some_and (\<lambda>s. \<not> sync_valid_id X (ls_id s) \<or>
                is_none_or (\<lambda>w. lw_id w \<noteq> ls_workspace_id s \<or> lw_server_url w \<noteq> ls_server_url s)
                  (sn_workspace sn)) (sn_sync sn)
      then Err (op_error_new ''sync_target_changed'')
      else Ok \<lparr>tg_local_path = wi_local_path ident, tg_project_key = wi_project_key ident,
               tg_workspace_id = map_option lw_id (sn_workspace sn),
               tg_sync_session_id = map_option ls_id (sn_sync sn), tg_fingerprint = None\<rparr>)"

definition validate_sync ::
  "crates \<Rightarrow> sync_session_data \<Rightarrow> sync_target \<Rightarrow> (unit, op_error) result" where
  "validate_sync X s t =
     (if \<not> sync_valid_id X (xd_id s) \<or>
         \<not> sync_valid_id X (xd_workspace_id s) \<or>
         is_some_and (\<lambda>i. \<not> sync_valid_id X i) (xd_node_id s) \<or>
         tg_workspace_id t \<noteq> Some (xd_workspace_id s) \<or>
         \<not> paths_equal (xd_local_path s) (tg_local_path t) \<or>
         is_some_and (\<lambda>i. i \<noteq> xd_id s) (tg_sync_session_id t) \<or>
         \<not> valid_text (xd_remote_path s) 32768 \<or>
         xd_status s \<notin> {''starting'', ''active'', ''paused'', ''failed'', ''stopped'', ''healthy'', ''conflicted''} \<or>
         xd_conflict_status s \<notin> {''none'', ''has_conflicts'', ''conflict'', ''conflicted'', ''conflicts'',
           ''unresolved'', ''unknown''} \<or>
         xd_sync_mode s \<noteq> ''two_way'' \<or>
         length (xd_exclude s) > 256 \<or>
         \<not> list_all (\<lambda>e. valid_text e 4096) (xd_exclude s) \<or>
         is_some_and (\<lambda>v. \<not> valid_text v 128) (xd_mutagen_session_id s) \<or>
         is_some_and (\<lambda>v. \<not> valid_text v 8192) (xd_remote_endpoint s)
      then Err (op_error_new ''sync_response_invalid'')
      else if is_some_and (\<lambda>f. f \<noteq> fingerprint X s) (tg_fingerprint t)
      then Err (op_error_new ''sync_target_changed'')
      else Ok ())"

definition local_workspace_of :: "string \<Rightarrow> workspace_data \<Rightarrow> local_workspace" where
  "local_workspace_of server w =
     \<lparr>lw_id = wd_id w, lw_server_url = server, lw_project_key = wd_project_key w,
      lw_local_path = wd_local_start_path w, lw_display_name = wd_display_name w,
      lw_remote_path = wd_remote_path w\<rparr>"

definition local_sync_of :: "string \<Rightarrow> sync_session_data \<Rightarrow> local_sync_session" where
  "local_sync_of server s =
     \<lparr>ls_id = xd_id s, ls_server_url = server, ls_workspace_id = xd_workspace_id s,
      ls_node_id = xd_node_id s, ls_status = xd_status s, ls_conflict_status = xd_conflict_status s,
      ls_mutagen_session_id = xd_mutagen_session_id s, ls_remote_endpoint = xd_remote_endpoint s\<rparr>"

definition state_persist ::
  "sync_point \<Rightarrow> string \<Rightarrow> sync_target \<Rightarrow> sync_snapshot \<Rightarrow> workspace_data option \<Rightarrow>
     sync_session_data option \<Rightarrow> db \<Rightarrow> (sync_snapshot, op_error) result \<times> db" where
  "state_persist P server target expected w s d =
     (let ws = map_option (local_workspace_of server) w; ss = map_option (local_sync_of server) s in
      case open_state (sp_host P) of
        Err _ \<Rightarrow> (Err (op_error_new ''state_unavailable''), d)
      | Ok _ \<Rightarrow>
          (case init_schema (sp_init P) d of
             (Err _, d1) \<Rightarrow> (Err (op_error_new ''state_unavailable''), d1)
           | (Ok _, d1) \<Rightarrow>
               (case compare_sync_snapshot (sp_write P) (sp_now P) server (tg_project_key target) expected ws ss d1 of
                  (Err _, d2) \<Rightarrow> (Err (op_error_new ''state_unavailable''), d2)
                | (Ok False, d2) \<Rightarrow> (Err (op_error_new ''sync_target_changed''), d2)
                | (Ok True, d2) \<Rightarrow>
                    (Ok \<lparr>sn_workspace = option_or ws (sn_workspace expected),
                         sn_sync = option_or ss (sn_sync expected)\<rparr>, d2))))"

end
