(* ===== verification/Sync_Operations.thy ===== *)
theory Sync_Operations
  imports Sync_Target
begin

text \<open>
  Confirmed workspace synchronization (\<open>sync_operations.rs\<close>): the authority of a call, the
  observation of the current target, the status query, and the mutation of a reviewed target with
  its stages. A call carries its receipt, its snapshot of the mapping, the database, and the
  requests it has sent; every step can fail, and the receipt says how far the call came. The
  Mutagen daemon is a process of its own: what \<open>mutagen::desktop\<close> reports of it is an argument.
\<close>

section \<open>Authority\<close>

text \<open>\<open>StrictDeviceToken\<close>, and what one authorization meets.\<close>

record strict_token =
  kt_server_url :: string
  kt_device_id :: string
  kt_token :: string

record sync_authority =
  au_host :: host
  au_config_before :: "client_config option"
  au_login :: bool
  au_config_locked :: "client_config option"
  au_token :: "strict_token option"
  au_lock :: bool
  au_config_final :: "client_config option"
  au_client :: bool

definition sync_check_context ::
  "host \<Rightarrow> client_config option \<Rightarrow> account_context \<Rightarrow> (client_config, op_error) result" where
  "sync_check_context H loaded expected =
     (case loaded of
        None \<Rightarrow> Err (op_error_new ''configuration_unavailable'')
      | Some c \<Rightarrow>
          if h_home H \<noteq> ac_home expected \<or> cf_server_url c \<noteq> ac_server_url expected \<or>
             cf_active_device_id c \<noteq> ac_active_device_id expected
          then Err (op_error_new ''configuration_changed'')
          else if cf_server_url c = None \<or> cf_active_device_id c = None
          then Err (op_error_new ''authentication_required'')
          else Ok c)"

definition sync_authorize ::
  "sync_authority \<Rightarrow> account_context \<Rightarrow> (strict_token, op_error) result" where
  "sync_authorize A expected =
     (case sync_check_context (au_host A) (au_config_before A) expected of
        Err e \<Rightarrow> Err e
      | Ok _ \<Rightarrow>
          if \<not> au_login A then Err (op_error_new ''credential_unavailable'')
          else case sync_check_context (au_host A) (au_config_locked A) expected of
            Err e \<Rightarrow> Err e
          | Ok _ \<Rightarrow>
              (case au_token A of
                 None \<Rightarrow> Err (op_error_new ''credential_unavailable'')
               | Some token \<Rightarrow>
                   if \<not> au_lock A then Err (op_error_new ''configuration_unavailable'')
                   else case sync_check_context (au_host A) (au_config_final A) expected of
                     Err e \<Rightarrow> Err e
                   | Ok _ \<Rightarrow>
                       if \<not> au_client A then Err (op_error_new ''configuration_unavailable'')
                       else Ok token))"

section \<open>The world of a call\<close>

text \<open>The places of a call where the local state is used.\<close>

datatype sync_site =
    AtStart | AtObserve | AtRecheck | AtPersistWorkspace | AtRecheckCreate | AtPersistCreate
  | AtPersistReady | AtLocal | AtPersistAction

record mutagen_error =
  mg_code :: string
  mg_changed :: bool

text \<open>
  The network answers the \<open>n\<close>-th request of the call; \<open>lag n\<close> is how much longer than the 500
  milliseconds asked for the \<open>n\<close>-th wait of the preparation loop takes.
\<close>

record sync_world =
  wo_crates :: crates
  wo_decoders :: sync_decoders
  wo_authority :: sync_authority
  wo_net :: "nat \<Rightarrow> sync_body network"
  wo_point :: "sync_site \<Rightarrow> sync_point"
  wo_mutagen :: "sync_session_data \<Rightarrow> string \<Rightarrow> (sync_observation, mutagen_error) result"
  wo_inspect :: "sync_session_data \<Rightarrow> (sync_observation, mutagen_error) result"
  wo_now :: nat
  wo_lag :: "nat \<Rightarrow> nat"

record sync_state =
  sx_receipt :: sync_receipt
  sx_snapshot :: sync_snapshot
  sx_db :: db
  sx_log :: "sync_body http_request list"

type_synonym 'a sync_step = "sync_state \<Rightarrow> ('a, op_error) result \<times> sync_state"

text \<open>The \<open>?\<close> operator between steps.\<close>

definition and_then :: "'a sync_step \<Rightarrow> ('a \<Rightarrow> 'b sync_step) \<Rightarrow> 'b sync_step" where
  "and_then m k s = (case m s of (Err e, s') \<Rightarrow> (Err e, s') | (Ok a, s') \<Rightarrow> k a s')"

definition done_with :: "('a, op_error) result \<Rightarrow> 'a sync_step" where
  "done_with r s = (r, s)"

text \<open>A request, logged before its answer is known.\<close>

definition ask ::
  "sync_world \<Rightarrow> sync_body http_request \<Rightarrow> sync_state \<Rightarrow> (http_response, api_error) result \<times> sync_state" where
  "ask W q s = (wo_net W (length (sx_log s)) q, s\<lparr>sx_log := sx_log s @ [q]\<rparr>)"

definition ask_then ::
  "sync_world \<Rightarrow> sync_body http_request \<Rightarrow> ((http_response, api_error) result \<Rightarrow> 'a sync_step) \<Rightarrow> 'a sync_step" where
  "ask_then W q k s = (case ask W q s of (outcome, s1) \<Rightarrow> k outcome s1)"

text \<open>A step that looks at the receipt first.\<close>

definition with_target :: "(sync_receipt \<Rightarrow> 'a sync_step) \<Rightarrow> 'a sync_step" where
  "with_target k s = k (sx_receipt s) s"

definition with_receipt :: "(sync_receipt \<Rightarrow> sync_receipt) \<Rightarrow> sync_state \<Rightarrow> sync_state" where
  "with_receipt g s = s\<lparr>sx_receipt := g (sx_receipt s)\<rparr>"

definition set_receipt :: "(sync_receipt \<Rightarrow> sync_receipt) \<Rightarrow> unit sync_step" where
  "set_receipt g s = (Ok (), with_receipt g s)"

definition push_stage :: "string \<Rightarrow> string \<Rightarrow> sync_receipt \<Rightarrow> sync_receipt" where
  "push_stage name state r = r\<lparr>rc_stages := rc_stages r @ [\<lparr>sg_name = name, sg_state = state\<rparr>]\<rparr>"

definition record_stage :: "string \<Rightarrow> (unit, op_error) result \<Rightarrow> unit sync_step" where
  "record_stage name result s =
     (case result of
        Ok _ \<Rightarrow> (Ok (), with_receipt (push_stage name ''completed'') s)
      | Err e \<Rightarrow>
          let unknown = oe_code e = ''sync_outcome_unknown'' in
          (Err e, with_receipt (\<lambda>r. (push_stage name (if unknown then ''unknown'' else ''failed'') r)
             \<lparr>rc_outcome := (if unknown then ''unknown'' else ''partial''), rc_error_code := Some (oe_code e)\<rparr>) s))"

text \<open>A stage that failed; its error is the error of the step.\<close>

definition fail_stage :: "string \<Rightarrow> op_error \<Rightarrow> 'a sync_step" where
  "fail_stage name e s = (Err e, snd (record_stage name (Err e) s))"

section \<open>Steps\<close>

definition recheck :: "sync_world \<Rightarrow> sync_site \<Rightarrow> string \<Rightarrow> unit sync_step" where
  "recheck W site server s =
     (let P = wo_point W site; d = sp_others P (sx_db s); target = rc_target (sx_receipt s);
          s' = s\<lparr>sx_db := d\<rparr> in
      case identify (wo_crates W) (sp_host P) (tg_local_path target) of
        Err e \<Rightarrow> (Err e, s')
      | Ok ident \<Rightarrow>
          if wi_project_key ident \<noteq> tg_project_key target
          then (Err (op_error_new ''sync_target_changed''), s')
          else case state_snapshot P server (tg_project_key target) d of
            Err e \<Rightarrow> (Err e, s')
          | Ok sn \<Rightarrow>
              if sn \<noteq> sx_snapshot s then (Err (op_error_new ''sync_target_changed''), s')
              else (Ok (), s'))"

text \<open>\<open>state::persist\<close>, the stage it is recorded as, and the new snapshot.\<close>

definition persist_stage ::
  "sync_world \<Rightarrow> sync_site \<Rightarrow> string \<Rightarrow> workspace_data option \<Rightarrow> sync_session_data option \<Rightarrow> unit sync_step" where
  "persist_stage W site server w x s =
     (let P = wo_point W site in
      case state_persist P server (rc_target (sx_receipt s)) (sx_snapshot s) w x (sp_others P (sx_db s)) of
        (persisted, d) \<Rightarrow>
          and_then
            (record_stage ''persist''
               (case persisted of Ok _ \<Rightarrow> Ok () | Err e \<Rightarrow> Err (op_error_new (oe_code e))))
            (\<lambda>_ s. case persisted of
                Err e \<Rightarrow> (Err e, s)
              | Ok sn \<Rightarrow> (Ok (), s\<lparr>sx_snapshot := sn\<rparr>))
            (s\<lparr>sx_db := d\<rparr>))"

definition method_action :: "string \<Rightarrow> (string, op_error) result" where
  "method_action m =
     (case strip_prefix ''sync.'' m of Some a \<Rightarrow> Ok a | None \<Rightarrow> Err (op_error_new ''invalid_params''))"

definition last_stage_unknown :: "sync_receipt \<Rightarrow> sync_receipt" where
  "last_stage_unknown r =
     r\<lparr>rc_outcome := ''unknown'',
       rc_stages := (if rc_stages r = [] then []
                     else butlast (rc_stages r) @ [(last (rc_stages r))\<lparr>sg_state := ''unknown''\<rparr>])\<rparr>"

text \<open>\<open>local\<close>: the Mutagen side of a call, after a recheck.\<close>

definition local_mutagen :: "sync_world \<Rightarrow> sync_session_data \<Rightarrow> unit sync_step" where
  "local_mutagen W x s =
     (if rc_dry_run (sx_receipt s)
      then (Ok (), with_receipt (push_stage ''mutagen'' ''skipped'') s)
      else
        (case method_action (rc_method (sx_receipt s)) of
           Err e \<Rightarrow> (Err e, s)
         | Ok action \<Rightarrow>
             (case wo_mutagen W x action of
                Ok ob \<Rightarrow>
                  record_stage ''mutagen'' (Ok ()) (with_receipt (\<lambda>r. r\<lparr>rc_mutagen := Some ob\<rparr>) s)
              | Err e \<Rightarrow>
                  (case fail_stage ''mutagen'' (op_error_new (mg_code e)) s of
                     (result, s') \<Rightarrow>
                       (result, if mg_changed e then with_receipt last_stage_unknown s' else s')))))"

definition local_stage :: "sync_world \<Rightarrow> string \<Rightarrow> sync_session_data \<Rightarrow> unit sync_step" where
  "local_stage W server x = and_then (recheck W AtLocal server) (\<lambda>_. local_mutagen W x)"

definition unknown_if_invalid :: "(unit, op_error) result \<Rightarrow> (unit, op_error) result" where
  "unknown_if_invalid r = map_err (\<lambda>_. op_error_new ''sync_outcome_unknown'') r"

definition action_before :: "string \<Rightarrow> bool" where
  "action_before m \<longleftrightarrow> m \<in> {''sync.pause'', ''sync.resolve''}"

text \<open>What follows a server answer to an action that names the reviewed session.\<close>

definition action_accepted :: "sync_world \<Rightarrow> string \<Rightarrow> sync_session_data \<Rightarrow> unit sync_step" where
  "action_accepted W server x =
     and_then (with_target (\<lambda>r. record_stage ''server''
                 (unknown_if_invalid (validate_sync (wo_crates W) x (rc_target r))))) (\<lambda>_.
     and_then (set_receipt (\<lambda>r. r\<lparr>rc_sync := Some (sync_view_of x)\<rparr>)) (\<lambda>_.
     and_then (with_target (\<lambda>r. if \<not> action_before (rc_method r) then local_stage W server x
                                else done_with (Ok ()))) (\<lambda>_.
     persist_stage W AtPersistAction server None (Some x))))"

definition action_answer ::
  "sync_world \<Rightarrow> string \<Rightarrow> (http_response, api_error) result \<Rightarrow> unit sync_step" where
  "action_answer W server outcome =
     (case read_checked (wo_crates W) (wo_decoders W) True outcome of
        Err e \<Rightarrow> fail_stage ''server'' (sync_error_write e)
      | Ok x \<Rightarrow> action_accepted W server x)"

definition sync_action :: "sync_world \<Rightarrow> string \<Rightarrow> sync_session_data \<Rightarrow> unit sync_step" where
  "sync_action W server current =
     and_then (with_target (\<lambda>r. if action_before (rc_method r) then local_stage W server current
                                else done_with (Ok ()))) (\<lambda>_.
     and_then (recheck W AtRecheck server) (\<lambda>_.
     and_then (with_target (\<lambda>r. done_with (method_action (rc_method r)))) (\<lambda>action.
     ask_then W (action_post action current) (action_answer W server))))"

text \<open>
  The wait for the server to prepare the workspace: \<open>n\<close> counts the waits, \<open>now\<close> is the time in
  milliseconds. The wait ends by itself, because every pass moves the time.
\<close>

function prepare_loop ::
  "sync_world \<Rightarrow> nat \<Rightarrow> nat \<Rightarrow> nat \<Rightarrow> sync_session_data \<Rightarrow> sync_session_data sync_step" where
  "prepare_loop W deadline now n next_sync s =
     (if xd_status next_sync \<in> {''active'', ''healthy'', ''conflicted''} then (Ok next_sync, s)
      else if xd_status next_sync \<in> {''failed'', ''stopped'', ''paused''}
      then fail_stage ''server'' (op_error_new ''sync_prepare_failed'') s
      else if deadline \<le> now
      then fail_stage ''server'' (op_error_new ''sync_prepare_timeout'') s
      else case ask W (sync_get (xd_id next_sync)) s of
        (outcome, s1) \<Rightarrow>
          (case send (wo_crates W) (sy_session (wo_decoders W)) outcome of
             Err e \<Rightarrow> (Err (sync_error_read e), s1)
           | Ok polled \<Rightarrow>
               (case validate_sync (wo_crates W) polled (rc_result_target (sx_receipt s1)) of
                  Err e \<Rightarrow> (Err e, s1)
                | Ok _ \<Rightarrow>
                    prepare_loop W deadline (now + 500 + wo_lag W n) (n + 1) polled
                      (with_receipt (\<lambda>r. r\<lparr>rc_sync := Some (sync_view_of polled)\<rparr>) s1))))"
  by pat_completeness auto

termination
  by (relation "measure (\<lambda>(W, deadline, now, n, x, s). deadline - now)") auto

declare prepare_loop.simps [simp del]

definition workspace_request :: "string \<Rightarrow> sync_target \<Rightarrow> string \<Rightarrow> create_workspace_request" where
  "workspace_request device target display_name =
     \<lparr>cw_device_id = device, cw_project_key = tg_project_key target,
      cw_local_start_path = tg_local_path target, cw_display_name = display_name,
      cw_sync_git = True, cw_git_sync_policy = default_git_sync_policy\<rparr>"

definition sync_request :: "string \<Rightarrow> sync_target \<Rightarrow> create_sync_session_request" where
  "sync_request workspace_id target =
     \<lparr>cs_workspace_id = workspace_id, cs_node_id = None, cs_local_path = Some (tg_local_path target),
      cs_sync_mode = ''two_way'', cs_sync_git = True, cs_exclude = default_excludes\<rparr>"

definition workspace_valid :: "sync_world \<Rightarrow> string \<Rightarrow> sync_target \<Rightarrow> workspace_data \<Rightarrow> bool" where
  "workspace_valid W device target w \<longleftrightarrow>
     sync_valid_id (wo_crates W) (wd_id w) \<and>
     wd_device_id w = device \<and>
     wd_project_key w = tg_project_key target \<and>
     paths_equal (wd_local_start_path w) (tg_local_path target) \<and>
     is_none_or (\<lambda>i. i = wd_id w) (tg_workspace_id target)"

text \<open>The first half of \<open>ensure\<close>: the workspace on the server and its local mapping.\<close>

definition workspace_answer ::
  "sync_world \<Rightarrow> strict_token \<Rightarrow> (http_response, api_error) result \<Rightarrow> workspace_data sync_step" where
  "workspace_answer W token outcome =
     (case send (wo_crates W) (sy_workspace (wo_decoders W)) outcome of
        Err e \<Rightarrow> fail_stage ''workspace'' (sync_error_write e)
      | Ok w \<Rightarrow>
          and_then (with_target (\<lambda>r. record_stage ''workspace''
                      (if workspace_valid W (kt_device_id token) (rc_target r) w then Ok ()
                       else Err (op_error_new ''sync_outcome_unknown'')))) (\<lambda>_.
          and_then (set_receipt (\<lambda>r. r\<lparr>rc_result_target :=
                      (rc_result_target r)\<lparr>tg_workspace_id := Some (wd_id w)\<rparr>\<rparr>)) (\<lambda>_.
          and_then (persist_stage W AtPersistWorkspace (kt_server_url token) (Some w) None) (\<lambda>_.
          and_then (recheck W AtRecheckCreate (kt_server_url token)) (\<lambda>_.
          done_with (Ok w))))))"

definition ensure_workspace :: "sync_world \<Rightarrow> strict_token \<Rightarrow> workspace_data sync_step" where
  "ensure_workspace W token =
     and_then (recheck W AtRecheck (kt_server_url token)) (\<lambda>_.
     and_then (with_target (\<lambda>r. done_with (identify (wo_crates W) (sp_host (wo_point W AtRecheck))
                 (tg_local_path (rc_target r))))) (\<lambda>ident.
     with_target (\<lambda>r. ask_then W
       (workspace_post (workspace_request (kt_device_id token) (rc_target r) (wi_display_name ident)))
       (workspace_answer W token))))"

definition adopt_sync :: "crates \<Rightarrow> sync_session_data \<Rightarrow> sync_receipt \<Rightarrow> sync_receipt" where
  "adopt_sync X x r =
     r\<lparr>rc_result_target := (rc_result_target r)\<lparr>tg_sync_session_id := Some (xd_id x),
                               tg_fingerprint := Some (fingerprint X x)\<rparr>,
       rc_sync := Some (sync_view_of x)\<rparr>"

text \<open>The second half: the sync session on the server and its local mapping.\<close>

definition session_answer ::
  "sync_world \<Rightarrow> strict_token \<Rightarrow> (http_response, api_error) result \<Rightarrow> sync_session_data sync_step" where
  "session_answer W token outcome =
     (case send (wo_crates W) (sy_session (wo_decoders W)) outcome of
        Err e \<Rightarrow> fail_stage ''server'' (sync_error_write e)
      | Ok x \<Rightarrow>
          and_then (with_target (\<lambda>r. record_stage ''server''
                      (unknown_if_invalid (validate_sync (wo_crates W) x (rc_result_target r))))) (\<lambda>_.
          and_then (set_receipt (adopt_sync (wo_crates W) x)) (\<lambda>_.
          and_then (persist_stage W AtPersistCreate (kt_server_url token) None (Some x)) (\<lambda>_.
          done_with (Ok x)))))"

definition ensure_session :: "sync_world \<Rightarrow> strict_token \<Rightarrow> workspace_data \<Rightarrow> sync_session_data sync_step" where
  "ensure_session W token w =
     with_target (\<lambda>r. ask_then W (sync_post (sync_request (wd_id w) (rc_target r))) (session_answer W token))"

definition sync_ensure :: "sync_world \<Rightarrow> strict_token \<Rightarrow> unit sync_step" where
  "sync_ensure W token =
     and_then (ensure_workspace W token) (\<lambda>w.
     and_then (ensure_session W token w) (\<lambda>x.
     and_then (prepare_loop W (wo_now W + 30000) (wo_now W) 0 x) (\<lambda>ready.
     and_then (persist_stage W AtPersistReady (kt_server_url token) None (Some ready)) (\<lambda>_.
     local_stage W (kt_server_url token) ready))))"

section \<open>Calls\<close>

definition observe_get ::
  "sync_world \<Rightarrow> bool \<Rightarrow> string \<Rightarrow> (sync_session_data, api_error) result" where
  "observe_get W conditional i =
     (let outcome = wo_net W 0 (sync_get i) in
      if conditional then read_checked (wo_crates W) (wo_decoders W) False outcome
      else send (wo_crates W) (sy_session (wo_decoders W)) outcome)"

definition observe ::
  "sync_world \<Rightarrow> strict_token \<Rightarrow> string \<Rightarrow> bool \<Rightarrow> db \<Rightarrow>
     (sync_target \<times> sync_snapshot \<times> sync_session_data option, op_error) result \<times>
     sync_body http_request list" where
  "observe W token path conditional d =
     (let P = wo_point W AtObserve; X = wo_crates W in
      case identify X (sp_host P) path of
        Err e \<Rightarrow> (Err e, [])
      | Ok ident \<Rightarrow>
          (case state_snapshot P (kt_server_url token) (wi_project_key ident) d of
             Err e \<Rightarrow> (Err e, [])
           | Ok sn \<Rightarrow>
               (case state_target X ident sn of
                  Err e \<Rightarrow> (Err e, [])
                | Ok target \<Rightarrow>
                    (case tg_sync_session_id target of
                       None \<Rightarrow> (Ok (target, sn, None), [])
                     | Some i \<Rightarrow>
                         (case observe_get W conditional i of
                            Err e \<Rightarrow> (Err (sync_error_read e), [sync_get i])
                          | Ok x \<Rightarrow>
                              (case validate_sync X x target of
                                 Err e \<Rightarrow> (Err e, [sync_get i])
                               | Ok _ \<Rightarrow>
                                   (Ok (target\<lparr>tg_fingerprint := Some (fingerprint X x)\<rparr>, sn, Some x),
                                    [sync_get i])))))))"

record sync_status_report =
  sq_context :: account_context
  sq_target :: sync_target
  sq_sync :: "sync_view option"
  sq_mutagen :: sync_observation

definition sync_status ::
  "sync_world \<Rightarrow> account_context \<Rightarrow> string \<Rightarrow> db \<Rightarrow> (sync_status_report, op_error) result" where
  "sync_status W context path d =
     (case identify (wo_crates W) (sp_host (wo_point W AtStart)) path of
        Err e \<Rightarrow> Err e
      | Ok _ \<Rightarrow>
          (case sync_authorize (wo_authority W) context of
             Err e \<Rightarrow> Err e
           | Ok token \<Rightarrow>
               (case fst (observe W token path False (sp_others (wo_point W AtObserve) d)) of
                  Err e \<Rightarrow> Err e
                | Ok (target, _, x) \<Rightarrow>
                    Ok \<lparr>sq_context = context, sq_target = target, sq_sync = map_option sync_view_of x,
                        sq_mutagen = (case x of
                            None \<Rightarrow> observation_unavailable
                          | Some v \<Rightarrow> (case wo_inspect W v of Ok ob \<Rightarrow> ob | Err _ \<Rightarrow> observation_unavailable))\<rparr>)))"

definition fingerprint_shape :: "string \<Rightarrow> bool" where
  "fingerprint_shape v \<longleftrightarrow>
     length v = 71 \<and> starts_with ''sha256:'' v \<and>
     list_all (\<lambda>b. is_ascii_digit b \<or> 97 \<le> byte b \<and> byte b \<le> 102) (drop 7 v)"

definition sync_methods :: "string set" where
  "sync_methods = {''sync.ensure'', ''sync.pause'', ''sync.resume'', ''sync.resolve'', ''sync.reset''}"

definition target_shape :: "crates \<Rightarrow> sync_target \<Rightarrow> bool" where
  "target_shape X t \<longleftrightarrow>
     is_none_or (sync_valid_id X) (tg_workspace_id t) \<and>
     is_none_or (sync_valid_id X) (tg_sync_session_id t) \<and>
     is_none_or fingerprint_shape (tg_fingerprint t)"

definition new_receipt ::
  "account_context \<Rightarrow> string \<Rightarrow> sync_target \<Rightarrow> bool \<Rightarrow> sync_session_data option \<Rightarrow> sync_receipt" where
  "new_receipt context method target dry_run x =
     \<lparr>rc_context = context, rc_method = method, rc_target = target, rc_result_target = target,
      rc_dry_run = dry_run, rc_outcome = ''completed'', rc_stages = [],
      rc_sync = map_option sync_view_of x, rc_mutagen = None, rc_error_code = None\<rparr>"

definition run_method ::
  "sync_world \<Rightarrow> strict_token \<Rightarrow> string \<Rightarrow> sync_session_data option \<Rightarrow> unit sync_step" where
  "run_method W token method x =
     (if method = ''sync.ensure'' then sync_ensure W token
      else case x of
             None \<Rightarrow> done_with (Err (op_error_new ''sync_not_found''))
           | Some current \<Rightarrow> sync_action W (kt_server_url token) current)"

text \<open>The receipt of a call that failed without recording a stage for it.\<close>

definition close_receipt :: "(unit, op_error) result \<Rightarrow> sync_receipt \<Rightarrow> sync_receipt" where
  "close_receipt result r =
     (case result of
        Ok _ \<Rightarrow> r
      | Err e \<Rightarrow>
          if rc_error_code r = None then r\<lparr>rc_outcome := ''partial'', rc_error_code := Some (oe_code e)\<rparr> else r)"

definition mutate ::
  "sync_world \<Rightarrow> account_context \<Rightarrow> sync_target \<Rightarrow> string \<Rightarrow> bool \<Rightarrow> db \<Rightarrow>
     (sync_receipt, op_error) result \<times> db \<times> sync_body http_request list" where
  "mutate W context target method dry_run d =
     (if method \<notin> sync_methods then (Err (op_error_new ''invalid_params''), d, [])
      else case identify (wo_crates W) (sp_host (wo_point W AtStart)) (tg_local_path target) of
        Err e \<Rightarrow> (Err e, d, [])
      | Ok _ \<Rightarrow>
          if \<not> target_shape (wo_crates W) target then (Err (op_error_new ''invalid_params''), d, [])
          else case sync_authorize (wo_authority W) context of
            Err e \<Rightarrow> (Err e, d, [])
          | Ok token \<Rightarrow>
              let d0 = sp_others (wo_point W AtObserve) d in
              (case observe W token (tg_local_path target) True d0 of
                 (Err e, log) \<Rightarrow> (Err e, d0, log)
               | (Ok (actual, sn, x), log) \<Rightarrow>
                   if target \<noteq> actual then (Err (op_error_new ''sync_target_changed''), d0, log)
                   else if method \<noteq> ''sync.ensure'' \<and> x = None
                   then (Err (op_error_new ''sync_not_found''), d0, log)
                   else
                     (case run_method W token method x
                             \<lparr>sx_receipt = new_receipt context method target dry_run x, sx_snapshot = sn,
                              sx_db = d0, sx_log = log\<rparr> of
                        (result, s) \<Rightarrow> (Ok (close_receipt result (sx_receipt s)), sx_db s, sx_log s))))"

section \<open>Steps and invariants\<close>

lemma and_then_Ok:
  "and_then m k s = (Ok b, s') \<longleftrightarrow> (\<exists>a s1. m s = (Ok a, s1) \<and> k a s1 = (Ok b, s'))"
  by (auto simp: and_then_def split: prod.splits result.splits)

lemma and_then_cases:
  assumes "and_then m k s = (r, s')"
  obtains e where "m s = (Err e, s')" "r = Err e"
  | a s1 where "m s = (Ok a, s1)" "k a s1 = (r, s')"
  using assms by (auto simp: and_then_def split: prod.splits result.splits)

text \<open>
  A step keeps a relation between the state before and after it; a reflexive and transitive
  relation that every step keeps is kept by their sequence.
\<close>

definition keeps :: "(sync_state \<Rightarrow> sync_state \<Rightarrow> bool) \<Rightarrow> 'a sync_step \<Rightarrow> bool" where
  "keeps R m \<longleftrightarrow> (\<forall>s. R s (snd (m s)))"

lemma keepsD: "keeps R m \<Longrightarrow> m s = (r, s') \<Longrightarrow> R s s'"
  by (metis keeps_def snd_conv)

locale step_relation =
  fixes R :: "sync_state \<Rightarrow> sync_state \<Rightarrow> bool"
  assumes refl: "R s s"
    and trans: "R s t \<Longrightarrow> R t u \<Longrightarrow> R s u"
    and receipt_step: "state = ''completed'' \<or> state = ''skipped'' \<and> rc_dry_run (sx_receipt s) \<Longrightarrow>
        R s (with_receipt (push_stage name state) s)"
    and error_step: "R s (snd (record_stage name (Err e) s))"
    and sync_step: "R s (with_receipt (\<lambda>r. r\<lparr>rc_sync := v\<rparr>) s)"
    and mutagen_step: "R s (with_receipt (\<lambda>r. r\<lparr>rc_mutagen := ob\<rparr>) s)"
    and unknown_step: "R s (with_receipt last_stage_unknown (snd (record_stage name (Err e) s)))"
    and result_step: "R s (with_receipt (\<lambda>r. r\<lparr>rc_result_target := g (rc_result_target r)\<rparr>) s)"
    and db_step: "R s (s\<lparr>sx_db := d\<rparr>)"
    and snapshot_step: "R s (s\<lparr>sx_snapshot := sn\<rparr>)"
begin

lemma keeps_and_then:
  assumes "keeps R m" and "\<And>a. keeps R (k a)"
  shows "keeps R (and_then m k)"
  unfolding keeps_def
proof
  fix s
  obtain r s' where e: "and_then m k s = (r, s')" by fastforce
  then show "R s (snd (and_then m k s))"
  proof (cases rule: and_then_cases)
    case (1 e')
    with e keepsD [OF assms(1)] show ?thesis by simp
  next
    case (2 a s1)
    with e keepsD [OF assms(1)] keepsD [OF assms(2)] show ?thesis by (metis snd_conv trans)
  qed
qed

lemma keeps_done: "keeps R (done_with r)"
  by (simp add: keeps_def done_with_def refl)

lemma keeps_record: "keeps R (record_stage name r)"
  by (cases r) (simp_all add: keeps_def error_step, simp add: record_stage_def receipt_step)

lemma keeps_fail: "keeps R (fail_stage name e)"
  by (simp add: keeps_def fail_stage_def error_step)

lemma keeps_recheck: "keeps R (recheck W site server)"
  by (simp add: keeps_def recheck_def Let_def db_step split: result.splits)

lemma keeps_persist: "keeps R (persist_stage W site server w x)"
  unfolding keeps_def
proof
  fix s :: sync_state
  let ?P = "wo_point W site"
  obtain persisted d where p: "state_persist ?P server (rc_target (sx_receipt s)) (sx_snapshot s) w x
      (sp_others ?P (sx_db s)) = (persisted, d)" by fastforce
  have "keeps R (\<lambda>s. case persisted of Err e \<Rightarrow> (Err e, s) | Ok sn \<Rightarrow> (Ok (), s\<lparr>sx_snapshot := sn\<rparr>))"
    by (cases persisted) (simp_all add: keeps_def refl snapshot_step)
  then have "keeps R (and_then (record_stage ''persist'' r)
      (\<lambda>_ s. case persisted of Err e \<Rightarrow> (Err e, s) | Ok sn \<Rightarrow> (Ok (), s\<lparr>sx_snapshot := sn\<rparr>)))" for r
    by (intro keeps_and_then keeps_record)
  then have "R (s\<lparr>sx_db := d\<rparr>) (snd (persist_stage W site server w x s))"
    by (simp add: keeps_def persist_stage_def p)
  with db_step show "R s (snd (persist_stage W site server w x s))" by (rule trans)
qed

lemma keeps_local: "keeps R (local_stage W server x)"
  unfolding local_stage_def
proof (intro keeps_and_then keeps_recheck)
  have ok: "R s (snd (record_stage ''mutagen'' (Ok ()) (with_receipt (\<lambda>r. r\<lparr>rc_mutagen := ob\<rparr>) s)))" for s ob
    using keeps_record [of "''mutagen''" "Ok ()", unfolded keeps_def] by (blast intro: trans [OF mutagen_step])
  show "keeps R (local_mutagen W x)"
    unfolding keeps_def
  proof
    fix s
    show "R s (snd (local_mutagen W x s))"
    proof (cases "rc_dry_run (sx_receipt s)")
      case True
      then show ?thesis by (simp add: local_mutagen_def receipt_step)
    next
      case False
      then show ?thesis
        by (simp add: local_mutagen_def fail_stage_def refl error_step unknown_step ok split: result.split)
    qed
  qed
qed

lemma keeps_target: "(\<And>r. keeps R (k r)) \<Longrightarrow> keeps R (with_target k)"
  by (simp add: keeps_def with_target_def)

lemma keeps_result:
  "(\<And>e. r = Err e \<Longrightarrow> keeps R (f e)) \<Longrightarrow> (\<And>a. r = Ok a \<Longrightarrow> keeps R (g a)) \<Longrightarrow>
     keeps R (case r of Err e \<Rightarrow> f e | Ok a \<Rightarrow> g a)"
  by (cases r) simp_all

lemma keeps_if: "keeps R f \<Longrightarrow> keeps R g \<Longrightarrow> keeps R (if b then f else g)"
  by simp

lemma keeps_set_sync: "keeps R (set_receipt (\<lambda>r. r\<lparr>rc_sync := v\<rparr>))"
  by (simp add: keeps_def set_receipt_def sync_step)

lemma keeps_set_result:
  "keeps R (set_receipt (\<lambda>r. r\<lparr>rc_result_target := g (rc_result_target r)\<rparr>))"
  by (simp add: keeps_def set_receipt_def result_step)

lemma keeps_adopt: "keeps R (set_receipt (adopt_sync X x))"
  unfolding keeps_def
proof
  fix s
  let ?g = "\<lambda>t. t\<lparr>tg_sync_session_id := Some (xd_id x), tg_fingerprint := Some (fingerprint X x)\<rparr>"
  have "with_receipt (adopt_sync X x) s =
      with_receipt (\<lambda>r. r\<lparr>rc_sync := Some (sync_view_of x)\<rparr>)
        (with_receipt (\<lambda>r. r\<lparr>rc_result_target := ?g (rc_result_target r)\<rparr>) s)"
    by (simp add: with_receipt_def adopt_sync_def)
  then show "R s (snd (set_receipt (adopt_sync X x) s))"
    using trans [OF result_step [of s ?g] sync_step] by (simp add: set_receipt_def)
qed

lemmas keeps_intros = keeps_and_then keeps_done keeps_record keeps_fail keeps_recheck keeps_persist
  keeps_local keeps_set_sync keeps_set_result keeps_adopt keeps_result keeps_if keeps_target

end

text \<open>Relations that sending a request keeps as well are kept by whole calls.\<close>

locale asking_relation = step_relation +
  assumes log_step: "R s (s\<lparr>sx_log := l\<rparr>)"
begin

lemma keeps_ask: "(\<And>outcome. keeps R (k outcome)) \<Longrightarrow> keeps R (ask_then W q k)"
  unfolding keeps_def ask_then_def ask_def by (auto intro: trans [OF log_step])

lemmas asking_intros = keeps_intros keeps_ask

lemma keeps_action: "keeps R (sync_action W server current)"
  unfolding sync_action_def action_answer_def action_accepted_def by (intro asking_intros)

lemma keeps_loop: "keeps R (prepare_loop W deadline now n x)"
proof -
  have "R s (snd (prepare_loop W deadline now n x s))" for s
  proof (induction W deadline now n x s rule: prepare_loop.induct)
    case (1 W deadline now n x s)
    define s1 where "s1 = snd (ask W (sync_get (xd_id x)) s)"
    have s1: "R s s1" by (simp add: s1_def ask_def log_step)
    show ?case
    proof (cases "xd_status x \<in> {''active'', ''healthy'', ''conflicted'', ''failed'', ''stopped'', ''paused''} \<or>
        deadline \<le> now")
      case True
      then show ?thesis
        by (subst prepare_loop.simps) (auto simp: refl fail_stage_def error_step)
    next
      case False
      note IH = "1.IH" [OF _ _ _ surjective_pairing [symmetric]]
      show ?thesis
      proof (cases "send (wo_crates W) (sy_session (wo_decoders W)) (fst (ask W (sync_get (xd_id x)) s))")
        case (Err e)
        with False s1 show ?thesis by (subst prepare_loop.simps) (simp add: s1_def case_prod_beta)
      next
        case (Ok polled)
        show ?thesis
        proof (cases "validate_sync (wo_crates W) polled (rc_result_target (sx_receipt s1))")
          case (Err e)
          with False Ok s1 show ?thesis by (subst prepare_loop.simps) (simp add: s1_def case_prod_beta)
        next
          case (Ok u)
          let ?s2 = "with_receipt (\<lambda>r. r\<lparr>rc_sync := Some (sync_view_of polled)\<rparr>) s1"
          have "R ?s2 (snd (prepare_loop W deadline (now + 500 + wo_lag W n) (n + 1) polled ?s2))"
            using IH [of polled u] False \<open>send _ _ _ = Ok polled\<close> Ok by (simp add: s1_def)
          moreover have "prepare_loop W deadline now n x s =
              prepare_loop W deadline (now + 500 + wo_lag W n) (n + 1) polled ?s2"
            using False \<open>send _ _ _ = Ok polled\<close> Ok
            by (subst prepare_loop.simps) (simp add: s1_def case_prod_beta)
          ultimately show ?thesis using trans [OF s1 trans [OF sync_step]] by simp
        qed
      qed
    qed
  qed
  then show ?thesis by (simp add: keeps_def)
qed

lemma keeps_ensure: "keeps R (sync_ensure W token)"
  unfolding sync_ensure_def ensure_workspace_def workspace_answer_def ensure_session_def session_answer_def
  by (intro asking_intros keeps_loop)

lemma keeps_method: "keeps R (run_method W token method x)"
  unfolding run_method_def
  by (cases x) (auto intro: keeps_ensure keeps_action keeps_done)

end

section \<open>Receipts\<close>

definition receipt_ok :: "sync_receipt \<Rightarrow> bool" where
  "receipt_ok r \<longleftrightarrow>
     (rc_error_code r = None \<longleftrightarrow> rc_outcome r = ''completed'') \<and>
     rc_outcome r \<in> {''completed'', ''partial'', ''unknown''} \<and>
     (rc_outcome r = ''completed'' \<longrightarrow>
        list_all (\<lambda>g. sg_state g = ''completed'' \<or> sg_state g = ''skipped'' \<and> rc_dry_run r) (rc_stages r))"

definition receipt_kept :: "sync_state \<Rightarrow> sync_state \<Rightarrow> bool" where
  "receipt_kept s t \<longleftrightarrow>
     rc_context (sx_receipt t) = rc_context (sx_receipt s) \<and>
     rc_method (sx_receipt t) = rc_method (sx_receipt s) \<and>
     rc_target (sx_receipt t) = rc_target (sx_receipt s) \<and>
     rc_dry_run (sx_receipt t) = rc_dry_run (sx_receipt s) \<and>
     (receipt_ok (sx_receipt s) \<longrightarrow> receipt_ok (sx_receipt t))"

interpretation receipts: asking_relation receipt_kept
proof (unfold_locales, goal_cases)
  case (2 s t u)
  then show ?case by (simp add: receipt_kept_def)
next
  case (3 state s name)
  then show ?case by (auto simp: receipt_kept_def receipt_ok_def with_receipt_def push_stage_def)
qed (simp_all add: receipt_kept_def receipt_ok_def with_receipt_def push_stage_def record_stage_def Let_def
      last_stage_unknown_def)

text \<open>Steps that send nothing.\<close>

definition log_kept :: "sync_state \<Rightarrow> sync_state \<Rightarrow> bool" where
  "log_kept s t \<longleftrightarrow> sx_log t = sx_log s"

interpretation quiet: step_relation log_kept
  by unfold_locales (auto simp: log_kept_def with_receipt_def record_stage_def Let_def)

text \<open>
  C32. A receipt tells the truth about itself: it carries an error code exactly when its outcome
  is not completed; a completed receipt has only completed stages, and skipped ones only for a
  dry run; and it names the context, method and target that were asked for.
\<close>

theorem mutate_receipt_honest:
  assumes "mutate W context target method dry_run d = (Ok r, d', log)"
  shows "receipt_ok r \<and> rc_context r = context \<and> rc_method r = method \<and> rc_target r = target \<and>
    rc_dry_run r = dry_run"
proof -
  from assms obtain token sn x d0 log0 result s where
    run: "run_method W token method x \<lparr>sx_receipt = new_receipt context method target dry_run x,
            sx_snapshot = sn, sx_db = d0, sx_log = log0\<rparr> = (result, s)"
    and r: "r = close_receipt result (sx_receipt s)"
    by (auto simp: mutate_def Let_def split: if_splits result.splits prod.splits)
  have "receipt_ok (new_receipt context method target dry_run x)"
    by (simp add: new_receipt_def receipt_ok_def)
  with keepsD [OF receipts.keeps_method run]
  have "receipt_ok (sx_receipt s)" "rc_context (sx_receipt s) = context"
    "rc_method (sx_receipt s) = method" "rc_target (sx_receipt s) = target"
    "rc_dry_run (sx_receipt s) = dry_run"
    by (simp_all add: receipt_kept_def new_receipt_def)
  then show ?thesis
    by (auto simp: r close_receipt_def receipt_ok_def split: result.splits)
qed

section \<open>Requests\<close>

text \<open>What a mutation has established when it starts to act.\<close>

lemma observe_Ok:
  assumes "observe W token path conditional d = (Ok (target, sn, x), log)"
  shows "state_snapshot (wo_point W AtObserve) (kt_server_url token) (tg_project_key target) d = Ok sn"
    and "filter is_post log = []" and "length log \<le> 1"
    and "x = Some v \<Longrightarrow> tg_fingerprint target = Some (fingerprint (wo_crates W) v) \<and>
           tg_sync_session_id target = Some (xd_id v) \<and> tg_workspace_id target = Some (xd_workspace_id v)"
proof -
  from assms obtain ident t where i: "identify (wo_crates W) (sp_host (wo_point W AtObserve)) path = Ok ident"
    and sn: "state_snapshot (wo_point W AtObserve) (kt_server_url token) (wi_project_key ident) d = Ok sn"
    and t: "state_target (wo_crates W) ident sn = Ok t"
    by (auto simp: observe_def Let_def split: result.splits option.splits)
  have key: "tg_project_key t = wi_project_key ident"
    using t by (auto simp: state_target_def split: if_splits)
  show "length log \<le> 1" "filter is_post log = []"
    using assms i sn t by (auto simp: observe_def Let_def sync_get_def split: result.splits option.splits)
  show "state_snapshot (wo_point W AtObserve) (kt_server_url token) (tg_project_key target) d = Ok sn"
    using assms i sn t key by (auto simp: observe_def Let_def split: result.splits option.splits)
  assume "x = Some v"
  with assms i sn t have "validate_sync (wo_crates W) v t = Ok ()"
    "target = t\<lparr>tg_fingerprint := Some (fingerprint (wo_crates W) v)\<rparr>" "tg_sync_session_id t \<noteq> None"
    by (auto simp: observe_def Let_def split: result.splits option.splits)
  then show "tg_fingerprint target = Some (fingerprint (wo_crates W) v) \<and>
      tg_sync_session_id target = Some (xd_id v) \<and> tg_workspace_id target = Some (xd_workspace_id v)"
    by (auto simp: validate_sync_def split: if_splits)
qed

lemma mutate_cases:
  assumes "mutate W context target method dry_run d = (r, d', log)"
  obtains "filter is_post log = []" "length log \<le> 1" "\<not> is_ok r"
  | token sn x log0 result s where
    "method \<in> sync_methods" "sync_authorize (wo_authority W) context = Ok token"
    "observe W token (tg_local_path target) True (sp_others (wo_point W AtObserve) d) = (Ok (target, sn, x), log0)"
    "run_method W token method x \<lparr>sx_receipt = new_receipt context method target dry_run x,
       sx_snapshot = sn, sx_db = sp_others (wo_point W AtObserve) d, sx_log = log0\<rparr> = (result, s)"
    "r = Ok (close_receipt result (sx_receipt s))" "d' = sx_db s" "log = sx_log s"
proof -
  let ?o = "\<lambda>token. observe W token (tg_local_path target) True (sp_others (wo_point W AtObserve) d)"
  have quiet: "filter is_post (snd (?o token)) = [] \<and> length (snd (?o token)) \<le> 1" for token
    by (auto simp: observe_def Let_def sync_get_def split: result.splits option.splits)
  show thesis
  proof (cases "method \<in> sync_methods \<and> is_ok (sync_authorize (wo_authority W) context)")
    case False
    with assms have "log = []" "\<not> is_ok r"
      by (auto simp: mutate_def Let_def split: if_splits result.splits prod.splits)
    with that(1) show thesis by simp
  next
    case True
    then obtain token where a: "method \<in> sync_methods" "sync_authorize (wo_authority W) context = Ok token"
      by (auto simp: is_ok_iff)
    show thesis
    proof (cases "\<exists>sn x log0. ?o token = (Ok (target, sn, x), log0) \<and> is_ok r")
      case False
      with assms a have "log = [] \<or> log = snd (?o token)" "\<not> is_ok r"
        by (auto simp: mutate_def Let_def split: if_splits result.splits prod.splits)
      with that(1) quiet [of token] show thesis by auto
    next
      case True
      then obtain sn x log0 where o: "?o token = (Ok (target, sn, x), log0)" "is_ok r" by blast
      obtain result s where run: "run_method W token method x \<lparr>sx_receipt = new_receipt context method target dry_run x,
          sx_snapshot = sn, sx_db = sp_others (wo_point W AtObserve) d, sx_log = log0\<rparr> = (result, s)"
        by fastforce
      with assms a o that(2) [OF a o(1) run] show thesis
        by (auto simp: mutate_def Let_def split: if_splits result.splits)
    qed
  qed
qed

lemmas quiet_step = keepsD [OF quiet.keeps_recheck] keepsD [OF quiet.keeps_persist]
  keepsD [OF quiet.keeps_local] keepsD [OF quiet.keeps_record] keepsD [OF quiet.keeps_fail]

lemma recheck_Ok:
  assumes "recheck W site server s = (Ok u, s')"
  shows "s' = s\<lparr>sx_db := sp_others (wo_point W site) (sx_db s)\<rparr>"
    and "state_snapshot (wo_point W site) server (tg_project_key (rc_target (sx_receipt s))) (sx_db s') =
           Ok (sx_snapshot s)"
    and "\<exists>ident. identify (wo_crates W) (sp_host (wo_point W site)) (tg_local_path (rc_target (sx_receipt s))) =
           Ok ident \<and> wi_project_key ident = tg_project_key (rc_target (sx_receipt s))"
  using assms by (auto simp: recheck_def Let_def split: result.splits if_splits)

lemma keeps_log: "keeps log_kept m \<Longrightarrow> m s = (r, s') \<Longrightarrow> sx_log s' = sx_log s"
  using keepsD [of log_kept m s r s'] by (simp add: log_kept_def)

lemma answers_quiet:
  "keeps log_kept (action_answer W server outcome)"
  "keeps log_kept (workspace_answer W token outcome)"
  "keeps log_kept (session_answer W token outcome)"
  unfolding action_answer_def action_accepted_def workspace_answer_def session_answer_def
  by (intro quiet.keeps_intros)+

lemma local_stage_frame:
  assumes "local_stage W server x s = (Ok u, s')"
  shows "sx_snapshot s' = sx_snapshot s" "sx_db s' = sp_others (wo_point W AtLocal) (sx_db s)"
    "sx_log s' = sx_log s" "rc_target (sx_receipt s') = rc_target (sx_receipt s)"
    "rc_method (sx_receipt s') = rc_method (sx_receipt s)" "rc_sync (sx_receipt s') = rc_sync (sx_receipt s)"
    "state_snapshot (wo_point W AtLocal) server (tg_project_key (rc_target (sx_receipt s))) (sx_db s') =
       Ok (sx_snapshot s)"
proof -
  from assms obtain s1 where s1: "recheck W AtLocal server s = (Ok (), s1)"
    and m: "local_mutagen W x s1 = (Ok u, s')"
    by (auto simp: local_stage_def and_then_Ok)
  have frame: "sx_snapshot s' = sx_snapshot s1 \<and> sx_db s' = sx_db s1 \<and> sx_log s' = sx_log s1 \<and>
      rc_target (sx_receipt s') = rc_target (sx_receipt s1) \<and> rc_method (sx_receipt s') = rc_method (sx_receipt s1) \<and>
      rc_sync (sx_receipt s') = rc_sync (sx_receipt s1)"
    using m by (auto simp: local_mutagen_def with_receipt_def push_stage_def record_stage_def fail_stage_def
        split: if_splits result.splits)
  with recheck_Ok [OF s1] show "sx_snapshot s' = sx_snapshot s"
    "sx_db s' = sp_others (wo_point W AtLocal) (sx_db s)"
    "sx_log s' = sx_log s" "rc_target (sx_receipt s') = rc_target (sx_receipt s)"
    "rc_method (sx_receipt s') = rc_method (sx_receipt s)" "rc_sync (sx_receipt s') = rc_sync (sx_receipt s)"
    "state_snapshot (wo_point W AtLocal) server (tg_project_key (rc_target (sx_receipt s))) (sx_db s') =
       Ok (sx_snapshot s)"
    by simp_all
qed

lemma with_target_Ok: "with_target (\<lambda>r. done_with (f r)) s = (Ok a, s') \<longleftrightarrow> f (sx_receipt s) = Ok a \<and> s' = s"
  by (auto simp: with_target_def done_with_def)

lemma method_action_Ok: "method_action m = Ok a \<longleftrightarrow> m = ''sync.'' @ a"
  using strip_prefix_Some [of "''sync.''" m a] by (auto simp: method_action_def split: option.splits)

lemma action_log:
  assumes "sync_action W server current s = (r, s')"
  obtains "sx_log s' = sx_log s"
  | action d1 where "rc_method (sx_receipt s) = ''sync.'' @ action"
    "sx_log s' = sx_log s @ [action_post action current]"
    "state_snapshot (wo_point W AtRecheck) server (tg_project_key (rc_target (sx_receipt s))) d1 = Ok (sx_snapshot s)"
proof -
  let ?before = "with_target (\<lambda>r. if action_before (rc_method r) then local_stage W server current
                                else done_with (Ok ()))"
  have before: "sx_snapshot s1 = sx_snapshot s \<and> sx_log s1 = sx_log s \<and>
      rc_target (sx_receipt s1) = rc_target (sx_receipt s) \<and> rc_method (sx_receipt s1) = rc_method (sx_receipt s)"
    if "?before s = (Ok u, s1)" for u s1
    using that by (auto simp: with_target_def done_with_def local_stage_frame split: if_splits)
  have quiet_before: "sx_log s1 = sx_log s" if "?before s = (x, s1)" for x s1
    using that quiet_step(3) [of W server current s x s1]
    by (auto simp: with_target_def done_with_def log_kept_def split: if_splits)
  from assms show thesis
    unfolding sync_action_def
  proof (cases rule: and_then_cases)
    case (1 e)
    with quiet_before that(1) show thesis by blast
  next
    case (2 a s1)
    note b = before [OF 2(1)]
    from 2(2) show thesis
    proof (cases rule: and_then_cases)
      case (1 e)
      with quiet_step(1) [OF 1(1)] b that(1) show thesis by (simp add: log_kept_def)
    next
      case (2 a s2)
      note c = recheck_Ok [OF 2(1)]
      from 2(2) show thesis
      proof (cases rule: and_then_cases)
        case (1 e)
        with b c that(1) show thesis by (auto simp: with_target_def done_with_def)
      next
        case (2 action s3)
        then have m: "rc_method (sx_receipt s) = ''sync.'' @ action" "s3 = s2"
          using b c by (auto simp: with_target_Ok method_action_Ok)
        define s4 where "s4 = s3\<lparr>sx_log := sx_log s3 @ [action_post action current]\<rparr>"
        obtain outcome where "action_answer W server outcome s4 = (r, s')"
          using 2(2) by (simp add: ask_then_def ask_def s4_def)
        then have "sx_log s' = sx_log s4"
          by (rule keeps_log [OF answers_quiet(1)])
        with m b c show thesis by (intro that(2) [of action "sx_db s2"]) (simp_all add: s4_def)
      qed
    qed
  qed
qed


lemma loop_log:
  assumes "prepare_loop W deadline now n x s = (r, s')"
  shows "\<exists>l. sx_log s' = sx_log s @ l \<and> filter is_post l = [] \<and> 500 * length l \<le> (deadline - now) + 499"
  using assms
proof (induction W deadline now n x s rule: prepare_loop.induct)
  case (1 W deadline now n x s)
  let ?q = "sync_get (xd_id x)"
  let ?s1 = "s\<lparr>sx_log := sx_log s @ [?q]\<rparr>"
  show ?case
  proof (cases "sx_log s' = sx_log s")
    case True
    then show ?thesis by simp
  next
    case False
    then have go: "xd_status x \<notin> {''active'', ''healthy'', ''conflicted''}"
      "xd_status x \<notin> {''failed'', ''stopped'', ''paused''}" "\<not> deadline \<le> now"
      using "1.prems" keeps_log [OF quiet.keeps_fail, of "''server''" _ s r s']
      by (auto simp: prepare_loop.simps [of W deadline now n x s] split: if_splits)
    show ?thesis
    proof (cases "sx_log s' = sx_log ?s1")
      case True
      with go show ?thesis by (intro exI [of _ "[?q]"]) (simp add: sync_get_def)
    next
      case changed: False
      from go "1.prems" changed obtain polled u where
        p: "send (wo_crates W) (sy_session (wo_decoders W)) (fst (ask W ?q s)) = Ok polled"
        "validate_sync (wo_crates W) polled (rc_result_target (sx_receipt (snd (ask W ?q s)))) = Ok u"
        and l: "prepare_loop W deadline (now + 500 + wo_lag W n) (n + 1) polled
            (with_receipt (\<lambda>r. r\<lparr>rc_sync := Some (sync_view_of polled)\<rparr>) (snd (ask W ?q s))) = (r, s')"
        by (auto simp: prepare_loop.simps [of W deadline now n x s] ask_def split: result.splits)
      from "1.IH" [OF go surjective_pairing [symmetric] p l] obtain l' where
        l': "sx_log s' = sx_log s @ ?q # l'" "filter is_post l' = []"
        "500 * length l' \<le> (deadline - (now + 500 + wo_lag W n)) + 499"
        by (auto simp: ask_def with_receipt_def)
      have "500 * length (?q # l') \<le> (deadline - now) + 499"
        using l'(3) go(3) by (cases "deadline \<le> now + 500 + wo_lag W n"; cases l') auto
      with l' show ?thesis by (intro exI [of _ "?q # l'"]) (simp add: sync_get_def)
    qed
  qed
qed

text \<open>The request that makes the workspace, and what has been read when it is sent.\<close>

lemma ensure_workspace_log:
  assumes "ensure_workspace W token s = (r, s')"
  obtains "sx_log s' = sx_log s" "\<not> is_ok r"
  | name d1 where "sx_log s' = sx_log s @
      [workspace_post (workspace_request (kt_device_id token) (rc_target (sx_receipt s)) name)]"
    "state_snapshot (wo_point W AtRecheck) (kt_server_url token) (tg_project_key (rc_target (sx_receipt s))) d1 =
       Ok (sx_snapshot s)"
  using assms unfolding ensure_workspace_def
proof (cases rule: and_then_cases)
  case (1 e)
  with keeps_log [OF quiet.keeps_recheck] that(1) show thesis by simp
next
  case (2 a s1)
  note c = recheck_Ok [OF 2(1)]
  from 2(2) show thesis
  proof (cases rule: and_then_cases)
    case (1 e)
    with c that(1) show thesis by (auto simp: with_target_def done_with_def)
  next
    case (2 ident s2)
    then have s2: "s2 = s1" by (auto simp: with_target_Ok)
    let ?q = "workspace_post (workspace_request (kt_device_id token) (rc_target (sx_receipt s)) (wi_display_name ident))"
    obtain outcome where "workspace_answer W token outcome (s2\<lparr>sx_log := sx_log s2 @ [?q]\<rparr>) = (r, s')"
      using 2(2) c s2 by (simp add: with_target_def ask_then_def ask_def)
    from keeps_log [OF answers_quiet(2) this] c s2 show thesis
      by (intro that(2) [of "wi_display_name ident" "sx_db s1"]) simp_all
  qed
qed

lemma ensure_session_log:
  assumes "ensure_session W token w s = (r, s')"
  shows "sx_log s' = sx_log s @ [sync_post (sync_request (wd_id w) (rc_target (sx_receipt s)))]"
proof -
  let ?q = "sync_post (sync_request (wd_id w) (rc_target (sx_receipt s)))"
  obtain outcome where "session_answer W token outcome (s\<lparr>sx_log := sx_log s @ [?q]\<rparr>) = (r, s')"
    using assms by (simp add: ensure_session_def with_target_def ask_then_def ask_def)
  from keeps_log [OF answers_quiet(3) this] show ?thesis by simp
qed

lemma target_kept:
  assumes "ensure_workspace W token s = (r, s')"
  shows "rc_target (sx_receipt s') = rc_target (sx_receipt s)"
proof -
  have "keeps receipt_kept (ensure_workspace W token)"
    unfolding ensure_workspace_def workspace_answer_def by (intro receipts.asking_intros)
  from keepsD [OF this assms] show ?thesis by (simp add: receipt_kept_def)
qed

text \<open>All requests of \<open>ensure\<close>: the two creations in their order, then at most sixty polls.\<close>

definition ensure_requests ::
  "strict_token \<Rightarrow> sync_target \<Rightarrow> sync_body http_request list \<Rightarrow> bool" where
  "ensure_requests token target l \<longleftrightarrow>
     l = [] \<or>
     (\<exists>name. l = [workspace_post (workspace_request (kt_device_id token) target name)]) \<or>
     (\<exists>name wid polls. l = workspace_post (workspace_request (kt_device_id token) target name) #
         sync_post (sync_request wid target) # polls \<and> filter is_post polls = [] \<and> length polls \<le> 60)"

lemma ensure_log:
  assumes "sync_ensure W token s = (r, s')"
  shows "\<exists>l. sx_log s' = sx_log s @ l \<and> ensure_requests token (rc_target (sx_receipt s)) l"
  using assms unfolding sync_ensure_def
proof (cases rule: and_then_cases)
  case (1 e)
  from 1(1) show ?thesis
    by (cases rule: ensure_workspace_log) (auto simp: ensure_requests_def)
next
  case (2 w s1)
  from 2(1) obtain name where l1: "sx_log s1 = sx_log s @
      [workspace_post (workspace_request (kt_device_id token) (rc_target (sx_receipt s)) name)]"
    by (cases rule: ensure_workspace_log) auto
  note t = target_kept [OF 2(1)]
  have step: ?thesis if "sx_log s' = sx_log s1 @ sync_post (sync_request (wd_id w) (rc_target (sx_receipt s))) # polls"
    "filter is_post polls = []" "500 * length polls \<le> 30499" for polls
    using that l1 by (auto simp: ensure_requests_def)
  from 2(2) show ?thesis
  proof (cases rule: and_then_cases)
    case (1 e)
    from step [of "[]"] ensure_session_log [OF 1(1)] t show ?thesis by simp
  next
    case (2 x s2)
    note l2 = ensure_session_log [OF 2(1)]
    from 2(2) show ?thesis
    proof (cases rule: and_then_cases)
      case (1 e)
      from loop_log [OF 1(1)] step l2 t show ?thesis by auto
    next
      case (2 ready s3)
      have "keeps log_kept (and_then (persist_stage W AtPersistReady (kt_server_url token) None (Some ready))
          (\<lambda>_. local_stage W (kt_server_url token) ready))"
        by (intro quiet.keeps_intros)
      from keeps_log [OF this 2(2)] loop_log [OF 2(1)] step l2 t show ?thesis by auto
    qed
  qed
qed

text \<open>
  Ensuring a synchronization ends after a bounded number of requests, whatever the server and
  the daemon answer: at most one observation, one creation of the workspace and then one of the
  session, both for the reviewed target, and at most sixty polls; the thirty seconds of the wait
  bound it although every answer may keep the session in the starting state.
\<close>

lemma mutate_ensure_bounded:
  assumes "mutate W context target ''sync.ensure'' dry_run d = (r, d', log)"
  shows "\<exists>token observed l. log = observed @ l \<and> filter is_post observed = [] \<and> length observed \<le> 1 \<and>
    ensure_requests token target l \<and> (l \<noteq> [] \<longrightarrow> sync_authorize (wo_authority W) context = Ok token)"
  using assms
proof (cases rule: mutate_cases)
  case 1
  then show ?thesis by (intro exI [of _ undefined] exI [of _ log] exI [of _ "[]"]) (simp add: ensure_requests_def)
next
  case (2 token sn x log0 result s)
  from 2(4) have "sync_ensure W token \<lparr>sx_receipt = new_receipt context ''sync.ensure'' target dry_run x,
      sx_snapshot = sn, sx_db = sp_others (wo_point W AtObserve) d, sx_log = log0\<rparr> = (result, s)"
    by (simp add: run_method_def)
  from ensure_log [OF this] obtain l where "log = log0 @ l" "ensure_requests token target l"
    using 2(7) by (auto simp: new_receipt_def)
  with observe_Ok(2,3) [OF 2(3)] 2(2) show ?thesis by blast
qed


section \<open>What a completed call has stored\<close>

lemma persist_stage_Ok:
  assumes "persist_stage W site server w x s = (Ok u, s')"
  obtains d sn where "state_persist (wo_point W site) server (rc_target (sx_receipt s)) (sx_snapshot s) w x
      (sp_others (wo_point W site) (sx_db s)) = (Ok sn, d)"
    "sx_db s' = d" "sx_snapshot s' = sn" "rc_sync (sx_receipt s') = rc_sync (sx_receipt s)"
proof -
  obtain persisted d where p: "state_persist (wo_point W site) server (rc_target (sx_receipt s)) (sx_snapshot s)
      w x (sp_others (wo_point W site) (sx_db s)) = (persisted, d)" by fastforce
  with assms that show thesis
    by (cases persisted)
      (auto simp: persist_stage_def and_then_def record_stage_def with_receipt_def push_stage_def Let_def)
qed

lemma state_persist_sync:
  assumes "state_persist P server target expected w (Some x) d = (Ok sn, d')"
  shows "sn_sync sn = Some (local_sync_of server x)"
    and "(local_sync_of server x, sp_now P) \<in> set (db_sync_sessions d')"
proof -
  let ?s = "local_sync_of server x"
  from assms show "sn_sync sn = Some ?s"
    by (auto simp: state_persist_def Let_def split: result.splits prod.splits bool.splits)
  from assms obtain d1 where c: "compare_sync_snapshot (sp_write P) (sp_now P) server (tg_project_key target) expected
      (map_option (local_workspace_of server) w) (Some ?s) d1 = (Ok True, d')"
    by (auto simp: state_persist_def Let_def split: result.splits prod.splits bool.splits)
  then obtain d2 where "write_sync (sp_write P) (sp_now P) (Some ?s) d2 = (Ok (), d')"
    by (rule compare_sync_snapshot_True)
  then show "(?s, sp_now P) \<in> set (db_sync_sessions d')"
    by (auto simp: write_sync_def upsert_sync_session_def set_upsert_by split: if_splits)
qed

lemma read_snapshot_row:
  assumes "state_snapshot P server key d = Ok sn" and "sn_sync sn = Some x"
  shows "\<exists>t. (x, t) \<in> set (db_sync_sessions d)"
proof -
  from assms have "read_sync_snapshot (sp_read P) server key d = Ok sn"
    by (cases "read_snapshot (sp_host P) (sp_read P) server key d")
      (auto simp: state_snapshot_def read_snapshot_def split: result.splits io_kind.splits)
  then have sn: "snapshot_of server key d sn" by (rule read_sync_snapshot_Ok)
  with assms(2) obtain w where "sn_workspace sn = Some w" by (auto simp: snapshot_of_def split: option.splits)
  from snapshot_sync_row [OF sn this assms(2)] show ?thesis by blast
qed

text \<open>The stored row that a reported session stands for.\<close>

definition row_of_view :: "string \<Rightarrow> sync_view \<Rightarrow> local_sync_session" where
  "row_of_view server v =
     \<lparr>ls_id = vw_id v, ls_server_url = server, ls_workspace_id = vw_workspace_id v, ls_node_id = vw_node_id v,
      ls_status = vw_status v, ls_conflict_status = vw_conflict_status v,
      ls_mutagen_session_id = vw_mutagen_session_id v, ls_remote_endpoint = vw_remote_endpoint v\<rparr>"

lemma row_of_view_sync [simp]: "row_of_view server (sync_view_of x) = local_sync_of server x"
  by (simp add: row_of_view_def sync_view_of_def local_sync_of_def)

lemma action_stored:
  assumes "sync_action W server current s = (Ok u, s')"
  shows "\<exists>v t. rc_sync (sx_receipt s') = Some v \<and> (row_of_view server v, t) \<in> set (db_sync_sessions (sx_db s'))"
proof -
  from assms obtain action s1 outcome where a: "action_answer W server outcome s1 = (Ok u, s')"
    by (auto simp: sync_action_def and_then_Ok ask_then_def ask_def)
  then obtain x where "action_accepted W server x s1 = (Ok u, s')"
    by (auto simp: action_answer_def fail_stage_def split: result.splits)
  then obtain s2 s4 where l: "with_target (\<lambda>r. if \<not> action_before (rc_method r) then local_stage W server x
        else done_with (Ok ())) (with_receipt (\<lambda>r. r\<lparr>rc_sync := Some (sync_view_of x)\<rparr>) s2) = (Ok (), s4)"
    and p: "persist_stage W AtPersistAction server None (Some x) s4 = (Ok u, s')"
    by (auto simp: action_accepted_def and_then_Ok set_receipt_def)
  let ?s3 = "with_receipt (\<lambda>r. r\<lparr>rc_sync := Some (sync_view_of x)\<rparr>) s2"
  have s3: "rc_sync (sx_receipt ?s3) = Some (sync_view_of x)" by (simp add: with_receipt_def)
  have "rc_sync (sx_receipt s4) = Some (sync_view_of x)"
    using l s3 local_stage_frame(6) [of W server x ?s3] by (auto simp: with_target_def done_with_def split: if_splits)
  with persist_stage_Ok [OF p] state_persist_sync(2) show ?thesis by (metis row_of_view_sync)
qed

lemma loop_receipt:
  assumes "prepare_loop W deadline now n x s = (Ok ready, s')"
    and "rc_sync (sx_receipt s) = Some (sync_view_of x)"
  shows "rc_sync (sx_receipt s') = Some (sync_view_of ready) \<and>
    xd_status ready \<in> {''active'', ''healthy'', ''conflicted''}"
  using assms
proof (induction W deadline now n x s rule: prepare_loop.induct)
  case (1 W deadline now n x s)
  show ?case
  proof (cases "xd_status x \<in> {''active'', ''healthy'', ''conflicted''}")
    case True
    with "1.prems" show ?thesis by (simp add: prepare_loop.simps [of W deadline now n x s])
  next
    case False
    with "1.prems"(1) have go: "xd_status x \<notin> {''failed'', ''stopped'', ''paused''}" "\<not> deadline \<le> now"
      by (auto simp: prepare_loop.simps [of W deadline now n x s] fail_stage_def split: if_splits)
    with False "1.prems"(1) obtain polled u where
      p: "send (wo_crates W) (sy_session (wo_decoders W)) (fst (ask W (sync_get (xd_id x)) s)) = Ok polled"
      "validate_sync (wo_crates W) polled (rc_result_target (sx_receipt (snd (ask W (sync_get (xd_id x)) s)))) = Ok u"
      and l: "prepare_loop W deadline (now + 500 + wo_lag W n) (n + 1) polled
          (with_receipt (\<lambda>r. r\<lparr>rc_sync := Some (sync_view_of polled)\<rparr>) (snd (ask W (sync_get (xd_id x)) s))) =
          (Ok ready, s')"
      by (auto simp: prepare_loop.simps [of W deadline now n x s] ask_def split: result.splits)
    from "1.IH" [OF False go surjective_pairing [symmetric] p l] show ?thesis by (simp add: with_receipt_def)
  qed
qed

lemma ensure_stored:
  assumes "sync_ensure W token s = (Ok u, s')"
  shows "\<exists>v t. rc_sync (sx_receipt s') = Some v \<and> vw_status v \<in> {''active'', ''healthy'', ''conflicted''} \<and>
    (row_of_view (kt_server_url token) v, t) \<in> set (db_sync_sessions (sx_db s'))"
proof -
  let ?server = "kt_server_url token"
  from assms obtain w s1 x s2 ready s3 s4 where
    x: "ensure_session W token w s1 = (Ok x, s2)"
    and loop: "prepare_loop W (wo_now W + 30000) (wo_now W) 0 x s2 = (Ok ready, s3)"
    and p: "persist_stage W AtPersistReady ?server None (Some ready) s3 = (Ok (), s4)"
    and l: "local_stage W ?server ready s4 = (Ok u, s')"
    by (auto simp: sync_ensure_def and_then_Ok)
  from x have "rc_sync (sx_receipt s2) = Some (sync_view_of x)"
    by (auto simp: ensure_session_def with_target_def ask_then_def ask_def session_answer_def and_then_Ok
        fail_stage_def set_receipt_def with_receipt_def adopt_sync_def done_with_def
        split: result.splits elim!: persist_stage_Ok)
  from loop_receipt [OF loop this] have v: "rc_sync (sx_receipt s3) = Some (sync_view_of ready)"
    "xd_status ready \<in> {''active'', ''healthy'', ''conflicted''}" by simp_all
  from p obtain d sn where sp: "state_persist (wo_point W AtPersistReady) ?server (rc_target (sx_receipt s3))
      (sx_snapshot s3) None (Some ready) (sp_others (wo_point W AtPersistReady) (sx_db s3)) = (Ok sn, d)"
    "sx_snapshot s4 = sn" "rc_sync (sx_receipt s4) = rc_sync (sx_receipt s3)"
    by (rule persist_stage_Ok)
  note f = local_stage_frame [OF l]
  have "\<exists>t. (local_sync_of ?server ready, t) \<in> set (db_sync_sessions (sx_db s'))"
    using read_snapshot_row [OF f(7)] state_persist_sync(1) [OF sp(1)] sp(2) by simp
  moreover have "vw_status (sync_view_of ready) = xd_status ready" by (simp add: sync_view_of_def)
  ultimately show ?thesis using v f(6) sp(3) by (intro exI [of _ "sync_view_of ready"]) auto
qed

text \<open>
  What a completed receipt reports is what is stored: the session in the receipt is a row of
  the local mapping when the call returns, even though other processes use the database during
  the call; and an ensured session is prepared.
\<close>

lemma mutate_completed_stored:
  assumes "mutate W context target method dry_run d = (Ok r, d', log)" and "rc_outcome r = ''completed''"
  shows "\<exists>token v t. sync_authorize (wo_authority W) context = Ok token \<and> rc_sync r = Some v \<and>
    (row_of_view (kt_server_url token) v, t) \<in> set (db_sync_sessions d') \<and>
    (method = ''sync.ensure'' \<longrightarrow> vw_status v \<in> {''active'', ''healthy'', ''conflicted''})"
  using assms(1)
proof (cases rule: mutate_cases)
  case 1
  then show ?thesis by simp
next
  case (2 token sn x log0 result s)
  let ?s0 = "\<lparr>sx_receipt = new_receipt context method target dry_run x, sx_snapshot = sn,
      sx_db = sp_others (wo_point W AtObserve) d, sx_log = log0\<rparr>"
  have "receipt_ok (new_receipt context method target dry_run x)" by (simp add: new_receipt_def receipt_ok_def)
  then have "receipt_ok (sx_receipt s)"
    using keepsD [OF receipts.keeps_method 2(4)] by (simp add: receipt_kept_def)
  with 2(5) assms(2) have ok: "result = Ok ()" "r = sx_receipt s"
    by (auto simp: close_receipt_def receipt_ok_def split: result.splits if_splits)
  show ?thesis
  proof (cases "method = ''sync.ensure''")
    case True
    with 2(4) ok have "sync_ensure W token ?s0 = (Ok (), s)" by (simp add: run_method_def)
    from ensure_stored [OF this] 2(2,6) ok True show ?thesis by blast
  next
    case False
    with 2(4) ok obtain v where "sync_action W (kt_server_url token) v ?s0 = (Ok (), s)"
      by (cases x) (auto simp: run_method_def done_with_def)
    from action_stored [OF this] 2(2,6) ok False show ?thesis by blast
  qed
qed


section \<open>A concrete call\<close>

text \<open>A home with a database and a project directory \<open>/w\<close> whose mapping is known.\<close>

definition sync_host :: host where
  "sync_host = sample_host\<lparr>h_lstat := (\<lambda>p. if p = ''/w'' then h_lstat sample_host ''/h'' else h_lstat sample_host p)\<rparr>"

definition reviewed_session :: sync_session_data where
  "reviewed_session =
     \<lparr>xd_id = sample_id 3, xd_user_id = ''u'', xd_workspace_id = sample_id 2, xd_node_id = None,
      xd_local_path = ''/w'', xd_remote_path = ''/r'', xd_status = ''active'', xd_conflict_status = ''none'',
      xd_sync_mode = ''two_way'', xd_sync_git = True, xd_exclude = [], xd_mutagen_session_id = None,
      xd_remote_endpoint = None, xd_prepare_task_id = None, xd_created_at = ''t0'', xd_updated_at = ''t1''\<rparr>"

definition reviewed_workspace :: workspace_data where
  "reviewed_workspace =
     \<lparr>wd_id = sample_id 2, wd_user_id = ''u'', wd_device_id = ''d1'', wd_project_key = sample_digest,
      wd_local_start_path = ''/w'', wd_display_name = ''w'', wd_remote_path = None, wd_sync_git = True,
      wd_git_sync_policy = default_git_sync_policy, wd_created_at = ''t0'', wd_updated_at = ''t1''\<rparr>"

definition sync_db :: db where
  "sync_db = created_db\<lparr>db_user_version := 4,
     db_workspaces := [local_workspace_of ''https://s'' reviewed_workspace],
     db_sync_sessions := [(local_sync_of ''https://s'' reviewed_session, 1)]\<rparr>"

definition quiet_point :: sync_point where
  "quiet_point = \<lparr>sp_host = sync_host, sp_read = no_faults, sp_init = no_faults, sp_write = no_faults,
     sp_now = 2, sp_others = (\<lambda>d. d)\<rparr>"

definition sample_sync_world :: sync_world where
  "sample_sync_world =
     (let cfg = Some \<lparr>cf_server_url = Some ''https://s'', cf_active_device_id = Some ''d1''\<rparr> in
      \<lparr>wo_crates = sample_crates,
       wo_decoders = \<lparr>sy_workspace = receipt_decoders reviewed_workspace,
          sy_session = receipt_decoders reviewed_session,
          sy_checked = receipt_decoders \<lparr>ck_sync = reviewed_session, ck_target_precondition_version = 1,
             ck_target_precondition_checked = True\<rparr>\<rparr>,
       wo_authority = \<lparr>au_host = sync_host, au_config_before = cfg, au_login = True, au_config_locked = cfg,
          au_token = Some \<lparr>kt_server_url = ''https://s'', kt_device_id = ''d1'', kt_token = ''t''\<rparr>,
          au_lock = True, au_config_final = cfg, au_client = True\<rparr>,
       wo_net = (\<lambda>_. answer), wo_point = (\<lambda>_. quiet_point),
       wo_mutagen = (\<lambda>_ _. Ok observation_unavailable), wo_inspect = (\<lambda>_. Ok observation_unavailable),
       wo_now = 0, wo_lag = (\<lambda>_. 0)\<rparr>)"

definition reviewed_target :: sync_target where
  "reviewed_target =
     \<lparr>tg_local_path = ''/w'', tg_project_key = sample_digest, tg_workspace_id = Some (sample_id 2),
      tg_sync_session_id = Some (sample_id 3), tg_fingerprint = Some sample_digest\<rparr>"

abbreviation sample_token :: strict_token where
  "sample_token \<equiv> \<lparr>kt_server_url = ''https://s'', kt_device_id = ''d1'', kt_token = ''t''\<rparr>"

definition reviewed_snapshot :: sync_snapshot where
  "reviewed_snapshot =
     \<lparr>sn_workspace = Some (local_workspace_of ''https://s'' reviewed_workspace),
      sn_sync = Some (local_sync_of ''https://s'' reviewed_session)\<rparr>"

lemma world_parts [simp]:
  "wo_crates sample_sync_world = sample_crates" "wo_net sample_sync_world = (\<lambda>_. answer)"
  "wo_point sample_sync_world site = quiet_point" "wo_now sample_sync_world = 0"
  "wo_mutagen sample_sync_world = (\<lambda>_ _. Ok observation_unavailable)"
  "sy_workspace (wo_decoders sample_sync_world) = receipt_decoders reviewed_workspace"
  "sy_session (wo_decoders sample_sync_world) = receipt_decoders reviewed_session"
  "sy_checked (wo_decoders sample_sync_world) = receipt_decoders \<lparr>ck_sync = reviewed_session,
     ck_target_precondition_version = 1, ck_target_precondition_checked = True\<rparr>"
  "sp_host quiet_point = sync_host" "sp_read quiet_point = no_faults" "sp_init quiet_point = no_faults"
  "sp_write quiet_point = no_faults" "sp_now quiet_point = 2" "sp_others quiet_point = (\<lambda>d. d)"
  by (simp_all add: sample_sync_world_def quiet_point_def Let_def)

lemma sample_sync_authorized: "sync_authorize (wo_authority sample_sync_world) sample_context = Ok sample_token"
  by (simp add: sync_authorize_def sync_check_context_def sample_sync_world_def Let_def sample_context_def
      sync_host_def sample_host_def)

lemma sample_fingerprint: "fingerprint sample_crates x = sample_digest"
  by (simp add: fingerprint_def sample_crates_def sample_digest_def)

lemma identify_sample: "identify sample_crates sync_host ''/w'' =
    Ok \<lparr>wi_local_path = ''/w'', wi_project_key = sample_digest, wi_display_name = ''w''\<rparr>"
  by (simp add: identify_def identify_workspace_def rust_eval sync_host_def sample_host_def path_is_dir_def
      paths_equal_def file_name_def normalized_project_path_def sample_crates_def sample_digest_def)

lemma sync_valid_sample: "n < 10 \<Longrightarrow> sync_valid_id sample_crates (sample_id n)"
  using sample_id_canonical [of n] by (auto simp: canonical_uuid_def sync_valid_id_def split: option.splits)

lemma open_state_sync: "open_state sync_host = Ok ''/h/state.sqlite3''"
  and open_readonly_sync: "open_readonly sync_host = Ok ''/h/state.sqlite3''"
  by (simp_all add: open_state_def open_readonly_def checked_home_def sync_host_def sample_host_def
      path_components_def rust_eval ensure_base_dirs_def path_join_def open_metadata_def database_path_def
      validate_file_def is_link_def)

lemma sync_db_rows:
  "db_tables sync_db = db_tables created_db" "db_indexes sync_db = db_indexes created_db"
  "db_user_version sync_db = 4" "db_quick_check sync_db = ''ok''"
  "db_workspaces sync_db = [local_workspace_of ''https://s'' reviewed_workspace]"
  "db_sync_sessions sync_db = [(local_sync_of ''https://s'' reviewed_session, 1)]"
  by (simp_all add: sync_db_def created_db_def fresh_db_def)

text \<open>The mapping as it is before and after a session row has been written again.\<close>

definition sync_db_at :: "nat \<Rightarrow> db" where
  "sync_db_at t = sync_db\<lparr>db_sync_sessions := [(local_sync_of ''https://s'' reviewed_session, t)]\<rparr>"

lemma sync_db_at_rows [simp]:
  "db_tables (sync_db_at t) = db_tables created_db" "db_indexes (sync_db_at t) = db_indexes created_db"
  "db_user_version (sync_db_at t) = 4" "db_quick_check (sync_db_at t) = ''ok''"
  "db_workspaces (sync_db_at t) = [local_workspace_of ''https://s'' reviewed_workspace]"
  "db_sync_sessions (sync_db_at t) = [(local_sync_of ''https://s'' reviewed_session, t)]"
  by (simp_all add: sync_db_at_def sync_db_rows)

lemma read_sync_db: "read_sync_snapshot no_faults ''https://s'' sample_digest (sync_db_at t) = Ok reviewed_snapshot"
proof (rule read_sync_snapshot_complete)
  show "snapshot_of ''https://s'' sample_digest (sync_db_at t) reviewed_snapshot"
    by (simp add: snapshot_of_def reviewed_snapshot_def select_by_def lw_project_def local_workspace_of_def
        reviewed_workspace_def workspace_syncs_def local_sync_of_def reviewed_session_def)
qed (use created_tables in \<open>simp_all add: has_table_def\<close>)

lemma snapshot_sync_db: "state_snapshot quiet_point ''https://s'' sample_digest (sync_db_at t) = Ok reviewed_snapshot"
proof -
  have "h_canonicalize sync_host p = Ok p" for p by (simp add: sync_host_def sample_host_def)
  then show ?thesis by (simp add: state_snapshot_def read_snapshot_def open_readonly_sync read_sync_db)
qed


lemma validate_reviewed:
  assumes "tg_local_path t = ''/w''" "tg_workspace_id t = Some (sample_id 2)"
    and "tg_sync_session_id t = Some (sample_id 3)" "is_none_or (\<lambda>f. f = sample_digest) (tg_fingerprint t)"
  shows "validate_sync sample_crates reviewed_session t = Ok ()"
  using assms
  by (cases "tg_fingerprint t")
    (simp_all add: validate_sync_def reviewed_session_def sync_valid_sample paths_equal_def rust_eval
      sample_fingerprint)

lemma observe_sample:
  "observe sample_sync_world sample_token ''/w'' True (sync_db_at t) =
     (Ok (reviewed_target, reviewed_snapshot, Some reviewed_session), [sync_get (sample_id 3)])"
proof -
  have "state_target sample_crates \<lparr>wi_local_path = ''/w'', wi_project_key = sample_digest, wi_display_name = ''w''\<rparr>
      reviewed_snapshot = Ok (reviewed_target\<lparr>tg_fingerprint := None\<rparr>)"
    by (simp add: state_target_def reviewed_snapshot_def reviewed_target_def local_workspace_of_def
        reviewed_workspace_def local_sync_of_def reviewed_session_def paths_equal_def sync_valid_sample)
  moreover have "observe_get sample_sync_world True (sample_id 3) = Ok reviewed_session"
    by (simp add: observe_get_def read_checked_def send_answer checked_validate_def)
  moreover have "validate_sync sample_crates reviewed_session (reviewed_target\<lparr>tg_fingerprint := None\<rparr>) = Ok ()"
    by (rule validate_reviewed) (simp_all add: reviewed_target_def)
  ultimately show ?thesis
    by (simp add: observe_def identify_sample snapshot_sync_db)
      (simp add: reviewed_target_def sample_fingerprint)
qed

lemma persist_session_sample:
  "state_persist quiet_point ''https://s'' reviewed_target reviewed_snapshot None (Some reviewed_session) (sync_db_at t) =
     (Ok reviewed_snapshot, sync_db_at 2)"
proof -
  have "has_table (sync_db_at t) ''sync_sessions''" using created_tables by (simp add: has_table_def)
  then have "compare_sync_snapshot no_faults 2 ''https://s'' sample_digest reviewed_snapshot None
      (Some (local_sync_of ''https://s'' reviewed_session)) (sync_db_at t) = (Ok True, sync_db_at 2)"
    by (simp add: compare_sync_snapshot_def read_sync_db write_workspace_def write_sync_def
        upsert_sync_session_def upsert_by_def) (simp add: sync_db_at_def)
  then show ?thesis
    by (simp add: state_persist_def open_state_sync init_schema_current reviewed_target_def reviewed_snapshot_def)
qed

lemma persist_workspace_sample:
  "state_persist quiet_point ''https://s'' reviewed_target reviewed_snapshot (Some reviewed_workspace) None (sync_db_at t) =
     (Ok reviewed_snapshot, sync_db_at t)"
proof -
  have "has_table (sync_db_at t) ''workspaces''" using created_tables by (simp add: has_table_def)
  moreover have "\<not> project_taken (sync_db_at t) (local_workspace_of ''https://s'' reviewed_workspace)"
    by (simp add: project_taken_def split: option.split)
  ultimately have "compare_sync_snapshot no_faults 2 ''https://s'' sample_digest reviewed_snapshot
      (Some (local_workspace_of ''https://s'' reviewed_workspace)) None (sync_db_at t) = (Ok True, sync_db_at t)"
    by (simp add: compare_sync_snapshot_def read_sync_db write_workspace_def write_sync_def
        upsert_workspace_def upsert_by_def)
  then show ?thesis
    by (simp add: state_persist_def open_state_sync init_schema_current reviewed_target_def reviewed_snapshot_def)
qed

lemma recheck_sample:
  assumes "rc_target (sx_receipt s) = reviewed_target" "sx_snapshot s = reviewed_snapshot" "sx_db s = sync_db_at t"
  shows "recheck sample_sync_world site ''https://s'' s = (Ok (), s)"
  using assms by (simp add: recheck_def reviewed_target_def identify_sample snapshot_sync_db)

lemma persist_stage_session_sample:
  assumes "rc_target (sx_receipt s) = reviewed_target" "sx_snapshot s = reviewed_snapshot" "sx_db s = sync_db_at t"
  shows "persist_stage sample_sync_world site ''https://s'' None (Some reviewed_session) s =
    (Ok (), with_receipt (push_stage ''persist'' ''completed'') (s\<lparr>sx_db := sync_db_at 2\<rparr>))"
  using assms by (simp add: persist_stage_def persist_session_sample and_then_def record_stage_def with_receipt_def)

lemma persist_stage_workspace_sample:
  assumes "rc_target (sx_receipt s) = reviewed_target" "sx_snapshot s = reviewed_snapshot" "sx_db s = sync_db_at t"
  shows "persist_stage sample_sync_world site ''https://s'' (Some reviewed_workspace) None s =
    (Ok (), with_receipt (push_stage ''persist'' ''completed'') s)"
  using assms by (simp add: persist_stage_def persist_workspace_sample and_then_def record_stage_def with_receipt_def)

lemma local_sample:
  assumes "rc_target (sx_receipt s) = reviewed_target" "sx_snapshot s = reviewed_snapshot" "sx_db s = sync_db_at t"
    and "rc_dry_run (sx_receipt s)"
  shows "local_stage sample_sync_world ''https://s'' x s = (Ok (), with_receipt (push_stage ''mutagen'' ''skipped'') s)"
  using assms by (simp add: local_stage_def and_then_def recheck_sample local_mutagen_def)

definition stages_of :: "(string \<times> string) list \<Rightarrow> sync_stage list" where
  "stages_of = map (\<lambda>(n, st). \<lparr>sg_name = n, sg_state = st\<rparr>)"

definition start_state :: "string \<Rightarrow> sync_state" where
  "start_state method = \<lparr>sx_receipt = new_receipt sample_context method reviewed_target True (Some reviewed_session),
     sx_snapshot = reviewed_snapshot, sx_db = sync_db_at 1, sx_log = [sync_get (sample_id 3)]\<rparr>"

lemma mutate_sample:
  assumes "method \<in> sync_methods"
    and "run_method sample_sync_world sample_token method (Some reviewed_session) (start_state method) = (Ok (), s)"
  shows "mutate sample_sync_world sample_context reviewed_target method True (sync_db_at 1) =
    (Ok (sx_receipt s), sx_db s, sx_log s)"
proof -
  have shape: "target_shape sample_crates reviewed_target"
    by (simp add: target_shape_def reviewed_target_def sync_valid_sample fingerprint_shape_def sample_digest_def
        rust_eval list_all_iff)
  have path: "tg_local_path reviewed_target = ''/w''" by (simp add: reviewed_target_def)
  show ?thesis
    using assms shape
    by (simp add: mutate_def path identify_sample sample_sync_authorized observe_sample start_state_def
        close_receipt_def)
qed

lemma pause_sample:
  "\<exists>s. run_method sample_sync_world sample_token ''sync.pause'' (Some reviewed_session) (start_state ''sync.pause'') =
     (Ok (), s) \<and> rc_outcome (sx_receipt s) = ''completed'' \<and>
     sx_log s = [sync_get (sample_id 3), action_post ''pause'' reviewed_session]"
proof -
  have m: "method_action ''sync.pause'' = Ok ''pause''" by (simp add: method_action_Ok)
  have v: "validate_sync sample_crates reviewed_session reviewed_target = Ok ()"
    by (rule validate_reviewed) (simp_all add: reviewed_target_def)
  note [simp] = new_receipt_def with_receipt_def push_stage_def
  show ?thesis
    by (simp add: run_method_def sync_action_def and_then_def with_target_def action_before_def start_state_def
        local_sample [where t = 1] recheck_sample [where t = 1] m done_with_def ask_then_def ask_def
        action_answer_def read_checked_def send_answer checked_validate_def action_accepted_def v
        unknown_if_invalid_def record_stage_def set_receipt_def persist_stage_session_sample [where t = 1])
qed


theorem mutate_receipt_honest_witness:
  "\<exists>r d' log. mutate sample_sync_world sample_context reviewed_target ''sync.pause'' True (sync_db_at 1) =
      (Ok r, d', log) \<and> receipt_ok r"
proof -
  obtain s where s: "run_method sample_sync_world sample_token ''sync.pause'' (Some reviewed_session)
      (start_state ''sync.pause'') = (Ok (), s)"
    using pause_sample by blast
  have m: "mutate sample_sync_world sample_context reviewed_target ''sync.pause'' True (sync_db_at 1) =
      (Ok (sx_receipt s), sx_db s, sx_log s)"
    by (rule mutate_sample [OF _ s]) (simp add: sync_methods_def)
  from mutate_receipt_honest [OF m] m show ?thesis by blast
qed


lemma ensure_sample:
  "\<exists>s. run_method sample_sync_world sample_token ''sync.ensure'' (Some reviewed_session) (start_state ''sync.ensure'') =
     (Ok (), s) \<and> rc_outcome (sx_receipt s) = ''completed'' \<and> length (sx_log s) = 3"
proof -
  have v: "validate_sync sample_crates reviewed_session reviewed_target = Ok ()"
    by (rule validate_reviewed) (simp_all add: reviewed_target_def)
  have loop: "prepare_loop W deadline now n reviewed_session s = (Ok reviewed_session, s)" for W deadline now n s
    by (subst prepare_loop.simps) (simp add: reviewed_session_def)
  have w: "workspace_valid sample_sync_world ''d1'' reviewed_target reviewed_workspace"
    by (simp add: workspace_valid_def reviewed_workspace_def reviewed_target_def sync_valid_sample paths_equal_def)
  have ids: "reviewed_target\<lparr>tg_workspace_id := Some (wd_id reviewed_workspace)\<rparr> = reviewed_target"
    "identify sample_crates sync_host (tg_local_path reviewed_target) =
       Ok \<lparr>wi_local_path = ''/w'', wi_project_key = sample_digest, wi_display_name = ''w''\<rparr>"
    by (simp_all add: reviewed_target_def reviewed_workspace_def identify_sample)
  note [simp] = new_receipt_def with_receipt_def push_stage_def
  let ?s0 = "start_state ''sync.ensure''"
  obtain s1 where s1: "ensure_workspace sample_sync_world sample_token ?s0 = (Ok reviewed_workspace, s1)"
    "rc_target (sx_receipt s1) = reviewed_target" "rc_result_target (sx_receipt s1) = reviewed_target"
    "sx_snapshot s1 = reviewed_snapshot" "sx_db s1 = sync_db_at 1" "length (sx_log s1) = 2"
    "rc_dry_run (sx_receipt s1)" "rc_outcome (sx_receipt s1) = ''completed''"
    by (simp add: ensure_workspace_def and_then_def with_target_def start_state_def recheck_sample [where t = 1]
        ids done_with_def ask_then_def ask_def workspace_answer_def send_answer w record_stage_def
        set_receipt_def persist_stage_workspace_sample [where t = 1])
  obtain s2 where s2: "ensure_session sample_sync_world sample_token reviewed_workspace s1 = (Ok reviewed_session, s2)"
    "rc_target (sx_receipt s2) = reviewed_target"
    "sx_snapshot s2 = reviewed_snapshot" "sx_db s2 = sync_db_at 2" "length (sx_log s2) = 3"
    "rc_dry_run (sx_receipt s2)" "rc_outcome (sx_receipt s2) = ''completed''"
    using s1 v
    by (simp add: ensure_session_def and_then_def with_target_def done_with_def ask_then_def ask_def
        session_answer_def send_answer unknown_if_invalid_def record_stage_def set_receipt_def adopt_sync_def
        persist_stage_session_sample [where t = 1])
  show ?thesis
    using s1(1) s2
    by (simp add: run_method_def sync_ensure_def and_then_def loop persist_stage_session_sample [where t = 2]
        local_sample [where t = 2])
qed

lemma mutate_ensure_sample:
  "\<exists>r d' log. mutate sample_sync_world sample_context reviewed_target ''sync.ensure'' True (sync_db_at 1) =
     (Ok r, d', log) \<and> rc_outcome r = ''completed'' \<and> length log = 3"
proof -
  obtain s where s: "run_method sample_sync_world sample_token ''sync.ensure'' (Some reviewed_session)
      (start_state ''sync.ensure'') = (Ok (), s)" "rc_outcome (sx_receipt s) = ''completed''" "length (sx_log s) = 3"
    using ensure_sample by blast
  have "mutate sample_sync_world sample_context reviewed_target ''sync.ensure'' True (sync_db_at 1) =
      (Ok (sx_receipt s), sx_db s, sx_log s)"
    by (rule mutate_sample [OF _ s(1)]) (simp add: sync_methods_def)
  with s show ?thesis by blast
qed

end
