(* ===== verification/Sync_Recovery.thy ===== *)
theory Sync_Recovery
  imports Sync_Operations
begin

text \<open>
  Reviewed removal of obsolete local mappings (\<open>sync_operations/recovery.rs\<close>): the check that the
  server no longer knows the session, the plan of a preview, and its application, which ends the
  exact local Mutagen session and then removes the reviewed rows by compare-and-remove.
\<close>

section \<open>Data\<close>

text \<open>
  \<open>RecoveryObservation\<close> of \<open>mutagen/desktop/recovery.rs\<close>; the target of the daemon's session is
  only compared and passed on.
\<close>

record recovery_observation =
  ro_state :: string
  ro_recoverable :: bool
  ro_error_code :: "string option"
  ro_namespace_fingerprint :: "string option"
  ro_target :: "json option"

record sync_recovery_plan =
  pl_context :: account_context
  pl_target :: sync_target
  pl_mapping :: sync_snapshot
  pl_mapping_fingerprint :: string
  pl_server_state :: string
  pl_mutagen :: recovery_observation
  pl_recoverable :: bool
  pl_error_code :: "string option"

record sync_recovery_receipt =
  rv_context :: account_context
  rv_method :: string
  rv_plan :: sync_recovery_plan
  rv_result_target :: sync_target
  rv_outcome :: string
  rv_stages :: "sync_stage list"
  rv_mutagen :: "recovery_observation option"
  rv_error_code :: "string option"

text \<open>
  What a recovery meets: the world of a synchronization call, the JSON text of a mapping, and what
  the daemon reports when it is inspected and when its session is ended.
\<close>

datatype sync_recovery_site = RecoverRead | RecoverRecheck | RecoverPersist

record sync_recovery_world =
  rw_crates :: crates
  rw_decoders :: sync_decoders
  rw_authority :: sync_authority
  rw_net :: "sync_body network"
  rw_start :: host
  rw_point :: "sync_recovery_site \<Rightarrow> sync_point"
  rw_mapping_json :: "sync_snapshot \<Rightarrow> string option"
  rw_inspect :: "sync_target \<Rightarrow> sync_snapshot \<Rightarrow> (recovery_observation, mutagen_error) result"
  rw_terminate :: "sync_target \<Rightarrow> sync_snapshot \<Rightarrow> recovery_observation \<Rightarrow>
     (recovery_observation, mutagen_error) result"

definition mapping_fingerprint :: "sync_recovery_world \<Rightarrow> sync_snapshot \<Rightarrow> (string, op_error) result" where
  "mapping_fingerprint W sn =
     (case rw_mapping_json W sn of
        None \<Rightarrow> Err (op_error_new ''state_unavailable'')
      | Some text \<Rightarrow> Ok (''sha256:'' @ sha256_hex (rw_crates W) text))"

section \<open>Checks\<close>

definition validate_mapping :: "crates \<Rightarrow> sync_snapshot \<Rightarrow> (unit, op_error) result" where
  "validate_mapping X sn =
     (if is_some_and (\<lambda>w. \<not> valid_text (lw_display_name w) 4096 \<or>
            is_some_and (\<lambda>p. \<not> valid_text p 32768) (lw_remote_path w)) (sn_workspace sn)
      then Err (op_error_new ''sync_target_changed'')
      else if is_some_and (\<lambda>s. is_some_and (\<lambda>i. \<not> sync_valid_id X i) (ls_node_id s) \<or>
            \<not> valid_text (ls_status s) 128 \<or> \<not> valid_text (ls_conflict_status s) 128 \<or>
            is_some_and (\<lambda>v. \<not> valid_text v 128) (ls_mutagen_session_id s) \<or>
            is_some_and (\<lambda>v. \<not> valid_text v 8192) (ls_remote_endpoint s)) (sn_sync sn)
      then Err (op_error_new ''sync_target_changed'')
      else Ok ())"

text \<open>The session must be absent on the server: only a 404 says so.\<close>

definition missing_sync :: "sync_recovery_world \<Rightarrow> sync_target \<Rightarrow> (unit, op_error) result" where
  "missing_sync W target =
     (case tg_sync_session_id target of
        None \<Rightarrow> Ok ()
      | Some i \<Rightarrow>
          (case send (rw_crates W) (sy_session (rw_decoders W)) (rw_net W (sync_get i)) of
             Err e \<Rightarrow> if ae_status e = Some 404 then Ok () else Err (sync_error_read e)
           | Ok _ \<Rightarrow> Err (op_error_new ''sync_recovery_not_required'')))"

definition missing :: "sync_recovery_world \<Rightarrow> strict_token \<Rightarrow> sync_target \<Rightarrow> (string, op_error) result" where
  "missing W token target =
     (case missing_sync W target of
        Err e \<Rightarrow> Err e
      | Ok _ \<Rightarrow>
          (case tg_workspace_id target of
             None \<Rightarrow> Err (op_error_new ''sync_recovery_not_required'')
           | Some i \<Rightarrow>
               (case send (rw_crates W) (sy_workspace (rw_decoders W)) (rw_net W (workspace_get i)) of
                  Err e \<Rightarrow> if ae_status e = Some 404 then Ok ''workspace_not_found'' else Err (sync_error_read e)
                | Ok w \<Rightarrow>
                    if wd_id w \<noteq> i \<or> wd_device_id w \<noteq> kt_device_id token \<or>
                       wd_project_key w \<noteq> tg_project_key target \<or>
                       \<not> paths_equal (wd_local_start_path w) (tg_local_path target)
                    then Err (op_error_new ''sync_target_changed'')
                    else if tg_sync_session_id target = None
                    then Err (op_error_new ''sync_recovery_not_required'')
                    else Ok ''sync_not_found'')))"

definition sync_recovery_recheck ::
  "sync_recovery_world \<Rightarrow> sync_point \<Rightarrow> string \<Rightarrow> sync_target \<Rightarrow> sync_snapshot \<Rightarrow> db \<Rightarrow> (unit, op_error) result" where
  "sync_recovery_recheck W P server target sn d =
     (case identify (rw_crates W) (sp_host P) (tg_local_path target) of
        Err e \<Rightarrow> Err e
      | Ok ident \<Rightarrow>
          if wi_project_key ident \<noteq> tg_project_key target then Err (op_error_new ''sync_target_changed'')
          else case state_snapshot P server (tg_project_key target) d of
            Err e \<Rightarrow> Err e
          | Ok now_sn \<Rightarrow> if now_sn \<noteq> sn then Err (op_error_new ''sync_target_changed'') else Ok ())"

definition sync_recovery_inspect :: "sync_recovery_world \<Rightarrow> sync_target \<Rightarrow> sync_snapshot \<Rightarrow> recovery_observation" where
  "sync_recovery_inspect W target sn =
     (case rw_inspect W target sn of
        Ok ob \<Rightarrow> ob
      | Err e \<Rightarrow> \<lparr>ro_state = ''blocked'', ro_recoverable = False, ro_error_code = Some (mg_code e),
                  ro_namespace_fingerprint = None, ro_target = None\<rparr>)"

section \<open>Preview\<close>

text \<open>The mapping and target both calls start from.\<close>

definition sync_recovery_observe ::
  "sync_recovery_world \<Rightarrow> strict_token \<Rightarrow> workspace_identity \<Rightarrow> db \<Rightarrow> (sync_snapshot \<times> sync_target, op_error) result" where
  "sync_recovery_observe W token ident d =
     (case state_snapshot (rw_point W RecoverRead) (kt_server_url token) (wi_project_key ident) d of
        Err e \<Rightarrow> Err e
      | Ok sn \<Rightarrow>
          (case state_target (rw_crates W) ident sn of
             Err e \<Rightarrow> Err e
           | Ok target \<Rightarrow>
               (case validate_mapping (rw_crates W) sn of
                  Err e \<Rightarrow> Err e
                | Ok _ \<Rightarrow> Ok (sn, target))))"

definition sync_recovery_preview ::
  "sync_recovery_world \<Rightarrow> account_context \<Rightarrow> string \<Rightarrow> db \<Rightarrow> (sync_recovery_plan, op_error) result" where
  "sync_recovery_preview W context path d =
     (case identify (rw_crates W) (rw_start W) path of
        Err e \<Rightarrow> Err e
      | Ok ident \<Rightarrow>
          (case sync_authorize (rw_authority W) context of
             Err e \<Rightarrow> Err e
           | Ok token \<Rightarrow>
               let d0 = sp_others (rw_point W RecoverRead) d in
               (case sync_recovery_observe W token ident d0 of
                  Err e \<Rightarrow> Err e
                | Ok (sn, target) \<Rightarrow>
                    (case missing W token target of
                       Err e \<Rightarrow> Err e
                     | Ok server_state \<Rightarrow>
                         let ob = sync_recovery_inspect W target sn; P = rw_point W RecoverRecheck in
                         (case sync_recovery_recheck W P (kt_server_url token) target sn (sp_others P d0) of
                            Err e \<Rightarrow> Err e
                          | Ok _ \<Rightarrow>
                              (case mapping_fingerprint W sn of
                                 Err e \<Rightarrow> Err e
                               | Ok fp \<Rightarrow>
                                   Ok \<lparr>pl_context = context, pl_target = target, pl_mapping = sn,
                                       pl_mapping_fingerprint = fp, pl_server_state = server_state,
                                       pl_mutagen = ob, pl_recoverable = ro_recoverable ob,
                                       pl_error_code = ro_error_code ob\<rparr>))))))"

section \<open>Application\<close>

text \<open>Everything that is checked before the daemon is touched.\<close>

definition sync_recovery_check ::
  "sync_recovery_world \<Rightarrow> account_context \<Rightarrow> sync_recovery_plan \<Rightarrow> db \<Rightarrow>
     (strict_token \<times> sync_snapshot \<times> sync_target, op_error) result \<times> db" where
  "sync_recovery_check W context plan d =
     (if context \<noteq> pl_context plan \<or> tg_fingerprint (pl_target plan) \<noteq> None
      then (Err (op_error_new ''sync_target_changed''), d)
      else case identify (rw_crates W) (rw_start W) (tg_local_path (pl_target plan)) of
        Err e \<Rightarrow> (Err e, d)
      | Ok ident \<Rightarrow>
          (case sync_authorize (rw_authority W) context of
             Err e \<Rightarrow> (Err e, d)
           | Ok token \<Rightarrow>
               let d0 = sp_others (rw_point W RecoverRead) d in
               (case sync_recovery_observe W token ident d0 of
                  Err e \<Rightarrow> (Err e, d0)
                | Ok (sn, actual) \<Rightarrow>
                    if actual \<noteq> pl_target plan \<or> sn \<noteq> pl_mapping plan
                    then (Err (op_error_new ''sync_target_changed''), d0)
                    else case mapping_fingerprint W sn of
                      Err e \<Rightarrow> (Err e, d0)
                    | Ok fp \<Rightarrow>
                        if fp \<noteq> pl_mapping_fingerprint plan
                        then (Err (op_error_new ''sync_target_changed''), d0)
                        else case missing W token actual of
                          Err e \<Rightarrow> (Err e, d0)
                        | Ok server_state \<Rightarrow>
                            if server_state \<noteq> pl_server_state plan
                            then (Err (op_error_new ''sync_target_changed''), d0)
                            else if \<not> pl_recoverable plan \<or> pl_error_code plan \<noteq> None \<or>
                                    \<not> ro_recoverable (pl_mutagen plan) \<or> ro_error_code (pl_mutagen plan) \<noteq> None
                            then (Err (op_error_new ''sync_recovery_blocked''), d0)
                            else
                              let P = rw_point W RecoverRecheck; d1 = sp_others P d0 in
                              (case sync_recovery_recheck W P (kt_server_url token) actual sn d1 of
                                 Err e \<Rightarrow> (Err e, d1)
                               | Ok _ \<Rightarrow> (Ok (token, sn, actual), d1)))))"

definition sync_recovery_persist ::
  "sync_recovery_world \<Rightarrow> string \<Rightarrow> sync_target \<Rightarrow> sync_snapshot \<Rightarrow> bool \<Rightarrow> db \<Rightarrow> (unit, op_error) result \<times> db" where
  "sync_recovery_persist W server actual sn remove_workspace d =
     (let P = rw_point W RecoverPersist; d0 = sp_others P d in
      case sync_recovery_recheck W P server actual sn d0 of
        Err e \<Rightarrow> (Err e, d0)
      | Ok _ \<Rightarrow>
          (case open_state (sp_host P) of
             Err _ \<Rightarrow> (Err (op_error_new ''state_unavailable''), d0)
           | Ok _ \<Rightarrow>
               (case remove_sync_snapshot (sp_write P) server (tg_project_key actual) sn remove_workspace d0 of
                  (Err _, d1) \<Rightarrow> (Err (op_error_new ''sync_outcome_unknown''), d1)
                | (Ok False, d1) \<Rightarrow> (Err (op_error_new ''sync_target_changed''), d1)
                | (Ok True, d1) \<Rightarrow> (Ok (), d1))))"

definition sync_recovery_apply ::
  "sync_recovery_world \<Rightarrow> account_context \<Rightarrow> sync_recovery_plan \<Rightarrow> db \<Rightarrow>
     (sync_recovery_receipt, op_error) result \<times> db" where
  "sync_recovery_apply W context plan d =
     (case sync_recovery_check W context plan d of
        (Err e, d1) \<Rightarrow> (Err e, d1)
      | (Ok (token, sn, actual), d1) \<Rightarrow>
          let stage = (\<lambda>n st. \<lparr>sg_name = n, sg_state = st\<rparr>);
              receipt = \<lparr>rv_context = context, rv_method = ''sync.recovery.apply'', rv_plan = plan,
                 rv_result_target = actual, rv_outcome = ''completed'',
                 rv_stages = [stage ''server'' ''completed''], rv_mutagen = None, rv_error_code = None\<rparr>
          in case rw_terminate W actual sn (pl_mutagen plan) of
               Err e \<Rightarrow>
                 (Ok (receipt\<lparr>rv_outcome := (if mg_changed e then ''unknown'' else ''partial''),
                    rv_error_code := Some (mg_code e),
                    rv_stages := rv_stages receipt @
                      [stage ''mutagen'' (if mg_changed e then ''unknown'' else ''failed'')]\<rparr>), d1)
             | Ok ob \<Rightarrow>
                 let r1 = receipt\<lparr>rv_mutagen := Some ob,
                            rv_stages := rv_stages receipt @ [stage ''mutagen'' ''completed'']\<rparr>;
                     remove_workspace = pl_server_state plan = ''workspace_not_found''
                 in case sync_recovery_persist W (kt_server_url token) actual sn remove_workspace d1 of
                      (Ok _, d2) \<Rightarrow>
                        (Ok (r1\<lparr>rv_stages := rv_stages r1 @ [stage ''persist'' ''completed''],
                           rv_result_target := actual\<lparr>tg_sync_session_id := None,
                             tg_workspace_id := (if remove_workspace then None else tg_workspace_id actual)\<rparr>\<rparr>), d2)
                    | (Err e, d2) \<Rightarrow>
                        let unknown = oe_code e = ''sync_outcome_unknown'' in
                        (Ok (r1\<lparr>rv_outcome := (if unknown then ''unknown'' else ''partial''),
                           rv_error_code := Some (oe_code e),
                           rv_stages := rv_stages r1 @
                             [stage ''persist'' (if unknown then ''unknown'' else ''failed'')]\<rparr>), d2))"


section \<open>Properties\<close>

lemma sync_recovery_recheck_Ok:
  assumes "sync_recovery_recheck W P server target sn d = Ok u"
  shows "state_snapshot P server (tg_project_key target) d = Ok sn"
  using assms by (auto simp: sync_recovery_recheck_def split: result.splits if_splits)

lemma sync_recovery_check_Ok:
  assumes "sync_recovery_check W context plan d = (Ok (token, sn, actual), d1)"
  shows "context = pl_context plan" "sync_authorize (rw_authority W) context = Ok token"
    "actual = pl_target plan" "sn = pl_mapping plan"
    "missing W token actual = Ok (pl_server_state plan)"
    "pl_recoverable plan" "pl_error_code plan = None"
    "state_snapshot (rw_point W RecoverRecheck) (kt_server_url token) (tg_project_key actual) d1 = Ok sn"
    "d1 = sp_others (rw_point W RecoverRecheck) (sp_others (rw_point W RecoverRead) d)"
  using assms
  by (auto simp: sync_recovery_check_def Let_def dest: sync_recovery_recheck_Ok split: if_splits result.splits prod.splits)

lemma sync_recovery_check_Err:
  assumes "sync_recovery_check W context plan d = (Err e, d1)"
  shows "d1 \<in> {d, sp_others (rw_point W RecoverRead) d,
    sp_others (rw_point W RecoverRecheck) (sp_others (rw_point W RecoverRead) d)}"
  using assms by (auto simp: sync_recovery_check_def Let_def split: if_splits result.splits prod.splits)

text \<open>What the server said when it was asked about a target.\<close>

lemma missing_Ok:
  assumes "missing W token target = Ok server_state"
  shows "\<exists>i. tg_workspace_id target = Some i \<and>
      (server_state = ''workspace_not_found'' \<and>
         (\<exists>e. send (rw_crates W) (sy_workspace (rw_decoders W)) (rw_net W (workspace_get i)) = Err e \<and>
            ae_status e = Some 404) \<or>
       server_state = ''sync_not_found'' \<and> tg_sync_session_id target \<noteq> None)"
    and "tg_sync_session_id target = Some j \<Longrightarrow>
      \<exists>e. send (rw_crates W) (sy_session (rw_decoders W)) (rw_net W (sync_get j)) = Err e \<and> ae_status e = Some 404"
proof -
  from assms have m: "missing_sync W target = Ok ()" by (auto simp: missing_def split: result.splits)
  show "\<exists>i. tg_workspace_id target = Some i \<and>
      (server_state = ''workspace_not_found'' \<and>
         (\<exists>e. send (rw_crates W) (sy_workspace (rw_decoders W)) (rw_net W (workspace_get i)) = Err e \<and>
            ae_status e = Some 404) \<or>
       server_state = ''sync_not_found'' \<and> tg_sync_session_id target \<noteq> None)"
    using assms m by (auto simp: missing_def split: result.splits option.splits if_splits)
  assume "tg_sync_session_id target = Some j"
  with m show "\<exists>e. send (rw_crates W) (sy_session (rw_decoders W)) (rw_net W (sync_get j)) = Err e \<and>
      ae_status e = Some 404"
    by (auto simp: missing_sync_def split: result.splits if_splits)
qed

text \<open>
  The rows a call itself removed, between what other processes last left and what it returned.
\<close>

lemma sync_recovery_persist_exact:
  assumes "sync_recovery_persist W server actual sn rw d = (r, d')"
    and "tables_ok (sp_others (rw_point W RecoverPersist) d)"
  shows "if r = Ok ()
    then \<exists>w. sn_workspace sn = Some w \<and>
      d' = (sp_others (rw_point W RecoverPersist) d)
        \<lparr>db_sync_sessions := filter (\<lambda>(s, t). Some s \<noteq> sn_sync sn)
           (db_sync_sessions (sp_others (rw_point W RecoverPersist) d)),
         db_workspaces := (if rw then filter (\<lambda>v. v \<noteq> w) (db_workspaces (sp_others (rw_point W RecoverPersist) d))
                           else db_workspaces (sp_others (rw_point W RecoverPersist) d))\<rparr> \<and>
      workspace_syncs d' (lw_id w) = []
    else d' = sp_others (rw_point W RecoverPersist) d"
proof -
  let ?d0 = "sp_others (rw_point W RecoverPersist) d"
  let ?P = "rw_point W RecoverPersist"
  obtain q d1 where q: "remove_sync_snapshot (sp_write ?P) server (tg_project_key actual) sn rw ?d0 = (q, d1)"
    by fastforce
  note e = remove_sync_snapshot_rows [OF assms(2) q]
  have "r \<noteq> Ok () \<and> d' = ?d0 \<or> r \<noteq> Ok () \<and> q \<noteq> Ok True \<and> d' = d1 \<or> r = Ok () \<and> q = Ok True \<and> d' = d1"
    using assms(1)
    by (cases "sync_recovery_recheck W ?P server actual sn ?d0"; cases "open_state (sp_host ?P)"; cases q)
      (auto simp: sync_recovery_persist_def Let_def q split: bool.splits)
  with e show ?thesis by (elim disjE conjE) simp_all
qed

text \<open>The database as other processes have left it when the call uses it.\<close>

definition others_at :: "sync_recovery_world \<Rightarrow> sync_recovery_site \<Rightarrow> db \<Rightarrow> db" where
  "others_at W site d = sp_others (rw_point W site) d"



definition gone :: "sync_body network" where
  "gone = (\<lambda>_. Ok \<lparr>hr_status = 404, hr_content_length = None, hr_chunks = []\<rparr>)"

lemma send_gone: "\<exists>e. send X (receipt_decoders r) (gone q) = Err e \<and> ae_status e = Some 404"
  by (simp add: send_def gone_def receipt_decoders_def read_response_body_def read_response_body_bounded_def
      max_api_response_bytes_def usize_max_def is_success_def from_error_response_def error_response_decode_def)

definition daemon_session :: recovery_observation where
  "daemon_session = \<lparr>ro_state = ''available'', ro_recoverable = True, ro_error_code = None,
     ro_namespace_fingerprint = None, ro_target = None\<rparr>"

definition sample_recovery :: sync_recovery_world where
  "sample_recovery =
     \<lparr>rw_crates = sample_crates, rw_decoders = wo_decoders sample_sync_world,
      rw_authority = wo_authority sample_sync_world, rw_net = gone, rw_start = sync_host,
      rw_point = (\<lambda>_. quiet_point), rw_mapping_json = (\<lambda>_. Some ''{}''),
      rw_inspect = (\<lambda>_ _. Ok daemon_session), rw_terminate = (\<lambda>_ _ _. Ok daemon_session)\<rparr>"

definition obsolete_plan :: sync_recovery_plan where
  "obsolete_plan =
     \<lparr>pl_context = sample_context, pl_target = reviewed_target\<lparr>tg_fingerprint := None\<rparr>,
      pl_mapping = reviewed_snapshot, pl_mapping_fingerprint = sample_digest,
      pl_server_state = ''workspace_not_found'', pl_mutagen = daemon_session, pl_recoverable = True,
      pl_error_code = None\<rparr>"

lemma recovery_parts [simp]:
  "rw_crates sample_recovery = sample_crates" "rw_net sample_recovery = gone"
  "rw_start sample_recovery = sync_host" "rw_point sample_recovery site = quiet_point"
  "sy_workspace (rw_decoders sample_recovery) = receipt_decoders reviewed_workspace"
  "sy_session (rw_decoders sample_recovery) = receipt_decoders reviewed_session"
  "rw_authority sample_recovery = wo_authority sample_sync_world"
  "rw_terminate sample_recovery t sn ob = Ok daemon_session"
  by (simp_all add: sample_recovery_def)

lemma sync_recovery_observe_sample:
  "sync_recovery_observe sample_recovery sample_token
     \<lparr>wi_local_path = ''/w'', wi_project_key = sample_digest, wi_display_name = ''w''\<rparr> (sync_db_at t) =
     Ok (reviewed_snapshot, reviewed_target\<lparr>tg_fingerprint := None\<rparr>)"
  by (simp add: sync_recovery_observe_def snapshot_sync_db)
    (simp add: state_target_def reviewed_snapshot_def reviewed_target_def local_workspace_of_def
        reviewed_workspace_def local_sync_of_def reviewed_session_def paths_equal_def sync_valid_sample
        validate_mapping_def rust_eval)

lemma sync_recovery_check_sample:
  "sync_recovery_check sample_recovery sample_context obsolete_plan (sync_db_at t) =
     (Ok (sample_token, reviewed_snapshot, reviewed_target\<lparr>tg_fingerprint := None\<rparr>), sync_db_at t)"
proof -
  have m: "missing sample_recovery sample_token (reviewed_target\<lparr>tg_fingerprint := None\<rparr>) = Ok ''workspace_not_found''"
    using send_gone [of sample_crates reviewed_session "sync_get (sample_id 3)"]
      send_gone [of sample_crates reviewed_workspace "workspace_get (sample_id 2)"]
    by (auto simp: missing_def missing_sync_def reviewed_target_def)
  have f: "mapping_fingerprint sample_recovery reviewed_snapshot = Ok sample_digest"
    by (simp add: mapping_fingerprint_def sample_recovery_def sample_crates_def sample_digest_def)
  have c: "sync_recovery_recheck sample_recovery quiet_point ''https://s'' (reviewed_target\<lparr>tg_fingerprint := None\<rparr>)
      reviewed_snapshot (sync_db_at t) = Ok ()"
    by (simp add: sync_recovery_recheck_def reviewed_target_def identify_sample snapshot_sync_db)
  have path: "tg_local_path (reviewed_target\<lparr>tg_fingerprint := None\<rparr>) = ''/w''" by (simp add: reviewed_target_def)
  show ?thesis
    by (simp add: sync_recovery_check_def obsolete_plan_def path identify_sample sample_sync_authorized
        sync_recovery_observe_sample f m c daemon_session_def)
qed

lemma tables_ok_sync_db: "tables_ok (sync_db_at t)"
proof -
  have "db_devices (sync_db_at t) = []" "db_ego_bindings (sync_db_at t) = []"
    by (simp_all add: sync_db_at_def sync_db_def created_db_def fresh_db_def)
  then show ?thesis by (simp add: tables_ok_def)
qed


end
