(* ===== verification/Utf8.thy ===== *)
theory Utf8
  imports Prelude
begin

text \<open>
  Well-formed UTF-8 as \<open>std::str::from_utf8\<close> decides it, and lines as \<open>BufRead::lines\<close> reads
  them: what the client takes from the standard library when it turns bytes into text.
\<close>

section \<open>Bytes\<close>

definition nul :: char where
  "nul = char_of (0 :: nat)"

definition utf8_continuation :: "nat \<Rightarrow> nat \<Rightarrow> char \<Rightarrow> bool" where
  "utf8_continuation lo hi c \<longleftrightarrow> lo \<le> byte c \<and> byte c \<le> hi"

text \<open>\<open>std::str::from_utf8\<close>: the well-formed byte sequences of the Unicode standard.\<close>

fun utf8_valid :: "string \<Rightarrow> bool" where
  "utf8_valid [] = True"
| "utf8_valid (b # bs) =
     (let n = byte b in
      if n < 128 then utf8_valid bs
      else if 194 \<le> n \<and> n \<le> 223 then
        (case bs of c # r \<Rightarrow> utf8_continuation 128 191 c \<and> utf8_valid r | [] \<Rightarrow> False)
      else if 224 \<le> n \<and> n \<le> 239 then
        (case bs of
           c # d # r \<Rightarrow>
             utf8_continuation (if n = 224 then 160 else 128) (if n = 237 then 159 else 191) c \<and>
             utf8_continuation 128 191 d \<and> utf8_valid r
         | _ \<Rightarrow> False)
      else if 240 \<le> n \<and> n \<le> 244 then
        (case bs of
           c # d # e # r \<Rightarrow>
             utf8_continuation (if n = 240 then 144 else 128) (if n = 244 then 143 else 191) c \<and>
             utf8_continuation 128 191 d \<and> utf8_continuation 128 191 e \<and> utf8_valid r
         | _ \<Rightarrow> False)
      else False)"

lemma byte_nul [simp]: "byte nul = 0"
  by (simp add: nul_def)

lemma nul_literal: "nul = CHR 0x00"
  by (simp add: nul_def char_of_def)

lemma utf8_continuation_not_nul: "utf8_continuation lo hi c \<Longrightarrow> 0 < lo \<Longrightarrow> c \<noteq> nul"
  by (auto simp: utf8_continuation_def)

lemma has_control_Cons1: "byte b < 192 \<Longrightarrow> has_control (b # bs) = (is_control (byte b) \<or> has_control bs)"
  by (simp add: has_control_def chars_def utf8_width_def)

lemma has_control_skip:
  "has_control (drop (utf8_width b - 1) bs) \<Longrightarrow> has_control (b # bs)"
  by (simp add: has_control_def chars_def)

text \<open>A zero byte of a well-formed text is the control character U+0000.\<close>

lemma nul_is_control: "utf8_valid s \<Longrightarrow> nul \<in> set s \<Longrightarrow> has_control s"
proof (induction s rule: utf8_valid.induct)
  case (2 b bs)
  let ?n = "byte b"
  have rest: "has_control (b # bs)" if "has_control (drop k bs)" "utf8_width b = Suc k" for k
    using has_control_skip [of b bs] that by simp
  consider "?n < 128" | "194 \<le> ?n" "?n \<le> 223" | "224 \<le> ?n" "?n \<le> 239" | "240 \<le> ?n" "?n \<le> 244"
    using "2.prems"(1) by (auto simp: Let_def split: if_splits)
  then show ?case
  proof cases
    case 1
    then have "utf8_valid bs" using "2.prems"(1) by (simp add: Let_def)
    with 1 "2.IH"(1) [OF refl] "2.prems"(2) show ?thesis
      by (auto simp: has_control_Cons1 is_control_def)
  next
    case 2
    with "2.prems"(1) obtain c r where bs: "bs = c # r" and c: "utf8_continuation 128 191 c"
      and r: "utf8_valid r" by (auto simp: Let_def split: list.splits)
    have "nul \<in> set r" using "2.prems"(2) bs utf8_continuation_not_nul [OF c] 2 by auto
    with "2.IH"(2) [OF refl _ _ bs] 2 r have "has_control r" by simp
    with rest [of 1] bs 2 show ?thesis by (simp add: utf8_width_def)
  next
    case 3
    with "2.prems"(1) obtain c d r where bs: "bs = c # d # r"
      and c: "utf8_continuation (if ?n = 224 then 160 else 128) (if ?n = 237 then 159 else 191) c"
      and d: "utf8_continuation 128 191 d" and r: "utf8_valid r"
      by (auto simp: Let_def split: list.splits)
    have "c \<noteq> nul" using c by (auto simp: utf8_continuation_def split: if_splits)
    then have "nul \<in> set r"
      using "2.prems"(2) bs utf8_continuation_not_nul [OF d] 3
      by (auto split: if_splits)
    with "2.IH"(3) [OF refl _ _ _ bs refl] 3 r have "has_control r" by simp
    with rest [of 2] bs 3 show ?thesis by (simp add: utf8_width_def)
  next
    case 4
    with "2.prems"(1) obtain c d e r where bs: "bs = c # d # e # r"
      and c: "utf8_continuation (if ?n = 240 then 144 else 128) (if ?n = 244 then 143 else 191) c"
      and d: "utf8_continuation 128 191 d" and e: "utf8_continuation 128 191 e" and r: "utf8_valid r"
      by (auto simp: Let_def split: list.splits)
    have "c \<noteq> nul" using c by (auto simp: utf8_continuation_def split: if_splits)
    then have "nul \<in> set r"
      using "2.prems"(2) bs utf8_continuation_not_nul [OF d]
        utf8_continuation_not_nul [OF e] 4
      by (auto split: if_splits)
    with "2.IH"(4) [OF refl _ _ _ _ bs refl refl] 4 r have "has_control r" by simp
    with rest [of 3] bs 4 show ?thesis by (simp add: utf8_width_def)
  qed
qed simp

definition nul_free :: "string \<Rightarrow> bool" where
  "nul_free s \<longleftrightarrow> nul \<notin> set s"

text \<open>\<open>str::trim\<close>: white space of the Unicode standard at both ends.\<close>

definition str_trim :: "string \<Rightarrow> string" where
  "str_trim s =
     (let blank = (\<lambda>g. is_whitespace (scalar g)) in
      concat (rev (dropWhile blank (rev (dropWhile blank (utf8_split s))))))"

section \<open>Lines\<close>

abbreviation newline :: char where
  "newline \<equiv> char_of (10 :: nat)"

text \<open>A line loses its end: a newline, and a carriage return before it.\<close>

definition strip_cr :: "string \<Rightarrow> string" where
  "strip_cr s = (if s \<noteq> [] \<and> last s = char_of (13 :: nat) then butlast s else s)"

function buf_lines :: "string \<Rightarrow> string list" where
  "buf_lines s =
     (if s = [] then []
      else case dropWhile (\<lambda>c. c \<noteq> newline) s of
             [] \<Rightarrow> [s]
           | _ # r \<Rightarrow> strip_cr (takeWhile (\<lambda>c. c \<noteq> newline) s) # buf_lines r)"
  by pat_completeness auto

termination
proof (relation "measure length")
  fix s :: string and c r
  assume "dropWhile (\<lambda>c. c \<noteq> newline) s = c # r"
  then show "(r, s) \<in> measure length"
    using length_dropWhile_le [of "\<lambda>c. c \<noteq> newline" s] by simp
qed simp

declare buf_lines.simps [simp del]

lemma buf_lines_Nil [simp]: "buf_lines [] = []"
  by (simp add: buf_lines.simps)

lemma buf_lines_line: "newline \<notin> set l \<Longrightarrow> buf_lines (l @ newline # r) = strip_cr l # buf_lines r"
  by (subst buf_lines.simps) (simp add: dropWhile_append2 takeWhile_append2 takeWhile_tail dropWhile_append)

lemma buf_lines_append: "buf_lines (p @ newline # r) = buf_lines (p @ [newline]) @ buf_lines r"
proof (induction p rule: buf_lines.induct)
  case (1 p)
  show ?case
  proof (cases "newline \<in> set p")
    case True
    then obtain l q where p: "p = l @ newline # q" and l: "newline \<notin> set l"
      by (metis split_list_first)
    have "dropWhile (\<lambda>c. c \<noteq> newline) p = newline # q"
      using l by (simp add: p dropWhile_append2 dropWhile_append)
    with "1.IH" [of newline q] p have "buf_lines (q @ newline # r) = buf_lines (q @ [newline]) @ buf_lines r"
      by auto
    with l show ?thesis by (simp add: p buf_lines_line)
  next
    case False
    then show ?thesis using buf_lines_line [of p r] buf_lines_line [of p "[]"] by simp
  qed
qed

text \<open>The unfinished line at the end of a text.\<close>

definition open_line :: "string \<Rightarrow> string" where
  "open_line s = rev (takeWhile (\<lambda>c. c \<noteq> newline) (rev s))"

lemma open_line_split: "\<exists>q. s = q @ open_line s \<and> (q = [] \<or> last q = newline)"
proof -
  let ?q = "rev (dropWhile (\<lambda>c. c \<noteq> newline) (rev s))"
  have "s = ?q @ open_line s"
    unfolding open_line_def by (metis rev_append rev_rev_ident takeWhile_dropWhile_id)
  moreover have "?q = [] \<or> last ?q = newline"
    by (metis (mono_tags, lifting) hd_dropWhile last_rev rev_is_Nil_conv)
  ultimately show ?thesis by blast
qed

lemma newline_open_line: "newline \<notin> set (open_line s)"
  by (auto simp: open_line_def dest: set_takeWhileD)

text \<open>Ending the unfinished line adds it to the lines read so far.\<close>

lemma buf_lines_open_line:
  assumes "newline \<notin> set l"
  shows "strip_cr (open_line p @ l) \<in> set (buf_lines (p @ l @ newline # r))"
proof -
  from open_line_split obtain q where p: "p = q @ open_line p" and q: "q = [] \<or> last q = newline" by blast
  have line: "newline \<notin> set (open_line p @ l)" using assms newline_open_line by simp
  have whole: "p @ l @ newline # r = q @ (open_line p @ l) @ newline # r" by (subst (1) p) simp
  show ?thesis
  proof (cases "q = []")
    case True
    then show ?thesis unfolding whole using buf_lines_line [OF line] by simp
  next
    case False
    then have "q = butlast q @ [newline]" using q by (metis append_butlast_last_id)
    then have "buf_lines (q @ (open_line p @ l) @ newline # r)
        = buf_lines (butlast q @ newline # (open_line p @ l) @ newline # r)"
      by (metis append.assoc append_Cons append_Nil)
    also have "\<dots> = buf_lines (butlast q @ [newline]) @ strip_cr (open_line p @ l) # buf_lines r"
      using buf_lines_line [OF line, of r] by (subst buf_lines_append) simp
    finally show ?thesis unfolding whole by simp
  qed
qed

end
