(* ===== verification/Skill_Manifest.thy ===== *)
theory Skill_Manifest
  imports Kv_Store Utf8
begin

text \<open>
  Canonical Skill trees (\<open>skills/manifest.rs\<close>): the entries of a manifest, their validation, the
  resolution of links inside the tree, the byte sequence whose digest names a tree, and the check
  of file contents. No host file system is read. The Unicode normalization crate is an argument:
  \<open>nfc s\<close> says whether \<open>s\<close> is in normalization form C.
\<close>

section \<open>Entries\<close>

datatype entry_kind = FileEntry | DirectoryEntry | SymlinkEntry | RuntimeLinkEntry

fun kind_wire_name :: "entry_kind \<Rightarrow> string" where
  "kind_wire_name FileEntry = ''file''"
| "kind_wire_name DirectoryEntry = ''directory''"
| "kind_wire_name SymlinkEntry = ''symlink''"
| "kind_wire_name RuntimeLinkEntry = ''runtime_link''"

datatype content_kind = EmptyContent | TextContent | BinaryContent

fun content_wire_name :: "content_kind \<Rightarrow> string" where
  "content_wire_name EmptyContent = ''''"
| "content_wire_name TextContent = ''text''"
| "content_wire_name BinaryContent = ''binary''"

record skill_entry =
  en_path :: string
  en_kind :: entry_kind
  en_mode :: "32 word"
  en_size :: "64 word"
  en_sha256 :: string
  en_target :: string
  en_content_kind :: content_kind
  en_dependency :: string

record skill_manifest =
  mf_version :: "32 word"
  mf_entries :: "skill_entry list"

definition i64_max :: nat where
  "i64_max = 2 ^ 63 - 1"

definition manifest_validate_text :: "(string \<Rightarrow> bool) \<Rightarrow> string \<Rightarrow> (unit, failure) result" where
  "manifest_validate_text nfc v =
     ensure (\<not> (length v > 4096 \<or> has_control v \<or> \<not> nfc v))
       (Bail ''skill path is not canonical NFC UTF-8 text'')"

definition path_component_ok :: "string \<Rightarrow> bool" where
  "path_component_ok part \<longleftrightarrow> \<not> (part = [] \<or> part = ''.'' \<or> part = ''..'' \<or> length part > 255)"

definition manifest_validate_path :: "(string \<Rightarrow> bool) \<Rightarrow> string \<Rightarrow> (unit, failure) result" where
  "manifest_validate_path nfc v =
     (if v = [] \<or> starts_with ''/'' v \<or> char_of (92 :: nat) \<in> set v
      then Err (Bail ''skill path must be relative POSIX text'')
      else case manifest_validate_text nfc v of
             Err e \<Rightarrow> Err e
           | Ok _ \<Rightarrow>
               ensure (list_all path_component_ok (split_slash v))
                 (Bail ''skill path contains an invalid component''))"

definition entry_lower_hex :: "string \<Rightarrow> bool" where
  "entry_lower_hex s \<longleftrightarrow>
     length s = 64 \<and> list_all (\<lambda>b. is_ascii_digit b \<or> 97 \<le> byte b \<and> byte b \<le> 102) s"

definition dependency_ok :: "string \<Rightarrow> bool" where
  "dependency_ok d \<longleftrightarrow>
     d \<noteq> [] \<and> length d \<le> 64 \<and> is_ascii_lowercase (hd d) \<and>
     list_all (\<lambda>b. is_ascii_lowercase b \<or> is_ascii_digit b \<or> b \<in> set ''_.-'') d"

text \<open>The checks on a link, after those on files and directories have been passed.\<close>

definition validate_link_entry :: "(string \<Rightarrow> bool) \<Rightarrow> skill_entry \<Rightarrow> (unit, failure) result" where
  "validate_link_entry nfc e =
     (if en_mode e \<noteq> 0x1FF \<or> en_target e = [] \<or> char_of (92 :: nat) \<in> set (en_target e)
      then Err (Bail ''link entry has invalid target or mode'')
      else case manifest_validate_text nfc (en_target e) of
        Err x \<Rightarrow> Err x
      | Ok _ \<Rightarrow>
          if en_kind e = RuntimeLinkEntry then
            (case strip_prefix ''/'' (en_target e) of
               None \<Rightarrow> Err (Bail ''runtime link target must be absolute'')
             | Some relative \<Rightarrow>
                 (case manifest_validate_path nfc relative of
                    Err x \<Rightarrow> Err x
                  | Ok _ \<Rightarrow>
                      ensure (dependency_ok (en_dependency e))
                        (Bail ''runtime link requires a canonical dependency identifier'')))
          else ensure (\<not> (starts_with ''/'' (en_target e) \<or> en_dependency e \<noteq> []))
                 (Bail ''ordinary link must stay relative and cannot claim a dependency''))"

definition entry_validate :: "(string \<Rightarrow> bool) \<Rightarrow> skill_entry \<Rightarrow> (unit, failure) result" where
  "entry_validate nfc e =
     (case manifest_validate_path nfc (en_path e) of
        Err x \<Rightarrow> Err x
      | Ok _ \<Rightarrow>
          if unat (en_mode e) > 511 \<or> unat (en_size e) > i64_max
          then Err (Bail ''skill entry has invalid size or mode'')
          else if en_kind e = FileEntry then
            ensure (\<not> (\<not> entry_lower_hex (en_sha256 e) \<or> en_content_kind e = EmptyContent \<or>
                       en_target e \<noteq> [] \<or> en_dependency e \<noteq> []))
              (Bail ''file entry has inconsistent metadata'')
          else if en_size e \<noteq> 0 \<or> en_sha256 e \<noteq> [] \<or> en_content_kind e \<noteq> EmptyContent
          then Err (Bail ''non-file entry cannot contain file metadata'')
          else if en_kind e = DirectoryEntry then
            ensure (\<not> (en_target e \<noteq> [] \<or> en_dependency e \<noteq> []))
              (Bail ''directory cannot contain a link target'')
          else validate_link_entry nfc e)"

definition verify_content ::
  "crates \<Rightarrow> (string \<Rightarrow> bool) \<Rightarrow> skill_entry \<Rightarrow> string \<Rightarrow> (unit, failure) result" where
  "verify_content X nfc e bytes =
     (case entry_validate nfc e of
        Err x \<Rightarrow> Err x
      | Ok _ \<Rightarrow>
          if en_kind e \<noteq> FileEntry \<or> en_size e \<noteq> of_nat (length bytes)
          then Err (Bail ''skill content size or entry kind does not match'')
          else if en_sha256 e \<noteq> sha256_hex X bytes then Err (Bail ''skill content digest does not match'')
          else ensure ((en_content_kind e = TextContent) = (utf8_valid bytes \<and> nul \<notin> set bytes))
                 (Bail ''skill content classification does not match''))"

section \<open>Link resolution\<close>

text \<open>
  The loop over pending components. It ends although links may refer to each other: every link
  costs one of forty hops, and every other step consumes a component.
\<close>

function resolve_components ::
  "(string \<times> skill_entry) list \<Rightarrow> nat \<Rightarrow> string list \<Rightarrow> string list \<Rightarrow> (string list, failure) result" where
  "resolve_components es hops [] resolved = Ok resolved"
| "resolve_components es hops (c # pending) resolved =
     (if c = [] \<or> c = ''.'' then resolve_components es hops pending resolved
      else if c = ''..'' then
        (if resolved = [] then Err (Bail ''link escapes manifest root'')
         else resolve_components es hops pending (butlast resolved))
      else case map_of es (join_slash (resolved @ [c])) of
        None \<Rightarrow> Err (Bail ''link target is missing from manifest'')
      | Some t \<Rightarrow>
          if en_kind t = SymlinkEntry then
            (if hops + 1 > 40 then Err (Bail ''link resolution exceeds the cycle limit'')
             else resolve_components es (hops + 1) (split_slash (en_target t) @ pending) resolved)
          else if pending \<noteq> [] \<and> en_kind t \<noteq> DirectoryEntry
          then Err (Bail ''link traverses a non-directory entry'')
          else resolve_components es hops pending (resolved @ [c]))"
  by pat_completeness auto

termination
  by (relation "measures [\<lambda>(es, hops, pending, resolved). 40 - hops, \<lambda>(es, hops, pending, resolved). length pending]")
    auto

declare resolve_components.simps [simp del]

definition validate_link :: "(string \<times> skill_entry) list \<Rightarrow> skill_entry \<Rightarrow> (unit, failure) result" where
  "validate_link es e =
     (case resolve_components es 0 (split_slash (en_target e)) (butlast (split_slash (en_path e))) of
        Err x \<Rightarrow> Err x
      | Ok resolved \<Rightarrow>
          ensure (\<not> (resolved = [] \<or> starts_with (join_slash resolved @ ''/'') (en_path e)))
            (Bail ''link to the manifest root or ancestor creates a cycle''))"

section \<open>Manifests\<close>

text \<open>Every proper prefix of a path must be an earlier directory entry.\<close>

fun check_parents :: "(string \<times> skill_entry) list \<Rightarrow> string list \<Rightarrow> nat list \<Rightarrow> (unit, failure) result" where
  "check_parents by_path parts [] = Ok ()"
| "check_parents by_path parts (i # is) =
     (case map_of by_path (join_slash (take i parts)) of
        None \<Rightarrow> Err (Bail ''manifest requires explicit directory parents'')
      | Some p \<Rightarrow>
          if en_kind p \<noteq> DirectoryEntry then Err (Bail ''manifest parent is not a directory'')
          else check_parents by_path parts is)"

fun validate_entries ::
  "(string \<Rightarrow> bool) \<Rightarrow> (string \<times> skill_entry) list \<Rightarrow> string \<Rightarrow> 64 word \<Rightarrow> skill_entry list \<Rightarrow>
     ((string \<times> skill_entry) list, failure) result" where
  "validate_entries nfc by_path previous seen [] = Ok by_path"
| "validate_entries nfc by_path previous seen (e # es) =
     (case entry_validate nfc e of
        Err x \<Rightarrow> Err x
      | Ok _ \<Rightarrow>
          if en_path e \<le> previous then Err (Bail ''manifest paths must be unique and UTF-8 sorted'')
          else if unat seen + unat (en_size e) \<ge> 2 ^ 64 \<or> unat (seen + en_size e) > i64_max
          then Err (Bail ''skill tree byte count overflows the protocol'')
          else
            let parts = split_slash (en_path e) in
            (case check_parents by_path parts [1..<length parts] of
               Err x \<Rightarrow> Err x
             | Ok _ \<Rightarrow>
                 validate_entries nfc ((en_path e, e) # by_path) (en_path e) (seen + en_size e) es))"

fun validate_links :: "(string \<times> skill_entry) list \<Rightarrow> skill_entry list \<Rightarrow> (unit, failure) result" where
  "validate_links by_path [] = Ok ()"
| "validate_links by_path (e # es) =
     (if en_kind e = SymlinkEntry
      then (case validate_link by_path e of Err x \<Rightarrow> Err x | Ok _ \<Rightarrow> validate_links by_path es)
      else validate_links by_path es)"

definition manifest_validate :: "(string \<Rightarrow> bool) \<Rightarrow> skill_manifest \<Rightarrow> (unit, failure) result" where
  "manifest_validate nfc m =
     (if mf_version m \<noteq> 1 \<or> length (mf_entries m) > 100000
      then Err (Bail ''unsupported skill manifest version or entry count'')
      else case validate_entries nfc [] [] 0 (mf_entries m) of
             Err x \<Rightarrow> Err x
           | Ok by_path \<Rightarrow> validate_links by_path (mf_entries m))"

definition manifest_decode ::
  "(string \<Rightarrow> skill_manifest option) \<Rightarrow> (string \<Rightarrow> bool) \<Rightarrow> string \<Rightarrow> (skill_manifest, failure) result" where
  "manifest_decode parse nfc bytes =
     (case parse bytes of
        None \<Rightarrow> Err JsonErr
      | Some m \<Rightarrow> (case manifest_validate nfc m of Err x \<Rightarrow> Err x | Ok _ \<Rightarrow> Ok m))"

text \<open>The bytes that are hashed: fixed fields, each ended by a zero byte.\<close>

definition entry_fields :: "skill_entry \<Rightarrow> string list" where
  "entry_fields e =
     [en_path e, kind_wire_name (en_kind e), decimal (unat (en_mode e)), decimal (unat (en_size e)),
      en_sha256 e, en_target e, content_wire_name (en_content_kind e), en_dependency e]"

definition manifest_wire :: "skill_manifest \<Rightarrow> string" where
  "manifest_wire m =
     ''agent-remote-skill-tree-v1'' @ [nul] @
     concat (map (\<lambda>f. f @ [nul]) (concat (map entry_fields (mf_entries m))))"

definition manifest_digest :: "crates \<Rightarrow> (string \<Rightarrow> bool) \<Rightarrow> skill_manifest \<Rightarrow> (string, failure) result" where
  "manifest_digest X nfc m =
     (case manifest_validate nfc m of Err x \<Rightarrow> Err x | Ok _ \<Rightarrow> Ok (sha256_hex X (manifest_wire m)))"

definition entries_by_path :: "skill_manifest \<Rightarrow> (string \<times> skill_entry) list" where
  "entries_by_path m = map (\<lambda>e. (en_path e, e)) (mf_entries m)"

definition manifest_resolve ::
  "(string \<Rightarrow> bool) \<Rightarrow> skill_manifest \<Rightarrow> string \<Rightarrow> (skill_entry, failure) result" where
  "manifest_resolve nfc m path =
     (case manifest_validate nfc m of
        Err x \<Rightarrow> Err x
      | Ok _ \<Rightarrow>
          (case manifest_validate_path nfc path of
             Err x \<Rightarrow> Err x
           | Ok _ \<Rightarrow>
               (case resolve_components (entries_by_path m) 0 (split_slash path) [] of
                  Err x \<Rightarrow> Err x
                | Ok resolved \<Rightarrow>
                    (case map_of (entries_by_path m) (join_slash resolved) of
                       None \<Rightarrow> Err (Bail ''path resolves to the implicit tree root'')
                     | Some e \<Rightarrow> Ok e))))"

section \<open>Paths and their components\<close>

lemma split_slash_nonempty [simp]: "split_slash s \<noteq> []"
  by (induction s) (auto split: list.splits)

lemma join_slash_Cons: "ps \<noteq> [] \<Longrightarrow> join_slash (p # ps) = p @ ''/'' @ join_slash ps"
  by (cases ps) auto

lemma join_split_slash [simp]: "join_slash (split_slash s) = s"
proof (induction s)
  case (Cons c s)
  then show ?case
    by (cases "split_slash s"; cases "tl (split_slash s)") (auto simp: join_slash_Cons)
qed simp

lemma split_slash_no_slash: "p \<in> set (split_slash s) \<Longrightarrow> CHR ''/'' \<notin> set p"
  by (induction s arbitrary: p) (auto split: if_splits list.splits)

lemma split_slash_append:
  "CHR ''/'' \<notin> set p \<Longrightarrow> split_slash (p @ s) = (p @ hd (split_slash s)) # tl (split_slash s)"
  by (induction p) (auto split: list.splits)

lemma split_join_slash:
  "ps \<noteq> [] \<Longrightarrow> list_all (\<lambda>p. CHR ''/'' \<notin> set p) ps \<Longrightarrow> split_slash (join_slash ps) = ps"
proof (induction ps rule: join_slash.induct)
  case (2 p)
  then show ?case using split_slash_append [of p "[]"] by simp
next
  case (3 p q ps)
  then show ?case by (simp add: split_slash_append)
qed simp

section \<open>What validation establishes\<close>

lemma validate_entries_result:
  "validate_entries nfc by_path previous n es = Ok r \<Longrightarrow>
     r = rev (map (\<lambda>e. (en_path e, e)) es) @ by_path"
  by (induction nfc by_path previous n es rule: validate_entries.induct)
    (auto simp: Let_def split: result.splits if_splits)

lemma validate_entries_local:
  "validate_entries nfc by_path previous n es = Ok r \<Longrightarrow> e \<in> set es \<Longrightarrow> entry_validate nfc e = Ok ()"
  by (induction nfc by_path previous n es rule: validate_entries.induct)
    (auto simp: Let_def split: result.splits if_splits)

lemma validate_entries_sorted:
  "validate_entries nfc by_path previous n es = Ok r \<Longrightarrow> sorted_wrt (<) (previous # map en_path es)"
proof (induction nfc by_path previous n es rule: validate_entries.induct)
  case (2 nfc by_path previous n e es)
  then have "sorted_wrt (<) (en_path e # map en_path es)" and "previous < en_path e"
    by (auto simp: Let_def split: result.splits if_splits)
  then show ?case by (auto intro: less_trans)
qed simp

lemma validate_entries_size:
  "validate_entries nfc by_path previous n es = Ok r \<Longrightarrow> unat n \<le> i64_max \<Longrightarrow>
     unat n + (\<Sum>e\<leftarrow>es. unat (en_size e)) \<le> i64_max"
proof (induction nfc by_path previous n es rule: validate_entries.induct)
  case (2 nfc by_path previous n e es)
  from "2.prems" have step: "unat n + unat (en_size e) < 2 ^ 64" "unat (n + en_size e) \<le> i64_max"
    and rest: "validate_entries nfc ((en_path e, e) # by_path) (en_path e) (n + en_size e) es = Ok r"
    by (auto simp: Let_def split: result.splits if_splits)
  have "unat (n + en_size e) = unat n + unat (en_size e)"
    using step(1) by (simp add: unat_add_lem [THEN iffD1])
  moreover have "unat (n + en_size e) + (\<Sum>e\<leftarrow>es. unat (en_size e)) \<le> i64_max"
    using "2.prems" rest step(2) "2.IH" by (auto simp: Let_def split: result.splits if_splits)
  ultimately show ?case by simp
qed simp

lemma check_parents_Ok:
  "check_parents by_path parts is = Ok u \<Longrightarrow> i \<in> set is \<Longrightarrow>
     \<exists>p. map_of by_path (join_slash (take i parts)) = Some p \<and> en_kind p = DirectoryEntry"
  by (induction by_path parts "is" rule: check_parents.induct) (auto split: option.splits if_splits)

definition keyed_by_path :: "(string \<times> skill_entry) list \<Rightarrow> bool" where
  "keyed_by_path es \<longleftrightarrow> list_all (\<lambda>(p, e). p = en_path e) es"

lemma keyed_by_path_map_of: "keyed_by_path es \<Longrightarrow> map_of es p = Some e \<Longrightarrow> en_path e = p \<and> (p, e) \<in> set es"
  by (auto simp: keyed_by_path_def list_all_iff dest!: map_of_SomeD)

lemma validate_entries_parents:
  assumes "validate_entries nfc by_path previous n es = Ok r" and "keyed_by_path by_path"
    and "e \<in> set es" and "0 < i" and "i < length (split_slash (en_path e))"
  shows "\<exists>p \<in> snd ` set by_path \<union> set es.
           en_path p = join_slash (take i (split_slash (en_path e))) \<and> en_kind p = DirectoryEntry"
  using assms
proof (induction nfc by_path previous n es rule: validate_entries.induct)
  case (2 nfc by_path previous n d es)
  let ?parts = "split_slash (en_path d)"
  from "2.prems"(1) have parents: "check_parents by_path ?parts [1..<length ?parts] = Ok ()"
    and rest: "validate_entries nfc ((en_path d, d) # by_path) (en_path d) (n + en_size d) es = Ok r"
    by (auto simp: Let_def split: result.splits if_splits)
  show ?case
  proof (cases "e = d")
    case True
    have "i \<in> set [1..<length ?parts]" using "2.prems" True by auto
    from check_parents_Ok [OF parents this] obtain p
      where "map_of by_path (join_slash (take i ?parts)) = Some p" "en_kind p = DirectoryEntry" by blast
    with True keyed_by_path_map_of [OF "2.prems"(2)] show ?thesis by force
  next
    case False
    have "keyed_by_path ((en_path d, d) # by_path)" using "2.prems"(2) by (simp add: keyed_by_path_def)
    with "2.prems" rest False "2.IH" have
      "\<exists>p \<in> snd ` set ((en_path d, d) # by_path) \<union> set es.
         en_path p = join_slash (take i (split_slash (en_path e))) \<and> en_kind p = DirectoryEntry"
      by (auto simp: Let_def split: result.splits if_splits)
    then show ?thesis by auto
  qed
qed simp

text \<open>A validated manifest, piece by piece.\<close>

lemma manifest_validate_parts:
  assumes "manifest_validate nfc m = Ok ()"
  shows "mf_version m = 1" "length (mf_entries m) \<le> 100000"
    "validate_entries nfc [] [] 0 (mf_entries m) = Ok (rev (entries_by_path m))"
    "validate_links (rev (entries_by_path m)) (mf_entries m) = Ok ()"
  using assms
  by (auto simp: manifest_validate_def entries_by_path_def split: if_splits result.splits
      dest: validate_entries_result)

lemma sorted_wrt_less_distinct: "sorted_wrt (<) (xs :: string list) \<Longrightarrow> distinct xs"
  by (induction xs) auto

lemma map_of_rev_distinct: "distinct (map fst xs) \<Longrightarrow> map_of (rev xs) = map_of xs"
  by (rule map_of_eqI) (auto simp: rev_map [symmetric])

lemma manifest_paths:
  assumes "manifest_validate nfc m = Ok ()"
  shows "sorted_wrt (<) (map en_path (mf_entries m))" "distinct (map en_path (mf_entries m))"
    "map_of (rev (entries_by_path m)) = map_of (entries_by_path m)"
    "keyed_by_path (entries_by_path m)"
proof -
  show sorted: "sorted_wrt (<) (map en_path (mf_entries m))"
    using validate_entries_sorted [OF manifest_validate_parts(3) [OF assms]] by simp
  then show "distinct (map en_path (mf_entries m))" by (rule sorted_wrt_less_distinct)
  then show "map_of (rev (entries_by_path m)) = map_of (entries_by_path m)"
    by (intro map_of_rev_distinct) (simp add: entries_by_path_def comp_def)
  show "keyed_by_path (entries_by_path m)"
    by (simp add: keyed_by_path_def entries_by_path_def list_all_iff)
qed

lemma entries_by_path_lookup:
  "map_of (entries_by_path m) p = Some e \<Longrightarrow> e \<in> set (mf_entries m) \<and> en_path e = p"
  by (auto simp: entries_by_path_def dest!: map_of_SomeD)

section \<open>What resolution establishes\<close>

text \<open>
  A resolved position: the root, or the components of an entry that is not a link; a position that
  is still to be extended is moreover a directory.
\<close>

definition slash_free :: "string list \<Rightarrow> bool" where
  "slash_free ps \<longleftrightarrow> list_all (\<lambda>p. CHR ''/'' \<notin> set p) ps"

definition at_entry :: "(string \<times> skill_entry) list \<Rightarrow> (entry_kind \<Rightarrow> bool) \<Rightarrow> string list \<Rightarrow> bool" where
  "at_entry es ok resolved \<longleftrightarrow>
     slash_free resolved \<and>
     (resolved \<noteq> [] \<longrightarrow> (\<exists>t. map_of es (join_slash resolved) = Some t \<and> ok (en_kind t)))"

text \<open>Every non-empty initial part of the position is a directory.\<close>

definition in_directory :: "(string \<times> skill_entry) list \<Rightarrow> string list \<Rightarrow> bool" where
  "in_directory es resolved \<longleftrightarrow>
     (\<forall>i \<le> length resolved. at_entry es (\<lambda>k. k = DirectoryEntry) (take i resolved))"

lemma in_directory_Nil [simp]: "in_directory es []"
  by (simp add: in_directory_def at_entry_def slash_free_def)

lemma in_directory_butlast: "in_directory es r \<Longrightarrow> in_directory es (butlast r)"
  by (auto simp: in_directory_def butlast_conv_take min_def)

lemma in_directory_snoc:
  assumes "in_directory es r" and "CHR ''/'' \<notin> set c"
    and "map_of es (join_slash (r @ [c])) = Some t" and "en_kind t = DirectoryEntry"
  shows "in_directory es (r @ [c])"
proof -
  have "at_entry es (\<lambda>k. k = DirectoryEntry) r"
    using assms(1) unfolding in_directory_def by (metis order_refl take_all)
  then have "at_entry es (\<lambda>k. k = DirectoryEntry) (r @ [c])"
    using assms(2-4) by (simp add: at_entry_def slash_free_def)
  moreover have "at_entry es (\<lambda>k. k = DirectoryEntry) (take i (r @ [c]))" if "i \<le> length r" for i
    using assms(1) that by (simp add: in_directory_def)
  ultimately show ?thesis
    unfolding in_directory_def by (metis le_SucE length_append_singleton order_refl take_all)
qed

lemma slash_free_target: "slash_free (split_slash s @ pending) = slash_free pending"
  by (auto simp: slash_free_def list_all_iff dest: split_slash_no_slash)

text \<open>
  From a directory position, a resolution that succeeds ends at the root or at an entry that is not
  a symbolic link, below directories only.
\<close>

lemma resolve_components_at:
  "resolve_components es hops pending resolved = Ok r \<Longrightarrow> in_directory es resolved \<Longrightarrow>
     slash_free pending \<Longrightarrow> at_entry es (\<lambda>k. k \<noteq> SymlinkEntry) r \<and> in_directory es (butlast r)"
proof (induction es hops pending resolved rule: resolve_components.induct)
  case (1 es hops resolved)
  then have "in_directory es r" by (simp add: resolve_components.simps)
  then have "at_entry es (\<lambda>k. k = DirectoryEntry) r" unfolding in_directory_def by (metis order_refl take_all)
  with in_directory_butlast [OF \<open>in_directory es r\<close>] show ?case by (auto simp: at_entry_def)
next
  case (2 es hops c pending resolved)
  note ok = "2.prems"(1) [unfolded resolve_components.simps]
  have pending: "slash_free pending" and c: "CHR ''/'' \<notin> set c"
    using "2.prems"(3) by (simp_all add: slash_free_def)
  consider "c = [] \<or> c = ''.''" | "c = ''..''" | "\<not> (c = [] \<or> c = ''.'')" "c \<noteq> ''..''" by blast
  then show ?case
  proof cases
    case 1
    with ok "2.IH"(1) "2.prems"(2) pending show ?thesis by auto
  next
    case 2
    with ok "2.IH"(2) "2.prems"(2) pending in_directory_butlast show ?thesis by (auto split: if_splits)
  next
    case 3
    then obtain t where t: "map_of es (join_slash (resolved @ [c])) = Some t"
      using ok by (auto split: option.splits)
    show ?thesis
    proof (cases "en_kind t = SymlinkEntry")
      case True
      with ok 3 t "2.IH"(3) "2.prems"(2) pending show ?thesis
        by (auto simp: slash_free_target split: if_splits)
    next
      case False
      then have next_step: "resolve_components es hops pending (resolved @ [c]) = Ok r"
        and stop: "pending = [] \<or> en_kind t = DirectoryEntry"
        using ok 3 t by (auto split: if_splits)
      show ?thesis
      proof (cases "en_kind t = DirectoryEntry")
        case True
        then have "in_directory es (resolved @ [c])"
          using in_directory_snoc "2.prems"(2) c t by blast
        with 3 t False True next_step "2.IH"(4) pending show ?thesis by auto
      next
        case False
        with stop next_step have "r = resolved @ [c]" by (simp add: resolve_components.simps)
        moreover have "slash_free resolved"
          using "2.prems"(2) unfolding in_directory_def at_entry_def by (metis order_refl take_all)
        ultimately show ?thesis
          using t c \<open>en_kind t \<noteq> SymlinkEntry\<close> "2.prems"(2) by (simp add: at_entry_def slash_free_def)
      qed
    qed
  qed
qed

lemma resolve_components_cong:
  "map_of es = map_of es' \<Longrightarrow> resolve_components es hops pending resolved = resolve_components es' hops pending resolved"
proof (induction es hops pending resolved rule: resolve_components.induct)
  case (2 es hops c pending resolved)
  then show ?case
    by (subst (1 2) resolve_components.simps)
      (auto simp del: split_slash.simps split: option.split)
qed (simp add: resolve_components.simps)

lemma validate_links_Ok:
  "validate_links by_path es = Ok u \<Longrightarrow> e \<in> set es \<Longrightarrow> en_kind e = SymlinkEntry \<Longrightarrow>
     validate_link by_path e = Ok ()"
  by (induction by_path es rule: validate_links.induct) (auto split: result.splits if_splits)

text \<open>The position above an entry of a validated manifest is a directory position.\<close>

lemma manifest_parents:
  assumes "manifest_validate nfc m = Ok ()" and "e \<in> set (mf_entries m)"
    and "0 < i" and "i < length (split_slash (en_path e))"
  shows "\<exists>p. map_of (entries_by_path m) (join_slash (take i (split_slash (en_path e)))) = Some p \<and>
           p \<in> set (mf_entries m) \<and> en_kind p = DirectoryEntry"
proof -
  have "keyed_by_path []" by (simp add: keyed_by_path_def)
  from validate_entries_parents [OF manifest_validate_parts(3) [OF assms(1)] this assms(2-4)]
  obtain p where p: "p \<in> set (mf_entries m)" "en_kind p = DirectoryEntry"
    "en_path p = join_slash (take i (split_slash (en_path e)))" by auto
  moreover have "map_of (entries_by_path m) (en_path p) = Some p"
    using p(1) manifest_paths(2) [OF assms(1)]
    by (intro map_of_is_SomeI) (auto simp: entries_by_path_def comp_def)
  ultimately show ?thesis by auto
qed

lemma manifest_parent_position:
  assumes "manifest_validate nfc m = Ok ()" and "e \<in> set (mf_entries m)"
  shows "in_directory (entries_by_path m) (butlast (split_slash (en_path e)))"
  unfolding in_directory_def
proof (intro allI impI)
  fix i assume i: "i \<le> length (butlast (split_slash (en_path e)))"
  let ?parts = "split_slash (en_path e)"
  have "slash_free ?parts"
    using slash_free_target [of "en_path e" "[]"] by (simp add: slash_free_def)
  then have free: "slash_free (take i ?parts)" by (auto simp: slash_free_def list_all_iff dest: in_set_takeD)
  have short: "i < length ?parts" using i by (cases ?parts rule: rev_cases) auto
  have "take i (butlast ?parts) = take i ?parts" using i by (simp add: take_butlast short)
  moreover have "\<exists>p. map_of (entries_by_path m) (join_slash (take i ?parts)) = Some p \<and> en_kind p = DirectoryEntry"
    if "take i ?parts \<noteq> []"
    using manifest_parents [OF assms _ short] that by (cases i) auto
  ultimately show "at_entry (entries_by_path m) (\<lambda>k. k = DirectoryEntry) (take i (butlast ?parts))"
    using free by (simp add: at_entry_def)
qed

lemma at_entry_manifest:
  assumes "at_entry (entries_by_path m) ok r" and "r \<noteq> []"
  shows "\<exists>t \<in> set (mf_entries m). r = split_slash (en_path t) \<and> ok (en_kind t) \<and>
           map_of (entries_by_path m) (join_slash r) = Some t"
proof -
  from assms obtain t where t: "map_of (entries_by_path m) (join_slash r) = Some t" "ok (en_kind t)"
    and free: "slash_free r" by (auto simp: at_entry_def)
  have "en_path t = join_slash r" "t \<in> set (mf_entries m)" using entries_by_path_lookup [OF t(1)] by auto
  moreover have "split_slash (join_slash r) = r"
    using split_join_slash assms(2) free by (simp add: slash_free_def)
  ultimately show ?thesis using t by auto
qed

text \<open>Walking down through directories.\<close>

lemma resolve_components_walk:
  "list_all path_component_ok qs \<Longrightarrow> rest \<noteq> [] \<Longrightarrow>
   (\<And>i. i < length qs \<Longrightarrow>
      \<exists>p. map_of es (join_slash (resolved @ take (Suc i) qs)) = Some p \<and> en_kind p = DirectoryEntry) \<Longrightarrow>
   resolve_components es hops (qs @ rest) resolved = resolve_components es hops rest (resolved @ qs)"
proof (induction qs arbitrary: resolved)
  case (Cons q qs)
  have ok: "\<not> (q = [] \<or> q = ''.'')" "q \<noteq> ''..''" using Cons.prems(1) by (auto simp: path_component_ok_def)
  from Cons.prems(3) [of 0] obtain p
    where p: "map_of es (join_slash (resolved @ [q])) = Some p" "en_kind p = DirectoryEntry" by auto
  have "resolve_components es hops ((q # qs) @ rest) resolved
        = resolve_components es hops (qs @ rest) (resolved @ [q])"
    using ok p by (simp add: resolve_components.simps(2))
  also have "\<dots> = resolve_components es hops rest ((resolved @ [q]) @ qs)"
    using Cons.prems Cons.prems(3) [of "Suc i" for i] by (intro Cons.IH) auto
  finally show ?case by simp
qed simp

section \<open>The wire form determines the tree\<close>

lemma fields_inj:
  "list_all nul_free fs \<Longrightarrow> list_all nul_free gs \<Longrightarrow>
     concat (map (\<lambda>f. f @ [nul]) fs) = concat (map (\<lambda>f. f @ [nul]) gs) \<Longrightarrow> fs = gs"
proof (induction fs arbitrary: gs)
  case (Cons f fs)
  then obtain g gs' where gs: "gs = g # gs'" by (cases gs) auto
  have "f @ nul # concat (map (\<lambda>f. f @ [nul]) fs) = g @ nul # concat (map (\<lambda>f. f @ [nul]) gs')"
    using Cons.prems(3) gs by simp
  moreover have "nul \<notin> set f" "nul \<notin> set g" using Cons.prems(1,2) gs by (simp_all add: nul_free_def)
  ultimately have "f = g" "concat (map (\<lambda>f. f @ [nul]) fs) = concat (map (\<lambda>f. f @ [nul]) gs')"
    by (auto simp: append_eq_append_conv2 append_eq_Cons_conv Cons_eq_append_conv)
  with Cons gs show ?case by simp
qed (simp split: list.splits)

lemma kind_wire_name_inj: "kind_wire_name k = kind_wire_name k' \<Longrightarrow> k = k'"
  by (cases k; cases k') simp_all

lemma content_wire_name_inj: "content_wire_name k = content_wire_name k' \<Longrightarrow> k = k'"
  by (cases k; cases k') simp_all

lemma decimal_inj: "decimal m = decimal n \<Longrightarrow> m = n"
  by (metis digits_value_decimal)

lemma entry_fields_inj: "entry_fields e = entry_fields e' \<Longrightarrow> e = (e' :: skill_entry)"
  by (cases e; cases e')
    (auto simp: entry_fields_def word_unat_eq_iff dest!: decimal_inj kind_wire_name_inj content_wire_name_inj)

lemma concat_entry_fields_inj:
  "concat (map entry_fields es) = concat (map entry_fields es') \<Longrightarrow> es = es'"
proof (induction es arbitrary: es')
  case Nil
  then show ?case by (cases es') (auto simp: entry_fields_def)
next
  case (Cons e es)
  then obtain d ds where es': "es' = d # ds" by (cases es') (auto simp: entry_fields_def)
  have "length (entry_fields e) = length (entry_fields d)" by (simp add: entry_fields_def)
  with Cons.prems es' have "entry_fields e = entry_fields d"
    "concat (map entry_fields es) = concat (map entry_fields ds)" by simp_all
  with Cons.IH es' entry_fields_inj show ?case by blast
qed

text \<open>The strings of an entry are Rust strings: well-formed UTF-8.\<close>

definition entry_utf8 :: "skill_entry \<Rightarrow> bool" where
  "entry_utf8 e \<longleftrightarrow>
     utf8_valid (en_path e) \<and> utf8_valid (en_sha256 e) \<and> utf8_valid (en_target e) \<and>
     utf8_valid (en_dependency e)"

lemma validate_text_nul_free: "manifest_validate_text nfc s = Ok u \<Longrightarrow> utf8_valid s \<Longrightarrow> nul_free s"
  by (auto simp: manifest_validate_text_def ensure_def nul_free_def dest: nul_is_control split: if_splits)

lemma list_all_nul_free: "list_all p s \<Longrightarrow> \<not> p nul \<Longrightarrow> nul_free s"
  by (auto simp: nul_free_def list_all_iff)

lemma entry_fields_nul_free:
  assumes "entry_validate nfc e = Ok ()" and "entry_utf8 e"
  shows "list_all nul_free (entry_fields e)"
proof -
  have path: "nul_free (en_path e)"
    using assms by (auto simp: entry_validate_def manifest_validate_path_def entry_utf8_def
        intro: validate_text_nul_free split: result.splits if_splits)
  have digits: "nul_free (decimal n)" for n
    using decimal_digits [of n] by (intro list_all_nul_free) (auto simp: is_ascii_digit_def)
  have sha: "nul_free (en_sha256 e)"
    using assms(1) by (auto simp: entry_validate_def ensure_def entry_lower_hex_def is_ascii_digit_def
        nul_free_def list_all_iff split: result.splits if_splits)
  have target: "nul_free (en_target e)"
  proof (cases "en_target e = []")
    case False
    with assms have "manifest_validate_text nfc (en_target e) = Ok ()"
      by (auto simp: entry_validate_def validate_link_entry_def ensure_def split: result.splits if_splits)
    with assms(2) show ?thesis by (intro validate_text_nul_free) (auto simp: entry_utf8_def)
  qed (simp add: nul_free_def)
  have dep: "nul_free (en_dependency e)"
  proof (cases "en_dependency e = []")
    case False
    with assms have "dependency_ok (en_dependency e)"
      by (auto simp: entry_validate_def validate_link_entry_def ensure_def
          split: result.splits if_splits option.splits)
    then show ?thesis
      by (intro list_all_nul_free)
        (auto simp: dependency_ok_def is_ascii_lowercase_def is_ascii_digit_def nul_literal)
  qed (simp add: nul_free_def)
  have kind: "nul_free (kind_wire_name (en_kind e))"
    by (cases "en_kind e") (simp_all add: nul_free_def nul_literal)
  have content: "nul_free (content_wire_name (en_content_kind e))"
    by (cases "en_content_kind e") (simp_all add: nul_free_def nul_literal)
  show ?thesis using path digits sha target dep kind content by (simp add: entry_fields_def)
qed

section \<open>Properties\<close>

definition sample_file :: skill_entry where
  "sample_file = \<lparr>en_path = ''a/b'', en_kind = FileEntry, en_mode = 420, en_size = 3,
     en_sha256 = replicate 64 (CHR ''a''), en_target = [], en_content_kind = TextContent, en_dependency = []\<rparr>"

definition sample_link :: skill_entry where
  "sample_link = \<lparr>en_path = ''l'', en_kind = SymlinkEntry, en_mode = 511, en_size = 0,
     en_sha256 = [], en_target = ''a/b'', en_content_kind = EmptyContent, en_dependency = []\<rparr>"

definition sample_tree :: skill_manifest where
  "sample_tree = \<lparr>mf_version = 1, mf_entries =
     [\<lparr>en_path = ''a'', en_kind = DirectoryEntry, en_mode = 493, en_size = 0, en_sha256 = [],
       en_target = [], en_content_kind = EmptyContent, en_dependency = []\<rparr>, sample_file, sample_link]\<rparr>"

lemma sample_file_kind: "en_kind sample_file \<noteq> SymlinkEntry"
  by (simp add: sample_file_def)

lemma sample_tree_valid: "manifest_validate (\<lambda>_. True) sample_tree = Ok ()"
  by (simp add: sample_tree_def sample_file_def sample_link_def manifest_validate_def entry_validate_def
      manifest_validate_path_def manifest_validate_text_def validate_link_entry_def validate_link_def
      resolve_components.simps entry_lower_hex_def path_component_ok_def i64_max_def ensure_def
      starts_with_def list_all_iff rust_eval)

lemma sample_tree_members: "sample_file \<in> set (mf_entries sample_tree)" "sample_link \<in> set (mf_entries sample_tree)"
  by (simp_all add: sample_tree_def)

lemma sample_tree_utf8: "list_all entry_utf8 (mf_entries sample_tree)"
  by code_simp

text \<open>
  C38. A manifest that validates is a tree: its paths are strictly increasing in byte order, every
  proper ancestor of a path is a directory entry of the manifest, and the file sizes, added without
  wrap-around, stay within the signed 64-bit range of the protocol.
\<close>

theorem manifest_valid_tree:
  assumes "manifest_validate nfc m = Ok ()"
  shows "sorted_wrt (<) (map en_path (mf_entries m)) \<and>
    (\<Sum>e\<leftarrow>mf_entries m. unat (en_size e)) \<le> i64_max \<and>
    (\<forall>e \<in> set (mf_entries m). entry_validate nfc e = Ok () \<and>
       (\<forall>i. 0 < i \<and> i < length (split_slash (en_path e)) \<longrightarrow>
          (\<exists>p \<in> set (mf_entries m).
             en_path p = join_slash (take i (split_slash (en_path e))) \<and> en_kind p = DirectoryEntry)))"
proof (intro conjI ballI allI impI)
  note entries = manifest_validate_parts(3) [OF assms]
  show "sorted_wrt (<) (map en_path (mf_entries m))" using manifest_paths(1) [OF assms] .
  show "(\<Sum>e\<leftarrow>mf_entries m. unat (en_size e)) \<le> i64_max"
    using validate_entries_size [OF entries] by simp
  fix e assume e: "e \<in> set (mf_entries m)"
  then show "entry_validate nfc e = Ok ()" using validate_entries_local [OF entries] by blast
  fix i assume "0 < i \<and> i < length (split_slash (en_path e))"
  with manifest_parents [OF assms e] entries_by_path_lookup
  show "\<exists>p \<in> set (mf_entries m).
          en_path p = join_slash (take i (split_slash (en_path e))) \<and> en_kind p = DirectoryEntry"
    by meson
qed

theorem manifest_valid_tree_witness:
  "\<exists>p \<in> set (mf_entries sample_tree). en_path p = ''a'' \<and> en_kind p = DirectoryEntry"
proof -
  have "split_slash (en_path sample_file) = [''a'', ''b'']" by (simp add: sample_file_def)
  with manifest_valid_tree [OF sample_tree_valid] sample_tree_members(1)
  show ?thesis by (auto dest!: spec [of _ 1] bspec)
qed



text \<open>
  Resolving a path of a validated manifest never yields a symbolic link and never an entry of
  another tree; the path of an entry that is not a symbolic link resolves to that very entry.
\<close>

lemma manifest_resolve_entry:
  assumes "manifest_validate nfc m = Ok ()"
  shows "(\<forall>path t. manifest_resolve nfc m path = Ok t \<longrightarrow>
            t \<in> set (mf_entries m) \<and> en_kind t \<noteq> SymlinkEntry) \<and>
    (\<forall>e \<in> set (mf_entries m). en_kind e \<noteq> SymlinkEntry \<longrightarrow> manifest_resolve nfc m (en_path e) = Ok e)"
proof (intro conjI allI ballI impI)
  let ?es = "entries_by_path m"
  fix path t assume "manifest_resolve nfc m path = Ok t"
  then obtain r where ok: "resolve_components ?es 0 (split_slash path) [] = Ok r"
    and t: "map_of ?es (join_slash r) = Some t"
    by (auto simp: manifest_resolve_def split: result.splits option.splits)
  have "slash_free (split_slash path)"
    using slash_free_target [of path "[]"] by (simp add: slash_free_def)
  with resolve_components_at [OF ok] have at: "at_entry ?es (\<lambda>k. k \<noteq> SymlinkEntry) r" by simp
  show "t \<in> set (mf_entries m)" using entries_by_path_lookup [OF t] by simp
  have "en_path t \<noteq> []"
    using validate_entries_local [OF manifest_validate_parts(3) [OF assms] \<open>t \<in> set (mf_entries m)\<close>]
    by (auto simp: entry_validate_def manifest_validate_path_def)
  with entries_by_path_lookup [OF t] have "r \<noteq> []" by auto
  with at t show "en_kind t \<noteq> SymlinkEntry" by (auto simp: at_entry_def)
next
  let ?es = "entries_by_path m"
  fix e assume e: "e \<in> set (mf_entries m)" and kind: "en_kind e \<noteq> SymlinkEntry"
  let ?parts = "split_slash (en_path e)"
  have path: "manifest_validate_path nfc (en_path e) = Ok ()"
    using validate_entries_local [OF manifest_validate_parts(3) [OF assms] e]
    by (auto simp: entry_validate_def split: result.splits)
  then have good: "list_all path_component_ok ?parts"
    by (auto simp: manifest_validate_path_def ensure_def split: result.splits if_splits)
  have self: "map_of ?es (en_path e) = Some e"
    using e manifest_paths(2) [OF assms]
    by (intro map_of_is_SomeI) (auto simp: entries_by_path_def comp_def)
  have parts: "butlast ?parts @ [last ?parts] = ?parts" by simp
  have "resolve_components ?es 0 (butlast ?parts @ [last ?parts]) [] = resolve_components ?es 0 [last ?parts] ([] @ butlast ?parts)"
  proof (rule resolve_components_walk)
    show "list_all path_component_ok (butlast ?parts)"
      using good by (auto simp: list_all_iff dest: in_set_butlastD)
    fix i assume "i < length (butlast ?parts)"
    then show "\<exists>p. map_of ?es (join_slash ([] @ take (Suc i) (butlast ?parts))) = Some p \<and>
                 en_kind p = DirectoryEntry"
      using manifest_parents [OF assms e, of "Suc i"] by (auto simp: take_butlast less_diff_conv)
  qed simp
  also have "\<dots> = Ok ?parts"
    using good self kind parts by (cases ?parts rule: rev_cases)
      (auto simp: resolve_components.simps path_component_ok_def dest: arg_cong [of _ _ join_slash])
  finally have "resolve_components ?es 0 ?parts [] = Ok ?parts" using parts by simp
  then show "manifest_resolve nfc m (en_path e) = Ok e"
    using assms path self by (simp add: manifest_resolve_def)
qed

text \<open>
  C37. The digest names the tree: two validated manifests with the same hashed bytes are the same
  manifest, entry by entry and field by field, so a digest identifies a tree up to collisions of
  SHA-256.
\<close>

theorem manifest_wire_identifies:
  assumes "manifest_validate nfc m = Ok ()" and "manifest_validate nfc m' = Ok ()"
    and "list_all entry_utf8 (mf_entries m)" and "list_all entry_utf8 (mf_entries m')"
    and "manifest_wire m = manifest_wire m'"
  shows "m = m'"
proof -
  have free: "list_all nul_free (concat (map entry_fields (mf_entries k)))"
    if "manifest_validate nfc k = Ok ()" "list_all entry_utf8 (mf_entries k)" for k
    using that validate_entries_local [OF manifest_validate_parts(3) [OF that(1)]] entry_fields_nul_free
    by (fastforce simp: list_all_iff)
  have "concat (map entry_fields (mf_entries m)) = concat (map entry_fields (mf_entries m'))"
    using assms(5) by (intro fields_inj free assms) (simp add: manifest_wire_def)
  then have "mf_entries m = mf_entries m'" by (rule concat_entry_fields_inj)
  moreover have "mf_version m = mf_version m'"
    using manifest_validate_parts(1) assms(1,2) by simp
  ultimately show ?thesis by simp
qed

theorem manifest_wire_identifies_witness:
  "manifest_wire \<lparr>mf_version = 1, mf_entries = mf_entries sample_tree\<rparr> = manifest_wire sample_tree \<and>
   \<lparr>mf_version = 1, mf_entries = mf_entries sample_tree\<rparr> = sample_tree"
  using manifest_wire_identifies [OF sample_tree_valid sample_tree_valid sample_tree_utf8 sample_tree_utf8 refl]
  by (simp add: sample_tree_def)

end
