(* ===== verification/Replay_Journal.thy ===== *)
theory Replay_Journal
  imports Utf8 Local_Db "HOL-Library.Sublist"
begin

text \<open>
  The one-shot request journal of the privileged WireGuard brokers (\<open>wireguard/replay.rs\<close>):
  opening it, reserving a request digest, and what both do when the file system fails. The file is
  its bytes; one operation sees the file system through a record of answers. \<open>serde_json\<close> is the
  pair of arguments \<open>parse\<close> and \<open>encode\<close> for one line.
\<close>

section \<open>The file system seen by one operation\<close>

text \<open>
  \<open>rh_read_fault\<close> is the line whose reading fails, \<open>rh_written\<close> the number of bytes that reach the
  file before a write fails, \<open>rh_sync\<close> whether \<open>sync_all\<close> succeeds.
\<close>

record replay_host =
  rh_lstat :: "string \<Rightarrow> (metadata, io_kind) result"
  rh_open_read :: bool
  rh_read_fault :: "nat option"
  rh_mkdir :: "string \<Rightarrow> bool"
  rh_open_append :: bool
  rh_fstat :: "metadata option"
  rh_written :: "nat option"
  rh_sync :: bool

definition max_replay_entries :: nat where
  "max_replay_entries = 4096"

definition replay_validate_path :: "string \<Rightarrow> (unit, string) result" where
  "replay_validate_path path =
     ensure (\<not> (\<not> path_is_absolute path \<or> ''..'' \<in> set (split_slash path)))
       ''wireguard_replay_journal_unsafe''"

definition replay_parent :: "string \<Rightarrow> string option" where
  "replay_parent path =
     (let parts = filter (\<lambda>c. c \<noteq> [] \<and> c \<noteq> ''.'') (split_slash path) in
      if parts = [] then None else Some (''/'' @ join_slash (butlast parts)))"

definition mode_bits :: "metadata \<Rightarrow> nat \<Rightarrow> bool" where
  "mode_bits m weight = odd (md_mode m div weight)"

definition replay_ensure_directory :: "replay_host \<Rightarrow> string \<Rightarrow> (unit, string) result" where
  "replay_ensure_directory H dir =
     (if \<not> rh_mkdir H dir then Err ''wireguard_replay_journal_unavailable''
      else case rh_lstat H dir of
        Err _ \<Rightarrow> Err ''wireguard_replay_journal_unavailable''
      | Ok m \<Rightarrow>
          if is_link m \<or> md_kind m \<noteq> DirectoryFile then Err ''wireguard_replay_journal_unsafe''
          else ensure (\<not> (mode_bits m 16 \<or> mode_bits m 2)) ''wireguard_replay_journal_unsafe'')"

text \<open>The checks both operations make on the journal's own metadata.\<close>

definition journal_file_safe :: "metadata \<Rightarrow> (unit, string) result" where
  "journal_file_safe m =
     (if is_link m \<or> md_kind m \<noteq> RegularFile then Err ''wireguard_replay_journal_unsafe''
      else ensure (\<not> (md_nlink m \<noteq> 1 \<or> md_mode m mod 64 \<noteq> 0)) ''wireguard_replay_journal_unsafe'')"

definition replay_digest_ok :: "string \<Rightarrow> bool" where
  "replay_digest_ok v \<longleftrightarrow>
     length v = 64 \<and> list_all (\<lambda>b. is_ascii_hexdigit b \<and> \<not> is_ascii_uppercase b) v"

definition replay_validate_digest :: "string \<Rightarrow> (unit, string) result" where
  "replay_validate_digest v = ensure (replay_digest_ok v) ''wireguard_replay_journal_invalid''"

section \<open>Opening\<close>

fun replay_lines ::
  "(string \<Rightarrow> string option) \<Rightarrow> nat option \<Rightarrow> string list \<Rightarrow> string list \<Rightarrow> (string list, string) result" where
  "replay_lines parse fault [] used =
     (if fault = Some 0 then Err ''wireguard_replay_journal_invalid'' else Ok used)"
| "replay_lines parse fault (line # lines) used =
     (if fault = Some 0 \<or> \<not> utf8_valid line then Err ''wireguard_replay_journal_invalid''
      else if line = [] then Err ''wireguard_replay_journal_invalid''
      else case parse line of
        None \<Rightarrow> Err ''wireguard_replay_journal_invalid''
      | Some digest \<Rightarrow>
          (case replay_validate_digest digest of
             Err e \<Rightarrow> Err e
           | Ok _ \<Rightarrow>
               if digest \<in> set used \<or> length (digest # used) > max_replay_entries
               then Err ''wireguard_replay_journal_invalid''
               else replay_lines parse (map_option (\<lambda>n. n - 1) fault) lines (digest # used)))"

definition replay_open ::
  "(string \<Rightarrow> string option) \<Rightarrow> replay_host \<Rightarrow> string \<Rightarrow> string option \<Rightarrow> (string list, string) result" where
  "replay_open parse H path bytes =
     (case replay_validate_path path of
        Err e \<Rightarrow> Err e
      | Ok _ \<Rightarrow>
          (case rh_lstat H path of
             Err _ \<Rightarrow> Ok []
           | Ok m \<Rightarrow>
               (case journal_file_safe m of
                  Err e \<Rightarrow> Err e
                | Ok _ \<Rightarrow>
                    (case (if rh_open_read H then bytes else None) of
                       None \<Rightarrow> Err ''wireguard_replay_journal_unavailable''
                     | Some s \<Rightarrow> replay_lines parse (rh_read_fault H) (buf_lines s) []))))"

section \<open>Reserving\<close>

text \<open>The set of used digests and the bytes of the file after a reservation, with its result.\<close>

definition replay_append :: "(string \<Rightarrow> string) \<Rightarrow> replay_host \<Rightarrow> string \<Rightarrow> string" where
  "replay_append encode H digest =
     (case rh_written H of
        None \<Rightarrow> encode digest @ [newline]
      | Some n \<Rightarrow> take n (encode digest @ [newline]))"

definition replay_reserve ::
  "(string \<Rightarrow> string) \<Rightarrow> replay_host \<Rightarrow> string \<Rightarrow> string list \<Rightarrow> string option \<Rightarrow> string \<Rightarrow>
     (unit, string) result \<times> string list \<times> string option" where
  "replay_reserve encode H path used bytes digest =
     (case replay_validate_digest digest of
        Err e \<Rightarrow> (Err e, used, bytes)
      | Ok _ \<Rightarrow>
          if digest \<in> set used then (Err ''wireguard_broker_request_replayed'', used, bytes)
          else if length used \<ge> max_replay_entries then (Err ''wireguard_replay_journal_full'', used, bytes)
          else case replay_parent path of
            None \<Rightarrow> (Err ''wireguard_replay_journal_unavailable'', used, bytes)
          | Some dir \<Rightarrow>
              (case replay_ensure_directory H dir of
                 Err e \<Rightarrow> (Err e, used, bytes)
               | Ok _ \<Rightarrow>
                   if \<not> rh_open_append H then (Err ''wireguard_replay_journal_unavailable'', used, bytes)
                   else
                     let opened = (case bytes of None \<Rightarrow> [] | Some s \<Rightarrow> s) in
                     (case rh_fstat H of
                        None \<Rightarrow> (Err ''wireguard_replay_journal_unavailable'', used, Some opened)
                      | Some m \<Rightarrow>
                          (case journal_file_safe m of
                             Err e \<Rightarrow> (Err e, used, Some opened)
                           | Ok _ \<Rightarrow>
                               let written = opened @ replay_append encode H digest in
                               if rh_written H \<noteq> None \<or> \<not> rh_sync H
                               then (Err ''wireguard_replay_journal_sync_failed'', used, Some written)
                               else (Ok (), digest # used, Some written)))))"

section \<open>Brokers, restarts and lost bytes\<close>

text \<open>
  The durable side and the live side of a broker: the file, the length known to be on disk after
  the last successful \<open>sync_all\<close>, the used set of the running process (none after an open that
  failed) and the history of acknowledged reservations, newest first.
\<close>

record replay_state =
  rs_file :: "string option"
  rs_synced :: nat
  rs_proc :: "string list option"
  rs_acked :: "string list"

definition replay_start :: replay_state where
  "replay_start = \<lparr>rs_file = None, rs_synced = 0, rs_proc = None, rs_acked = []\<rparr>"

definition reserve_in :: "(string \<Rightarrow> string) \<Rightarrow> string \<Rightarrow> replay_host \<Rightarrow> string \<Rightarrow> string list \<Rightarrow> replay_state \<Rightarrow> replay_state" where
  "reserve_in encode path H digest used s =
     (case replay_reserve encode H path used (rs_file s) digest of
        (Ok _, used', bytes) \<Rightarrow>
          \<lparr>rs_file = bytes, rs_synced = length (the bytes), rs_proc = Some used', rs_acked = digest # rs_acked s\<rparr>
      | (Err _, used', bytes) \<Rightarrow> s\<lparr>rs_file := bytes, rs_proc := Some used'\<rparr>)"

text \<open>A restart may lose bytes that were not synced; \<open>kept\<close> is the length that survives.\<close>

definition surviving :: "nat \<Rightarrow> replay_state \<Rightarrow> string option" where
  "surviving kept s = map_option (take (max (rs_synced s) kept)) (rs_file s)"

definition restart_in :: "(string \<Rightarrow> string option) \<Rightarrow> string \<Rightarrow> replay_host \<Rightarrow> nat \<Rightarrow> replay_state \<Rightarrow> replay_state" where
  "restart_in parse path H kept s =
     s\<lparr>rs_file := surviving kept s,
       rs_proc := (case replay_open parse H path (surviving kept s) of Ok used \<Rightarrow> Some used | Err _ \<Rightarrow> None)\<rparr>"

text \<open>\<open>stat\<close> tells the truth: it fails only when there is no file.\<close>

definition stat_honest :: "replay_host \<Rightarrow> string \<Rightarrow> string option \<Rightarrow> bool" where
  "stat_honest H path bytes \<longleftrightarrow> (case rh_lstat H path of Err _ \<Rightarrow> bytes = None | Ok _ \<Rightarrow> True)"

inductive replay_reaches ::
  "(string \<Rightarrow> string option) \<Rightarrow> (string \<Rightarrow> string) \<Rightarrow> string \<Rightarrow> replay_state \<Rightarrow> bool"
  for parse encode path where
  started: "replay_reaches parse encode path replay_start"
| reserved: "replay_reaches parse encode path s \<Longrightarrow> rs_proc s = Some used \<Longrightarrow>
    replay_reaches parse encode path (reserve_in encode path H digest used s)"
| restarted: "replay_reaches parse encode path s \<Longrightarrow> stat_honest H path (surviving kept s) \<Longrightarrow>
    replay_reaches parse encode path (restart_in parse path H kept s)"

text \<open>
  What is used of \<open>serde_json\<close>: an entry is written as one line of UTF-8 that opens one object and
  is read back; and a text that reads as an entry with a valid digest opens exactly one object,
  because neither the only field's name nor a digest contains a brace.
\<close>

definition entry_codec :: "(string \<Rightarrow> string option) \<Rightarrow> (string \<Rightarrow> string) \<Rightarrow> bool" where
  "entry_codec parse encode \<longleftrightarrow>
     (\<forall>d. replay_digest_ok d \<longrightarrow>
        parse (encode d) = Some d \<and> utf8_valid (encode d) \<and> starts_with ''{'' (encode d) \<and>
        newline \<notin> set (encode d) \<and> char_of (13 :: nat) \<notin> set (encode d)) \<and>
     (\<forall>t d. parse t = Some d \<and> replay_digest_ok d \<longrightarrow> length (filter ((=) (CHR ''{'')) t) = 1)"

lemma entry_codecD:
  assumes "entry_codec parse encode" and "replay_digest_ok d"
  shows "parse (encode d) = Some d" "utf8_valid (encode d)" "newline \<notin> set (encode d)"
    "strip_cr (s @ encode d) = s @ encode d" "\<exists>t. encode d = CHR ''{'' # t"
proof -
  show "parse (encode d) = Some d" "utf8_valid (encode d)" "newline \<notin> set (encode d)"
    and start: "\<exists>t. encode d = CHR ''{'' # t"
    using assms by (auto simp: entry_codec_def starts_with_iff)
  have "char_of (13 :: nat) \<notin> set (encode d)" using assms by (simp add: entry_codec_def)
  with start have "last (encode d) \<noteq> char_of (13 :: nat)" by (metis last_in_set list.distinct(1))
  with start show "strip_cr (s @ encode d) = s @ encode d" by (auto simp: strip_cr_def)
qed

text \<open>Written pieces: each is a leading part of one encoded line.\<close>

definition torn :: "(string \<Rightarrow> string) \<Rightarrow> string \<times> string \<Rightarrow> bool" where
  "torn encode = (\<lambda>(d, s). replay_digest_ok d \<and> prefix s (encode d @ [newline]))"

definition whole :: "(string \<Rightarrow> string) \<Rightarrow> (string \<times> string) list \<Rightarrow> string set" where
  "whole encode segs = {d. (d, encode d @ [newline]) \<in> set segs}"

abbreviation bytes_of :: "(string \<times> string) list \<Rightarrow> string" where
  "bytes_of segs \<equiv> concat (map snd segs)"

lemma open_line_append_line: "open_line (s @ [newline]) = []"
  by (simp add: open_line_def)

lemma open_line_append: "newline \<notin> set t \<Longrightarrow> open_line (s @ t) = open_line s @ t"
  unfolding open_line_def rev_append by (subst takeWhile_append2) auto

text \<open>After written pieces, an unfinished line without an opening brace is empty.\<close>

lemma torn_open_line:
  assumes "entry_codec parse encode" and "list_all (torn encode) segs"
    and "CHR ''{'' \<notin> set (open_line (bytes_of segs))"
  shows "open_line (bytes_of segs) = []"
  using assms(2,3)
proof (induction segs rule: rev_induct)
  case Nil
  then show ?case by (simp add: open_line_def)
next
  case (snoc seg segs)
  obtain d s where seg: "seg = (d, s)" by (cases seg)
  have d: "replay_digest_ok d" and s: "prefix s (encode d @ [newline])"
    using snoc.prems(1) seg by (simp_all add: torn_def)
  note codec = entry_codecD [OF assms(1) d]
  show ?case
  proof (cases "s = encode d @ [newline]")
    case True
    then show ?thesis using open_line_append_line [of "bytes_of segs @ encode d"] seg by simp
  next
    case False
    with s have part: "prefix s (encode d)" by (metis prefix_snoc)
    then have line: "newline \<notin> set s" using codec(3) by (auto dest: set_mono_prefix)
    have "s = [] \<or> CHR ''{'' \<in> set s"
      using part codec(5) by (cases s) auto
    with snoc seg line show ?thesis by (auto simp: open_line_append)
  qed
qed

text \<open>A successful pass over the lines uses every line.\<close>

lemma replay_lines_used:
  "replay_lines parse fault lines used = Ok r \<Longrightarrow>
     set used \<subseteq> set r \<and>
     (\<forall>l \<in> set lines. \<exists>d. parse l = Some d \<and> replay_digest_ok d \<and> d \<in> set r)"
  by (induction parse fault lines used rule: replay_lines.induct)
    (fastforce simp: replay_validate_digest_def ensure_def split: if_splits option.splits result.splits)+

lemma replay_lines_bound:
  "replay_lines parse fault lines used = Ok r \<Longrightarrow> distinct used \<Longrightarrow> length used \<le> max_replay_entries \<Longrightarrow>
     distinct r \<and> length r \<le> max_replay_entries"
  by (induction parse fault lines used rule: replay_lines.induct)
    (auto split: if_splits option.splits result.splits)

text \<open>The heart of the matter: whatever was fully written is seen by every open that succeeds.\<close>

lemma replay_open_sees:
  assumes codec: "entry_codec parse encode" and segs: "list_all (torn encode) segs"
    and ok: "replay_lines parse fault (buf_lines (bytes_of segs)) [] = Ok used"
  shows "whole encode segs \<subseteq> set used"
proof
  fix d assume "d \<in> whole encode segs"
  then obtain before after where split: "segs = before @ (d, encode d @ [newline]) # after"
    by (auto simp: whole_def dest!: split_list)
  let ?p = "bytes_of before" and ?r = "bytes_of after"
  have d: "replay_digest_ok d" and before: "list_all (torn encode) before"
    using segs by (simp_all add: split torn_def)
  note codec' = entry_codecD [OF codec d]
  have "open_line ?p @ encode d \<in> set (buf_lines (bytes_of segs))"
    using buf_lines_open_line [OF codec'(3), of ?p ?r] codec'(4) [of "open_line ?p"] by (simp add: split)
  with replay_lines_used [OF ok] obtain d' where parsed: "parse (open_line ?p @ encode d) = Some d'"
    and d': "replay_digest_ok d'" "d' \<in> set used" by blast
  then have one: "length (filter ((=) (CHR ''{'')) (open_line ?p @ encode d)) = 1"
    using codec unfolding entry_codec_def by blast
  then have "filter ((=) (CHR ''{'')) (open_line ?p) = []" using codec'(5) by auto
  then have "CHR ''{'' \<notin> set (open_line ?p)" by (auto simp: filter_empty_conv)
  from torn_open_line [OF codec before this] parsed codec'(1) have "d' = d" by simp
  with d' show "d \<in> set used" by simp
qed

section \<open>The invariant\<close>

text \<open>A prefix of written pieces is again made of written pieces.\<close>

lemma torn_take:
  "list_all (torn encode) segs \<Longrightarrow> \<exists>segs'. list_all (torn encode) segs' \<and> bytes_of segs' = take n (bytes_of segs)"
proof (induction segs arbitrary: n)
  case (Cons seg segs)
  obtain d s where seg: "seg = (d, s)" by (cases seg)
  have "replay_digest_ok d" "prefix s (encode d @ [newline])"
    using Cons.prems by (simp_all add: torn_def seg del: prefix_snoc)
  then have "torn encode (d, take n s)"
    using prefix_order.trans [OF take_is_prefix] by (simp add: torn_def del: prefix_snoc)
  moreover from Cons obtain segs' where "list_all (torn encode) segs'"
    "bytes_of segs' = take (n - length s) (bytes_of segs)" by auto
  ultimately show ?case by (intro exI [of _ "(d, take n s) # segs'"]) (simp add: seg)
next
  case Nil
  then show ?case by (intro exI [of _ "[]"]) simp
qed

text \<open>
  The file consists of written pieces; the acknowledged digests were fully written inside the part
  that is on disk; a running process remembers them all.
\<close>

definition replay_inv :: "(string \<Rightarrow> string) \<Rightarrow> replay_state \<Rightarrow> bool" where
  "replay_inv encode s \<longleftrightarrow>
     (\<exists>disk rest. list_all (torn encode) disk \<and> list_all (torn encode) rest \<and>
        (case rs_file s of None \<Rightarrow> [] | Some b \<Rightarrow> b) = bytes_of disk @ bytes_of rest \<and>
        rs_synced s = length (bytes_of disk) \<and> set (rs_acked s) \<subseteq> whole encode disk) \<and>
     distinct (rs_acked s) \<and>
     (case rs_proc s of None \<Rightarrow> True
      | Some used \<Rightarrow> set (rs_acked s) \<subseteq> set used \<and> distinct used \<and> length used \<le> max_replay_entries)"

text \<open>What one reservation does, by cases.\<close>

lemma replay_reserve_cases:
  assumes "replay_reserve encode H path used bytes digest = (res, used', bytes')"
  obtains (failed) e piece where "res = Err e" "used' = used" "replay_digest_ok digest \<or> piece = []"
      "prefix piece (encode digest @ [newline])"
      "(case bytes' of None \<Rightarrow> [] | Some b \<Rightarrow> b) = (case bytes of None \<Rightarrow> [] | Some b \<Rightarrow> b) @ piece"
  | (acknowledged) "res = Ok ()" "used' = digest # used" "replay_digest_ok digest" "digest \<notin> set used"
      "length used < max_replay_entries"
      "bytes' = Some ((case bytes of None \<Rightarrow> [] | Some b \<Rightarrow> b) @ encode digest @ [newline])"
proof -
  consider (quiet) e where "Err e = res" "used' = used"
      "bytes' = bytes \<or> bytes' = Some (case bytes of None \<Rightarrow> [] | Some b \<Rightarrow> b)"
    | (torn) e where "Err e = res" "used' = used" "replay_digest_ok digest"
      "bytes' = Some ((case bytes of None \<Rightarrow> [] | Some b \<Rightarrow> b) @ replay_append encode H digest)"
    | (ok) "res = Ok ()" "used' = digest # used" "replay_digest_ok digest" "digest \<notin> set used"
      "length used < max_replay_entries" "rh_written H = None"
      "bytes' = Some ((case bytes of None \<Rightarrow> [] | Some b \<Rightarrow> b) @ replay_append encode H digest)"
    using assms unfolding replay_reserve_def replay_validate_digest_def ensure_def
    by (auto simp: Let_def split: if_splits option.splits result.splits)
  then show thesis
  proof cases
    case quiet
    then show thesis using failed [of e "[]"] by auto
  next
    case torn
    have "prefix (replay_append encode H digest) (encode digest @ [newline])"
      by (simp add: replay_append_def take_is_prefix del: take_append prefix_snoc split: option.splits)
    with torn show thesis by (intro failed) (auto simp del: prefix_snoc)
  next
    case ok
    then show thesis using acknowledged by (simp add: replay_append_def)
  qed
qed

lemma reserve_in_inv:
  assumes inv: "replay_inv encode s" and proc: "rs_proc s = Some used"
  shows "replay_inv encode (reserve_in encode path H digest used s)"
proof -
  obtain res used' bytes where step: "replay_reserve encode H path used (rs_file s) digest = (res, used', bytes)"
    by (metis prod_cases3)
  from inv obtain disk rest where disk: "list_all (torn encode) disk" "list_all (torn encode) rest"
      "(case rs_file s of None \<Rightarrow> [] | Some b \<Rightarrow> b) = bytes_of disk @ bytes_of rest"
      "rs_synced s = length (bytes_of disk)" "set (rs_acked s) \<subseteq> whole encode disk"
    and acked: "distinct (rs_acked s)" "set (rs_acked s) \<subseteq> set used" "distinct used"
      "length used \<le> max_replay_entries"
    using proc by (auto simp: replay_inv_def)
  show ?thesis
    using step
  proof (cases rule: replay_reserve_cases)
    case (failed e piece)
    let ?rest = "if piece = [] then rest else rest @ [(digest, piece)]"
    have "list_all (torn encode) ?rest" using disk(2) failed by (auto simp: torn_def)
    moreover have "bytes_of ?rest = bytes_of rest @ piece" by simp
    ultimately show ?thesis
      unfolding replay_inv_def using disk acked failed step
      by (intro conjI exI [of _ disk] exI [of _ ?rest]) (simp_all add: reserve_in_def)
  next
    case acknowledged
    let ?disk = "disk @ rest @ [(digest, encode digest @ [newline])]"
    have "list_all (torn encode) ?disk" using disk acknowledged by (simp add: torn_def)
    moreover have "set (digest # rs_acked s) \<subseteq> whole encode ?disk" using disk(5) by (auto simp: whole_def)
    ultimately show ?thesis
      unfolding replay_inv_def using disk acked acknowledged step
      by (intro conjI exI [of _ ?disk] exI [of _ "[]"]) (auto simp: reserve_in_def)
  qed
qed

lemma replay_open_result:
  assumes "replay_open parse H path bytes = Ok used"
  shows "(\<exists>e. rh_lstat H path = Err e) \<and> used = [] \<or>
         (\<exists>b. bytes = Some b \<and> replay_lines parse (rh_read_fault H) (buf_lines b) [] = Ok used)"
  using assms by (auto simp: replay_open_def split: result.splits option.splits if_splits)

lemma restart_in_inv:
  assumes codec: "entry_codec parse encode" and inv: "replay_inv encode s"
    and honest: "stat_honest H path (surviving kept s)"
  shows "replay_inv encode (restart_in parse path H kept s)"
proof -
  from inv obtain disk rest where disk: "list_all (torn encode) disk" "list_all (torn encode) rest"
      "(case rs_file s of None \<Rightarrow> [] | Some b \<Rightarrow> b) = bytes_of disk @ bytes_of rest"
      "rs_synced s = length (bytes_of disk)" "set (rs_acked s) \<subseteq> whole encode disk"
    and acked: "distinct (rs_acked s)"
    by (auto simp: replay_inv_def)
  obtain rest' where rest': "list_all (torn encode) rest'"
      "bytes_of rest' = take (kept - rs_synced s) (bytes_of rest)"
    using torn_take [OF disk(2)] by blast
  let ?file = "surviving kept s"
  have bytes: "(case ?file of None \<Rightarrow> [] | Some b \<Rightarrow> b) = bytes_of disk @ bytes_of rest'"
    using disk(3) rest'(2) by (cases "rs_file s") (auto simp: surviving_def disk(4) max_def)
  have proc: "set (rs_acked s) \<subseteq> set used \<and> distinct used \<and> length used \<le> max_replay_entries"
    if "replay_open parse H path ?file = Ok used" for used
    using replay_open_result [OF that]
  proof (elim disjE exE conjE)
    fix e assume "rh_lstat H path = Err e" "used = []"
    then have "bytes_of disk = []" using honest bytes by (simp add: stat_honest_def)
    then have "whole encode disk = {}" by (force simp: whole_def)
    with disk(5) \<open>used = []\<close> show ?thesis by simp
  next
    fix b assume b: "?file = Some b" and lines: "replay_lines parse (rh_read_fault H) (buf_lines b) [] = Ok used"
    have "whole encode (disk @ rest') \<subseteq> set used"
      using codec disk(1) rest'(1) lines bytes b by (intro replay_open_sees) simp_all
    then have "whole encode disk \<subseteq> set used" by (auto simp: whole_def)
    with disk(5) replay_lines_bound [OF lines] show ?thesis by auto
  qed
  show ?thesis
    unfolding replay_inv_def restart_in_def using disk(1,4,5) rest'(1) bytes acked proc
    by (intro conjI exI [of _ disk] exI [of _ rest']) (auto split: result.splits)
qed

lemma replay_reaches_inv:
  assumes "entry_codec parse encode"
  shows "replay_reaches parse encode path s \<Longrightarrow> replay_inv encode s"
proof (induction rule: replay_reaches.induct)
  case started
  show ?case
    unfolding replay_inv_def by (intro conjI exI [of _ "[]"]) (simp_all add: replay_start_def)
qed (use assms reserve_in_inv restart_in_inv in blast)+

section \<open>Properties\<close>

text \<open>A concrete reader and writer of lines, and a file system that works.\<close>

definition entry_head :: string where
  "entry_head = ''{'' @ [CHR 0x22] @ ''request_sha256'' @ [CHR 0x22] @ '':'' @ [CHR 0x22]"

definition entry_tail :: string where
  "entry_tail = [CHR 0x22] @ ''}''"

definition plain_encode :: "string \<Rightarrow> string" where
  "plain_encode d = entry_head @ d @ entry_tail"

definition plain_parse :: "string \<Rightarrow> string option" where
  "plain_parse t =
     (case strip_prefix entry_head t of
        None \<Rightarrow> None
      | Some r \<Rightarrow>
          if replay_digest_ok (take 64 r) \<and> drop 64 r = entry_tail then Some (take 64 r) else None)"

lemma hex_low_bytes:
  "replay_digest_ok d \<Longrightarrow> c \<in> set d \<Longrightarrow> 48 \<le> byte c \<and> byte c \<le> 102"
  by (auto simp: replay_digest_ok_def list_all_iff is_ascii_hexdigit_def is_ascii_digit_def)

lemma utf8_valid_ascii: "list_all (\<lambda>c. byte c < 128) s \<Longrightarrow> utf8_valid s"
  by (induction s) (simp_all add: Let_def)

lemma plain_codec: "entry_codec plain_parse plain_encode"
  unfolding entry_codec_def
proof (intro conjI allI impI)
  fix d assume d: "replay_digest_ok d"
  have len: "length d = 64" using d by (simp add: replay_digest_ok_def)
  show "plain_parse (plain_encode d) = Some d"
    using d len by (simp add: plain_parse_def plain_encode_def strip_prefix_def)
  have "list_all (\<lambda>c. byte c < 128) d" using hex_low_bytes [OF d] by (force simp: list_all_iff)
  then show "utf8_valid (plain_encode d)"
    by (intro utf8_valid_ascii) (simp add: plain_encode_def entry_head_def entry_tail_def)
  show "starts_with ''{'' (plain_encode d)" by (simp add: plain_encode_def entry_head_def starts_with_def)
  have "list_all (\<lambda>c. 34 \<le> byte c) d" using hex_low_bytes [OF d] by (force simp: list_all_iff)
  then have printable: "list_all (\<lambda>c. 34 \<le> byte c) (plain_encode d)"
    by (simp add: plain_encode_def entry_head_def entry_tail_def)
  show "newline \<notin> set (plain_encode d)" "char_of (13 :: nat) \<notin> set (plain_encode d)"
    using printable by (auto simp: list_all_iff)
next
  fix t d assume t: "plain_parse t = Some d \<and> replay_digest_ok d"
  then have "t = entry_head @ d @ entry_tail"
    by (auto simp: plain_parse_def strip_prefix_Some split: option.splits if_splits)
      (metis append_take_drop_id)
  moreover have "CHR ''{'' \<notin> set d" using t hex_low_bytes [of d "CHR ''{''"] by auto
  then have "filter ((=) (CHR ''{'')) d = []" by (auto simp: filter_empty_conv)
  ultimately show "length (filter ((=) (CHR ''{'')) t) = 1"
    by (simp add: entry_head_def entry_tail_def)
qed

definition replay_path :: string where
  "replay_path = ''/var/lib/replay.jsonl''"

definition working_host :: replay_host where
  "working_host = \<lparr>
     rh_lstat = (\<lambda>p. Ok \<lparr>md_kind = (if p = replay_path then RegularFile else DirectoryFile), md_nlink = 1,
       md_uid = 0, md_mode = (if p = replay_path then 384 else 448), md_dev = 0, md_ino = 0\<rparr>),
     rh_open_read = True, rh_read_fault = None, rh_mkdir = (\<lambda>_. True), rh_open_append = True,
     rh_fstat = Some \<lparr>md_kind = RegularFile, md_nlink = 1, md_uid = 0, md_mode = 384, md_dev = 0, md_ino = 0\<rparr>,
     rh_written = None, rh_sync = True\<rparr>"

definition first_start :: replay_host where
  "first_start = working_host\<lparr>rh_lstat := (\<lambda>p. Err IoNotFound)\<rparr>"

definition replay_sample :: string where
  "replay_sample = replicate 64 (CHR ''a'')"

lemma replay_sample_ok: "replay_digest_ok replay_sample"
  by (simp add: replay_sample_def replay_digest_ok_def list_all_iff rust_eval)

lemma first_open: "replay_open parse first_start replay_path bytes = Ok []"
  by (simp add: replay_open_def first_start_def replay_validate_path_def replay_path_def ensure_def
      path_is_absolute_def starts_with_def)

lemma working_reserve:
  "replay_digest_ok d \<Longrightarrow> d \<notin> set used \<Longrightarrow> length used < max_replay_entries \<Longrightarrow>
   replay_reserve encode working_host replay_path used bytes d =
     (Ok (), d # used, Some ((case bytes of None \<Rightarrow> [] | Some b \<Rightarrow> b) @ encode d @ [newline]))"
  by (simp add: replay_reserve_def replay_validate_digest_def ensure_def replay_parent_def replay_path_def
      replay_ensure_directory_def working_host_def mode_bits_def is_link_def journal_file_safe_def
      replay_append_def Let_def)

definition reserved_once :: "(string \<Rightarrow> string option) \<Rightarrow> (string \<Rightarrow> string) \<Rightarrow> replay_state" where
  "reserved_once parse encode =
     reserve_in encode replay_path working_host replay_sample []
       (restart_in parse replay_path first_start 0 replay_start)"

lemma reserved_once_reached: "replay_reaches parse encode replay_path (reserved_once parse encode)"
  unfolding reserved_once_def
  by (intro replay_reaches.intros)
    (simp_all add: restart_in_def first_open replay_start_def surviving_def stat_honest_def split: result.splits)

lemma reserved_once_state:
  "reserved_once parse encode =
     \<lparr>rs_file = Some (encode replay_sample @ [newline]), rs_synced = Suc (length (encode replay_sample)),
      rs_proc = Some [replay_sample], rs_acked = [replay_sample]\<rparr>"
  by (simp add: reserved_once_def reserve_in_def restart_in_def first_open replay_start_def surviving_def
      working_reserve replay_sample_ok max_replay_entries_def)



text \<open>
  The journal remembers: in every state a broker can be in, a running process knows at most 4096
  digests, among them every acknowledged one, and refuses to reserve any of those again, whatever the
  file system does during the attempt.
\<close>

lemma replay_refused:
  assumes "entry_codec parse encode" and "replay_reaches parse encode path s"
    and "rs_proc s = Some used" and "digest \<in> set (rs_acked s)"
  shows "length used \<le> max_replay_entries \<and>
    (\<exists>e. replay_reserve encode H path used (rs_file s) digest = (Err e, used, rs_file s))"
proof -
  have "digest \<in> set used" "length used \<le> max_replay_entries"
    using replay_reaches_inv [OF assms(1,2)] assms(3,4) by (auto simp: replay_inv_def)
  then show ?thesis by (auto simp: replay_reserve_def split: result.splits)
qed



end
