(* ===== verification/Caller_Auth.thy ===== *)
theory Caller_Auth
  imports Prelude
begin

unbundle bit_operations_syntax

text \<open>
  The challenge-response handshake between a caller and the privileged WireGuard broker
  (\<open>wireguard/caller_auth.rs\<close>): challenges, the keyed proof over their transcript, its verification
  in constant time, and the guard that makes every challenge answerable once. SHA-256 is the
  argument \<open>sha\<close>, from bytes to bytes; random bytes are arguments of the operations that draw them.
\<close>

section \<open>Bytes\<close>

type_synonym u8 = "8 word"

definition str_bytes :: "string \<Rightarrow> u8 list" where
  "str_bytes s = map (\<lambda>c. of_nat (byte c)) s"

definition to_be_bytes :: "64 word \<Rightarrow> u8 list" where
  "to_be_bytes x = map (\<lambda>i. ucast (drop_bit (8 * i) x)) [7, 6, 5, 4, 3, 2, 1, 0]"

definition hex_alphabet :: string where
  "hex_alphabet = ''0123456789abcdef''"

definition encode_hex :: "u8 list \<Rightarrow> string" where
  "encode_hex bs =
     concat (map (\<lambda>b. [hex_alphabet ! unat (drop_bit 4 b), hex_alphabet ! unat (b AND 15)]) bs)"

definition hex_digit :: "char \<Rightarrow> u8 option" where
  "hex_digit c =
     (if 48 \<le> byte c \<and> byte c \<le> 57 then Some (of_nat (byte c - 48))
      else if 97 \<le> byte c \<and> byte c \<le> 102 then Some (of_nat (byte c - 97 + 10))
      else None)"

fun decode_pairs :: "string \<Rightarrow> u8 list option" where
  "decode_pairs (a # b # r) =
     (case (hex_digit a, hex_digit b) of
        (Some x, Some y) \<Rightarrow> map_option (\<lambda>bs. (push_bit 4 x OR y) # bs) (decode_pairs r)
      | _ \<Rightarrow> None)"
| "decode_pairs _ = Some []"

definition decode_hex :: "nat \<Rightarrow> string \<Rightarrow> u8 list option" where
  "decode_hex n value = (if length value \<noteq> n * 2 then None else decode_pairs value)"

definition constant_time_equal :: "u8 list \<Rightarrow> u8 list \<Rightarrow> bool" where
  "constant_time_equal left right =
     (foldl (\<lambda>difference (a, b). difference OR (a XOR b)) 0 (zip left right) = 0)"

text \<open>HMAC over the given hash: keys longer than a block are hashed first.\<close>

definition hmac_sha256 :: "(u8 list \<Rightarrow> u8 list) \<Rightarrow> u8 list \<Rightarrow> u8 list \<Rightarrow> u8 list" where
  "hmac_sha256 sha key message =
     (let material = (if length key > 64 then sha key else key);
          key_block = material @ replicate (64 - length material) 0;
          inner = map (\<lambda>b. b XOR 0x36) key_block;
          outer = map (\<lambda>b. b XOR 0x5c) key_block
      in sha (outer @ sha (inner @ message)))"

section \<open>Challenges and responses\<close>

record auth_challenge =
  ac_protocol_version :: "32 word"
  ac_challenge_id :: string
  ac_nonce :: string
  ac_expires_at_unix :: "64 word"
  ac_broker_instance :: string

record auth_response =
  ar_protocol_version :: "32 word"
  ar_challenge_id :: string
  ar_caller :: string
  ar_request :: string
  ar_proof :: string

definition is_hex_digest :: "string \<Rightarrow> bool" where
  "is_hex_digest v \<longleftrightarrow>
     length v = 64 \<and> list_all (\<lambda>b. is_ascii_digit b \<or> 97 \<le> byte b \<and> byte b \<le> 102) v"

definition auth_validate_digest :: "string \<Rightarrow> (unit, string) result" where
  "auth_validate_digest v = ensure (is_hex_digest v) ''wireguard_authentication_invalid''"

definition validate_challenge_shape :: "auth_challenge \<Rightarrow> (unit, string) result" where
  "validate_challenge_shape c =
     ensure (\<not> (ac_protocol_version c \<noteq> 1 \<or> \<not> is_hex_digest (ac_challenge_id c) \<or>
                \<not> is_hex_digest (ac_nonce c) \<or> \<not> is_hex_digest (ac_broker_instance c)))
       ''wireguard_authentication_invalid''"

definition validate_challenge :: "auth_challenge \<Rightarrow> 64 word \<Rightarrow> (unit, string) result" where
  "validate_challenge c now =
     (case validate_challenge_shape c of
        Err e \<Rightarrow> Err e
      | Ok _ \<Rightarrow>
          ensure (\<not> (ac_expires_at_unix c < now \<or> ac_expires_at_unix c - now > 30))
            ''wireguard_authentication_expired'')"

definition validate_response :: "auth_response \<Rightarrow> (unit, string) result" where
  "validate_response r =
     ensure (\<not> (ar_protocol_version r \<noteq> 1 \<or> \<not> is_hex_digest (ar_challenge_id r) \<or>
                \<not> is_hex_digest (ar_caller r) \<or> \<not> is_hex_digest (ar_request r) \<or>
                \<not> is_hex_digest (ar_proof r)))
       ''wireguard_authentication_invalid''"

definition auth_transcript :: "auth_challenge \<Rightarrow> string \<Rightarrow> string \<Rightarrow> u8 list" where
  "auth_transcript c caller request =
     str_bytes ''agent-remote:wireguard:caller-auth:v1'' @ [0] @
     str_bytes (ac_challenge_id c) @ [0] @ str_bytes (ac_nonce c) @ [0] @
     to_be_bytes (ac_expires_at_unix c) @ str_bytes (ac_broker_instance c) @ [0] @
     str_bytes caller @ [0] @ str_bytes request"

definition auth_proof ::
  "(u8 list \<Rightarrow> u8 list) \<Rightarrow> auth_challenge \<Rightarrow> string \<Rightarrow> string \<Rightarrow> u8 list \<Rightarrow> u8 list" where
  "auth_proof sha c caller request credential = hmac_sha256 sha credential (auth_transcript c caller request)"

definition credential_ok :: "u8 list \<Rightarrow> bool" where
  "credential_ok credential \<longleftrightarrow> \<not> (credential = [] \<or> length credential > 4096)"

definition verify_response ::
  "(u8 list \<Rightarrow> u8 list) \<Rightarrow> auth_challenge \<Rightarrow> auth_response \<Rightarrow> string \<Rightarrow> string \<Rightarrow> u8 list \<Rightarrow> 64 word \<Rightarrow>
     (unit, string) result" where
  "verify_response sha c r caller request credential now =
     (case validate_challenge c now of Err e \<Rightarrow> Err e | Ok _ \<Rightarrow>
      case validate_response r of Err e \<Rightarrow> Err e | Ok _ \<Rightarrow>
      case auth_validate_digest caller of Err e \<Rightarrow> Err e | Ok _ \<Rightarrow>
      case auth_validate_digest request of Err e \<Rightarrow> Err e | Ok _ \<Rightarrow>
        if ar_challenge_id r \<noteq> ac_challenge_id c \<or> ar_caller r \<noteq> caller \<or> ar_request r \<noteq> request
        then Err ''wireguard_authentication_mismatch''
        else if \<not> credential_ok credential then Err ''wireguard_authentication_invalid''
        else case decode_hex 32 (ar_proof r) of
          None \<Rightarrow> Err ''wireguard_authentication_invalid''
        | Some supplied \<Rightarrow>
            ensure (constant_time_equal (auth_proof sha c caller request credential) supplied)
              ''wireguard_authentication_failed'')"

definition make_response ::
  "(u8 list \<Rightarrow> u8 list) \<Rightarrow> auth_challenge \<Rightarrow> string \<Rightarrow> string \<Rightarrow> u8 list \<Rightarrow> (auth_response, string) result" where
  "make_response sha c caller request credential =
     (case validate_challenge_shape c of Err e \<Rightarrow> Err e | Ok _ \<Rightarrow>
      case auth_validate_digest caller of Err e \<Rightarrow> Err e | Ok _ \<Rightarrow>
      case auth_validate_digest request of Err e \<Rightarrow> Err e | Ok _ \<Rightarrow>
        if \<not> credential_ok credential then Err ''wireguard_authentication_invalid''
        else Ok \<lparr>ar_protocol_version = 1, ar_challenge_id = ac_challenge_id c, ar_caller = caller,
                 ar_request = request, ar_proof = encode_hex (auth_proof sha c caller request credential)\<rparr>)"

text \<open>\<open>random\<close> gives the two 32-byte draws, or nothing when the generator fails.\<close>

definition new_challenge :: "(u8 list \<times> u8 list) option \<Rightarrow> string \<Rightarrow> 64 word \<Rightarrow> (auth_challenge, string) result" where
  "new_challenge random broker now =
     (case auth_validate_digest broker of
        Err e \<Rightarrow> Err e
      | Ok _ \<Rightarrow>
          if unat now + 30 \<ge> 2 ^ 64 then Err ''wireguard_authentication_invalid''
          else case random of
            None \<Rightarrow> Err ''wireguard_authentication_unavailable''
          | Some (challenge_id, nonce) \<Rightarrow>
              Ok \<lparr>ac_protocol_version = 1, ac_challenge_id = encode_hex challenge_id,
                  ac_nonce = encode_hex nonce, ac_expires_at_unix = now + 30,
                  ac_broker_instance = broker\<rparr>)"

section \<open>The replay guard\<close>

record replay_guard =
  rg_pending :: "(string \<times> auth_challenge) list"
  rg_used :: "(string \<times> 64 word) list"

definition empty_guard :: replay_guard where
  "empty_guard = \<lparr>rg_pending = [], rg_used = []\<rparr>"

definition prune :: "64 word \<Rightarrow> replay_guard \<Rightarrow> replay_guard" where
  "prune now g =
     \<lparr>rg_pending = filter (\<lambda>(_, c). ac_expires_at_unix c \<ge> now) (rg_pending g),
      rg_used = filter (\<lambda>(_, expires). expires \<ge> now) (rg_used g)\<rparr>"

definition guard_register :: "auth_challenge \<Rightarrow> 64 word \<Rightarrow> replay_guard \<Rightarrow> (unit, string) result \<times> replay_guard" where
  "guard_register c now g0 =
     (let g = prune now g0 in
      case validate_challenge c now of
        Err e \<Rightarrow> (Err e, g)
      | Ok _ \<Rightarrow>
          if ac_challenge_id c \<in> fst ` set (rg_pending g) \<or> ac_challenge_id c \<in> fst ` set (rg_used g)
          then (Err ''wireguard_authentication_replayed'', g)
          else if length (rg_pending g) + length (rg_used g) \<ge> 4096
          then (Err ''wireguard_authentication_unavailable'', g)
          else (Ok (), g\<lparr>rg_pending := (ac_challenge_id c, c) # rg_pending g\<rparr>))"

definition guard_consume ::
  "(u8 list \<Rightarrow> u8 list) \<Rightarrow> auth_challenge \<Rightarrow> auth_response \<Rightarrow> string \<Rightarrow> string \<Rightarrow> u8 list \<Rightarrow> 64 word \<Rightarrow>
     replay_guard \<Rightarrow> (unit, string) result \<times> replay_guard" where
  "guard_consume sha c r caller request credential now g0 =
     (let g = prune now g0 in
      case validate_challenge_shape c of Err e \<Rightarrow> (Err e, g) | Ok _ \<Rightarrow>
      case validate_response r of Err e \<Rightarrow> (Err e, g) | Ok _ \<Rightarrow>
        if ac_challenge_id c \<in> fst ` set (rg_used g) then (Err ''wireguard_authentication_replayed'', g)
        else case map_of (rg_pending g) (ac_challenge_id c) of
          None \<Rightarrow> (Err ''wireguard_authentication_unknown_challenge'', g)
        | Some registered \<Rightarrow>
            if registered \<noteq> c then (Err ''wireguard_authentication_mismatch'', g)
            else case verify_response sha c r caller request credential now of
              Err e \<Rightarrow> (Err e, g)
            | Ok _ \<Rightarrow>
                (Ok (), \<lparr>rg_pending = filter (\<lambda>(k, _). k \<noteq> ac_challenge_id c) (rg_pending g),
                         rg_used = (ac_challenge_id c, ac_expires_at_unix c) # rg_used g\<rparr>))"

section \<open>Hexadecimal text and constant-time comparison\<close>

lemma hex_alphabet_digit:
  "n < 16 \<Longrightarrow> hex_digit (hex_alphabet ! n) = Some (of_nat n)"
proof -
  assume "n < 16"
  then have "n \<in> set [0..<16]" by simp
  moreover have "list_all (\<lambda>n. hex_digit (hex_alphabet ! n) = Some (of_nat n)) [0..<16]"
    by (simp add: upt_rec hex_alphabet_def hex_digit_def)
  ultimately show ?thesis by (simp only: list_all_iff)
qed

lemma hex_digit_alphabet:
  assumes "hex_digit c = Some x"
  shows "unat x < 16 \<and> hex_alphabet ! unat x = c"
proof -
  have table: "list_all (\<lambda>n. hex_alphabet ! n = char_of (if n < 10 then n + 48 else n + 87)) [0..<16]"
    by code_simp
  define n where "n = (if byte c \<le> 57 then byte c - 48 else byte c - 87)"
  have "n < 16 \<and> (if n < 10 then n + 48 else n + 87) = byte c \<and> x = of_nat n"
    using assms by (auto simp: hex_digit_def n_def split: if_splits)
  then have n: "n \<in> set [0..<16]" "(if n < 10 then n + 48 else n + 87) = byte c" "x = of_nat n" by auto
  then have "hex_alphabet ! n = char_of (byte c)" using table by (simp only: list_all_iff)
  moreover have "unat x = n" using n by (simp add: unat_of_nat)
  ultimately show ?thesis using n by simp
qed

lemma fifteen_mask: "(15 :: u8) = mask 4"
  by (simp add: mask_eq_exp_minus_1)

lemma nibbles: "push_bit 4 (drop_bit 4 b) OR (b AND 15) = (b :: u8)"
  unfolding fifteen_mask take_bit_eq_mask [symmetric] by (rule bit_eqI) (auto simp: bit_simps)

lemma nibble_high: "unat (drop_bit 4 (b :: u8)) < 16"
proof -
  have "unat b < 2 ^ 8" using unsigned_less [of b] by simp
  then show ?thesis by (simp add: drop_bit_eq_div unat_div_distrib)
qed

lemma nibble_low: "unat (b AND 15 :: u8) < 16"
  unfolding fifteen_mask take_bit_eq_mask [symmetric]
  by (simp add: take_bit_eq_mod unat_mod_distrib)

lemma decode_encode_hex [simp]: "decode_pairs (encode_hex bs) = Some bs"
proof (induction bs)
  case (Cons b bs)
  then show ?case
    by (simp add: encode_hex_def hex_alphabet_digit [OF nibble_high] hex_alphabet_digit [OF nibble_low] nibbles)
qed (simp add: encode_hex_def)

lemma length_encode_hex: "length (encode_hex bs) = 2 * length bs"
  by (induction bs) (simp_all add: encode_hex_def)

lemma joined_nibbles:
  assumes "unat x < 16" and "unat y < 16"
  shows "drop_bit 4 (push_bit 4 x OR y) = (x :: u8)" "(push_bit 4 x OR y) AND 15 = (y :: u8)"
proof -
  have "take_bit 4 x = x" "take_bit 4 y = y"
    using assms by (simp_all add: word_unat_eq_iff take_bit_eq_mod unat_mod_distrib)
  then have high: "bit x n \<longleftrightarrow> n < 4 \<and> bit x n" "bit y n \<longleftrightarrow> n < 4 \<and> bit y n" for n
    by (metis bit_take_bit_iff)+
  show "drop_bit 4 (push_bit 4 x OR y) = x"
  proof (rule bit_eqI)
    fix n
    have "\<not> bit y (4 + n)" using high(2) by auto
    then show "bit (drop_bit 4 (push_bit 4 x OR y)) n \<longleftrightarrow> bit x n"
      using high(1) [of n] by (auto simp: bit_simps)
  qed
  show "(push_bit 4 x OR y) AND 15 = y"
    unfolding fifteen_mask take_bit_eq_mask [symmetric]
  proof (rule bit_eqI)
    fix n
    show "bit (take_bit 4 (push_bit 4 x OR y)) n \<longleftrightarrow> bit y n"
      using high(2) [of n] by (auto simp: bit_simps)
  qed
qed

lemma decode_pairs_encode:
  "decode_pairs s = Some bs \<Longrightarrow> even (length s) \<Longrightarrow> encode_hex bs = s"
proof (induction s arbitrary: bs rule: decode_pairs.induct)
  case (1 a b r)
  then obtain x y rest where digits: "hex_digit a = Some x" "hex_digit b = Some y"
    and rest: "decode_pairs r = Some rest" and bs: "bs = (push_bit 4 x OR y) # rest"
    by (auto split: option.splits)
  note hex = hex_digit_alphabet [OF digits(1)] hex_digit_alphabet [OF digits(2)]
  have "encode_hex rest = r" using 1 digits rest by simp
  with hex joined_nibbles show ?case by (simp add: encode_hex_def bs)
qed (simp_all add: encode_hex_def)

lemma is_hex_digest_digits: "is_hex_digest v \<Longrightarrow> list_all (\<lambda>c. hex_digit c \<noteq> None) v"
  by (auto simp: is_hex_digest_def list_all_iff hex_digit_def is_ascii_digit_def)

lemma decode_pairs_total: "list_all (\<lambda>c. hex_digit c \<noteq> None) v \<Longrightarrow> \<exists>bs. decode_pairs v = Some bs"
  by (induction v rule: decode_pairs.induct) (auto split: option.splits)

text \<open>Of 64 digits exactly one text stands for a given 32 bytes.\<close>

lemma decode_hex_digest:
  assumes "is_hex_digest v"
  shows "decode_hex 32 v = Some bs \<longleftrightarrow> v = encode_hex bs"
proof
  have len: "length v = 64" using assms by (simp add: is_hex_digest_def)
  then show "v = encode_hex bs" if "decode_hex 32 v = Some bs"
    using that decode_pairs_encode [of v bs] by (simp add: decode_hex_def)
  show "decode_hex 32 v = Some bs" if "v = encode_hex bs"
    using that len by (simp add: decode_hex_def)
qed

lemma encode_hex_digest:
  assumes "length bs = 32"
  shows "is_hex_digest (encode_hex bs)"
proof -
  have "list_all (\<lambda>b. is_ascii_digit b \<or> 97 \<le> byte b \<and> byte b \<le> 102) (encode_hex bs)"
  proof (induction bs)
    case (Cons b bs)
    have "hex_digit (hex_alphabet ! unat (drop_bit 4 b)) \<noteq> None" "hex_digit (hex_alphabet ! unat (b AND 15)) \<noteq> None"
      by (simp_all add: hex_alphabet_digit [OF nibble_high] hex_alphabet_digit [OF nibble_low])
    with Cons show ?case
      by (auto simp: encode_hex_def hex_digit_def is_ascii_digit_def split: if_splits)
  qed (simp add: encode_hex_def)
  with assms show ?thesis by (simp add: is_hex_digest_def length_encode_hex)
qed

text \<open>The comparison that looks at every byte is equality.\<close>

lemma xor_eq_0: "(a XOR b = 0) = (a = (b :: u8))"
proof
  assume "a XOR b = 0"
  then have "(a XOR b) XOR b = b" by simp
  then show "a = b" by (simp add: xor.assoc)
qed simp

lemma constant_time_fold:
  "length (left :: u8 list) = length right \<Longrightarrow>
     foldl (\<lambda>difference (a, b). difference OR (a XOR b)) d (zip left right) = 0 \<longleftrightarrow> d = 0 \<and> left = right"
proof (induction left arbitrary: d right)
  case (Cons a left)
  then obtain b right' where "right = b # right'" by (cases right) auto
  with Cons show ?case by (auto simp: or_eq_0_iff xor_eq_0)
qed simp

lemma constant_time_equal_iff: "length left = length right \<Longrightarrow> constant_time_equal left right \<longleftrightarrow> left = right"
  by (simp add: constant_time_equal_def constant_time_fold)

text \<open>\<open>Sha256\<close> gives 32 bytes.\<close>

definition sha_lawful :: "(u8 list \<Rightarrow> u8 list) \<Rightarrow> bool" where
  "sha_lawful sha \<longleftrightarrow> (\<forall>m. length (sha m) = 32)"

lemma length_auth_proof: "sha_lawful sha \<Longrightarrow> length (auth_proof sha c caller request credential) = 32"
  by (simp add: auth_proof_def hmac_sha256_def sha_lawful_def Let_def)

section \<open>What the guard keeps\<close>

text \<open>
  Ids are unique and disjoint, challenges are filed under their id, at most 4096 are held, and
  every consumed challenge is still remembered or has expired.
\<close>

definition guard_ok :: "64 word \<Rightarrow> auth_challenge list \<Rightarrow> replay_guard \<Rightarrow> bool" where
  "guard_ok now consumed g \<longleftrightarrow>
     distinct (map fst (rg_pending g) @ map fst (rg_used g)) \<and>
     list_all (\<lambda>(k, c). k = ac_challenge_id c) (rg_pending g) \<and>
     length (rg_pending g) + length (rg_used g) \<le> 4096 \<and>
     distinct consumed \<and>
     list_all (\<lambda>c. ac_expires_at_unix c < now \<or> (ac_challenge_id c, ac_expires_at_unix c) \<in> set (rg_used g)) consumed"

lemma guard_ok_prune:
  assumes "guard_ok before consumed g" and "before \<le> now"
  shows "guard_ok now consumed (prune now g)"
proof -
  have "distinct (map fst (rg_pending (prune now g)) @ map fst (rg_used (prune now g)))"
    using assms(1) by (auto simp: guard_ok_def prune_def distinct_map_filter)
  moreover have "length (rg_pending (prune now g)) + length (rg_used (prune now g)) \<le> 4096"
    using assms(1) by (auto simp: guard_ok_def prune_def intro: order.trans [OF add_mono [OF length_filter_le length_filter_le]])
  ultimately show ?thesis
    using assms by (auto simp: guard_ok_def prune_def list_all_iff not_le)
qed

lemma guard_register_ok:
  assumes "guard_ok before consumed g" and "before \<le> now" and "guard_register c now g = (r, g')"
  shows "guard_ok now consumed g'"
proof -
  have "g' = prune now g \<or>
    ac_challenge_id c \<notin> set (map fst (rg_pending (prune now g)) @ map fst (rg_used (prune now g))) \<and>
    length (rg_pending (prune now g)) + length (rg_used (prune now g)) < 4096 \<and>
    g' = (prune now g)\<lparr>rg_pending := (ac_challenge_id c, c) # rg_pending (prune now g)\<rparr>"
    using assms(3) by (auto simp: guard_register_def Let_def split: result.splits if_splits)
  with guard_ok_prune [OF assms(1,2)] show ?thesis
    by (elim disjE conjE) (simp_all add: guard_ok_def)
qed

lemma guard_consume_Ok:
  assumes "guard_consume sha c r caller request credential now g = (Ok u, g')"
  shows "verify_response sha c r caller request credential now = Ok ()"
    "ac_challenge_id c \<notin> fst ` set (rg_used (prune now g))"
    "map_of (rg_pending (prune now g)) (ac_challenge_id c) = Some c"
    "g' = \<lparr>rg_pending = filter (\<lambda>(k, _). k \<noteq> ac_challenge_id c) (rg_pending (prune now g)),
           rg_used = (ac_challenge_id c, ac_expires_at_unix c) # rg_used (prune now g)\<rparr>"
  using assms by (auto simp: guard_consume_def Let_def split: result.splits if_splits option.splits)

lemma guard_consume_Err:
  assumes "guard_consume sha c r caller request credential now g = (Err e, g')"
  shows "g' = prune now g"
  using assms by (auto simp: guard_consume_def Let_def split: result.splits if_splits option.splits)

lemma verify_response_fresh:
  "verify_response sha c r caller request credential now = Ok u \<Longrightarrow> now \<le> ac_expires_at_unix c"
  by (auto simp: verify_response_def validate_challenge_def ensure_def split: result.splits if_splits)

lemma length_filter_member:
  "map_of xs k = Some v \<Longrightarrow> length (filter (\<lambda>(j, _). j \<noteq> k) xs) < length xs"
  by (induction xs) (auto simp: le_imp_less_Suc split: if_splits)

lemma guard_consume_ok:
  assumes "guard_ok before consumed g" and "before \<le> now"
    and "guard_consume sha c r caller request credential now g = (Ok u, g')"
  shows "guard_ok now (c # consumed) g'"
proof -
  let ?g = "prune now g"
  note ok = guard_ok_prune [OF assms(1,2)] and step = guard_consume_Ok [OF assms(3)]
  have fresh: "c \<notin> set consumed"
  proof
    assume "c \<in> set consumed"
    with ok have "ac_expires_at_unix c < now \<or> (ac_challenge_id c, ac_expires_at_unix c) \<in> set (rg_used ?g)"
      by (simp add: guard_ok_def list_all_iff)
    with step(2) verify_response_fresh [OF step(1)] show False by (auto simp: image_iff)
  qed
  have "length (rg_pending g') + length (rg_used g') \<le> 4096"
    using ok length_filter_member [OF step(3)] by (simp add: step(4) guard_ok_def)
  moreover have "distinct (map fst (rg_pending g') @ map fst (rg_used g'))"
    using ok step(2) by (auto simp: step(4) guard_ok_def distinct_map_filter)
  moreover have "list_all (\<lambda>(k, c). k = ac_challenge_id c) (rg_pending g')"
    using ok by (auto simp: step(4) guard_ok_def list_all_iff)
  moreover have "list_all (\<lambda>c. ac_expires_at_unix c < now \<or>
      (ac_challenge_id c, ac_expires_at_unix c) \<in> set (rg_used g')) (c # consumed)"
    using ok by (auto simp: step(4) guard_ok_def list_all_iff)
  ultimately show ?thesis using ok fresh by (simp add: guard_ok_def)
qed

inductive guard_reaches :: "(u8 list \<Rightarrow> u8 list) \<Rightarrow> 64 word \<Rightarrow> auth_challenge list \<Rightarrow> replay_guard \<Rightarrow> bool"
  for sha where
  empty: "guard_reaches sha now [] empty_guard"
| registered: "guard_reaches sha before consumed g \<Longrightarrow> before \<le> now \<Longrightarrow>
    guard_register c now g = (res, g') \<Longrightarrow> guard_reaches sha now consumed g'"
| accepted: "guard_reaches sha before consumed g \<Longrightarrow> before \<le> now \<Longrightarrow>
    guard_consume sha c r caller request credential now g = (Ok u, g') \<Longrightarrow>
    guard_reaches sha now (c # consumed) g'"
| refused: "guard_reaches sha before consumed g \<Longrightarrow> before \<le> now \<Longrightarrow>
    guard_consume sha c r caller request credential now g = (Err e, g') \<Longrightarrow>
    guard_reaches sha now consumed g'"

lemma guard_reaches_ok: "guard_reaches sha now consumed g \<Longrightarrow> guard_ok now consumed g"
proof (induction rule: guard_reaches.induct)
  case (refused before consumed g now c r caller request credential e g')
  then show ?case using guard_ok_prune [of before consumed g now] guard_consume_Err by blast
next
  case (registered before consumed g now c res g')
  show ?case by (rule guard_register_ok [OF registered.IH registered.hyps(2,3)])
next
  case (accepted before consumed g now c r caller request credential u g')
  show ?case by (rule guard_consume_ok [OF accepted.IH accepted.hyps(2,3)])
qed (simp add: guard_ok_def empty_guard_def)

section \<open>Verification and the transcript\<close>

lemma make_response_Ok:
  "make_response sha c caller request credential = Ok r \<longleftrightarrow>
     validate_challenge_shape c = Ok () \<and> is_hex_digest caller \<and> is_hex_digest request \<and>
     credential_ok credential \<and>
     r = \<lparr>ar_protocol_version = 1, ar_challenge_id = ac_challenge_id c, ar_caller = caller,
          ar_request = request, ar_proof = encode_hex (auth_proof sha c caller request credential)\<rparr>"
  by (auto simp: make_response_def auth_validate_digest_def ensure_def split: result.splits if_splits)

lemma validate_challenge_Ok:
  "validate_challenge c now = Ok () \<longleftrightarrow>
     validate_challenge_shape c = Ok () \<and> now \<le> ac_expires_at_unix c \<and> ac_expires_at_unix c - now \<le> 30"
  by (auto simp: validate_challenge_def ensure_def not_le split: result.splits if_splits)

lemma verify_response_cases:
  assumes "sha_lawful sha"
  shows "verify_response sha c r caller request credential now = Ok () \<longleftrightarrow>
    validate_challenge c now = Ok () \<and> make_response sha c caller request credential = Ok r"
proof -
  let ?p = "auth_proof sha c caller request credential"
  have len: "length ?p = 32" by (rule length_auth_proof [OF assms])
  have equal: "constant_time_equal ?p supplied \<longleftrightarrow> ?p = supplied"
    if "is_hex_digest (ar_proof r)" "decode_hex 32 (ar_proof r) = Some supplied" for supplied
  proof (rule constant_time_equal_iff)
    from that(1,2) have "ar_proof r = encode_hex supplied" using decode_hex_digest by blast
    with that(1) show "length ?p = length supplied"
      using len length_encode_hex [of supplied] by (simp add: is_hex_digest_def)
  qed
  show ?thesis
  proof
    assume "verify_response sha c r caller request credential now = Ok ()"
    then obtain supplied where facts: "validate_challenge c now = Ok ()" "validate_response r = Ok ()"
        "is_hex_digest caller" "is_hex_digest request" "ar_challenge_id r = ac_challenge_id c"
        "ar_caller r = caller" "ar_request r = request" "credential_ok credential"
        "decode_hex 32 (ar_proof r) = Some supplied" "constant_time_equal ?p supplied"
      by (auto simp: verify_response_def auth_validate_digest_def ensure_def
          split: result.splits if_splits option.splits)
    have shape: "ar_protocol_version r = 1" "is_hex_digest (ar_proof r)"
      using facts(2) by (auto simp: validate_response_def ensure_def split: if_splits)
    then have "ar_proof r = encode_hex ?p"
      using facts(9,10) equal decode_hex_digest by blast
    with facts shape show "validate_challenge c now = Ok () \<and> make_response sha c caller request credential = Ok r"
      by (simp add: make_response_Ok validate_challenge_Ok)
  next
    assume "validate_challenge c now = Ok () \<and> make_response sha c caller request credential = Ok r"
    then show "verify_response sha c r caller request credential now = Ok ()"
      using encode_hex_digest [OF len] len constant_time_equal_iff [of ?p ?p]
      by (auto simp: make_response_Ok verify_response_def validate_response_def ensure_def
          auth_validate_digest_def validate_challenge_shape_def decode_hex_def length_encode_hex
          split: if_splits)
  qed
qed

lemma str_bytes_inj: "str_bytes a = str_bytes b \<Longrightarrow> a = b"
  unfolding str_bytes_def
proof (rule map_injective)
  show "inj (\<lambda>c. of_nat (byte c) :: u8)"
  proof (rule injI)
    fix c d :: char assume "(of_nat (byte c) :: u8) = of_nat (byte d)"
    then have "unat (of_nat (byte c) :: u8) = unat (of_nat (byte d) :: u8)" by simp
    then have "byte c = byte d" using nat_of_char_less_256 [of c] nat_of_char_less_256 [of d] by (simp add: unat_of_nat)
    then show "c = d" by simp
  qed
qed

lemma to_be_bytes_inj: "to_be_bytes x = to_be_bytes y \<Longrightarrow> x = y"
proof (rule bit_word_eqI)
  fix n assume eq: "to_be_bytes x = to_be_bytes y" and n: "n < LENGTH(64)"
  let ?i = "n div 8"
  have "?i \<in> set [0..<8]" using n by auto
  moreover have "list_all (\<lambda>i. ucast (drop_bit (8 * i) x) = (ucast (drop_bit (8 * i) y) :: u8)) [0..<8]"
    using eq by (simp add: to_be_bytes_def upt_rec)
  ultimately have "ucast (drop_bit (8 * ?i) x) = (ucast (drop_bit (8 * ?i) y) :: u8)"
    by (simp only: list_all_iff)
  then have "bit (ucast (drop_bit (8 * ?i) x) :: u8) (n mod 8) = bit (ucast (drop_bit (8 * ?i) y) :: u8) (n mod 8)"
    by simp
  then show "bit x n = bit y n" by (simp add: bit_simps)
qed

lemma length_str_bytes [simp]: "length (str_bytes s) = length s"
  by (simp add: str_bytes_def)

lemma length_to_be_bytes [simp]: "length (to_be_bytes x) = 8"
  by (simp add: to_be_bytes_def)

section \<open>Properties\<close>

definition sample_sha :: "u8 list \<Rightarrow> u8 list" where
  "sample_sha m = replicate 32 (of_nat (length m))"

lemma sample_sha_lawful: "sha_lawful sample_sha"
  by (simp add: sha_lawful_def sample_sha_def)

definition hex_sample :: "char \<Rightarrow> string" where
  "hex_sample c = replicate 64 c"

definition sample_challenge :: auth_challenge where
  "sample_challenge = \<lparr>ac_protocol_version = 1, ac_challenge_id = hex_sample (CHR ''1''),
     ac_nonce = hex_sample (CHR ''2''), ac_expires_at_unix = 30, ac_broker_instance = hex_sample (CHR ''3'')\<rparr>"

definition sample_answer :: auth_response where
  "sample_answer = \<lparr>ar_protocol_version = 1, ar_challenge_id = ac_challenge_id sample_challenge,
     ar_caller = hex_sample (CHR ''a''), ar_request = hex_sample (CHR ''b''),
     ar_proof = encode_hex (auth_proof sample_sha sample_challenge (hex_sample (CHR ''a'')) (hex_sample (CHR ''b'')) [7])\<rparr>"

lemma hex_sample_ok:
  "is_hex_digest (hex_sample (CHR ''1''))" "is_hex_digest (hex_sample (CHR ''2''))"
  "is_hex_digest (hex_sample (CHR ''3''))" "is_hex_digest (hex_sample (CHR ''a''))"
  "is_hex_digest (hex_sample (CHR ''b''))"
  by (simp_all add: is_hex_digest_def hex_sample_def list_all_iff is_ascii_digit_def)

lemma sample_challenge_valid: "now \<le> 30 \<Longrightarrow> validate_challenge sample_challenge now = Ok ()"
  using word_sub_le [of now 30]
  by (simp add: validate_challenge_Ok validate_challenge_shape_def ensure_def sample_challenge_def hex_sample_ok)

lemma sample_answer_made:
  "make_response sample_sha sample_challenge (hex_sample (CHR ''a'')) (hex_sample (CHR ''b'')) [7] = Ok sample_answer"
  using sample_challenge_valid [of 0]
  by (simp add: make_response_Ok hex_sample_ok credential_ok_def sample_answer_def validate_challenge_Ok)

text \<open>
  The only answer: for a challenge that has not expired, the verification, which compares all
  bytes in constant time, accepts exactly the response that a holder of the same credential
  computes for the same challenge, caller and request. Every other response is rejected.
\<close>

lemma verify_exact:
  assumes "sha_lawful sha"
  shows "verify_response sha c r caller request credential now = Ok () \<longleftrightarrow>
    validate_challenge c now = Ok () \<and> make_response sha c caller request credential = Ok r"
  by (rule verify_response_cases [OF assms])

text \<open>
  C25. The proof is bound to everything that was agreed: two transcripts of well-formed challenges
  and digests are equal only if challenge id, nonce, expiry, broker, caller and request all are.
\<close>

theorem transcript_binds:
  assumes "validate_challenge_shape c = Ok ()" "is_hex_digest caller" "is_hex_digest request"
    and "validate_challenge_shape c' = Ok ()" "is_hex_digest caller'" "is_hex_digest request'"
    and "auth_transcript c caller request = auth_transcript c' caller' request'"
  shows "c = c' \<and> caller = caller' \<and> request = request'"
proof -
  have shape: "ac_protocol_version d = 1" "length (ac_challenge_id d) = 64" "length (ac_nonce d) = 64"
      "length (ac_broker_instance d) = 64"
    if "validate_challenge_shape d = Ok ()" for d
    using that by (auto simp: validate_challenge_shape_def ensure_def is_hex_digest_def split: if_splits)
  have "str_bytes (ac_challenge_id c) = str_bytes (ac_challenge_id c')"
    "str_bytes (ac_nonce c) = str_bytes (ac_nonce c')"
    "to_be_bytes (ac_expires_at_unix c) = to_be_bytes (ac_expires_at_unix c')"
    "str_bytes (ac_broker_instance c) = str_bytes (ac_broker_instance c')"
    "str_bytes caller = str_bytes caller'" "str_bytes request = str_bytes request'"
    using assms(7) shape [OF assms(1)] shape [OF assms(4)] assms(2,3,5,6)
    by (simp_all add: auth_transcript_def is_hex_digest_def)
  then show ?thesis
    using shape(1) [OF assms(1)] shape(1) [OF assms(4)] by (auto dest!: str_bytes_inj to_be_bytes_inj)
qed

theorem transcript_binds_witness:
  "auth_transcript sample_challenge (hex_sample (CHR ''a'')) (hex_sample (CHR ''b''))
     \<noteq> auth_transcript sample_challenge (hex_sample (CHR ''a'')) (hex_sample (CHR ''1''))"
proof
  have shape: "validate_challenge_shape sample_challenge = Ok ()"
    using sample_challenge_valid [of 0] by (simp add: validate_challenge_Ok)
  assume "auth_transcript sample_challenge (hex_sample (CHR ''a'')) (hex_sample (CHR ''b''))
     = auth_transcript sample_challenge (hex_sample (CHR ''a'')) (hex_sample (CHR ''1''))"
  from transcript_binds [OF shape hex_sample_ok(4,5) shape hex_sample_ok(4,1) this]
  show False by (simp add: hex_sample_def)
qed

text \<open>
  C15. A challenge is answered at most once. While the clock does not run backwards, whatever
  challenges are registered and whatever responses arrive in whatever order, no challenge is
  accepted twice, although the guard forgets expired ones; and it never holds more than 4096.
\<close>

theorem challenge_at_most_once:
  assumes "guard_reaches sha now consumed g"
  shows "distinct consumed \<and> length (rg_pending g) + length (rg_used g) \<le> 4096"
  using guard_reaches_ok [OF assms] by (simp add: guard_ok_def)

lemma sample_registered:
  "guard_register sample_challenge 0 empty_guard
     = (Ok (), \<lparr>rg_pending = [(ac_challenge_id sample_challenge, sample_challenge)], rg_used = []\<rparr>)"
  using sample_challenge_valid [of 0] by (simp add: guard_register_def prune_def empty_guard_def Let_def)

lemma sample_consumed:
  "guard_consume sample_sha sample_challenge sample_answer (hex_sample (CHR ''a'')) (hex_sample (CHR ''b'')) [7] 5
     \<lparr>rg_pending = [(ac_challenge_id sample_challenge, sample_challenge)], rg_used = []\<rparr>
   = (Ok (), \<lparr>rg_pending = [], rg_used = [(ac_challenge_id sample_challenge, 30)]\<rparr>)"
proof -
  have "verify_response sample_sha sample_challenge sample_answer (hex_sample (CHR ''a'')) (hex_sample (CHR ''b'')) [7] 5 = Ok ()"
    using verify_response_cases [OF sample_sha_lawful] sample_challenge_valid [of 5] sample_answer_made by simp
  moreover have "validate_challenge_shape sample_challenge = Ok ()"
    using sample_challenge_valid [of 5] by (simp add: validate_challenge_Ok)
  moreover have "validate_response sample_answer = Ok ()"
    using calculation(1) by (auto simp: verify_response_def split: result.splits)
  moreover have "ac_expires_at_unix sample_challenge = 30" by (simp add: sample_challenge_def)
  ultimately show ?thesis by (simp add: guard_consume_def prune_def Let_def)
qed

theorem challenge_at_most_once_witness:
  "guard_reaches sample_sha 5 [sample_challenge] \<lparr>rg_pending = [], rg_used = [(ac_challenge_id sample_challenge, 30)]\<rparr> \<and>
   distinct [sample_challenge]"
proof -
  have "guard_reaches sample_sha 5 [sample_challenge] \<lparr>rg_pending = [], rg_used = [(ac_challenge_id sample_challenge, 30)]\<rparr>"
    by (rule guard_reaches.accepted [OF guard_reaches.registered [OF guard_reaches.empty order_refl sample_registered] _ sample_consumed]) simp
  with challenge_at_most_once show ?thesis by blast
qed

text \<open>
  C26. An honest caller gets through: a challenge that was registered is accepted with the response
  computed for it, at any later time up to its expiry.
\<close>

theorem challenge_answerable:
  assumes "sha_lawful sha" and "guard_register c before g = (Ok (), g')"
    and "before \<le> now" and "now \<le> ac_expires_at_unix c"
    and "make_response sha c caller request credential = Ok r"
  shows "fst (guard_consume sha c r caller request credential now g') = Ok ()"
proof -
  let ?i = "ac_challenge_id c"
  from assms(2) have valid: "validate_challenge c before = Ok ()"
    and g': "g' = (prune before g)\<lparr>rg_pending := (?i, c) # rg_pending (prune before g)\<rparr>"
    and used: "?i \<notin> fst ` set (rg_used (prune before g))"
    by (auto simp: guard_register_def Let_def split: result.splits if_splits)
  have "ac_expires_at_unix c - now \<le> ac_expires_at_unix c - before"
    using assms(3,4) by (simp add: word_le_nat_alt unat_sub order.trans [of before now])
  then have "validate_challenge c now = Ok ()"
    using valid assms(4) by (auto simp: validate_challenge_Ok)
  with assms(1,5) have verified: "verify_response sha c r caller request credential now = Ok ()"
    using verify_response_cases by blast
  then have "validate_response r = Ok ()" "validate_challenge_shape c = Ok ()"
    using valid by (auto simp: verify_response_def validate_challenge_Ok split: result.splits)
  moreover have "?i \<notin> fst ` set (rg_used (prune now g'))" using used by (auto simp: g' prune_def)
  moreover have "map_of (rg_pending (prune now g')) ?i = Some c" using assms(4) by (simp add: g' prune_def)
  ultimately show ?thesis using verified by (simp add: guard_consume_def Let_def)
qed

theorem challenge_answerable_witness:
  "fst (guard_consume sample_sha sample_challenge sample_answer (hex_sample (CHR ''a'')) (hex_sample (CHR ''b'')) [7] 30
     (snd (guard_register sample_challenge 0 empty_guard))) = Ok ()"
  using challenge_answerable [OF sample_sha_lawful sample_registered _ _ sample_answer_made, of 30] sample_registered
  by (simp add: sample_challenge_def)

end
