(* ===== verification/Node_Install_State.thy ===== *)
theory Node_Install_State
  imports Local_Db Caller_Auth
begin

text \<open>
  The exchange of a node installation that outlives the process (\<open>node_install_state.rs\<close>): its
  stages, the validator of the stored record, and loading, saving and clearing the owner-only file
  that holds it. The file is its bytes or absent; one operation sees the file system through a
  record that says which of its calls fail.
\<close>

section \<open>Exchange states\<close>

datatype node_install_stage = Prepared | ReleaseInstalled | Issued

record exchange_state =
  ex_version :: "8 word"
  ex_server_url :: string
  ex_node_id :: string
  ex_fingerprint :: string
  ex_exchange_id :: string
  ex_enable_ego_browser :: bool
  ex_release_version :: string
  ex_release_target :: string
  ex_release_sha256 :: "string option"
  ex_stage :: node_install_stage
  ex_created_at :: "64 word"
  ex_expires_at :: "string option"

definition is_lower_hex :: "string \<Rightarrow> nat \<Rightarrow> bool" where
  "is_lower_hex v n \<longleftrightarrow>
     length v = n \<and> list_all (\<lambda>b. is_ascii_digit b \<or> 97 \<le> byte b \<and> byte b \<le> 102) v"

definition valid_release_version :: "string \<Rightarrow> bool" where
  "valid_release_version v \<longleftrightarrow>
     v \<noteq> [] \<and> length v \<le> 64 \<and> list_all (\<lambda>b. is_ascii_alphanumeric b \<or> b \<in> set ''.-+_'') v"

definition valid_release_target :: "string \<Rightarrow> bool" where
  "valid_release_target v \<longleftrightarrow>
     v \<in> set [''linux-amd64-glibc'', ''linux-amd64-musl'', ''linux-arm64-glibc'', ''linux-arm64-musl'']"

definition expiry_shape :: "string \<Rightarrow> bool" where
  "expiry_shape v \<longleftrightarrow> \<not> (v = [] \<or> length v > 64 \<or> \<not> is_ascii v)"

text \<open>Which optional fields a stage has.\<close>

definition stage_fields :: "exchange_state \<Rightarrow> bool" where
  "stage_fields s \<longleftrightarrow>
     \<not> (ex_stage s = Prepared \<and> ex_expires_at s \<noteq> None) \<and>
     \<not> (ex_stage s = Prepared \<and> ex_release_sha256 s \<noteq> None) \<and>
     \<not> (ex_stage s = ReleaseInstalled \<and> (ex_release_sha256 s = None \<or> ex_expires_at s \<noteq> None)) \<and>
     \<not> (ex_stage s = Issued \<and> (ex_release_sha256 s = None \<or> ex_expires_at s = None))"

definition exchange_valid :: "exchange_state \<Rightarrow> bool" where
  "exchange_valid s \<longleftrightarrow>
     \<not> (ex_version s \<noteq> 2 \<or> ex_server_url s = [] \<or> length (ex_server_url s) > 2048 \<or>
        ex_node_id s = [] \<or> length (ex_node_id s) > 128 \<or> \<not> is_lower_hex (ex_fingerprint s) 64 \<or>
        \<not> is_lower_hex (ex_exchange_id s) 32 \<or> \<not> valid_release_version (ex_release_version s) \<or>
        \<not> valid_release_target (ex_release_target s) \<or> ex_created_at s = 0 \<or>
        is_some_and (\<lambda>v. \<not> expiry_shape v) (ex_expires_at s) \<or> \<not> stage_fields s \<or>
        is_some_and (\<lambda>v. \<not> is_lower_hex v 64) (ex_release_sha256 s))"

definition exchange_validate :: "exchange_state \<Rightarrow> (unit, failure) result" where
  "exchange_validate s = ensure (exchange_valid s) (Bail ''local Node installation exchange state is invalid'')"

text \<open>\<open>random\<close> are the sixteen bytes drawn for the exchange id.\<close>

definition exchange_prepared ::
  "u8 list \<Rightarrow> string \<Rightarrow> string \<Rightarrow> string \<Rightarrow> bool \<Rightarrow> string \<Rightarrow> string \<Rightarrow> 64 word \<Rightarrow> (exchange_state, failure) result" where
  "exchange_prepared random server node fingerprint ego release target created =
     (let s = \<lparr>ex_version = 2, ex_server_url = server, ex_node_id = node, ex_fingerprint = fingerprint,
               ex_exchange_id = encode_hex random, ex_enable_ego_browser = ego, ex_release_version = release,
               ex_release_target = target, ex_release_sha256 = None, ex_stage = Prepared,
               ex_created_at = created, ex_expires_at = None\<rparr> in
      case exchange_validate s of Err e \<Rightarrow> Err e | Ok _ \<Rightarrow> Ok s)"

text \<open>The two transitions; a caller that is given an error drops the state.\<close>

definition mark_release_installed :: "string \<Rightarrow> exchange_state \<Rightarrow> (exchange_state, failure) result" where
  "mark_release_installed sha256 s =
     (let s' = s\<lparr>ex_stage := ReleaseInstalled, ex_release_sha256 := Some sha256, ex_expires_at := None\<rparr> in
      case exchange_validate s' of Err e \<Rightarrow> Err e | Ok _ \<Rightarrow> Ok s')"

definition mark_issued :: "string \<Rightarrow> exchange_state \<Rightarrow> (exchange_state, failure) result" where
  "mark_issued expires_at s =
     (let s' = s\<lparr>ex_stage := Issued, ex_expires_at := Some expires_at\<rparr> in
      case exchange_validate s' of Err e \<Rightarrow> Err e | Ok _ \<Rightarrow> Ok s')"

definition exchange_matches ::
  "exchange_state \<Rightarrow> string \<Rightarrow> string \<Rightarrow> string \<Rightarrow> bool \<Rightarrow> string \<Rightarrow> string \<Rightarrow> bool" where
  "exchange_matches s server node fingerprint ego release target \<longleftrightarrow>
     ex_server_url s = server \<and> ex_node_id s = node \<and> ex_fingerprint s = fingerprint \<and>
     ex_enable_ego_browser s = ego \<and> ex_release_version s = release \<and> ex_release_target s = target"

section \<open>The owner-only file\<close>

text \<open>
  One guarded read: \<open>None\<close> and \<^const>\<open>False\<close> are failures of the call other than a missing file, which
  the file itself decides.
\<close>

record owner_read =
  ow_euid :: nat
  ow_lstat :: "metadata option"
  ow_open :: bool
  ow_fstat :: "metadata option"
  ow_read :: bool

definition owner_only_metadata :: "nat \<Rightarrow> metadata \<Rightarrow> bool" where
  "owner_only_metadata euid m \<longleftrightarrow>
     \<not> (is_link m \<or> md_kind m \<noteq> RegularFile) \<and>
     \<not> (md_uid m \<noteq> euid \<or> md_nlink m \<noteq> 1 \<or> md_mode m mod 512 \<noteq> 384)"

definition read_owner_only_file :: "owner_read \<Rightarrow> nat \<Rightarrow> string option \<Rightarrow> (string, io_kind) result" where
  "read_owner_only_file R limit bytes =
     (case (bytes, ow_lstat R) of
        (_, None) \<Rightarrow> Err IoOther
      | (None, Some _) \<Rightarrow> Err IoNotFound
      | (Some contents, Some before) \<Rightarrow>
          if \<not> owner_only_metadata (ow_euid R) before \<or> \<not> ow_open R then Err IoOther
          else case ow_fstat R of
            None \<Rightarrow> Err IoOther
          | Some after \<Rightarrow>
              if \<not> owner_only_metadata (ow_euid R) after \<or>
                 md_dev before \<noteq> md_dev after \<or> md_ino before \<noteq> md_ino after \<or> \<not> ow_read R
              then Err IoOther
              else let taken = take (limit + 1) contents in
                   if length taken > limit then Err IoOther else Ok taken)"

definition max_state_bytes :: nat where
  "max_state_bytes = 16 * 1024"

definition exchange_load ::
  "exchange_state codec \<Rightarrow> owner_read \<Rightarrow> string option \<Rightarrow> (exchange_state option, failure) result" where
  "exchange_load c R bytes =
     (case read_owner_only_file R max_state_bytes bytes of
        Err e \<Rightarrow>
          if e = IoNotFound then Ok None else Err (Bail ''local Node installation exchange state is unsafe'')
      | Ok contents \<Rightarrow>
          (case from_json c contents of
             None \<Rightarrow> Err (Bail ''local Node installation exchange state is malformed'')
           | Some s \<Rightarrow> (case exchange_validate s of Err e \<Rightarrow> Err e | Ok _ \<Rightarrow> Ok (Some s))))"

record state_directory =
  dv_lstat :: "(metadata, io_kind) result"
  dv_mkdir :: bool
  dv_again :: "(metadata, io_kind) result"
  dv_euid :: nat
  dv_chmod :: bool

definition prepare_state_directory :: "state_directory \<Rightarrow> (unit, failure) result" where
  "prepare_state_directory V =
     (case (case dv_lstat V of
              Ok m \<Rightarrow>
                if is_link m \<or> md_kind m \<noteq> DirectoryFile then Err (Bail ''Agent Remote state directory is unsafe'')
                else Ok ()
            | Err e \<Rightarrow> if e = IoNotFound then (if dv_mkdir V then Ok () else Err (IoErr IoOther)) else Err (IoErr e)) of
        Err e \<Rightarrow> Err e
      | Ok _ \<Rightarrow>
          (case dv_again V of
             Err e \<Rightarrow> Err (IoErr e)
           | Ok m \<Rightarrow>
               if is_link m \<or> md_kind m \<noteq> DirectoryFile then Err (Bail ''Agent Remote state directory is unsafe'')
               else if md_uid m \<noteq> dv_euid V then Err (Bail ''Agent Remote state directory has unsafe ownership'')
               else if dv_chmod V then Ok () else Err (IoErr IoOther)))"

text \<open>The calls of one save; \<open>sv_stat\<close> says whether \<open>stat\<close> of the destination answers at all.\<close>

record save_env =
  sv_dir :: state_directory
  sv_stat :: bool
  sv_old :: owner_read
  sv_create :: bool
  sv_chmod :: bool
  sv_write :: bool
  sv_sync :: bool
  sv_rename :: bool
  sv_new :: owner_read
  sv_dirsync :: bool

definition check_destination :: "save_env \<Rightarrow> string option \<Rightarrow> (unit, failure) result" where
  "check_destination F bytes =
     (if \<not> sv_stat F then Err (IoErr IoOther)
      else case bytes of
        None \<Rightarrow> Ok ()
      | Some _ \<Rightarrow>
          (case read_owner_only_file (sv_old F) max_state_bytes bytes of
             Err _ \<Rightarrow> Err (Bail ''local Node installation exchange state is unsafe'')
           | Ok _ \<Rightarrow> Ok ()))"

definition exchange_save ::
  "exchange_state codec \<Rightarrow> save_env \<Rightarrow> exchange_state \<Rightarrow> string option \<Rightarrow> (unit, failure) result \<times> string option" where
  "exchange_save c F s bytes =
     (case exchange_validate s of Err e \<Rightarrow> (Err e, bytes) | Ok _ \<Rightarrow>
      case prepare_state_directory (sv_dir F) of Err e \<Rightarrow> (Err e, bytes) | Ok _ \<Rightarrow>
      case check_destination F bytes of Err e \<Rightarrow> (Err e, bytes) | Ok _ \<Rightarrow>
      case to_json c s of
        None \<Rightarrow> (Err JsonErr, bytes)
      | Some contents \<Rightarrow>
          if \<not> sv_create F \<or> \<not> sv_chmod F \<or> \<not> sv_write F \<or> \<not> sv_sync F \<or> \<not> sv_rename F
          then (Err (IoErr IoOther), bytes)
          else let new = Some (contents @ [char_of (10 :: nat)]) in
            (case read_owner_only_file (sv_new F) max_state_bytes new of
               Err _ \<Rightarrow> (Err (Bail ''written Node installation exchange state is unsafe''), new)
             | Ok _ \<Rightarrow> if sv_dirsync F then (Ok (), new) else (Err (IoErr IoOther), new)))"

record clear_env =
  cl_read :: owner_read
  cl_remove :: bool
  cl_dirsync :: bool

definition exchange_clear :: "clear_env \<Rightarrow> string option \<Rightarrow> (unit, failure) result \<times> string option" where
  "exchange_clear F bytes =
     (case read_owner_only_file (cl_read F) max_state_bytes bytes of
        Err e \<Rightarrow>
          if e = IoNotFound then (Ok (), bytes)
          else (Err (Bail ''local Node installation exchange state is unsafe''), bytes)
      | Ok _ \<Rightarrow>
          if \<not> cl_remove F then (Err (Bail ''failed to clear local Node installation exchange state''), bytes)
          else if cl_dirsync F then (Ok (), None) else (Err (IoErr IoOther), None))"

section \<open>What the operations do\<close>

lemma exchange_validate_Ok [simp]: "exchange_validate s = Ok u \<longleftrightarrow> exchange_valid s"
  by (simp add: exchange_validate_def)

lemma exchange_valid_fields:
  "exchange_valid s \<Longrightarrow>
     (ex_stage s = Prepared \<longleftrightarrow> ex_release_sha256 s = None) \<and> (ex_stage s = Issued \<longleftrightarrow> ex_expires_at s \<noteq> None)"
  by (cases "ex_stage s") (auto simp: exchange_valid_def stage_fields_def)

lemma exchange_prepared_Ok:
  "exchange_prepared random server node fingerprint ego release target created = Ok s \<Longrightarrow>
     exchange_valid s \<and> ex_stage s = Prepared \<and> ex_exchange_id s = encode_hex random \<and>
     exchange_matches s server node fingerprint ego release target"
  by (auto simp: exchange_prepared_def exchange_matches_def Let_def split: result.splits)

lemma mark_release_installed_Ok:
  "mark_release_installed sha s = Ok s' \<Longrightarrow>
     exchange_valid s' \<and> ex_stage s' = ReleaseInstalled \<and> ex_exchange_id s' = ex_exchange_id s \<and>
     exchange_matches s' = exchange_matches s"
  by (auto simp: mark_release_installed_def exchange_matches_def fun_eq_iff Let_def split: result.splits)

lemma mark_issued_Ok:
  "mark_issued expires s = Ok s' \<Longrightarrow>
     exchange_valid s' \<and> ex_stage s' = Issued \<and> ex_exchange_id s' = ex_exchange_id s \<and>
     exchange_matches s' = exchange_matches s"
  by (auto simp: mark_issued_def exchange_matches_def fun_eq_iff Let_def split: result.splits)

lemma exchange_save_cases:
  assumes "exchange_save c F s bytes = (r, bytes')"
  obtains (kept) e where "r = Err e" "bytes' = bytes"
  | (written) t where "exchange_valid s" "to_json c s = Some t" "bytes' = Some (t @ [char_of (10 :: nat)])"
      "r = Ok () \<longrightarrow> length t < max_state_bytes"
proof -
  have "(\<exists>e. Err e = r) \<and> bytes' = bytes \<or>
    (\<exists>t. exchange_valid s \<and> to_json c s = Some t \<and> bytes' = Some (t @ [char_of (10 :: nat)]) \<and>
      (r = Ok () \<longrightarrow> (\<exists>x. read_owner_only_file (sv_new F) max_state_bytes bytes' = Ok x)))"
    using assms unfolding exchange_save_def
    by (auto simp: Let_def split: result.splits option.splits if_splits)
  moreover have "length t < max_state_bytes"
    if "read_owner_only_file (sv_new F) max_state_bytes (Some (t @ [char_of (10 :: nat)])) = Ok x" for t x
    using that by (auto simp: read_owner_only_file_def Let_def split: option.splits if_splits)
  ultimately show thesis using kept written by (elim disjE exE conjE) auto
qed

lemma exchange_clear_cases:
  assumes "exchange_clear F bytes = (r, bytes')"
  shows "bytes' = bytes \<or> bytes' = None" and "r = Ok () \<Longrightarrow> bytes' = None"
  using assms
  by (auto simp: exchange_clear_def read_owner_only_file_def Let_def split: result.splits if_splits option.splits prod.splits)

text \<open>
  \<open>serde_json::from_slice\<close> ignores the newline that ends the file; the written text itself reads back.
\<close>

definition file_lawful :: "exchange_state codec \<Rightarrow> bool" where
  "file_lawful c \<longleftrightarrow> (\<forall>s t. to_json c s = Some t \<longrightarrow> from_json c (t @ [char_of (10 :: nat)]) = Some s)"

definition reads_owner_only :: "owner_read \<Rightarrow> bool" where
  "reads_owner_only R \<longleftrightarrow>
     is_some_and (owner_only_metadata (ow_euid R)) (ow_lstat R) \<and> ow_open R \<and> ow_fstat R = ow_lstat R \<and> ow_read R"

lemma read_owner_works:
  assumes "reads_owner_only R"
  shows "read_owner_only_file R limit (Some b) = (if length b > limit then Err IoOther else Ok b)"
    "read_owner_only_file R limit None = Err IoNotFound"
  using assms by (auto simp: reads_owner_only_def read_owner_only_file_def is_some_and_def Let_def split: option.splits)

section \<open>Properties\<close>

definition sample_exchange :: exchange_state where
  "sample_exchange = \<lparr>ex_version = 2, ex_server_url = ''https://s'', ex_node_id = ''n'',
     ex_fingerprint = replicate 64 (CHR ''a''), ex_exchange_id = replicate 32 (CHR ''b''),
     ex_enable_ego_browser = False, ex_release_version = ''1.0'', ex_release_target = ''linux-amd64-glibc'',
     ex_release_sha256 = Some (replicate 64 (CHR ''c'')), ex_stage = ReleaseInstalled, ex_created_at = 5,
     ex_expires_at = None\<rparr>"

lemma lower_hex_replicate:
  "is_lower_hex (replicate n (CHR ''a'')) n" "is_lower_hex (replicate n (CHR ''b'')) n"
  "is_lower_hex (replicate n (CHR ''c'')) n"
  by (simp_all add: is_lower_hex_def list_all_iff)

lemma sample_exchange_valid: "exchange_valid sample_exchange"
  by (simp add: exchange_valid_def sample_exchange_def lower_hex_replicate stage_fields_def
      valid_release_version_def valid_release_target_def rust_eval)

definition owner_file :: metadata where
  "owner_file = \<lparr>md_kind = RegularFile, md_nlink = 1, md_uid = 7, md_mode = 33152, md_dev = 1, md_ino = 2\<rparr>"

definition owner_directory :: metadata where
  "owner_directory = owner_file\<lparr>md_kind := DirectoryFile\<rparr>"

definition owner_reads :: owner_read where
  "owner_reads = \<lparr>ow_euid = 7, ow_lstat = Some owner_file, ow_open = True, ow_fstat = Some owner_file, ow_read = True\<rparr>"

lemma owner_reads_ok: "reads_owner_only owner_reads"
  by (simp add: reads_owner_only_def owner_reads_def owner_only_metadata_def owner_file_def is_link_def)

definition good_save :: save_env where
  "good_save = \<lparr>sv_dir = \<lparr>dv_lstat = Ok owner_directory, dv_mkdir = True, dv_again = Ok owner_directory,
       dv_euid = 7, dv_chmod = True\<rparr>,
     sv_stat = True, sv_old = owner_reads, sv_create = True, sv_chmod = True, sv_write = True, sv_sync = True,
     sv_rename = True, sv_new = owner_reads, sv_dirsync = True\<rparr>"

definition exchange_codec :: "exchange_state codec" where
  "exchange_codec = \<lparr>to_json = (\<lambda>s. if s = sample_exchange then Some ''x'' else None),
     from_json = (\<lambda>t. if t = ''x'' @ [char_of (10 :: nat)] then Some sample_exchange else None)\<rparr>"

lemma exchange_codec_lawful: "file_lawful exchange_codec"
  by (simp add: file_lawful_def exchange_codec_def)

lemma good_save_works:
  assumes "exchange_valid s" and "to_json c s = Some t" and "length t < max_state_bytes"
    and "is_none_or (\<lambda>b. length b \<le> max_state_bytes) bytes"
  shows "exchange_save c good_save s bytes = (Ok (), Some (t @ [char_of (10 :: nat)]))"
proof -
  have valid: "exchange_validate s = Ok ()" using assms(1) by simp
  have dir: "prepare_state_directory (sv_dir good_save) = Ok ()"
    by (simp add: good_save_def prepare_state_directory_def owner_directory_def owner_file_def is_link_def)
  have old: "check_destination good_save bytes = Ok ()"
    using assms(4)
    by (cases bytes) (simp_all add: check_destination_def good_save_def read_owner_works [OF owner_reads_ok])
  have calls: "sv_create good_save" "sv_chmod good_save" "sv_write good_save" "sv_sync good_save"
    "sv_rename good_save" "sv_dirsync good_save" "sv_new good_save = owner_reads"
    by (simp_all add: good_save_def)
  show ?thesis
    unfolding exchange_save_def valid dir old
    using assms(2,3) by (simp add: calls read_owner_works [OF owner_reads_ok] Let_def)
qed

text \<open>
  C28. Saving is atomic and reads back: after a save the file holds the old bytes or the complete new
  record, never part of one, whichever call fails; a save that reports success leaves a record that
  loads as exactly the saved state, in a stage with exactly the fields of that stage.
\<close>

theorem exchange_saved:
  assumes "file_lawful c" and "exchange_save c F s bytes = (r, bytes')" and "reads_owner_only R"
  shows "(bytes' = bytes \<or> (\<exists>t. to_json c s = Some t \<and> bytes' = Some (t @ [char_of (10 :: nat)]))) \<and>
    (r = Ok () \<longrightarrow> exchange_load c R bytes' = Ok (Some s) \<and>
       (ex_stage s = Prepared \<longleftrightarrow> ex_release_sha256 s = None) \<and> (ex_stage s = Issued \<longleftrightarrow> ex_expires_at s \<noteq> None))"
  using assms(2)
proof (cases rule: exchange_save_cases)
  case (written t)
  then have "from_json c (t @ [char_of (10 :: nat)]) = Some s" using assms(1) by (simp add: file_lawful_def)
  with written show ?thesis
    using exchange_valid_fields [OF written(1)]
    by (auto simp: exchange_load_def read_owner_works [OF assms(3)] exchange_validate_def ensure_def)
qed simp

theorem exchange_saved_witness:
  "exchange_load exchange_codec owner_reads (snd (exchange_save exchange_codec good_save sample_exchange None))
     = Ok (Some sample_exchange)"
proof -
  have "exchange_save exchange_codec good_save sample_exchange None = (Ok (), Some (''x'' @ [char_of (10 :: nat)]))"
    by (rule good_save_works) (simp_all add: sample_exchange_valid exchange_codec_def max_state_bytes_def)
  from exchange_saved [OF exchange_codec_lawful this owner_reads_ok] this show ?thesis by simp
qed

end
