(* ===== verification/Node_Values.thy ===== *)
theory Node_Values
  imports Kv_Store
begin

text \<open>
  Values of the node installation (\<open>app/device_node.rs\<close>): join codes, addresses of managed nodes,
  quoting for a remote shell and the expiry time of a join code. The calendar arithmetic is compared
  with counting days, the quoting with the POSIX rules for reading a word.
\<close>

section \<open>Codes and addresses\<close>

definition is_ascii_graphic :: "char \<Rightarrow> bool" where
  "is_ascii_graphic c \<longleftrightarrow> 33 \<le> byte c \<and> byte c \<le> 126"

definition is_ascii_whitespace :: "char \<Rightarrow> bool" where
  "is_ascii_whitespace c \<longleftrightarrow> byte c \<in> {9, 10, 12, 13, 32}"

definition valid_join_code :: "string \<Rightarrow> bool" where
  "valid_join_code v \<longleftrightarrow>
     16 \<le> length v \<and> length v \<le> 4096 \<and> list_all (\<lambda>b. is_ascii_graphic b \<and> \<not> is_ascii_whitespace b) v"

definition valid_managed_ssh_host :: "string \<Rightarrow> bool" where
  "valid_managed_ssh_host v \<longleftrightarrow>
     v \<noteq> [] \<and> length v \<le> 255 \<and> \<not> starts_with ''-'' v \<and> list_ex is_ascii_alphanumeric v \<and>
     list_all (\<lambda>b. is_ascii_alphanumeric b \<or> b \<in> set ''.:-_%'') v"

definition valid_managed_ssh_user :: "string \<Rightarrow> bool" where
  "valid_managed_ssh_user v \<longleftrightarrow>
     v \<noteq> [] \<and> length v \<le> 64 \<and> \<not> starts_with ''-'' v \<and>
     list_all (\<lambda>b. is_ascii_alphanumeric b \<or> b \<in> set ''.-_'') v"

section \<open>Shell quoting\<close>

abbreviation quote :: char where
  "quote \<equiv> CHR 0x27"

abbreviation backslash :: char where
  "backslash \<equiv> CHR 0x5C"

definition posix_shell_quote :: "string \<Rightarrow> string" where
  "posix_shell_quote v =
     [quote] @ concat (map (\<lambda>c. if c = quote then [quote, backslash, quote, quote] else [c]) v) @ [quote]"

text \<open>
  The POSIX shell (2.2, 2.3) reading one word without double quotes or expansions: between single
  quotes every character stands for itself, a backslash outside them keeps the next character, and an
  unquoted blank, newline or operator character ends the word. The result is the word and the rest;
  an unclosed quotation or a character that starts an expansion gives nothing.
\<close>

definition ends_word :: "char \<Rightarrow> bool" where
  "ends_word c \<longleftrightarrow> byte c \<in> {9, 10, 32} \<or> c \<in> set ''|&;<>()''"

definition expands :: "char \<Rightarrow> bool" where
  "expands c \<longleftrightarrow> c \<in> set [CHR 0x22, CHR 0x24, CHR 0x60, CHR 0x2A, CHR 0x3F, CHR 0x5B, CHR 0x7E, CHR 0x23]"

fun sh_word :: "bool \<Rightarrow> string \<Rightarrow> (string \<times> string) option" where
  "sh_word False [] = Some ([], [])"
| "sh_word True [] = None"
| "sh_word True (c # s) =
     (if c = quote then sh_word False s
      else map_option (\<lambda>(w, r). (c # w, r)) (sh_word True s))"
| "sh_word False [c] =
     (if c = quote \<or> c = backslash \<or> expands c then None
      else if ends_word c then Some ([], [c]) else Some ([c], []))"
| "sh_word False (c # d # s) =
     (if c = quote then sh_word True (d # s)
      else if c = backslash then map_option (\<lambda>(w, r). (d # w, r)) (sh_word False s)
      else if expands c then None
      else if ends_word c then Some ([], c # d # s)
      else map_option (\<lambda>(w, r). (c # w, r)) (sh_word False (d # s)))"

section \<open>Times\<close>

text \<open>\<open>str::parse\<close> of the unsigned and signed numbers: a sign is allowed.\<close>

definition parse_unsigned :: "string \<Rightarrow> int option" where
  "parse_unsigned s =
     (let digits = (case strip_prefix ''+'' s of Some r \<Rightarrow> r | None \<Rightarrow> s) in
      if digits \<noteq> [] \<and> list_all is_ascii_digit digits then Some (int (digits_value digits)) else None)"

definition parse_signed :: "string \<Rightarrow> int option" where
  "parse_signed s =
     (case strip_prefix ''-'' s of
        Some digits \<Rightarrow>
          if digits \<noteq> [] \<and> list_all is_ascii_digit digits then Some (- int (digits_value digits)) else None
      | None \<Rightarrow> parse_unsigned s)"

definition slice :: "nat \<Rightarrow> nat \<Rightarrow> string \<Rightarrow> string" where
  "slice start stop s = take (stop - start) (drop start s)"

definition byte_at :: "nat \<Rightarrow> string \<Rightarrow> char option" where
  "byte_at i s = (if i < length s then Some (s ! i) else None)"

definition leap_year :: "int \<Rightarrow> bool" where
  "leap_year year \<longleftrightarrow> year mod 4 = 0 \<and> (year mod 100 \<noteq> 0 \<or> year mod 400 = 0)"

definition month_days :: "int \<Rightarrow> int list" where
  "month_days year = [31, if leap_year year then 29 else 28, 31, 30, 31, 30, 31, 31, 30, 31, 30, 31]"

definition separators_ok :: "string \<Rightarrow> bool" where
  "separators_ok v \<longleftrightarrow>
     byte_at 4 v = Some (CHR ''-'') \<and> byte_at 7 v = Some (CHR ''-'') \<and> byte_at 10 v = Some (CHR ''T'') \<and>
     byte_at 13 v = Some (CHR '':'') \<and> byte_at 16 v = Some (CHR '':'')"

text \<open>The optional fraction of a second is skipped; what is left is the offset.\<close>

definition skip_fraction :: "string \<Rightarrow> string option" where
  "skip_fraction rest =
     (case rest of
        c # s \<Rightarrow>
          if c = CHR ''.'' then
            (let digits = takeWhile is_ascii_digit s in
             if digits = [] \<or> length digits > 9 then None else Some (dropWhile is_ascii_digit s))
          else Some rest
      | [] \<Rightarrow> Some rest)"

definition offset_minutes :: "string \<Rightarrow> int option" where
  "offset_minutes offset =
     (if offset = ''Z'' then Some 0
      else if length offset = 6 \<and> (hd offset = CHR ''+'' \<or> hd offset = CHR ''-'') \<and> offset ! 3 = CHR '':'' then
        (case (parse_signed (slice 1 3 offset), parse_signed (slice 4 6 offset)) of
           (Some hours, Some minutes) \<Rightarrow>
             if hours > 23 \<or> minutes > 59 then None
             else Some (if hd offset = CHR ''-'' then - (hours * 60 + minutes) else hours * 60 + minutes)
         | _ \<Rightarrow> None)
      else None)"

definition civil_days :: "int \<Rightarrow> int \<Rightarrow> int \<Rightarrow> int" where
  "civil_days year month day =
     (let adjusted_year = year - (if month \<le> 2 then 1 else 0);
          era = (if adjusted_year \<ge> 0 then adjusted_year else adjusted_year - 399) div 400;
          year_of_era = adjusted_year - era * 400;
          month_prime = month + (if month > 2 then - 3 else 9);
          day_of_year = (153 * month_prime + 2) div 5 + day - 1;
          day_of_era = year_of_era * 365 + year_of_era div 4 - year_of_era div 100 + day_of_year
      in era * 146097 + day_of_era - 719468)"

text \<open>
  The numbers of a timestamp, checked: year, month, day, hour, minute, second and the offset.
\<close>

definition rfc3339_fields :: "string \<Rightarrow> (int \<times> int \<times> int \<times> int \<times> int \<times> int \<times> int) option" where
  "rfc3339_fields v =
     (if length v < 20 \<or> \<not> separators_ok v then None
      else case (parse_unsigned (slice 0 4 v), parse_unsigned (slice 5 7 v), parse_unsigned (slice 8 10 v),
                 parse_unsigned (slice 11 13 v), parse_unsigned (slice 14 16 v), parse_unsigned (slice 17 19 v)) of
        (Some year, Some month, Some day, Some hour, Some minute, Some second) \<Rightarrow>
          if year < 1970 \<or> \<not> (1 \<le> month \<and> month \<le> 12) \<or> hour > 23 \<or> minute > 59 \<or> second > 59 then None
          else if day = 0 \<or> day > month_days year ! nat (month - 1) then None
          else (case skip_fraction (drop 19 v) of
                  None \<Rightarrow> None
                | Some offset \<Rightarrow>
                    map_option (\<lambda>minutes. (year, month, day, hour, minute, second, minutes)) (offset_minutes offset))
      | _ \<Rightarrow> None)"

definition parse_rfc3339_seconds :: "string \<Rightarrow> int option" where
  "parse_rfc3339_seconds v =
     (case rfc3339_fields v of
        None \<Rightarrow> None
      | Some (year, month, day, hour, minute, second, offset) \<Rightarrow>
          let utc = civil_days year month day * 86400 + (hour * 3600 + minute * 60 + second) - offset * 60 in
          if utc < 0 then None else Some utc)"

definition valid_join_code_expiry :: "int \<Rightarrow> string \<Rightarrow> bool" where
  "valid_join_code_expiry now v = is_some_and (\<lambda>t. t > now) (parse_rfc3339_seconds v)"

section \<open>Reading a quoted word back\<close>

abbreviation quoted_chars :: "string \<Rightarrow> string" where
  "quoted_chars v \<equiv> concat (map (\<lambda>c. if c = quote then [quote, backslash, quote, quote] else [c]) v)"

lemma sh_word_quoted:
  "sh_word True (quoted_chars v @ quote # s) = map_option (\<lambda>(w, r). (v @ w, r)) (sh_word False s)"
proof (induction v)
  case Nil
  then show ?case by (simp add: option.map_ident_strong)
next
  case (Cons c v)
  show ?case
  proof (cases "c = quote")
    case True
    have "sh_word False (backslash # quote # quote # quoted_chars v @ quote # s)
        = map_option (\<lambda>(w, r). (quote # w, r)) (sh_word False (quote # quoted_chars v @ quote # s))"
      by simp
    also have "sh_word False (quote # quoted_chars v @ quote # s) = sh_word True (quoted_chars v @ quote # s)"
      by (cases "quoted_chars v @ quote # s") simp_all
    finally show ?thesis using True Cons.IH by (simp add: option.map_comp comp_def case_prod_beta)
  next
    case False
    then show ?thesis using Cons.IH by (simp add: option.map_comp comp_def case_prod_beta)
  qed
qed

section \<open>Counting days\<close>

text \<open>The reference: whole years since 1970, whole months of the year, days of the month.\<close>

definition year_days :: "int \<Rightarrow> int" where
  "year_days year = (if leap_year year then 366 else 365)"

definition counted_days :: "int \<Rightarrow> int \<Rightarrow> int \<Rightarrow> int" where
  "counted_days year month day =
     sum_list (map (\<lambda>i. year_days (1970 + int i)) [0..<nat (year - 1970)]) +
     sum_list (take (nat (month - 1)) (month_days year)) + (day - 1)"

text \<open>The number of days before 1 March of a year, counted from 1 March of year 0.\<close>

definition march_days :: "int \<Rightarrow> int" where
  "march_days y = 365 * y + y div 4 - y div 100 + y div 400"

lemma civil_days_march:
  assumes "1 \<le> year"
  shows "civil_days year month day =
    march_days (year - (if month \<le> 2 then 1 else 0)) +
    (153 * (month + (if month > 2 then - 3 else 9)) + 2) div 5 + day - 719469"
proof -
  define y where "y = year - (if month \<le> 2 then 1 else 0)"
  define e where "e = y div 400"
  define r where "r = y - e * 400"
  have "y \<ge> 0" using assms by (simp add: y_def)
  have y: "y = 400 * e + r" "0 \<le> r" "r < 400" by (simp_all add: e_def r_def minus_div_mult_eq_mod)
  have "y = 4 * (100 * e) + r" "y = 100 * (4 * e) + r" using y(1) by simp_all
  then have "y div 4 = 100 * e + r div 4" "y div 100 = 4 * e + r div 100"
    by (metis div_mult_self4 zero_neq_numeral)+
  then have "e * 146097 + (r * 365 + r div 4 - r div 100) = march_days y"
    by (simp add: march_days_def y(1) [symmetric] e_def [symmetric]) (simp add: y(1))
  moreover have "civil_days year month day = e * 146097 + (r * 365 + r div 4 - r div 100 +
      ((153 * (month + (if month > 2 then - 3 else 9)) + 2) div 5 + day - 1)) - 719468"
    using \<open>y \<ge> 0\<close> unfolding civil_days_def Let_def y_def [symmetric] by (simp add: e_def r_def)
  ultimately show ?thesis unfolding y_def [symmetric] by simp
qed

lemma div_pred: "0 < k \<Longrightarrow> y div k - (y - 1) div k = (if y mod k = 0 then 1 else (0 :: int))"
proof -
  assume k: "0 < k"
  have y: "y = k * (y div k) + y mod k" "0 \<le> y mod k" "y mod k < k" using k by simp_all
  show ?thesis
  proof (cases "y mod k = 0")
    case True
    then have "y - 1 = k * (y div k - 1) + (k - 1)" using y(1) by (simp add: algebra_simps)
    then have "(y - 1) div k = y div k - 1"
      using k int_div_pos_eq [of "y - 1" k "y div k - 1" "k - 1"] by linarith
    with True show ?thesis by simp
  next
    case False
    then have "y - 1 = k * (y div k) + (y mod k - 1)" "0 \<le> y mod k - 1" using y by linarith+
    then have "(y - 1) div k = y div k"
      using y(3) int_div_pos_eq [of "y - 1" k "y div k" "y mod k - 1"] by linarith
    with False show ?thesis by simp
  qed
qed

lemma march_days_step: "march_days y - march_days (y - 1) = year_days y"
proof -
  have mods: "y mod 400 = 0 \<longrightarrow> y mod 100 = 0" "y mod 100 = 0 \<longrightarrow> y mod 4 = 0"
    using mod_mod_cancel [of 100 400 y] mod_mod_cancel [of 4 100 y] by auto
  have "march_days y - march_days (y - 1) = 365 + (y div 4 - (y - 1) div 4) - (y div 100 - (y - 1) div 100) +
      (y div 400 - (y - 1) div 400)"
    unfolding march_days_def by (simp add: algebra_simps)
  also have "\<dots> = 365 + (if y mod 4 = 0 then 1 else 0) - (if y mod 100 = 0 then 1 else 0) +
      (if y mod 400 = 0 then 1 else 0)"
    by (simp only: div_pred zero_less_numeral)
  finally show ?thesis
    using mods unfolding year_days_def leap_year_def by (simp only: split: if_split) linarith
qed

text \<open>The first of January of a year is the days of all years before it.\<close>

lemma january_days:
  "march_days (1969 + int n) - 719162 = sum_list (map (\<lambda>i. year_days (1970 + int i)) [0..<n])"
proof (induction n)
  case 0
  show ?case by (simp add: march_days_def)
next
  case (Suc n)
  have "march_days (1969 + int (Suc n)) = march_days (1969 + int n) + year_days (1970 + int n)"
    using march_days_step [of "1970 + int n"] by (simp add: algebra_simps)
  with Suc.IH show ?case by simp
qed

lemma civil_days_counted:
  assumes "1970 \<le> year" and "1 \<le> month" and "month \<le> 12"
  shows "civil_days year month day = counted_days year month day"
proof -
  define n where "n = nat (year - 1970)"
  have year: "year = 1970 + int n" using assms(1) by (simp add: n_def)
  have january: "march_days (1969 + int n) = 719162 + sum_list (map (\<lambda>i. year_days (1970 + int i)) [0..<n])"
    using january_days [of n] by simp
  have march: "march_days (1970 + int n) = march_days (1969 + int n) + year_days (1970 + int n)"
    using march_days_step [of "1970 + int n"] by (simp add: algebra_simps)
  have "month \<in> set [1..12]" using assms(2,3) by simp
  moreover have "list_all (\<lambda>month. (if month \<le> 2 then 0 else year_days year) +
      (153 * (month + (if month > 2 then - 3 else 9)) + 2) div 5 + 719162 + day - 719469
      = sum_list (take (nat (month - 1)) (month_days year)) + (day - 1)) [1..12]"
    by (simp add: upto_rec1 month_days_def year_days_def take_Cons')
  ultimately have "(if month \<le> 2 then 0 else year_days year) +
      (153 * (month + (if month > 2 then - 3 else 9)) + 2) div 5 + 719162 + day - 719469
      = sum_list (take (nat (month - 1)) (month_days year)) + (day - 1)"
    by (simp only: list_all_iff)
  with january march show ?thesis
    using civil_days_march [of year month day] assms(1)
    by (simp add: counted_days_def year split: if_splits)
qed

section \<open>Properties\<close>

text \<open>
  C27. The timestamp is the true number of seconds: whatever text is given, the parser's closed formula
  (eras, years of an era, months counted from March) yields what counting the days of every year since
  1970, of every month of the year and of the month gives, with the offset subtracted; and it yields
  nothing exactly when the fields are not a date or the moment lies before 1970.
\<close>

theorem rfc3339_counts:
  "parse_rfc3339_seconds v =
     (case rfc3339_fields v of
        None \<Rightarrow> None
      | Some (year, month, day, hour, minute, second, offset) \<Rightarrow>
          let utc = counted_days year month day * 86400 + hour * 3600 + minute * 60 + second - offset * 60 in
          if utc < 0 then None else Some utc)"
proof (cases "rfc3339_fields v")
  case (Some f)
  obtain year month day hour minute second offset
    where f: "f = (year, month, day, hour, minute, second, offset)" by (metis prod_cases7)
  have "1970 \<le> year" "1 \<le> month" "month \<le> 12"
    using Some unfolding f by (auto simp: rfc3339_fields_def split: if_splits option.splits)
  then have "civil_days year month day = counted_days year month day" by (rule civil_days_counted)
  then show ?thesis by (simp add: parse_rfc3339_seconds_def Some f Let_def algebra_simps)
qed (simp add: parse_rfc3339_seconds_def)

lemma ends_word_plain:
  assumes "ends_word c"
  shows "c \<noteq> quote" "c \<noteq> backslash" "\<not> expands c"
proof -
  have "byte c \<in> {9, 10, 32, 38, 40, 41, 59, 60, 62, 124}"
    using assms by (auto simp: ends_word_def)
  then show "c \<noteq> quote" "c \<noteq> backslash" "\<not> expands c" by (auto simp: expands_def)
qed

lemma sh_word_end: "rest = [] \<or> ends_word (hd rest) \<Longrightarrow> sh_word False rest = Some ([], rest)"
  by (cases rest; cases "tl rest") (simp_all add: ends_word_plain)

text \<open>
  A quoted value reaches the remote command as itself: a POSIX shell that reads the quoted text,
  followed by the end of the word, reads exactly the value, whatever quotes, blanks, newlines,
  operators or expansion characters it contains, and goes on after it.
\<close>

lemma shell_quote_exact:
  assumes "rest = [] \<or> ends_word (hd rest)"
  shows "sh_word False (posix_shell_quote v @ rest) = Some (v, rest)"
proof -
  have "sh_word False (posix_shell_quote v @ rest) = sh_word True (quoted_chars v @ quote # rest)"
    unfolding posix_shell_quote_def by (cases "quoted_chars v @ quote # rest") simp_all
  then show ?thesis using sh_word_end [OF assms] by (simp add: sh_word_quoted)
qed

text \<open>
  The fields are read with the number parser of the standard library, which allows a sign: texts
  that are no RFC 3339 timestamps are accepted, a month written \<open>+1\<close> and an offset of \<open>+-5:00\<close> among
  them.
\<close>

lemma rfc3339_lenient:
  "parse_rfc3339_seconds ''2030-+1-01T00:00:00Z'' = parse_rfc3339_seconds ''2030-01-01T00:00:00Z'' \<and>
   parse_rfc3339_seconds ''2030-01-01T00:00:00+-5:00'' = parse_rfc3339_seconds ''2030-01-01T00:00:00-05:00'' \<and>
   parse_rfc3339_seconds ''2030-01-01T00:00:00Z'' = Some 1893456000"
  by code_simp

end
