(* ===== verification/Node_Install.thy ===== *)
theory Node_Install
  imports Node_Install_State Node_Values Recovery_Registry Account_Operations Identifiers Utf8
begin

text \<open>
  Installing and enrolling a managed node (\<open>node_install\<close> of \<open>app/device_node.rs\<close>): the selected
  node, the release, the exchange under which a join code is issued, and the enrollment over SSH.
  The program run over SSH, the release download and the prompt are arguments; the log lists what
  leaves the machine, in order.
\<close>

section \<open>Requests\<close>

record node_data =
  nd_id :: string
  nd_name :: string
  nd_status :: string
  nd_ssh_host :: "string option"
  nd_ssh_port :: "16 word option"
  nd_ssh_user :: "string option"
  nd_version :: "string option"
  nd_ego_browser_enabled :: bool
  nd_configured_enabled :: bool
  nd_effective_enabled :: bool
  nd_node_execution_allowed :: bool
  nd_enrollment_admission :: bool
  nd_execution_admission :: bool

record join_code_data =
  jc_node_id :: string
  jc_code :: string
  jc_expires_at :: string
  jc_ego_browser_enabled :: "bool option"

datatype revoke_state = Revoked | Consumed | Missing

text \<open>The bodies of the two posts; a join code is asked for with a lifetime of 900 seconds.\<close>

datatype node_body = JoinCodeRequest nat "bool option" string | RevokeRequest string

definition list_nodes_request :: "node_body http_request" where
  "list_nodes_request = HttpGet ''/api/v1/nodes''"

definition issue_node_join_code :: "string \<Rightarrow> bool option \<Rightarrow> string \<Rightarrow> node_body http_request" where
  "issue_node_join_code node ego exchange =
     HttpPost (''/api/v1/nodes/'' @ url_encode node @ ''/join-code'') (JoinCodeRequest 900 ego exchange)"

definition revoke_node_join_code :: "string \<Rightarrow> string \<Rightarrow> node_body http_request" where
  "revoke_node_join_code node exchange =
     HttpPost (''/api/v1/nodes/'' @ url_encode node @ ''/join-code/revoke'') (RevokeRequest exchange)"

section \<open>Selection\<close>

record node_url = url_parts +
  nu_scheme :: string
  nu_path :: string

definition valid_node_install_server_url :: "(string \<Rightarrow> node_url option) \<Rightarrow> string \<Rightarrow> bool" where
  "valid_node_install_server_url U v \<longleftrightarrow>
     \<not> (v = [] \<or> length v > 2048 \<or> \<not> is_ascii v) \<and>
     (case U v of
        None \<Rightarrow> False
      | Some url \<Rightarrow>
          nu_scheme url \<in> {''http'', ''https''} \<and> up_username url = [] \<and> up_password url = None \<and>
          up_host url \<noteq> None \<and> up_query url = None \<and> up_fragment url = None \<and> nu_path url = ''/'' \<and>
          trim_end_slash (up_text url) = v)"

definition opt_text :: "string \<Rightarrow> string option \<Rightarrow> string" where
  "opt_text fallback v = (case v of None \<Rightarrow> fallback | Some s \<Rightarrow> s)"

definition bool_text :: "bool \<Rightarrow> string" where
  "bool_text b = (if b then ''true'' else ''false'')"

definition bar :: "string list \<Rightarrow> string" where
  "bar parts = concat (map (\<lambda>f. f @ ''|'') (butlast parts)) @ last parts"

definition node_fingerprint :: "node_data \<Rightarrow> string" where
  "node_fingerprint n =
     bar [nd_id n, nd_name n, nd_status n, opt_text [] (nd_ssh_host n),
          decimal (case nd_ssh_port n of None \<Rightarrow> 0 | Some p \<Rightarrow> unat p), opt_text [] (nd_ssh_user n),
          opt_text [] (nd_version n), bool_text (nd_configured_enabled n), bool_text (nd_effective_enabled n),
          bool_text (nd_node_execution_allowed n), bool_text (nd_ego_browser_enabled n),
          bool_text (nd_enrollment_admission n), bool_text (nd_execution_admission n)]"

definition node_install_fingerprint :: "crates \<Rightarrow> node_data \<Rightarrow> string" where
  "node_install_fingerprint X n =
     sha256_hex X (nd_id n @ [CHR 0x00] @ opt_text [] (nd_ssh_host n) @ [CHR 0x00] @
       decimal (case nd_ssh_port n of None \<Rightarrow> 22 | Some p \<Rightarrow> unat p) @ [CHR 0x00] @
       opt_text ''agent-remote'' (nd_ssh_user n))"

text \<open>Where the node is reached: host, user and port, each checked.\<close>

definition managed_address :: "node_data \<Rightarrow> (string \<times> string \<times> 16 word, failure) result" where
  "managed_address n =
     (case (case nd_ssh_host n of None \<Rightarrow> None | Some h \<Rightarrow> if h = [] then None else Some h) of
        None \<Rightarrow> Err (Bail ''selected Node has no managed SSH host'')
      | Some host \<Rightarrow>
          if \<not> valid_managed_ssh_host host then Err (Bail ''selected Node has an invalid managed SSH host'')
          else
            let user = (case nd_ssh_user n of None \<Rightarrow> ''agent-remote'' | Some u \<Rightarrow> if u = [] then ''agent-remote'' else u);
                port = (case nd_ssh_port n of None \<Rightarrow> 22 | Some p \<Rightarrow> p) in
            if \<not> valid_managed_ssh_user user then Err (Bail ''selected Node has an invalid managed SSH user'')
            else if port = 0 then Err (Bail ''selected Node has an invalid managed SSH port'')
            else Ok (host, user, port))"

text \<open>\<open>uuid::Uuid::parse_str\<close> and printing; unlike other places the nil value is allowed.\<close>

definition canonical_node_id :: "crates \<Rightarrow> string \<Rightarrow> bool" where
  "canonical_node_id X v = is_some_and (\<lambda>u. uuid_print X u = v) (uuid_parse X v)"

definition select_listed :: "crates \<Rightarrow> string \<Rightarrow> node_data list \<Rightarrow> (node_data, failure) result" where
  "select_listed X reference listed =
     (case resolve_id reference ''managed Node'' (map nd_id listed) of
        Err e \<Rightarrow> Err (Bail e)
      | Ok node_id \<Rightarrow>
          if \<not> canonical_node_id X node_id then Err (Bail ''control plane returned a non-canonical Node ID'')
          else case find (\<lambda>n. nd_id n = node_id) listed of
            None \<Rightarrow> Err (Bail ''selected Node disappeared'')
          | Some selected \<Rightarrow> Ok selected)"

definition select_current :: "node_data \<Rightarrow> node_data list \<Rightarrow> (node_data, failure) result" where
  "select_current selected nodes =
     (case find (\<lambda>n. nd_id n = nd_id selected) nodes of
        None \<Rightarrow> Err (Bail ''selected Node state is stale; refresh and retry'')
      | Some current \<Rightarrow>
          if node_fingerprint current \<noteq> node_fingerprint selected
          then Err (Bail ''selected Node state is stale; refresh and retry'')
          else if \<not> nd_enrollment_admission current
          then Err (Bail ''selected Node enrollment admission is closed'')
          else Ok current)"

section \<open>The environment of one installation\<close>

datatype confirmation = AssumedYes | NoTerminal | PromptFailed | Declined | Confirmed

datatype save_site = AtPrepare | AtInstalled | AtReissue | AtIssued

datatype clear_site = AtResume | AtInvalid | AtTransport | AtEnd

record node_world =
  nw_crates :: crates
  nw_url :: "string \<Rightarrow> node_url option"
  nw_config :: "(client_config, failure) result"
  nw_token :: "(string option, failure) result"
  nw_listed :: "(node_data list, failure) result"
  nw_refreshed :: "(node_data list, failure) result"
  nw_confirmation :: confirmation
  nw_probe :: "(bool \<times> string) option"
  nw_clock :: "64 word option"
  nw_version :: string
  nw_codec :: "exchange_state codec"
  nw_load :: owner_read
  nw_save :: "save_site \<Rightarrow> save_env"
  nw_clear :: "clear_site \<Rightarrow> clear_env"
  nw_random :: "save_site \<Rightarrow> u8 list"
  nw_release :: "(string, failure) result"
  nw_staged :: bool
  nw_transferred :: bool
  nw_installed :: bool
  nw_issue :: "(join_code_data, failure) result"
  nw_revoke :: "string \<Rightarrow> (revoke_state, failure) result"
  nw_now :: int
  nw_enrolled :: bool

text \<open>
  What leaves the machine: a request to the control plane, the installation of the staged release,
  and the enrollment command with the exchange it names and the join code on its input.
\<close>

datatype node_event =
    Asked "node_body http_request"
  | InstalledRelease string
  | Enrolled string "string option"

section \<open>Steps\<close>

definition remote_release_target :: "(bool \<times> string) option \<Rightarrow> (string, failure) result" where
  "remote_release_target probe =
     (case probe of
        None \<Rightarrow> Err (Bail ''failed to probe the managed Node release target over SSH'')
      | Some (success, stdout) \<Rightarrow>
          if \<not> success \<or> length stdout > 128
          then Err (Bail ''error_code=transport_unavailable state=target_unknown next_action=repair_node_ssh'')
          else if \<not> utf8_valid stdout then Err (Bail ''remote Node release target is not UTF-8'')
          else if valid_release_target (str_trim stdout) then Ok (str_trim stdout)
          else Err (Bail ''remote Node reported an unsupported release target''))"

definition confirm_install :: "confirmation \<Rightarrow> (bool, failure) result" where
  "confirm_install c =
     (case c of
        AssumedYes \<Rightarrow> Ok True
      | NoTerminal \<Rightarrow> Err (Bail ''error_code=confirmation_required next_action=select_node'')
      | PromptFailed \<Rightarrow> Err (IoErr IoOther)
      | Declined \<Rightarrow> Ok False
      | Confirmed \<Rightarrow> Ok True)"

text \<open>
  A step of the exchange: the file and the log so far go in and come out. A step that fails ends the
  installation.
\<close>

type_synonym 'a node_step = "string option \<times> node_event list \<Rightarrow> ('a, failure) result \<times> string option \<times> node_event list"

definition node_then :: "'a node_step \<Rightarrow> ('a \<Rightarrow> 'b node_step) \<Rightarrow> 'b node_step" where
  "node_then m k p = (case m p of (Err e, p') \<Rightarrow> (Err e, p') | (Ok a, p') \<Rightarrow> k a p')"

definition node_give :: "('a, failure) result \<Rightarrow> 'a node_step" where
  "node_give r p = (r, p)"

definition node_emit :: "node_event \<Rightarrow> ('a, failure) result \<Rightarrow> 'a node_step" where
  "node_emit e r p = (r, fst p, snd p @ [e])"

definition node_save :: "node_world \<Rightarrow> save_site \<Rightarrow> exchange_state \<Rightarrow> exchange_state node_step" where
  "node_save W site s p =
     (case exchange_save (nw_codec W) (nw_save W site) s (fst p) of
        (Err e, b) \<Rightarrow> (Err e, b, snd p)
      | (Ok _, b) \<Rightarrow> (Ok s, b, snd p))"

definition node_clear :: "node_world \<Rightarrow> clear_site \<Rightarrow> unit node_step" where
  "node_clear W site p =
     (case exchange_clear (nw_clear W site) (fst p) of (r, b) \<Rightarrow> (r, b, snd p))"

definition revoke_code :: "node_world \<Rightarrow> string \<Rightarrow> string \<Rightarrow> revoke_state node_step" where
  "revoke_code W node exchange = node_emit (Asked (revoke_node_join_code node exchange)) (nw_revoke W exchange)"

section \<open>The exchange\<close>

text \<open>What an installation is about, fixed before the exchange starts.\<close>

record node_job =
  nj_server :: string
  nj_node :: node_data
  nj_target :: string
  nj_ego :: bool
  nj_created :: "64 word"

definition new_exchange :: "node_world \<Rightarrow> node_job \<Rightarrow> save_site \<Rightarrow> (exchange_state, failure) result" where
  "new_exchange W j site =
     exchange_prepared (nw_random W site) (nj_server j) (nd_id (nj_node j))
       (node_install_fingerprint (nw_crates W) (nj_node j)) (nj_ego j) (nw_version W) (nj_target j) (nj_created j)"

text \<open>The pending exchange, or a new one that is saved before anything is done under it.\<close>

definition open_exchange :: "node_world \<Rightarrow> node_job \<Rightarrow> exchange_state option \<Rightarrow> exchange_state node_step" where
  "open_exchange W j pending =
     (case pending of
        Some s \<Rightarrow>
          node_give
            (if \<not> exchange_matches s (nj_server j) (nd_id (nj_node j))
                   (node_install_fingerprint (nw_crates W) (nj_node j)) (nj_ego j) (nw_version W) (nj_target j)
             then Err (Bail ''error_code=exchange_conflict state=exchange_pending next_action=finish_or_revoke_pending_node_install'')
             else Ok s)
      | None \<Rightarrow> node_then (node_give (new_exchange W j AtPrepare)) (node_save W AtPrepare))"

definition install_release :: "node_world \<Rightarrow> exchange_state \<Rightarrow> exchange_state node_step" where
  "install_release W s =
     (if ex_stage s \<noteq> Prepared then node_give (Ok s)
      else node_then (node_give (nw_release W)) (\<lambda>sha256.
        if \<not> nw_staged W \<and> \<not> nw_transferred W
        then node_give (Err (Bail ''error_code=transport_unavailable state=release_pending next_action=retry_same_command''))
        else node_then
          (node_emit (InstalledRelease sha256)
             (if nw_installed W then Ok ()
              else Err (Bail ''error_code=transport_unavailable state=release_pending next_action=retry_same_command'')))
          (\<lambda>_. node_then (node_give (mark_release_installed sha256 s)) (node_save W AtInstalled))))"

text \<open>
  An exchange found in the middle of an issue may have a live code: it is revoked, and the issue is
  repeated under a new exchange.
\<close>

definition replace_exchange :: "node_world \<Rightarrow> node_job \<Rightarrow> bool \<Rightarrow> exchange_state \<Rightarrow> exchange_state node_step" where
  "replace_exchange W j resuming s =
     (if \<not> (ex_stage s = ReleaseInstalled \<and> resuming) then node_give (Ok s)
      else node_then (revoke_code W (nd_id (nj_node j)) (ex_exchange_id s)) (\<lambda>state.
        if state = Consumed
        then node_give (Err (Bail ''error_code=unknown_result state=exchange_pending next_action=retry_same_command''))
        else case ex_release_sha256 s of
          None \<Rightarrow> node_give (Err (Bail ''release-installed exchange has no artifact digest''))
        | Some sha256 \<Rightarrow>
            node_then (node_clear W AtResume) (\<lambda>_.
            node_then (node_give (new_exchange W j AtReissue)) (\<lambda>s'.
            node_then (node_give (mark_release_installed sha256 s')) (node_save W AtReissue)))))"

definition join_ok :: "node_world \<Rightarrow> node_job \<Rightarrow> join_code_data \<Rightarrow> bool" where
  "join_ok W j code \<longleftrightarrow>
     \<not> (jc_node_id code \<noteq> nd_id (nj_node j) \<or> \<not> valid_join_code (str_trim (jc_code code)) \<or>
        \<not> valid_join_code_expiry (nw_now W) (str_trim (jc_expires_at code)) \<or>
        jc_ego_browser_enabled code \<noteq> (if nj_ego j then Some True else None))"

text \<open>A code that is refused is revoked; the exchange is forgotten only if that is known to have worked.\<close>

definition refuse_code :: "node_world \<Rightarrow> node_job \<Rightarrow> exchange_state \<Rightarrow> (exchange_state \<times> string option) node_step" where
  "refuse_code W j s p =
     (let refused = Err (Bail ''control plane returned an invalid Node join code'') in
      case revoke_code W (nd_id (nj_node j)) (ex_exchange_id s) p of
        (Ok state, p') \<Rightarrow>
          if state \<noteq> Consumed then node_then (node_clear W AtInvalid) (\<lambda>_. node_give refused) p' else (refused, p')
      | (Err _, p') \<Rightarrow> (refused, p'))"

definition issue_request :: "node_job \<Rightarrow> string \<Rightarrow> node_event" where
  "issue_request j x = Asked (issue_node_join_code (nd_id (nj_node j)) (if nj_ego j then Some True else None) x)"

definition issue_code :: "node_world \<Rightarrow> node_job \<Rightarrow> exchange_state \<Rightarrow> (exchange_state \<times> string option) node_step" where
  "issue_code W j s =
     (if ex_stage s \<noteq> ReleaseInstalled then node_give (Ok (s, None))
      else node_then
        (node_emit (issue_request j (ex_exchange_id s)) (nw_issue W))
        (\<lambda>code.
          if \<not> join_ok W j code then refuse_code W j s
          else node_then (node_give (mark_issued (str_trim (jc_expires_at code)) s)) (\<lambda>s'.
               node_then (node_save W AtIssued s') (\<lambda>_.
               node_give (Ok (s', Some (str_trim (jc_code code))))))))"

definition transport_failure :: "node_world \<Rightarrow> node_job \<Rightarrow> exchange_state \<Rightarrow> unit node_step" where
  "transport_failure W j s p =
     (let pending = Err (Bail ''error_code=transport_unavailable state=exchange_pending next_action=retry_same_command'') in
      case revoke_code W (nd_id (nj_node j)) (ex_exchange_id s) p of
        (Ok state, p') \<Rightarrow>
          if state = Consumed then (pending, p')
          else (case node_clear W AtTransport p' of
                  (Ok _, p'') \<Rightarrow>
                    (Err (Bail ''error_code=transport_unavailable state=join_code_revoked next_action=retry_node_install''), p'')
                | (Err _, p'') \<Rightarrow> (pending, p''))
      | (Err _, p') \<Rightarrow> (pending, p'))"

definition enroll :: "node_world \<Rightarrow> node_job \<Rightarrow> exchange_state \<times> string option \<Rightarrow> unit node_step" where
  "enroll W j = (\<lambda>(s, code).
     node_then (node_emit (Enrolled (ex_exchange_id s) code) (Ok ())) (\<lambda>_.
       if \<not> nw_enrolled W then transport_failure W j s
       else node_then (revoke_code W (nd_id (nj_node j)) (ex_exchange_id s)) (\<lambda>_. node_clear W AtEnd)))"

definition run_exchange :: "node_world \<Rightarrow> node_job \<Rightarrow> unit node_step" where
  "run_exchange W j p =
     (case exchange_load (nw_codec W) (nw_load W) (fst p) of
        Err e \<Rightarrow> (Err e, p)
      | Ok pending \<Rightarrow>
          let resuming = is_some_and (\<lambda>s. ex_stage s = ReleaseInstalled) pending in
          node_then (node_then (node_then (node_then (open_exchange W j pending) (install_release W))
            (replace_exchange W j resuming)) (issue_code W j)) (enroll W j) p)"

definition node_install ::
  "node_world \<Rightarrow> string \<Rightarrow> bool \<Rightarrow> string option \<Rightarrow> (unit, failure) result \<times> string option \<times> node_event list" where
  "node_install W reference ego bytes =
     (case nw_config W of
        Err e \<Rightarrow> (Err e, bytes, [])
      | Ok config \<Rightarrow>
          (case cf_server_url config of
             None \<Rightarrow> (Err (Bail ''server URL is not configured; run agent-remote login first''), bytes, [])
           | Some server \<Rightarrow>
               if \<not> valid_node_install_server_url (nw_url W) server
               then (Err (Bail ''configured server URL is not a canonical HTTP(S) origin; run login again''), bytes, [])
               else case nw_token W of
                 Err e \<Rightarrow> (Err e, bytes, [])
               | Ok None \<Rightarrow> (Err (Bail ''a logged-in user credential is required; run agent-remote login first''), bytes, [])
               | Ok (Some _) \<Rightarrow>
                   (case nw_listed W of Err e \<Rightarrow> (Err e, bytes, [Asked list_nodes_request]) | Ok listed \<Rightarrow>
                    case select_listed (nw_crates W) reference listed of
                      Err e \<Rightarrow> (Err e, bytes, [Asked list_nodes_request])
                    | Ok selected \<Rightarrow>
                        let log = [Asked list_nodes_request, Asked list_nodes_request] in
                        (case nw_refreshed W of Err e \<Rightarrow> (Err e, bytes, log) | Ok nodes \<Rightarrow>
                         case select_current selected nodes of
                           Err e \<Rightarrow> (Err e, bytes, log)
                         | Ok node \<Rightarrow>
                             (case managed_address node of Err e \<Rightarrow> (Err e, bytes, log) | Ok _ \<Rightarrow>
                              case confirm_install (nw_confirmation W) of Err e \<Rightarrow> (Err e, bytes, log)
                              | Ok False \<Rightarrow> (Ok (), bytes, log)
                              | Ok True \<Rightarrow>
                                (case remote_release_target (nw_probe W) of Err e \<Rightarrow> (Err e, bytes, log) | Ok target \<Rightarrow>
                                 case nw_clock W of
                                   None \<Rightarrow> (Err (Bail ''system clock is before the Unix epoch''), bytes, log)
                                 | Some created \<Rightarrow>
                                     run_exchange W \<lparr>nj_server = server, nj_node = node, nj_target = target,
                                       nj_ego = ego, nj_created = created\<rparr> (bytes, log)))))))"

section \<open>No join code is forgotten\<close>

text \<open>The exchange the file holds, and an exchange whose revocation was answered.\<close>

definition holds :: "exchange_state codec \<Rightarrow> string option \<Rightarrow> string \<Rightarrow> bool" where
  "holds c b x \<longleftrightarrow> (\<exists>t s. b = Some t \<and> from_json c t = Some s \<and> ex_exchange_id s = x)"

definition closed :: "node_world \<Rightarrow> string \<Rightarrow> node_event list \<Rightarrow> string \<Rightarrow> bool" where
  "closed W n log x \<longleftrightarrow> Asked (revoke_node_join_code n x) \<in> set log \<and> is_ok (nw_revoke W x)"

definition issues :: "string \<Rightarrow> node_event \<Rightarrow> bool" where
  "issues x e \<longleftrightarrow> (\<exists>n ego. e = Asked (issue_node_join_code n ego x))"

text \<open>
  Between two points of a run, every exchange that was held or had a code issued is still held or
  was closed.
\<close>

definition tracked :: "node_world \<Rightarrow> string \<Rightarrow> string option \<times> node_event list \<Rightarrow> string option \<times> node_event list \<Rightarrow> bool" where
  "tracked W n p p' \<longleftrightarrow>
     (\<exists>l. snd p' = snd p @ l \<and>
        (\<forall>x. holds (nw_codec W) (fst p) x \<or> (\<exists>e \<in> set l. issues x e) \<longrightarrow>
           holds (nw_codec W) (fst p') x \<or> closed W n (snd p') x))"

lemma holds_unique: "holds c b x \<Longrightarrow> holds c b y \<Longrightarrow> x = y"
  by (auto simp: holds_def)

lemma closed_append: "closed W n log x \<Longrightarrow> closed W n (log @ l) x"
  by (simp add: closed_def)

lemma tracked_refl: "tracked W n p p"
  unfolding tracked_def by (intro exI [of _ "[]"]) simp

lemma tracked_trans:
  assumes "tracked W n p p1" and "tracked W n p1 p2"
  shows "tracked W n p p2"
proof -
  from assms obtain l1 l2 where l: "snd p1 = snd p @ l1" "snd p2 = snd p1 @ l2"
    and one: "\<And>x. holds (nw_codec W) (fst p) x \<or> (\<exists>e \<in> set l1. issues x e) \<Longrightarrow>
        holds (nw_codec W) (fst p1) x \<or> closed W n (snd p1) x"
    and two: "\<And>x. holds (nw_codec W) (fst p1) x \<or> (\<exists>e \<in> set l2. issues x e) \<Longrightarrow>
        holds (nw_codec W) (fst p2) x \<or> closed W n (snd p2) x"
    unfolding tracked_def by blast
  have "holds (nw_codec W) (fst p2) x \<or> closed W n (snd p2) x"
    if "holds (nw_codec W) (fst p) x \<or> (\<exists>e \<in> set (l1 @ l2). issues x e)" for x
    using that one [of x] two [of x] closed_append [of W n "snd p1" x l2] l(2) by auto
  then show ?thesis unfolding tracked_def using l by (intro exI [of _ "l1 @ l2"]) auto
qed

text \<open>A step from points that satisfy \<open>P\<close>: it tracks, and when it succeeds its result satisfies \<open>Q\<close>.\<close>

definition does ::
  "node_world \<Rightarrow> string \<Rightarrow> (string option \<times> node_event list \<Rightarrow> bool) \<Rightarrow> 'a node_step \<Rightarrow>
     ('a \<Rightarrow> string option \<times> node_event list \<Rightarrow> bool) \<Rightarrow> bool" where
  "does W n P m Q \<longleftrightarrow> (\<forall>p r p'. P p \<longrightarrow> m p = (r, p') \<longrightarrow> tracked W n p p' \<and> (\<forall>a. r = Ok a \<longrightarrow> Q a p'))"

lemma does_then:
  assumes "does W n P m Q" and "\<And>a. does W n (Q a) (k a) R"
  shows "does W n P (node_then m k) R"
  unfolding does_def
proof (intro allI impI)
  fix p r p' assume "P p" and run: "node_then m k p = (r, p')"
  obtain r1 p1 where m: "m p = (r1, p1)" by (cases "m p")
  with assms(1) \<open>P p\<close> have one: "tracked W n p p1" "\<And>a. r1 = Ok a \<Longrightarrow> Q a p1" unfolding does_def by blast+
  show "tracked W n p p' \<and> (\<forall>a. r = Ok a \<longrightarrow> R a p')"
  proof (cases r1)
    case (Ok a)
    with run m have "k a p1 = (r, p')" by (simp add: node_then_def)
    with assms(2) [of a] one(2) [OF Ok] have "tracked W n p1 p' \<and> (\<forall>a. r = Ok a \<longrightarrow> R a p')"
      unfolding does_def by blast
    with tracked_trans [OF one(1)] show ?thesis by blast
  next
    case (Err e)
    with run m one(1) show ?thesis by (auto simp: node_then_def)
  qed
qed

lemma does_give: "(\<And>a p. r = Ok a \<Longrightarrow> P p \<Longrightarrow> Q a p) \<Longrightarrow> does W n P (node_give r) Q"
  by (auto simp: does_def node_give_def tracked_refl)

lemma does_fail [simp]: "does W n P (node_give (Err e)) Q"
  by (rule does_give) simp

lemma doesD:
  assumes "does W n P m Q" and "P p" and "m p = (r, p')"
  shows "tracked W n p p' \<and> (\<forall>a. r = Ok a \<longrightarrow> Q a p')"
  using assms unfolding does_def by blast

lemma does_weaken: "does W n P m Q \<Longrightarrow> (\<And>p. P' p \<Longrightarrow> P p) \<Longrightarrow> (\<And>a p. Q a p \<Longrightarrow> Q' a p) \<Longrightarrow> does W n P' m Q'"
  unfolding does_def by blast

text \<open>The current exchange is the one in the file; nothing else is.\<close>

abbreviation current :: "node_world \<Rightarrow> exchange_state \<Rightarrow> string option \<times> node_event list \<Rightarrow> bool" where
  "current W s p \<equiv> holds (nw_codec W) (fst p) (ex_exchange_id s)"

abbreviation nothing :: "node_world \<Rightarrow> string option \<times> node_event list \<Rightarrow> bool" where
  "nothing W p \<equiv> (\<forall>x. \<not> holds (nw_codec W) (fst p) x)"

lemma does_emit:
  assumes "\<And>x p. P p \<Longrightarrow> issues x e \<Longrightarrow> holds (nw_codec W) (fst p) x"
    and "\<And>a p. r = Ok a \<Longrightarrow> P p \<Longrightarrow> Q a (fst p, snd p @ [e])"
  shows "does W n P (node_emit e r) Q"
  unfolding does_def node_emit_def tracked_def using assms by (auto intro!: exI [of _ "[e]"])

lemma does_save:
  assumes "file_lawful (nw_codec W)"
    and "\<And>p x. P p \<Longrightarrow> holds (nw_codec W) (fst p) x \<Longrightarrow> x = ex_exchange_id s"
  shows "does W n P (node_save W site s) (\<lambda>a p. a = s \<and> current W s p)"
  unfolding does_def
proof (intro allI impI)
  fix p r p' assume "P p" and run: "node_save W site s p = (r, p')"
  obtain res b where save: "exchange_save (nw_codec W) (nw_save W site) s (fst p) = (res, b)" by force
  have p': "p' = (b, snd p)" and r: "\<And>a. r = Ok a \<Longrightarrow> a = s \<and> res = Ok ()"
    using run save by (auto simp: node_save_def split: result.splits)
  show "tracked W n p p' \<and> (\<forall>a. r = Ok a \<longrightarrow> a = s \<and> current W s p')"
    using save
  proof (cases rule: exchange_save_cases)
    case (kept e)
    then show ?thesis using p' r by (auto simp: tracked_refl)
  next
    case (written t)
    then have "from_json (nw_codec W) (t @ [char_of (10 :: nat)]) = Some s"
      using assms(1) by (simp add: file_lawful_def)
    then have now: "current W s p'" using written p' by (simp add: holds_def)
    then have "tracked W n p p'"
      unfolding tracked_def using p' assms(2) [OF \<open>P p\<close>] by (intro exI [of _ "[]"]) auto
    with now r show ?thesis by blast
  qed
qed

lemma does_clear:
  assumes "\<And>p x. P p \<Longrightarrow> holds (nw_codec W) (fst p) x \<Longrightarrow> closed W n (snd p) x"
  shows "does W n P (node_clear W site) (\<lambda>_ p. nothing W p)"
  unfolding does_def
proof (intro allI impI)
  fix p r p' assume "P p" and run: "node_clear W site p = (r, p')"
  obtain b where clear: "exchange_clear (nw_clear W site) (fst p) = (r, b)" and p': "p' = (b, snd p)"
    using run by (auto simp: node_clear_def split: prod.splits)
  have "tracked W n p p'"
    unfolding tracked_def using p' assms [OF \<open>P p\<close>] exchange_clear_cases(1) [OF clear]
    by (intro exI [of _ "[]"]) (auto simp: holds_def)
  moreover have "nothing W p'" if "r = Ok a" for a
    using exchange_clear_cases(2) [OF clear] that p' by (simp add: holds_def)
  ultimately show "tracked W n p p' \<and> (\<forall>a. r = Ok a \<longrightarrow> nothing W p')" by blast
qed

lemma revoke_not_issue: "\<not> issues x (Asked (revoke_node_join_code n y))" "\<not> issues x (InstalledRelease h)"
  "\<not> issues x (Enrolled y c)" "\<not> issues x (Asked list_nodes_request)"
  by (simp_all add: issues_def issue_node_join_code_def revoke_node_join_code_def list_nodes_request_def)

lemma does_revoke:
  "does W n (current W s) (revoke_code W n (ex_exchange_id s))
     (\<lambda>_ p. current W s p \<and> closed W n (snd p) (ex_exchange_id s))"
  unfolding revoke_code_def by (rule does_emit) (auto simp: revoke_not_issue closed_def)

lemma load_None: "exchange_load c R b = Ok None \<Longrightarrow> b = None"
  by (auto simp: exchange_load_def read_owner_only_file_def Let_def split: result.splits option.splits if_splits prod.splits)

lemma load_Some: "exchange_load c R b = Ok (Some s) \<Longrightarrow> holds c b (ex_exchange_id s)"
  by (auto simp: exchange_load_def read_owner_only_file_def holds_def Let_def
      split: result.splits option.splits if_splits prod.splits)

lemma does_open:
  assumes "file_lawful (nw_codec W)"
  shows "does W n (\<lambda>p. case pending of None \<Rightarrow> nothing W p | Some s \<Rightarrow> current W s p)
    (open_exchange W j pending) (\<lambda>s p. current W s p)"
proof (cases pending)
  case None
  have "does W n (nothing W) (node_then (node_give (new_exchange W j AtPrepare)) (node_save W AtPrepare))
      (\<lambda>s p. current W s p)"
  proof (rule does_then [where Q = "\<lambda>_. nothing W", OF does_give])
    fix s
    show "does W n (nothing W) (node_save W AtPrepare s) (\<lambda>s p. current W s p)"
      by (rule does_weaken [OF does_save [OF assms, of "nothing W"]]) auto
  qed auto
  with None show ?thesis by (simp add: open_exchange_def)
next
  case (Some s)
  then show ?thesis by (auto simp: open_exchange_def intro!: does_give split: if_splits)
qed

lemma does_save_same:
  assumes "file_lawful (nw_codec W)" and "ex_exchange_id s' = ex_exchange_id s"
  shows "does W n (current W s) (node_save W site s') (\<lambda>a p. a = s' \<and> current W s' p)"
  by (rule does_save [OF assms(1)]) (metis assms(2) holds_unique)

lemma does_install:
  assumes "file_lawful (nw_codec W)"
  shows "does W n (current W s) (install_release W s) (\<lambda>s p. current W s p)"
proof -
  have mark: "does W n (current W s) (node_then (node_give (mark_release_installed sha256 s)) (node_save W AtInstalled))
      (\<lambda>s p. current W s p)" for sha256
  proof (rule does_then [where Q = "\<lambda>s' p. current W s p \<and> ex_exchange_id s' = ex_exchange_id s", OF does_give])
    fix s'
    show "does W n (\<lambda>p. current W s p \<and> ex_exchange_id s' = ex_exchange_id s) (node_save W AtInstalled s')
        (\<lambda>s p. current W s p)"
      by (rule does_weaken [OF does_save [OF assms,
            of "\<lambda>p. current W s p \<and> ex_exchange_id s' = ex_exchange_id s"]]) (auto dest: holds_unique)
  qed (auto dest: mark_release_installed_Ok)
  have emit: "does W n (current W s)
      (node_then (node_emit (InstalledRelease sha256) (r :: (unit, failure) result))
        (\<lambda>_. node_then (node_give (mark_release_installed sha256 s)) (node_save W AtInstalled)))
      (\<lambda>s p. current W s p)" for sha256 r
    by (rule does_then [OF does_emit mark]) (auto simp: revoke_not_issue)
  have release: "does W n (current W s) (node_then (node_give (nw_release W)) k) (\<lambda>s p. current W s p)"
    if "\<And>sha256. does W n (current W s) (k sha256) (\<lambda>s p. current W s p)" for k
    by (rule does_then [where Q = "\<lambda>_. current W s", OF does_give that])
  show ?thesis
  proof (cases "ex_stage s = Prepared")
    case True
    have "does W n (current W s)
      (if \<not> nw_staged W \<and> \<not> nw_transferred W
       then node_give (Err (Bail ''error_code=transport_unavailable state=release_pending next_action=retry_same_command''))
       else node_then (node_emit (InstalledRelease sha256)
           (if nw_installed W then Ok ()
            else Err (Bail ''error_code=transport_unavailable state=release_pending next_action=retry_same_command'')))
         (\<lambda>_. node_then (node_give (mark_release_installed sha256 s)) (node_save W AtInstalled)))
      (\<lambda>s p. current W s p)" for sha256
      using emit by simp
    from release [OF this] True show ?thesis by (simp add: install_release_def)
  next
    case False
    then show ?thesis by (auto simp: install_release_def intro: does_give)
  qed
qed

lemma does_replace:
  assumes "file_lawful (nw_codec W)"
  shows "does W (nd_id (nj_node j)) (current W s) (replace_exchange W j resuming s) (\<lambda>s p. current W s p)"
proof -
  let ?n = "nd_id (nj_node j)"
  have fresh: "does W ?n (nothing W)
      (node_then (node_give (new_exchange W j AtReissue)) (\<lambda>s'.
         node_then (node_give (mark_release_installed sha256 s')) (node_save W AtReissue))) (\<lambda>s p. current W s p)"
    for sha256
  proof (rule does_then [where Q = "\<lambda>_. nothing W", OF does_give])
    fix s'
    show "does W ?n (nothing W) (node_then (node_give (mark_release_installed sha256 s')) (node_save W AtReissue))
        (\<lambda>s p. current W s p)"
      by (rule does_then [where Q = "\<lambda>_. nothing W", OF does_give does_weaken [OF does_save [OF assms, of "nothing W"]]])
        auto
  qed auto
  have clear: "does W ?n (\<lambda>p. current W s p \<and> closed W ?n (snd p) (ex_exchange_id s)) (node_clear W AtResume)
      (\<lambda>_. nothing W)"
    by (rule does_clear) (auto dest: holds_unique)
  have rest: "does W ?n (\<lambda>p. current W s p \<and> closed W ?n (snd p) (ex_exchange_id s))
     (if state = Consumed
      then node_give (Err (Bail ''error_code=unknown_result state=exchange_pending next_action=retry_same_command''))
      else case ex_release_sha256 s of
        None \<Rightarrow> node_give (Err (Bail ''release-installed exchange has no artifact digest''))
      | Some sha256 \<Rightarrow>
          node_then (node_clear W AtResume) (\<lambda>_.
          node_then (node_give (new_exchange W j AtReissue)) (\<lambda>s'.
          node_then (node_give (mark_release_installed sha256 s')) (node_save W AtReissue))))
     (\<lambda>s p. current W s p)" for state
    using does_then [OF clear fresh] by (auto intro!: does_give split: option.split)
  show ?thesis
    unfolding replace_exchange_def
    by (auto intro!: does_give does_then [OF does_revoke rest])
qed

lemma does_refuse:
  "does W (nd_id (nj_node j)) (current W s) (refuse_code W j s) (\<lambda>a p. current W (fst a) p)"
proof -
  let ?n = "nd_id (nj_node j)" and ?refused = "Err (Bail ''control plane returned an invalid Node join code'')"
  have clear: "does W ?n (\<lambda>p. current W s p \<and> closed W ?n (snd p) (ex_exchange_id s))
      (node_then (node_clear W AtInvalid) (\<lambda>_. node_give ?refused)) (\<lambda>a p. current W (fst a) p)"
    by (rule does_then [OF does_clear does_give]) (auto dest: holds_unique)
  show ?thesis
    unfolding does_def
  proof (intro allI impI)
    fix p r p' assume p: "current W s p" and run: "refuse_code W j s p = (r, p')"
    obtain r1 p1 where revoke: "revoke_code W ?n (ex_exchange_id s) p = (r1, p1)" by (rule prod.exhaust)
    have one: "tracked W ?n p p1" "\<And>a. r1 = Ok a \<Longrightarrow> current W s p1 \<and> closed W ?n (snd p1) (ex_exchange_id s)"
      using does_revoke [of W ?n s] p revoke unfolding does_def by blast+
    have "tracked W ?n p1 p' \<and> (\<forall>a. r = Ok a \<longrightarrow> current W (fst a) p')"
    proof (cases "\<exists>state. r1 = Ok state \<and> state \<noteq> Consumed")
      case True
      then have "node_then (node_clear W AtInvalid) (\<lambda>_. node_give ?refused) p1 = (r, p')"
        using run revoke by (auto simp: refuse_code_def Let_def)
      from doesD [OF clear _ this] one(2) True show ?thesis by blast
    next
      case False
      then have "p' = p1" "r = ?refused" using run revoke by (auto simp: refuse_code_def Let_def split: result.splits)
      then show ?thesis by (simp add: tracked_refl)
    qed
    with tracked_trans [OF one(1)] show "tracked W ?n p p' \<and> (\<forall>a. r = Ok a \<longrightarrow> current W (fst a) p')" by blast
  qed
qed

lemma does_issue:
  assumes "file_lawful (nw_codec W)"
  shows "does W (nd_id (nj_node j)) (current W s) (issue_code W j s) (\<lambda>a p. current W (fst a) p)"
proof (cases "ex_stage s = ReleaseInstalled")
  case True
  let ?n = "nd_id (nj_node j)"
  have save: "does W ?n (\<lambda>p. current W s p \<and> ex_exchange_id s' = ex_exchange_id s)
      (node_then (node_save W AtIssued s') (\<lambda>_. node_give (Ok (s', c)))) (\<lambda>a p. current W (fst a) p)" for s' c
    by (rule does_then [OF does_save [OF assms] does_give]) (auto dest: holds_unique)
  have mark: "does W ?n (current W s)
      (node_then (node_give (mark_issued e s)) (\<lambda>s'. node_then (node_save W AtIssued s') (\<lambda>_. node_give (Ok (s', c)))))
      (\<lambda>a p. current W (fst a) p)" for e c
    by (rule does_then [OF does_give save]) (auto dest: mark_issued_Ok)
  have emit: "does W ?n (current W s)
      (node_emit (issue_request j (ex_exchange_id s)) (nw_issue W))
      (\<lambda>_. current W s)"
    by (rule does_emit) (auto simp: issue_request_def issues_def issue_node_join_code_def)
  have "does W ?n (current W s)
      (if \<not> join_ok W j code then refuse_code W j s
       else node_then (node_give (mark_issued (str_trim (jc_expires_at code)) s)) (\<lambda>s'.
            node_then (node_save W AtIssued s') (\<lambda>_. node_give (Ok (s', Some (str_trim (jc_code code)))))))
      (\<lambda>a p. current W (fst a) p)" for code
  proof (cases "join_ok W j code")
    case True
    then have "\<not> \<not> join_ok W j code" by simp
    then show ?thesis by (subst if_not_P) (assumption, rule mark)
  next
    case False
    then show ?thesis by (subst if_P) (assumption, rule does_refuse)
  qed
  from does_then [OF emit this] True show ?thesis by (simp add: issue_code_def)
next
  case False
  then show ?thesis by (auto simp: issue_code_def intro: does_give)
qed

lemma does_transport:
  "does W (nd_id (nj_node j)) (current W s) (transport_failure W j s) Q"
  unfolding does_def
proof (intro allI impI)
  let ?n = "nd_id (nj_node j)"
  fix p r p' assume p: "current W s p" and run: "transport_failure W j s p = (r, p')"
  obtain r1 p1 where revoke: "revoke_code W ?n (ex_exchange_id s) p = (r1, p1)" by (rule prod.exhaust)
  note one = doesD [OF does_revoke p revoke]
  have fails: "\<And>a. r \<noteq> Ok a"
    using run revoke by (auto simp: transport_failure_def Let_def split: result.splits if_splits prod.splits)
  have "tracked W ?n p1 p'"
  proof (cases "\<exists>state. r1 = Ok state \<and> state \<noteq> Consumed")
    case True
    then obtain r2 where clear: "node_clear W AtTransport p1 = (r2, p')"
      using run revoke by (auto simp: transport_failure_def Let_def split: result.splits prod.splits)
    have "does W ?n (\<lambda>p. current W s p \<and> closed W ?n (snd p) (ex_exchange_id s)) (node_clear W AtTransport) (\<lambda>_. nothing W)"
      by (rule does_clear) (auto dest: holds_unique)
    from doesD [OF this _ clear] one True show ?thesis by blast
  next
    case False
    then have "p' = p1" using run revoke by (auto simp: transport_failure_def Let_def split: result.splits if_splits)
    then show ?thesis by (simp add: tracked_refl)
  qed
  with one tracked_trans fails show "tracked W ?n p p' \<and> (\<forall>a. r = Ok a \<longrightarrow> Q a p')" by blast
qed

lemma does_enroll:
  "does W (nd_id (nj_node j)) (current W (fst a)) (enroll W j a) (\<lambda>_ p. nothing W p)"
proof -
  let ?n = "nd_id (nj_node j)" and ?s = "fst a"
  have finished: "does W ?n (current W ?s)
      (node_then (revoke_code W ?n (ex_exchange_id ?s)) (\<lambda>_. node_clear W AtEnd)) (\<lambda>_ p. nothing W p)"
    by (rule does_then [OF does_revoke does_clear]) (auto dest: holds_unique)
  have emit: "does W ?n (current W ?s) (node_emit (Enrolled (ex_exchange_id ?s) (snd a)) (Ok ())) (\<lambda>_. current W ?s)"
    by (rule does_emit) (auto simp: revoke_not_issue)
  have "does W ?n (current W ?s)
      (if \<not> nw_enrolled W then transport_failure W j ?s
       else node_then (revoke_code W ?n (ex_exchange_id ?s)) (\<lambda>_. node_clear W AtEnd)) (\<lambda>_ p. nothing W p)"
    using finished does_transport by simp
  from does_then [OF emit this] show ?thesis by (simp add: enroll_def case_prod_beta)
qed

lemma run_exchange_tracked:
  assumes "file_lawful (nw_codec W)" and "run_exchange W j p = (r, p')"
  shows "tracked W (nd_id (nj_node j)) p p'" and "r = Ok () \<Longrightarrow> nothing W p'"
proof -
  let ?n = "nd_id (nj_node j)"
  show "tracked W ?n p p'" "r = Ok () \<Longrightarrow> nothing W p'"
  proof (atomize (full), cases "exchange_load (nw_codec W) (nw_load W) (fst p)")
    case (Ok pending)
    let ?P = "\<lambda>p. case pending of None \<Rightarrow> nothing W p | Some s \<Rightarrow> current W s p"
    have "?P p"
      using Ok load_None [of "nw_codec W" "nw_load W" "fst p"] load_Some [of "nw_codec W" "nw_load W" "fst p"]
      by (cases pending) (auto simp: holds_def)
    moreover have "does W ?n ?P
        (node_then (node_then (node_then (node_then (open_exchange W j pending) (install_release W))
          (replace_exchange W j resuming)) (issue_code W j)) (enroll W j)) (\<lambda>_ p. nothing W p)" for resuming
      by (rule does_then [OF does_then [OF does_then [OF does_then [OF does_open [OF assms(1)] does_install [OF assms(1)]]
            does_replace [OF assms(1)]] does_issue [OF assms(1)]] does_enroll])
    ultimately show "tracked W ?n p p' \<and> (r = Ok () \<longrightarrow> nothing W p')"
      using assms(2) Ok unfolding run_exchange_def Let_def by (auto dest: doesD)
  next
    case (Err e)
    with assms(2) show "tracked W ?n p p' \<and> (r = Ok () \<longrightarrow> nothing W p')"
      by (auto simp: run_exchange_def tracked_refl)
  qed
qed

section \<open>The order of messages\<close>

lemma node_then_cases:
  assumes "node_then m k p = (r, p')"
  obtains (stopped) e where "m p = (Err e, p')" "r = Err e"
  | (continued) a p1 where "m p = (Ok a, p1)" "k a p1 = (r, p')"
  using assms by (cases "m p"; cases "fst (m p)") (auto simp: node_then_def)

lemma node_then_emit: "node_then (node_emit e (Ok a)) k p = k a (fst p, snd p @ [e])"
  by (simp add: node_then_def node_emit_def)

lemma node_save_log: "node_save W site s p = (r, p') \<Longrightarrow> snd p' = snd p \<and> (\<forall>a. r = Ok a \<longrightarrow> a = s)"
  by (auto simp: node_save_def split: result.splits prod.splits)

lemma node_clear_log: "node_clear W site p = (r, p') \<Longrightarrow> snd p' = snd p"
  by (auto simp: node_clear_def split: prod.splits)

lemma revoke_code_log:
  "revoke_code W n x p = (r, p') \<Longrightarrow>
     snd p' = snd p @ [Asked (revoke_node_join_code n x)] \<and> nw_revoke W x = r"
  by (auto simp: revoke_code_def node_emit_def)

lemma open_exchange_log:
  "open_exchange W j pending p = (r, p') \<Longrightarrow> snd p' = snd p \<and>
     (\<forall>s. r = Ok s \<longrightarrow> ex_stage s = Prepared \<or> pending = Some s)"
  by (auto simp: open_exchange_def node_give_def node_then_def new_exchange_def
      dest!: node_save_log exchange_prepared_Ok split: option.splits result.splits if_splits)

lemma install_release_log:
  assumes "install_release W s p = (r, p')"
  shows "\<exists>l. snd p' = snd p @ l \<and> (l = [] \<or> (\<exists>h. l = [InstalledRelease h])) \<and>
    (is_ok r \<longrightarrow> l \<noteq> [] \<and> nw_installed W \<or> ex_stage s \<noteq> Prepared)"
  using assms
  by (auto simp: install_release_def node_give_def node_then_def node_emit_def
      dest!: node_save_log mark_release_installed_Ok split: result.splits if_splits)

lemma replace_exchange_log:
  assumes "replace_exchange W j resuming s p = (r, p')"
  shows "\<exists>l. snd p' = snd p @ l \<and>
      (l = [] \<or> resuming \<and> l = [Asked (revoke_node_join_code (nd_id (nj_node j)) (ex_exchange_id s))])"
  using assms
  by (auto simp: replace_exchange_def node_give_def elim!: node_then_cases
      dest!: node_save_log node_clear_log revoke_code_log split: if_splits option.splits)

lemma refuse_code_log:
  assumes "refuse_code W j s p = (r, p')"
  shows "snd p' = snd p @ [Asked (revoke_node_join_code (nd_id (nj_node j)) (ex_exchange_id s))]" and "\<not> is_ok r"
  using assms
  by (auto simp: refuse_code_def node_give_def node_then_def Let_def
      dest!: node_clear_log revoke_code_log split: if_splits result.splits prod.splits)

text \<open>The messages of an issue: none, the request, or the request and the revocation of its code.\<close>

definition issue_messages :: "node_job \<Rightarrow> string \<Rightarrow> node_event list set" where
  "issue_messages j x =
     {[], [issue_request j x], [issue_request j x, Asked (revoke_node_join_code (nd_id (nj_node j)) x)]}"

lemma issue_code_log:
  assumes "issue_code W j s p = (r, p')"
  shows "\<exists>l \<in> issue_messages j (ex_exchange_id s). snd p' = snd p @ l \<and>
    (\<forall>s' code. r = Ok (s', code) \<longrightarrow> ex_exchange_id s' = ex_exchange_id s \<and> length l = (if code = None then 0 else 1))"
proof (cases "ex_stage s = ReleaseInstalled")
  case False
  with assms have "r = Ok (s, None)" "p' = p" by (simp_all add: issue_code_def node_give_def)
  then show ?thesis by (intro bexI [of _ "[]"]) (simp_all add: issue_messages_def)
next
  case True
  let ?ask = "issue_request j (ex_exchange_id s)"
  let ?p = "(fst p, snd p @ [?ask])"
  have failed: "nw_issue W = Err e \<Longrightarrow> r = Err e \<and> p' = ?p" for e
    using assms True by (simp add: issue_code_def node_then_def node_emit_def)
  have bad: "snd p' = snd ?p @ [Asked (revoke_node_join_code (nd_id (nj_node j)) (ex_exchange_id s))] \<and> \<not> is_ok r"
    if "nw_issue W = Ok code" "\<not> join_ok W j code" for code
    using assms True that refuse_code_log [of W j s ?p r p'] by (simp add: issue_code_def node_then_emit)
  have join: "snd p' = snd ?p \<and> (\<forall>s' c. r = Ok (s', c) \<longrightarrow> c \<noteq> None \<and> ex_exchange_id s' = ex_exchange_id s)"
    if "nw_issue W = Ok code" "join_ok W j code" for code
  proof -
    have "node_then (node_give (mark_issued (str_trim (jc_expires_at code)) s)) (\<lambda>s'.
        node_then (node_save W AtIssued s') (\<lambda>_. node_give (Ok (s', Some (str_trim (jc_code code)))))) ?p = (r, p')"
      using assms True that by (simp add: issue_code_def node_then_emit split del: if_split)
    then show ?thesis
    proof (cases rule: node_then_cases)
      case (stopped e)
      then show ?thesis by (simp add: node_give_def)
    next
      case (continued s1 p1)
      then have s1: "ex_exchange_id s1 = ex_exchange_id s" and p1: "p1 = ?p"
        using mark_issued_Ok by (auto simp: node_give_def)
      from continued(2) show ?thesis
      proof (cases rule: node_then_cases)
        case (stopped e)
        with node_save_log [OF stopped(1)] p1 show ?thesis by simp
      next
        case (continued s2 p2)
        with node_save_log [OF continued(1)] p1 s1 show ?thesis by (auto simp: node_give_def)
      qed
    qed
  qed
  consider (asked) "snd p' = snd ?p" "\<forall>s' c. r = Ok (s', c) \<longrightarrow> c \<noteq> None \<and> ex_exchange_id s' = ex_exchange_id s"
    | (refused) "snd p' = snd ?p @ [Asked (revoke_node_join_code (nd_id (nj_node j)) (ex_exchange_id s))]" "\<not> is_ok r"
  proof (cases "nw_issue W")
    case (Ok code)
    show thesis
    proof (cases "join_ok W j code")
      case True
      from join [OF Ok True] show thesis by (elim conjE) (rule asked)
    next
      case False
      from bad [OF Ok False] show thesis by (elim conjE) (rule refused)
    qed
  next
    case (Err e)
    from failed [OF Err] show thesis by (intro asked) simp_all
  qed
  then show ?thesis
  proof cases
    case asked
    have "\<forall>s' code. r = Ok (s', code) \<longrightarrow> ex_exchange_id s' = ex_exchange_id s \<and> length [?ask] = (if code = None then 0 else 1)"
    proof (intro allI impI)
      fix s' code assume "r = Ok (s', code)"
      with asked(2) have "code \<noteq> None" "ex_exchange_id s' = ex_exchange_id s" by blast+
      then show "ex_exchange_id s' = ex_exchange_id s \<and> length [?ask] = (if code = None then 0 else 1)" by simp
    qed
    with asked(1) show ?thesis by (intro bexI [of _ "[?ask]"]) (simp_all add: issue_messages_def)
  next
    case refused
    then show ?thesis
      by (intro bexI [of _ "[?ask, Asked (revoke_node_join_code (nd_id (nj_node j)) (ex_exchange_id s))]"])
        (simp_all add: issue_messages_def is_ok_iff)
  qed
qed

definition enroll_messages :: "node_job \<Rightarrow> string \<Rightarrow> string option \<Rightarrow> node_event list" where
  "enroll_messages j x code = [Enrolled x code, Asked (revoke_node_join_code (nd_id (nj_node j)) x)]"

lemma transport_failure_log:
  "transport_failure W j s p = (r, p') \<Longrightarrow>
     snd p' = snd p @ [Asked (revoke_node_join_code (nd_id (nj_node j)) (ex_exchange_id s))] \<and> \<not> is_ok r"
  by (auto simp: transport_failure_def Let_def dest!: node_clear_log revoke_code_log
      split: result.splits if_splits prod.splits)

lemma enroll_log:
  assumes "enroll W j (s, code) p = (r, p')"
  shows "snd p' = snd p @ enroll_messages j (ex_exchange_id s) code"
    and "r = Ok () \<Longrightarrow> nw_enrolled W \<and> is_ok (nw_revoke W (ex_exchange_id s))"
  using assms
  by (auto simp: enroll_def enroll_messages_def node_emit_def node_then_def is_ok_iff
      dest!: node_clear_log revoke_code_log transport_failure_log split: if_splits result.splits prod.splits)

text \<open>
  The messages of a run after the node was selected: at most one installation of the release, at most
  one revocation of an earlier exchange, those of one issue, and those of one enrollment, which carries
  a code only if the issue before it gave one for the same exchange.
\<close>

definition run_messages :: "node_world \<Rightarrow> node_job \<Rightarrow> exchange_state option \<Rightarrow> bool \<Rightarrow> node_event list \<Rightarrow> bool" where
  "run_messages W j pending succeeded l \<longleftrightarrow>
     (\<exists>i v c e x. l = i @ v @ c @ e \<and> (i = [] \<or> (\<exists>h. i = [InstalledRelease h])) \<and>
        (v = [] \<or> (\<exists>y. v = [Asked (revoke_node_join_code (nd_id (nj_node j)) y)])) \<and>
        c \<in> issue_messages j x \<and>
        (e = [] \<or> (\<exists>code. e = enroll_messages j x code \<and> length c = (if code = None then 0 else 1))) \<and>
        (v @ c @ e \<noteq> [] \<longrightarrow> i \<noteq> [] \<and> nw_installed W \<or> is_some_and (\<lambda>s. ex_stage s \<noteq> Prepared) pending) \<and>
        (succeeded \<longrightarrow> e \<noteq> [] \<and> nw_enrolled W \<and> is_ok (nw_revoke W x)))"

lemma no_issue_messages: "[] \<in> issue_messages j x"
  by (simp add: issue_messages_def)

abbreviation release_there :: "node_world \<Rightarrow> exchange_state option \<Rightarrow> node_event list \<Rightarrow> bool" where
  "release_there W pending i \<equiv>
     i \<noteq> [] \<and> nw_installed W \<or> is_some_and (\<lambda>s. ex_stage s \<noteq> Prepared) pending"

lemma installed_log:
  assumes "node_then (open_exchange W j pending) (install_release W) p = (r, p')"
  shows "\<exists>i. snd p' = snd p @ i \<and> (i = [] \<or> (\<exists>h. i = [InstalledRelease h])) \<and>
    (is_ok r \<longrightarrow> release_there W pending i)"
  using assms
proof (cases rule: node_then_cases)
  case (stopped e)
  with open_exchange_log [OF stopped(1)] show ?thesis by (intro exI [of _ "[]"]) (auto simp: is_ok_iff)
next
  case (continued s p1)
  note opened = open_exchange_log [OF continued(1)]
  from install_release_log [OF continued(2)] obtain l where l: "snd p' = snd p1 @ l"
    "l = [] \<or> (\<exists>h. l = [InstalledRelease h])" "is_ok r \<longrightarrow> l \<noteq> [] \<and> nw_installed W \<or> ex_stage s \<noteq> Prepared" by blast
  with opened show ?thesis by (intro exI [of _ l]) auto
qed

lemma replaced_log:
  assumes "node_then (node_then (open_exchange W j pending) (install_release W)) (replace_exchange W j resuming) p = (r, p')"
  shows "\<exists>i v. snd p' = snd p @ i @ v \<and> (i = [] \<or> (\<exists>h. i = [InstalledRelease h])) \<and>
    (v = [] \<or> (\<exists>y. v = [Asked (revoke_node_join_code (nd_id (nj_node j)) y)])) \<and>
    (is_ok r \<or> v \<noteq> [] \<longrightarrow> release_there W pending i)"
  using assms
proof (cases rule: node_then_cases)
  case (stopped e)
  from installed_log [OF stopped(1)] obtain i where "snd p' = snd p @ i" "i = [] \<or> (\<exists>h. i = [InstalledRelease h])" by blast
  with stopped show ?thesis by (intro exI [of _ i] exI [of _ "[]"]) (auto simp: is_ok_iff)
next
  case (continued s p1)
  from installed_log [OF continued(1)] obtain i where i: "snd p1 = snd p @ i"
    "i = [] \<or> (\<exists>h. i = [InstalledRelease h])" "release_there W pending i" by (auto simp: is_ok_iff)
  from replace_exchange_log [OF continued(2)] obtain v where v: "snd p' = snd p1 @ v"
    "v = [] \<or> (\<exists>y. v = [Asked (revoke_node_join_code (nd_id (nj_node j)) y)])" by blast
  from i v show ?thesis by (intro exI [of _ i] exI [of _ v]) simp
qed

lemma issued_log:
  assumes "node_then (node_then (node_then (open_exchange W j pending) (install_release W))
      (replace_exchange W j resuming)) (issue_code W j) p = (r, p')"
  shows "\<exists>i v c x. snd p' = snd p @ i @ v @ c \<and> (i = [] \<or> (\<exists>h. i = [InstalledRelease h])) \<and>
    (v = [] \<or> (\<exists>y. v = [Asked (revoke_node_join_code (nd_id (nj_node j)) y)])) \<and> c \<in> issue_messages j x \<and>
    (is_ok r \<or> v @ c \<noteq> [] \<longrightarrow> release_there W pending i) \<and>
    (\<forall>s code. r = Ok (s, code) \<longrightarrow> ex_exchange_id s = x \<and> length c = (if code = None then 0 else 1))"
  using assms
proof (cases rule: node_then_cases)
  case (stopped e)
  from replaced_log [OF stopped(1)] obtain i v where "snd p' = snd p @ i @ v" "i = [] \<or> (\<exists>h. i = [InstalledRelease h])"
    "v = [] \<or> (\<exists>y. v = [Asked (revoke_node_join_code (nd_id (nj_node j)) y)])" "v \<noteq> [] \<longrightarrow> release_there W pending i" by blast
  with stopped show ?thesis
    by (intro exI [of _ i] exI [of _ v] exI [of _ "[]"] exI [of _ "[]"]) (simp add: no_issue_messages is_ok_iff)
next
  case (continued s p1)
  from replaced_log [OF continued(1)] obtain i v where iv: "snd p1 = snd p @ i @ v"
    "i = [] \<or> (\<exists>h. i = [InstalledRelease h])"
    "v = [] \<or> (\<exists>y. v = [Asked (revoke_node_join_code (nd_id (nj_node j)) y)])" "release_there W pending i"
    by (auto simp: is_ok_iff)
  from issue_code_log [OF continued(2)] obtain c where "c \<in> issue_messages j (ex_exchange_id s)" "snd p' = snd p1 @ c"
    "\<forall>s' code. r = Ok (s', code) \<longrightarrow> ex_exchange_id s' = ex_exchange_id s \<and> length c = (if code = None then 0 else 1)" by blast
  with iv show ?thesis
    by (intro exI [of _ i] exI [of _ v] exI [of _ c] exI [of _ "ex_exchange_id s"]) simp
qed

lemma run_exchange_log:
  assumes "run_exchange W j p = (r, p')"
  shows "\<exists>l. snd p' = snd p @ l \<and>
    (l \<noteq> [] \<or> is_ok r \<longrightarrow> (\<exists>pending. exchange_load (nw_codec W) (nw_load W) (fst p) = Ok pending \<and>
       run_messages W j pending (is_ok r) l))"
proof (cases "exchange_load (nw_codec W) (nw_load W) (fst p)")
  case (Err e)
  with assms show ?thesis by (auto simp: run_exchange_def is_ok_iff)
next
  case (Ok pending)
  define resuming where "resuming = is_some_and (\<lambda>s. ex_stage s = ReleaseInstalled) pending"
  have "node_then (node_then (node_then (node_then (open_exchange W j pending) (install_release W))
      (replace_exchange W j resuming)) (issue_code W j)) (enroll W j) p = (r, p')"
    using assms Ok by (simp add: run_exchange_def Let_def resuming_def)
  then have "\<exists>l. snd p' = snd p @ l \<and> run_messages W j pending (is_ok r) l"
  proof (cases rule: node_then_cases)
    case (stopped e)
    from issued_log [OF stopped(1)] obtain i v c x where "snd p' = snd p @ i @ v @ c"
      "i = [] \<or> (\<exists>h. i = [InstalledRelease h])"
      "v = [] \<or> (\<exists>y. v = [Asked (revoke_node_join_code (nd_id (nj_node j)) y)])" "c \<in> issue_messages j x"
      "v @ c \<noteq> [] \<longrightarrow> release_there W pending i" by blast
    with stopped show ?thesis
      unfolding run_messages_def
      by (intro exI [of _ "i @ v @ c"] conjI exI [of _ i] exI [of _ v] exI [of _ c] exI [of _ "[]"] exI [of _ x])
        (simp_all add: is_ok_iff)
  next
    case (continued a p4)
    obtain s code where a: "a = (s, code)" by (cases a)
    from issued_log [OF continued(1)] a obtain i v c where ivc: "snd p4 = snd p @ i @ v @ c"
      "i = [] \<or> (\<exists>h. i = [InstalledRelease h])"
      "v = [] \<or> (\<exists>y. v = [Asked (revoke_node_join_code (nd_id (nj_node j)) y)])"
      "c \<in> issue_messages j (ex_exchange_id s)" "length c = (if code = None then 0 else 1)"
      "release_there W pending i" by (auto simp: is_ok_iff)
    let ?e = "enroll_messages j (ex_exchange_id s) code"
    note enrolled = enroll_log [OF continued(2) [unfolded a]]
    have success: "is_ok r \<longrightarrow> ?e \<noteq> [] \<and> nw_enrolled W \<and> is_ok (nw_revoke W (ex_exchange_id s))"
      using enrolled(2) by (auto simp: is_ok_iff enroll_messages_def)
    have messages: "?e = [] \<or> (\<exists>code. ?e = enroll_messages j (ex_exchange_id s) code \<and>
        length c = (if code = None then 0 else 1))" using ivc(5) by blast
    have "run_messages W j pending (is_ok r) (i @ v @ c @ ?e)"
      unfolding run_messages_def using ivc(2-4) messages success ivc(6) by blast
    with ivc(1) enrolled(1) show ?thesis by auto
  qed
  with Ok show ?thesis by blast
qed

section \<open>Properties\<close>

lemma node_install_cases:
  assumes "node_install W reference ego b = (r, b', log)"
  obtains (early) "b' = b" "set log \<subseteq> {Asked list_nodes_request}" "r = Ok () \<longrightarrow> nw_confirmation W = Declined"
  | (ran) j nodes where "run_exchange W j (b, [Asked list_nodes_request, Asked list_nodes_request]) = (r, b', log)"
      "confirm_install (nw_confirmation W) = Ok True" "nw_refreshed W = Ok nodes" "nj_node j \<in> set nodes"
      "nd_enrollment_admission (nj_node j)" "nj_ego j = ego"
proof -
  have current: "c \<in> set nodes \<and> nd_enrollment_admission c" if "select_current s nodes = Ok c" for s nodes c
    using that by (auto simp: select_current_def find_Some_iff split: option.splits if_splits)
  have declined: "confirm_install c = Ok False \<Longrightarrow> c = Declined" for c
    by (cases c) (simp_all add: confirm_install_def)
  show thesis
    using assms unfolding node_install_def Let_def
    by (auto split: result.splits option.splits if_splits bool.splits
        dest!: current declined intro: early ran)
qed

text \<open>
  C12. No join code is forgotten: an exchange that was on file when the installation started, or under
  which it asked for a join code, is on file when it ends, whichever way it ends, unless the control
  plane answered a request to revoke its code. A code that may be alive is therefore always one a
  later run can find and revoke.
\<close>

theorem node_codes_tracked:
  assumes "file_lawful (nw_codec W)"
    and "node_install W reference ego b = (r, b', log)"
    and "holds (nw_codec W) b x \<or> (\<exists>e \<in> set log. issues x e)"
  shows "holds (nw_codec W) b' x \<or> (\<exists>n. closed W n log x)"
  using assms(2)
proof (cases rule: node_install_cases)
  case early
  with assms(3) show ?thesis by (auto simp: revoke_not_issue)
next
  case (ran j nodes)
  from run_exchange_tracked(1) [OF assms(1) ran(1)] obtain l
    where log: "log = [Asked list_nodes_request, Asked list_nodes_request] @ l"
      and kept: "holds (nw_codec W) b x \<or> (\<exists>e \<in> set l. issues x e) \<Longrightarrow>
        holds (nw_codec W) b' x \<or> closed W (nd_id (nj_node j)) log x"
    unfolding tracked_def by auto
  from assms(3) log have "holds (nw_codec W) b x \<or> (\<exists>e \<in> set l. issues x e)" by (auto simp: revoke_not_issue)
  with kept show ?thesis by blast
qed


subsection \<open>An installation that is resumed\<close>

definition issued_exchange :: exchange_state where
  "issued_exchange = sample_exchange\<lparr>ex_node_id := sample_id 2, ex_stage := Issued, ex_expires_at := Some ''t''\<rparr>"

definition issued_text :: string where
  "issued_text = ''x'' @ [char_of (10 :: nat)]"

definition issued_codec :: "exchange_state codec" where
  "issued_codec = \<lparr>to_json = (\<lambda>s. if s = issued_exchange then Some ''x'' else None),
     from_json = (\<lambda>t. if t = issued_text then Some issued_exchange else None)\<rparr>"

definition managed_node :: node_data where
  "managed_node = \<lparr>nd_id = sample_id 2, nd_name = ''n'', nd_status = ''pending'', nd_ssh_host = Some ''h'',
     nd_ssh_port = None, nd_ssh_user = None, nd_version = None, nd_ego_browser_enabled = False,
     nd_configured_enabled = False, nd_effective_enabled = False, nd_node_execution_allowed = True,
     nd_enrollment_admission = True, nd_execution_admission = False\<rparr>"

definition resumed_world :: node_world where
  "resumed_world = \<lparr>nw_crates = sample_crates,
     nw_url = (\<lambda>v. Some \<lparr>up_text = v @ ''/'', up_host = Some ''s'', up_username = [], up_password = None,
       up_query = None, up_fragment = None, nu_scheme = ''https'', nu_path = ''/''\<rparr>),
     nw_config = Ok \<lparr>cf_server_url = Some ''https://s'', cf_active_device_id = None\<rparr>, nw_token = Ok (Some ''t''),
     nw_listed = Ok [managed_node], nw_refreshed = Ok [managed_node], nw_confirmation = AssumedYes,
     nw_probe = Some (True, ''linux-amd64-glibc''), nw_clock = Some 9, nw_version = ''1.0'',
     nw_codec = issued_codec, nw_load = owner_reads, nw_save = (\<lambda>_. good_save),
     nw_clear = (\<lambda>_. \<lparr>cl_read = owner_reads, cl_remove = True, cl_dirsync = True\<rparr>),
     nw_random = (\<lambda>_. []), nw_release = Ok [], nw_staged = True, nw_transferred = True, nw_installed = True,
     nw_issue = Err (Bail []), nw_revoke = (\<lambda>_. Ok Revoked), nw_now = 0, nw_enrolled = True\<rparr>"

lemma issued_codec_lawful: "file_lawful issued_codec"
  by (simp add: file_lawful_def issued_codec_def issued_text_def)

lemma issued_exchange_valid: "exchange_valid issued_exchange"
  by (simp add: exchange_valid_def issued_exchange_def sample_exchange_def lower_hex_replicate stage_fields_def
      expiry_shape_def valid_release_version_def valid_release_target_def sample_id_def sample_stem_def rust_eval)

lemma issued_read: "read_owner_only_file owner_reads max_state_bytes (Some issued_text) = Ok issued_text"
  by (simp add: read_owner_only_file_def owner_reads_def owner_only_metadata_def owner_file_def is_link_def
      issued_text_def max_state_bytes_def)

lemma issued_load: "exchange_load issued_codec owner_reads (Some issued_text) = Ok (Some issued_exchange)"
  using issued_exchange_valid
  by (simp add: exchange_load_def issued_read issued_codec_def exchange_validate_def ensure_def)

definition resumed_job :: node_job where
  "resumed_job = \<lparr>nj_server = ''https://s'', nj_node = managed_node, nj_target = ''linux-amd64-glibc'',
     nj_ego = False, nj_created = 9\<rparr>"

definition resumed_log :: "node_event list" where
  "resumed_log = [Asked list_nodes_request, Asked list_nodes_request,
     Enrolled (replicate 32 (CHR ''b'')) None,
     Asked (revoke_node_join_code (sample_id 2) (replicate 32 (CHR ''b'')))]"

lemma resumed_listed:
  "select_listed sample_crates (sample_id 2) [managed_node] = Ok managed_node"
  "select_current managed_node [managed_node] = Ok managed_node"
  "managed_address managed_node = Ok (''h'', ''agent-remote'', 22)"
proof -
  have "resolve_id (sample_id 2) ''managed Node'' [sample_id 2] = Ok (sample_id 2)"
    by (simp add: resolve_id_def match_id_def normalize_id_def id_matches_def sample_id_def sample_stem_def rust_eval)
  moreover have "canonical_node_id sample_crates (sample_id 2)"
    using sample_id_canonical [of 2] by (simp add: canonical_node_id_def canonical_uuid_def is_some_and_def split: option.splits)
  ultimately show "select_listed sample_crates (sample_id 2) [managed_node] = Ok managed_node"
    by (simp add: select_listed_def managed_node_def)
  show "select_current managed_node [managed_node] = Ok managed_node"
    by (simp add: select_current_def) (simp add: managed_node_def)
  show "managed_address managed_node = Ok (''h'', ''agent-remote'', 22)"
    by (simp add: managed_address_def managed_node_def valid_managed_ssh_host_def valid_managed_ssh_user_def rust_eval)
qed

lemma resumed_server: "valid_node_install_server_url (nw_url resumed_world) ''https://s''"
  by (simp add: valid_node_install_server_url_def resumed_world_def trim_end_slash_def rust_eval)

lemma resumed_target: "remote_release_target (Some (True, ''linux-amd64-glibc'')) = Ok ''linux-amd64-glibc''"
proof -
  have "str_trim ''linux-amd64-glibc'' = ''linux-amd64-glibc''"
    by (simp add: str_trim_def rust_eval)
  then show ?thesis by (simp add: remote_release_target_def valid_release_target_def rust_eval)
qed

lemma resumed_run:
  "run_exchange resumed_world resumed_job (Some issued_text, [Asked list_nodes_request, Asked list_nodes_request])
     = (Ok (), None, resumed_log)"
proof -
  have matches: "exchange_matches issued_exchange ''https://s'' (sample_id 2)
      (node_install_fingerprint sample_crates managed_node) False ''1.0'' ''linux-amd64-glibc''"
    by (simp add: exchange_matches_def issued_exchange_def sample_exchange_def node_install_fingerprint_def sample_crates_def)
  have stage: "ex_stage issued_exchange = Issued" "ex_exchange_id issued_exchange = replicate 32 (CHR ''b'')"
    by (simp_all add: issued_exchange_def sample_exchange_def)
  have node: "nd_id managed_node = sample_id 2" by (simp add: managed_node_def)
  have clear: "exchange_clear \<lparr>cl_read = owner_reads, cl_remove = True, cl_dirsync = True\<rparr> (Some issued_text) = (Ok (), None)"
    by (simp add: exchange_clear_def issued_read)
  show ?thesis
    by (simp add: run_exchange_def resumed_world_def issued_load open_exchange_def resumed_job_def node matches
        install_release_def replace_exchange_def issue_code_def enroll_def node_then_def node_give_def node_emit_def
        revoke_code_def node_clear_def stage clear resumed_log_def)
qed

lemma resumed_install:
  "node_install resumed_world (sample_id 2) False (Some issued_text) = (Ok (), None, resumed_log)"
proof -
  note run = resumed_run [unfolded resumed_job_def]
  have config: "nw_config resumed_world = Ok \<lparr>cf_server_url = Some ''https://s'', cf_active_device_id = None\<rparr>"
    "nw_token resumed_world = Ok (Some ''t'')" "nw_crates resumed_world = sample_crates"
    "nw_listed resumed_world = Ok [managed_node]" "nw_refreshed resumed_world = Ok [managed_node]"
    "nw_confirmation resumed_world = AssumedYes" "nw_probe resumed_world = Some (True, ''linux-amd64-glibc'')"
    "nw_clock resumed_world = Some 9"
    by (simp_all add: resumed_world_def)
  show ?thesis
    by (simp add: node_install_def config resumed_server resumed_listed resumed_target confirm_install_def run)
qed

theorem node_codes_tracked_witness:
  "\<exists>n. closed resumed_world n (snd (snd (node_install resumed_world (sample_id 2) False (Some issued_text))))
     (replicate 32 (CHR ''b''))"
proof -
  have lawful: "file_lawful (nw_codec resumed_world)" by (simp add: resumed_world_def issued_codec_lawful)
  have "holds (nw_codec resumed_world) (Some issued_text) (replicate 32 (CHR ''b''))"
    by (simp add: holds_def resumed_world_def issued_codec_def issued_exchange_def sample_exchange_def)
  with node_codes_tracked [OF lawful resumed_install, of "replicate 32 (CHR ''b'')"] resumed_install
  show ?thesis by (simp add: holds_def)
qed


end
