(* ===== verification/Ip_Address.thy ===== *)
theory Ip_Address
  imports Node_Values Utf8
begin

text \<open>
  Addresses and numbers as the standard library reads and prints them (\<open>IpAddr\<close>, \<open>str::parse\<close> of the
  unsigned types): what the WireGuard configuration code takes from it.
\<close>

section \<open>Splitting\<close>

fun split_once :: "char \<Rightarrow> string \<Rightarrow> (string \<times> string) option" where
  "split_once d [] = None"
| "split_once d (c # s) =
     (if c = d then Some ([], s) else map_option (\<lambda>(a, b). (c # a, b)) (split_once d s))"

definition rsplit_once :: "char \<Rightarrow> string \<Rightarrow> (string \<times> string) option" where
  "rsplit_once d s = map_option (\<lambda>(a, b). (rev b, rev a)) (split_once d (rev s))"

fun split_on :: "char \<Rightarrow> string \<Rightarrow> string list" where
  "split_on d [] = [[]]"
| "split_on d (c # s) =
     (if c = d then [] # split_on d s
      else case split_on d s of [] \<Rightarrow> [[c]] | p # ps \<Rightarrow> (c # p) # ps)"

section \<open>Numbers\<close>

text \<open>\<open>char::to_digit\<close> and the number reader of the address parser.\<close>

definition to_digit :: "nat \<Rightarrow> char \<Rightarrow> nat option" where
  "to_digit radix c =
     (let n = byte c in
      let v = (if 48 \<le> n \<and> n \<le> 57 then Some (n - 48)
               else if 97 \<le> n \<and> n \<le> 122 then Some (n - 87)
               else if 65 \<le> n \<and> n \<le> 90 then Some (n - 55) else None) in
      case v of None \<Rightarrow> None | Some x \<Rightarrow> if x < radix then Some x else None)"

definition is_digit :: "nat \<Rightarrow> char \<Rightarrow> bool" where
  "is_digit radix c \<longleftrightarrow> to_digit radix c \<noteq> None"

definition radix_value :: "nat \<Rightarrow> string \<Rightarrow> nat" where
  "radix_value radix s = foldl (\<lambda>acc c. radix * acc + (case to_digit radix c of None \<Rightarrow> 0 | Some v \<Rightarrow> v)) 0 s"

definition read_number :: "nat \<Rightarrow> nat \<Rightarrow> bool \<Rightarrow> nat \<Rightarrow> string \<Rightarrow> (nat \<times> string) option" where
  "read_number radix max_digits allow_zero_prefix bound s =
     (let digits = takeWhile (is_digit radix) s;
          v = radix_value radix digits in
      if digits = [] \<or> length digits > max_digits then None
      else if \<not> allow_zero_prefix \<and> hd digits = CHR ''0'' \<and> length digits > 1 then None
      else if v > bound then None
      else Some (v, dropWhile (is_digit radix) s))"

text \<open>\<open>str::parse\<close> of an unsigned type with the given largest value; a plus sign is allowed.\<close>

definition parse_bounded :: "nat \<Rightarrow> string \<Rightarrow> nat option" where
  "parse_bounded bound s =
     (case parse_unsigned s of None \<Rightarrow> None | Some v \<Rightarrow> if nat v \<le> bound then Some (nat v) else None)"

section \<open>Addresses\<close>

datatype ip_addr = V4 "nat list" | V6 "nat list"

definition read_char :: "char \<Rightarrow> string \<Rightarrow> string option" where
  "read_char c s = (case s of [] \<Rightarrow> None | d # r \<Rightarrow> if d = c then Some r else None)"

definition read_octet :: "string \<Rightarrow> (nat \<times> string) option" where
  "read_octet = read_number 10 3 False 255"

fun read_octets :: "nat \<Rightarrow> nat \<Rightarrow> string \<Rightarrow> (nat list \<times> string) option" where
  "read_octets i 0 s = Some ([], s)"
| "read_octets i (Suc n) s =
     (case (if i = 0 then Some s else read_char (CHR ''.'') s) of
        None \<Rightarrow> None
      | Some r \<Rightarrow>
          (case read_octet r of
             None \<Rightarrow> None
           | Some (v, t) \<Rightarrow> map_option (\<lambda>(vs, u). (v # vs, u)) (read_octets (Suc i) n t)))"

definition read_ipv4 :: "string \<Rightarrow> (nat list \<times> string) option" where
  "read_ipv4 s = read_octets 0 4 s"

text \<open>
  The groups of an IPv6 address: up to \<open>n\<close> of them, separated by colons, the last two possibly
  written as an IPv4 address, which ends them. The flag tells whether they were.
\<close>

fun read_groups :: "nat \<Rightarrow> nat \<Rightarrow> string \<Rightarrow> nat list \<times> bool \<times> string" where
  "read_groups i 0 s = ([], False, s)"
| "read_groups i (Suc n) s =
     (let start = (if i = 0 then Some s else read_char (CHR '':'') s) in
      case (if n > 0 then (case start of None \<Rightarrow> None | Some r \<Rightarrow> read_ipv4 r) else None) of
        Some (v, t) \<Rightarrow> ([v ! 0 * 256 + v ! 1, v ! 2 * 256 + v ! 3], True, t)
      | None \<Rightarrow>
          (case (case start of None \<Rightarrow> None | Some r \<Rightarrow> read_number 16 4 True 65535 r) of
             None \<Rightarrow> ([], False, s)
           | Some (g, t) \<Rightarrow> (case read_groups (Suc i) n t of (gs, v4, u) \<Rightarrow> (g # gs, v4, u))))"

definition read_ipv6 :: "string \<Rightarrow> (nat list \<times> string) option" where
  "read_ipv6 s =
     (case read_groups 0 8 s of (head, head_ipv4, r) \<Rightarrow>
        if length head = 8 then Some (head, r)
        else if head_ipv4 then None
        else (case read_char (CHR '':'') r of
                None \<Rightarrow> None
              | Some r1 \<Rightarrow>
                  (case read_char (CHR '':'') r1 of
                     None \<Rightarrow> None
                   | Some r2 \<Rightarrow>
                       (case read_groups 0 (8 - (length head + 1)) r2 of (tail, _, r3) \<Rightarrow>
                          Some (head @ replicate (8 - length head - length tail) 0 @ tail, r3)))))"

definition parse_ipv4 :: "string \<Rightarrow> nat list option" where
  "parse_ipv4 s =
     (if length s > 15 then None
      else case read_ipv4 s of Some (v, []) \<Rightarrow> Some v | _ \<Rightarrow> None)"

definition parse_ipv6 :: "string \<Rightarrow> nat list option" where
  "parse_ipv6 s = (case read_ipv6 s of Some (v, []) \<Rightarrow> Some v | _ \<Rightarrow> None)"

definition parse_ip :: "string \<Rightarrow> ip_addr option" where
  "parse_ip s =
     (case (case read_ipv4 s of
              Some (v, r) \<Rightarrow> Some (V4 v, r)
            | None \<Rightarrow> (case read_ipv6 s of Some (v, r) \<Rightarrow> Some (V6 v, r) | None \<Rightarrow> None)) of
        Some (a, []) \<Rightarrow> Some a
      | _ \<Rightarrow> None)"

definition ip_bits :: "ip_addr \<Rightarrow> nat" where
  "ip_bits a = (case a of V4 _ \<Rightarrow> 32 | V6 _ \<Rightarrow> 128)"

text \<open>Printing: \<open>Display\<close> of both kinds, with the longest run of zero groups left out.\<close>

fun hex_text :: "nat \<Rightarrow> string" where
  "hex_text n = (let d = ''0123456789abcdef'' ! (n mod 16) in if n < 16 then [d] else hex_text (n div 16) @ [d])"

definition join_with :: "string \<Rightarrow> string list \<Rightarrow> string" where
  "join_with sep parts = (case parts of [] \<Rightarrow> [] | p # ps \<Rightarrow> p @ concat (map (\<lambda>q. sep @ q) ps))"

definition print_ipv4 :: "nat list \<Rightarrow> string" where
  "print_ipv4 v = join_with ''.'' (map decimal v)"

fun zero_spans :: "nat \<Rightarrow> nat list \<Rightarrow> nat \<times> nat \<Rightarrow> nat \<times> nat \<Rightarrow> nat \<times> nat" where
  "zero_spans i [] current longest = longest"
| "zero_spans i (g # gs) current longest =
     (if g = 0 then
        (let current' = (if snd current = 0 then (i, 1) else (fst current, snd current + 1)) in
         zero_spans (Suc i) gs current' (if snd current' > snd longest then current' else longest))
      else zero_spans (Suc i) gs (0, 0) longest)"

definition print_ipv6 :: "nat list \<Rightarrow> string" where
  "print_ipv6 v =
     (if take 6 v = [0, 0, 0, 0, 0, 65535]
      then ''::ffff:'' @ print_ipv4 [v ! 6 div 256, v ! 6 mod 256, v ! 7 div 256, v ! 7 mod 256]
      else case zero_spans 0 v (0, 0) (0, 0) of (start, len) \<Rightarrow>
        if len > 1
        then join_with '':'' (map hex_text (take start v)) @ ''::'' @ join_with '':'' (map hex_text (drop (start + len) v))
        else join_with '':'' (map hex_text v))"

definition print_ip :: "ip_addr \<Rightarrow> string" where
  "print_ip a = (case a of V4 v \<Rightarrow> print_ipv4 v | V6 v \<Rightarrow> print_ipv6 v)"

section \<open>The characters of an address\<close>

definition addr_char :: "char \<Rightarrow> bool" where
  "addr_char c \<longleftrightarrow> is_digit 16 c \<or> c = CHR ''.'' \<or> c = CHR '':''"

lemma addr_separator [simp]: "addr_char (CHR ''.'')" "addr_char (CHR '':'')"
  by (simp_all add: addr_char_def)

lemma digit_addr: "is_digit 10 c \<Longrightarrow> addr_char c" "is_digit 16 c \<Longrightarrow> addr_char c"
  by (auto simp: addr_char_def is_digit_def to_digit_def Let_def split: if_splits)

lemma read_number_prefix:
  assumes "read_number radix m a bound s = Some (v, t)"
  shows "\<exists>p. s = p @ t \<and> list_all (is_digit radix) p \<and> p \<noteq> []"
proof (intro exI [of _ "takeWhile (is_digit radix) s"] conjI)
  show "s = takeWhile (is_digit radix) s @ t"
    using assms by (auto simp: read_number_def Let_def split: if_splits)
  show "list_all (is_digit radix) (takeWhile (is_digit radix) s)" by (auto simp: list_all_iff dest: set_takeWhileD)
  show "takeWhile (is_digit radix) s \<noteq> []" using assms by (auto simp: read_number_def Let_def split: if_splits)
qed

lemma read_char_prefix: "read_char c s = Some t \<longleftrightarrow> s = c # t"
  by (cases s) (auto simp: read_char_def)

lemma read_octets_prefix:
  "read_octets i n s = Some (vs, t) \<Longrightarrow> \<exists>p. s = p @ t \<and> list_all addr_char p \<and> (n > 0 \<longrightarrow> p \<noteq> []) \<and> length vs = n"
proof (induction i n s arbitrary: vs t rule: read_octets.induct)
  case (2 i n s)
  from "2.prems" obtain r v u ws where r: "(if i = 0 then Some s else read_char (CHR ''.'') s) = Some r"
    and v: "read_octet r = Some (v, u)" and w: "read_octets (Suc i) n u = Some (ws, t)" "vs = v # ws"
    by (auto split: option.splits)
  from "2.IH" [OF r v _ w(1)] obtain q where q: "u = q @ t" "list_all addr_char q" "length ws = n" by blast
  from read_number_prefix [OF v [unfolded read_octet_def]] obtain d where d: "r = d @ u" "list_all addr_char d" "d \<noteq> []"
    by (auto simp: list_all_iff digit_addr)
  have "s = r \<or> s = CHR ''.'' # r" using r by (auto simp: read_char_prefix split: if_splits)
  then show ?case
  proof
    assume "s = r"
    with q d w show ?thesis by (intro exI [of _ "d @ q"]) simp
  next
    assume "s = CHR ''.'' # r"
    with q d w show ?thesis by (intro exI [of _ "CHR ''.'' # d @ q"]) simp
  qed
qed simp

lemma read_groups_prefix:
  "read_groups i n s = (gs, f, t) \<Longrightarrow> \<exists>p. s = p @ t \<and> list_all addr_char p"
proof (induction i n s arbitrary: gs f t rule: read_groups.induct)
  case (2 i n s)
  have start: "s = r \<or> s = CHR '':'' # r" if "(if i = 0 then Some s else read_char (CHR '':'') s) = Some r" for r
    using that by (auto simp: read_char_prefix split: if_splits)
  have lift: "\<exists>p. s = p @ t \<and> list_all addr_char p"
    if "(if i = 0 then Some s else read_char (CHR '':'') s) = Some r" "r = q @ t" "list_all addr_char q" for r q
    using start [OF that(1)]
  proof
    assume "s = r"
    with that(2,3) show ?thesis by (intro exI [of _ q]) simp
  next
    assume "s = CHR '':'' # r"
    with that(2,3) show ?thesis by (intro exI [of _ "CHR '':'' # q"]) simp
  qed
  show ?case
  proof (cases "if n > 0 then (case (if i = 0 then Some s else read_char (CHR '':'') s) of None \<Rightarrow> None | Some r \<Rightarrow> read_ipv4 r) else None")
    case (Some a)
    obtain v u where a: "a = (v, u)" by (cases a)
    from Some a obtain r where r: "(if i = 0 then Some s else read_char (CHR '':'') s) = Some r" "read_ipv4 r = Some (v, u)"
      by (auto split: if_splits option.splits)
    from "2.prems" Some a have "t = u" by (simp add: Let_def)
    with read_octets_prefix [OF r(2) [unfolded read_ipv4_def]] lift [OF r(1)] show ?thesis by blast
  next
    case None
    show ?thesis
    proof (cases "case (if i = 0 then Some s else read_char (CHR '':'') s) of None \<Rightarrow> None | Some r \<Rightarrow> read_number 16 4 True 65535 r")
      case N: None
      from "2.prems" None N have "t = s" by (simp add: Let_def)
      then show ?thesis by simp
    next
      case (Some a)
      obtain g u where a: "a = (g, u)" by (cases a)
      from Some a obtain r where r: "(if i = 0 then Some s else read_char (CHR '':'') s) = Some r"
        "read_number 16 4 True 65535 r = Some (g, u)" by (auto split: option.splits)
      obtain gs' f' t' where rest: "read_groups (Suc i) n u = (gs', f', t')" by (cases "read_groups (Suc i) n u")
      with "2.prems" None Some a have "t = t'" by (simp add: Let_def)
      with "2.IH" [OF refl None Some a [symmetric] rest] obtain q where q: "u = q @ t" "list_all addr_char q"
        using a by blast
      from read_number_prefix [OF r(2)] obtain d where "r = d @ u" "list_all addr_char d"
        by (auto simp: list_all_iff digit_addr)
      with q lift [OF r(1), of "d @ q"] show ?thesis by simp
    qed
  qed
qed simp

lemma read_ipv6_prefix: "read_ipv6 s = Some (v, t) \<Longrightarrow> \<exists>p. s = p @ t \<and> list_all addr_char p"
proof -
  assume a: "read_ipv6 s = Some (v, t)"
  obtain head f r where h: "read_groups 0 8 s = (head, f, r)" by (cases "read_groups 0 8 s")
  from read_groups_prefix [OF h] obtain p where p: "s = p @ r" "list_all addr_char p" by blast
  show ?thesis
  proof (cases "length head = 8")
    case True
    with a h p show ?thesis by (auto simp: read_ipv6_def)
  next
    case False
    obtain tl1 g u where tl1: "read_groups 0 (8 - (length head + 1)) (drop 2 r) = (tl1, g, u)"
      by (cases "read_groups 0 (8 - (length head + 1)) (drop 2 r)")
    from a h False tl1 have "r = CHR '':'' # CHR '':'' # drop 2 r" "t = u"
      by (auto simp: read_ipv6_def read_char_prefix split: option.splits if_splits prod.splits)
    moreover from read_groups_prefix [OF tl1] obtain q where "drop 2 r = q @ u" "list_all addr_char q" by blast
    ultimately show ?thesis
      using p by (intro exI [of _ "p @ CHR '':'' # CHR '':'' # q"]) simp
  qed
qed

lemma parse_ipv4_chars: "parse_ipv4 s = Some v \<Longrightarrow> list_all addr_char s"
  by (auto simp: parse_ipv4_def read_ipv4_def dest!: read_octets_prefix split: if_splits option.splits prod.splits list.splits)

lemma parse_ipv6_chars: "parse_ipv6 s = Some v \<Longrightarrow> list_all addr_char s"
  by (auto simp: parse_ipv6_def dest!: read_ipv6_prefix split: option.splits prod.splits list.splits)

lemma parse_ip_Nil [simp]: "parse_ip [] = None"
proof -
  have "read_octets 0 (Suc 3) [] = None"
    by (subst read_octets.simps) (simp add: read_octet_def read_number_def)
  then have v4: "read_ipv4 [] = None" by (simp add: read_ipv4_def)
  have "read_groups 0 (Suc 7) [] = ([], False, [])"
    by (subst read_groups.simps) (simp add: v4 read_number_def)
  then show ?thesis by (simp add: parse_ip_def v4 read_ipv6_def read_char_def)
qed

lemma parse_ip_chars:
  assumes "parse_ip s = Some a"
  shows "list_all addr_char s" and "s \<noteq> []"
proof -
  show "list_all addr_char s"
    using assms
    by (auto simp: parse_ip_def read_ipv4_def dest!: read_octets_prefix read_ipv6_prefix
        split: option.splits prod.splits list.splits)
  show "s \<noteq> []" using assms by auto
qed

section \<open>Splitting and joining\<close>

lemma split_once_None: "split_once d s = None \<longleftrightarrow> d \<notin> set s"
  by (induction s) auto

lemma split_once_append: "d \<notin> set a \<Longrightarrow> split_once d (a @ d # b) = Some (a, b)"
  by (induction a) auto

lemma split_once_Some: "split_once d s = Some (a, b) \<Longrightarrow> s = a @ d # b \<and> d \<notin> set a"
  by (induction s arbitrary: a) (auto split: if_splits)

lemma rsplit_once_Some: "rsplit_once d s = Some (a, b) \<Longrightarrow> s = a @ d # b"
proof -
  assume "rsplit_once d s = Some (a, b)"
  then obtain x y where "split_once d (rev s) = Some (x, y)" "a = rev y" "b = rev x"
    by (auto simp: rsplit_once_def)
  with split_once_Some [of d "rev s" x y] have "rev s = rev b @ d # rev a" by simp
  then have "rev (rev s) = rev (rev b @ d # rev a)" by (rule arg_cong)
  then show ?thesis by simp
qed

lemma split_on_ne: "split_on d s \<noteq> []"
  by (induction s) (auto split: list.splits)

lemma split_on_chars: "list_all (list_all P) (split_on d s) \<Longrightarrow> list_all (\<lambda>c. P c \<or> c = d) s"
  by (induction s) (auto split: if_splits list.splits)

lemma split_on_last: "d \<notin> set s \<Longrightarrow> split_on d s = [s]"
  by (induction s) auto

lemma split_on_append: "d \<notin> set a \<Longrightarrow> split_on d (a @ d # s) = a # split_on d s"
  by (induction a) auto

lemma split_on_join:
  assumes "\<forall>p \<in> set (p # ps). CHR '','' \<notin> set p"
  shows "split_on (CHR '','') (join_with '', '' (p # ps)) = p # map (\<lambda>q. '' '' @ q) ps"
  using assms
proof (induction ps arbitrary: p)
  case Nil
  then show ?case by (simp add: join_with_def split_on_last)
next
  case (Cons q qs)
  have "join_with '', '' (p # q # qs) = p @ CHR '','' # ('' '' @ join_with '', '' (q # qs))"
    by (simp add: join_with_def)
  moreover have "split_on (CHR '','') ('' '' @ join_with '', '' (q # qs)) = ('' '' @ q) # map (\<lambda>q. '' '' @ q) qs"
    using Cons by (simp add: join_with_def)
  ultimately show ?case using Cons.prems by (simp add: split_on_append)
qed

end
