(* ===== verification/Wireguard_Config.thy ===== *)
theory Wireguard_Config
  imports Ip_Address Caller_Auth Api_Transport
begin

text \<open>
  WireGuard configuration text: what the client accepts from the control plane
  (\<open>wireguard/validation.rs\<close>), how it writes it (\<open>render_config\<close> of \<open>wireguard.rs\<close>) and how it and the
  privileged brokers read it (\<open>wireguard/inspection_parser.rs\<close>). Base64 and the curve are arguments.
\<close>

record wg_crates =
  base64_decode :: "string \<Rightarrow> u8 list option"
  base64_encode :: "u8 list \<Rightarrow> string"
  x25519_public :: "u8 list \<Rightarrow> u8 list"
  x25519_shared :: "u8 list \<Rightarrow> u8 list \<Rightarrow> u8 list"

section \<open>Validation\<close>

record wg_peer_data =
  wp_node_id :: string
  wp_name :: string
  wp_region_code :: string
  wp_public_key :: string
  wp_endpoint :: string
  wp_allowed_ips :: "string list"
  wp_keepalive :: "16 word"

record wg_config_data =
  wd_device_id :: string
  wd_peer_id :: string
  wd_peer_public_key :: string
  wd_peer_version :: "64 word"
  wd_interface_address :: string
  wd_dns :: "string list"
  wd_peers :: "wg_peer_data list"

definition max_peers :: nat where
  "max_peers = 1024"

definition public_key :: "wg_crates \<Rightarrow> string \<Rightarrow> bool" where
  "public_key G v =
     (case base64_decode G v of
        None \<Rightarrow> False
      | Some bytes \<Rightarrow>
          base64_encode G bytes = v \<and> length bytes = 32 \<and>
          list_ex (\<lambda>b. b \<noteq> 0) (x25519_shared G (replicate 32 0x42) bytes))"

definition wg_text :: "string \<Rightarrow> nat \<Rightarrow> bool" where
  "wg_text v limit \<longleftrightarrow> v \<noteq> [] \<and> length v \<le> limit \<and> \<not> has_control v"

definition ip_or_network :: "string \<Rightarrow> bool" where
  "ip_or_network v =
     (case (case split_once (CHR ''/'') v of None \<Rightarrow> (v, None) | Some (ip, prefix) \<Rightarrow> (ip, Some prefix)) of
        (ip, prefix) \<Rightarrow>
          (case parse_ip ip of
             None \<Rightarrow> False
           | Some a \<Rightarrow> is_none_or (\<lambda>p. is_some_and (\<lambda>bits. bits \<le> ip_bits a) (parse_bounded 255 p)) prefix))"

definition host_label :: "string \<Rightarrow> bool" where
  "host_label l \<longleftrightarrow>
     l \<noteq> [] \<and> length l \<le> 63 \<and> hd l \<noteq> CHR ''-'' \<and> last l \<noteq> CHR ''-'' \<and>
     list_all (\<lambda>b. is_ascii_alphanumeric b \<or> b = CHR ''-'') l"

text \<open>A host in square brackets, without them.\<close>

definition bracketed :: "string \<Rightarrow> string option" where
  "bracketed host =
     (case strip_prefix ''['' host of
        None \<Rightarrow> None
      | Some r \<Rightarrow> if r \<noteq> [] \<and> last r = CHR '']'' then Some (butlast r) else None)"

definition endpoint :: "string \<Rightarrow> bool" where
  "endpoint v =
     (if length v > 300 \<or> list_ex (\<lambda>c. is_control c \<or> is_whitespace c) (chars v) then False
      else case rsplit_once (CHR '':'') v of
        None \<Rightarrow> False
      | Some (host, port) \<Rightarrow>
          if is_none_or (\<lambda>p. p = 0) (parse_bounded 65535 port) then False
          else case bracketed host of
            Some ip \<Rightarrow> parse_ipv6 ip \<noteq> None
          | None \<Rightarrow>
              if parse_ipv4 host \<noteq> None then True
              else host \<noteq> [] \<and> length host \<le> 253 \<and> list_all host_label (split_on (CHR ''.'') host))"

definition wg_peer_ok :: "wg_crates \<Rightarrow> wg_peer_data \<Rightarrow> bool" where
  "wg_peer_ok G p \<longleftrightarrow>
     \<not> (\<not> wg_text (wp_node_id p) 128 \<or> \<not> wg_text (wp_name p) 256 \<or> \<not> wg_text (wp_region_code p) 64 \<or>
        \<not> public_key G (wp_public_key p) \<or> \<not> endpoint (wp_endpoint p) \<or> wp_allowed_ips p = [] \<or>
        length (wp_allowed_ips p) > 256 \<or> list_ex (\<lambda>ip. \<not> ip_or_network ip) (wp_allowed_ips p))"

definition wg_validate :: "wg_crates \<Rightarrow> wg_config_data \<Rightarrow> string \<Rightarrow> (unit, string) result" where
  "wg_validate G c device =
     ensure
       (\<not> (wd_device_id c \<noteq> device \<or> \<not> wg_text (wd_device_id c) 128 \<or> \<not> ip_or_network (wd_interface_address c) \<or>
           length (wd_dns c) > 16 \<or> list_ex (\<lambda>ip. parse_ip ip = None) (wd_dns c) \<or> length (wd_peers c) > max_peers) \<and>
        list_all (wg_peer_ok G) (wd_peers c))
       ''wireguard_config_invalid''"

section \<open>Writing\<close>

definition public_key_from_private :: "wg_crates \<Rightarrow> string \<Rightarrow> (string, string) result" where
  "public_key_from_private G private =
     (case base64_decode G private of
        None \<Rightarrow> Err ''stored WireGuard private key is not valid base64''
      | Some bytes \<Rightarrow>
          if length bytes \<noteq> 32 then Err ''stored WireGuard private key must be exactly 32 bytes''
          else Ok (base64_encode G (x25519_public G bytes)))"

definition peer_lines :: "wg_peer_data \<Rightarrow> string list" where
  "peer_lines p =
     [[], ''[Peer]'', ''PublicKey = '' @ wp_public_key p, ''Endpoint = '' @ wp_endpoint p,
      ''AllowedIPs = '' @ join_with '', '' (wp_allowed_ips p),
      ''PersistentKeepalive = '' @ decimal (unat (wp_keepalive p))]"

definition config_lines :: "wg_config_data \<Rightarrow> string \<Rightarrow> string list" where
  "config_lines c private =
     [''[Interface]'', ''PrivateKey = '' @ private, ''Address = '' @ wd_interface_address c, ''MTU = '' @ decimal 1000] @
     (if wd_dns c \<noteq> [] then [''DNS = '' @ join_with '', '' (wd_dns c)] else []) @
     concat (map peer_lines (wd_peers c))"

definition render_config :: "wg_crates \<Rightarrow> wg_config_data \<Rightarrow> string \<Rightarrow> (string, string) result" where
  "render_config G c private =
     (case wg_validate G c (wd_device_id c) of
        Err e \<Rightarrow> Err e
      | Ok _ \<Rightarrow>
          (case public_key_from_private G private of
             Err e \<Rightarrow> Err e
           | Ok _ \<Rightarrow> Ok (join_with [newline] (config_lines c private) @ [newline])))"

section \<open>Reading\<close>

record wg_summary =
  su_public_key :: string
  su_addresses :: "string list"
  su_dns :: "string list"
  su_mtu :: "nat option"
  su_peer_count :: nat
  su_unsupported :: "string list"

record wg_section =
  se_fields :: "string list"
  se_public_key :: "string option"
  se_allowed_ips :: nat

definition empty_section :: wg_section where
  "empty_section = \<lparr>se_fields = [], se_public_key = None, se_allowed_ips = 0\<rparr>"

definition unsupported_names :: "string list" where
  "unsupported_names = [''PreUp'', ''PostUp'', ''PreDown'', ''PostDown'', ''SaveConfig'', ''Table'']"

definition wg_key :: "wg_crates \<Rightarrow> string \<Rightarrow> bool" where
  "wg_key G v =
     (case base64_decode G v of
        None \<Rightarrow> False
      | Some bytes \<Rightarrow> length bytes = 32 \<and> base64_encode G bytes = v)"

definition is_decimal :: "string \<Rightarrow> bool" where
  "is_decimal v \<longleftrightarrow> v \<noteq> [] \<and> list_all is_ascii_digit v"

definition fwmark :: "string \<Rightarrow> bool" where
  "fwmark v \<longleftrightarrow>
     v = ''off'' \<or>
     (case strip_prefix ''0x'' v of
        None \<Rightarrow> is_decimal v \<and> parse_bounded (2 ^ 32 - 1) v \<noteq> None
      | Some hex \<Rightarrow> hex \<noteq> [] \<and> list_all is_ascii_hexdigit hex \<and> radix_value 16 hex \<le> 2 ^ 32 - 1)"

definition ip_item :: "string \<Rightarrow> string option" where
  "ip_item item =
     (case split_once (CHR ''/'') item of
        Some (ip, prefix) \<Rightarrow>
          if \<not> is_decimal prefix then None
          else (case parse_ip ip of
                  None \<Rightarrow> None
                | Some a \<Rightarrow>
                    (case parse_bounded 255 prefix of
                       None \<Rightarrow> None
                     | Some bits \<Rightarrow> if bits > ip_bits a then None else Some (print_ip a @ ''/'' @ decimal bits)))
      | None \<Rightarrow> map_option print_ip (parse_ip item))"

text \<open>A list that is read item by item and must not grow beyond a limit.\<close>

fun read_items :: "(string \<Rightarrow> string option) \<Rightarrow> nat \<Rightarrow> string list \<Rightarrow> string list \<Rightarrow> string list option" where
  "read_items f limit acc [] = Some acc"
| "read_items f limit acc (v # vs) =
     (case f (str_trim v) of
        None \<Rightarrow> None
      | Some x \<Rightarrow> if length (acc @ [x]) > limit then None else read_items f limit (acc @ [x]) vs)"

definition ip_list :: "string \<Rightarrow> nat \<Rightarrow> string list option" where
  "ip_list v limit = read_items ip_item limit [] (split_on (CHR '','') v)"

record wg_parser =
  pa_seen :: bool
  pa_interface :: "string list"
  pa_peer :: "wg_section option"
  pa_keys :: "string list"
  pa_summary :: wg_summary

definition parser_start :: wg_parser where
  "parser_start = \<lparr>pa_seen = False, pa_interface = [], pa_peer = None, pa_keys = [],
     pa_summary = \<lparr>su_public_key = [], su_addresses = [], su_dns = [], su_mtu = None, su_peer_count = 0,
       su_unsupported = []\<rparr>\<rparr>"

definition finish_peer :: "wg_section \<Rightarrow> string list \<Rightarrow> string list option" where
  "finish_peer p keys =
     (case se_public_key p of
        None \<Rightarrow> None
      | Some k \<Rightarrow> if se_allowed_ips p = 0 \<or> k \<in> set keys then None else Some (k # keys))"

definition peer_header :: "wg_parser \<Rightarrow> wg_parser option" where
  "peer_header st =
     (case (case pa_peer st of None \<Rightarrow> Some (pa_keys st) | Some p \<Rightarrow> finish_peer p (pa_keys st)) of
        None \<Rightarrow> None
      | Some keys \<Rightarrow>
          let n = su_peer_count (pa_summary st) + 1 in
          if n > max_peers then None
          else Some (st\<lparr>pa_keys := keys, pa_peer := Some empty_section,
                        pa_summary := (pa_summary st)\<lparr>su_peer_count := n\<rparr>\<rparr>))"

definition peer_field :: "wg_crates \<Rightarrow> string \<Rightarrow> string \<Rightarrow> wg_section \<Rightarrow> wg_section option" where
  "peer_field G name v p =
     (if name \<noteq> ''AllowedIPs'' \<and> name \<in> set (se_fields p) then None
      else
        let p' = (if name = ''AllowedIPs'' then p else p\<lparr>se_fields := name # se_fields p\<rparr>) in
        if name = ''PublicKey'' \<and> public_key G v then Some (p'\<lparr>se_public_key := Some v\<rparr>)
        else if name = ''PresharedKey'' \<and> wg_key G v then Some p'
        else if name = ''Endpoint'' \<and> endpoint v then Some p'
        else if name = ''PersistentKeepalive'' \<and> is_decimal v \<and> parse_bounded 65535 v \<noteq> None then Some p'
        else if name = ''AllowedIPs'' then
          (case ip_list v 256 of
             None \<Rightarrow> None
           | Some ips \<Rightarrow>
               let n = se_allowed_ips p' + length ips in
               if n > 256 then None else Some (p'\<lparr>se_allowed_ips := n\<rparr>))
        else None)"

definition interface_value :: "wg_crates \<Rightarrow> string \<Rightarrow> string \<Rightarrow> wg_summary \<Rightarrow> wg_summary option" where
  "interface_value G name v s =
     (if name = ''PrivateKey'' \<and> wg_key G v then
        (case public_key_from_private G v of Err _ \<Rightarrow> None | Ok k \<Rightarrow> Some (s\<lparr>su_public_key := k\<rparr>))
      else if name = ''Address'' then
        (case ip_list v 64 of
           None \<Rightarrow> None
         | Some ips \<Rightarrow> if length (su_addresses s @ ips) > 64 then None else Some (s\<lparr>su_addresses := su_addresses s @ ips\<rparr>))
      else if name = ''DNS'' then
        map_option (\<lambda>d. s\<lparr>su_dns := d\<rparr>)
          (read_items (\<lambda>t. map_option print_ip (parse_ip t)) 16 (su_dns s) (split_on (CHR '','') v))
      else if name = ''MTU'' then
        (if \<not> is_decimal v then None
         else case parse_bounded 65535 v of
           None \<Rightarrow> None
         | Some mtu \<Rightarrow> if mtu < 576 then None else Some (s\<lparr>su_mtu := Some mtu\<rparr>))
      else if name = ''ListenPort'' \<and> is_decimal v \<and> parse_bounded 65535 v \<noteq> None then Some s
      else if name = ''FwMark'' \<and> fwmark v then Some s
      else None)"

definition interface_field :: "wg_crates \<Rightarrow> string \<Rightarrow> string \<Rightarrow> wg_parser \<Rightarrow> wg_parser option" where
  "interface_field G name v st =
     (let s = pa_summary st; again = (name \<in> set (pa_interface st));
          kept = st\<lparr>pa_interface := name # pa_interface st\<rparr> in
      if name \<in> set unsupported_names then
        (if name \<in> {''SaveConfig'', ''Table''} \<and> again then None
         else
           let st' = (if name \<in> {''SaveConfig'', ''Table''} then kept else st) in
           Some (if name \<in> set (su_unsupported s) then st'
                 else st'\<lparr>pa_summary := s\<lparr>su_unsupported := su_unsupported s @ [name]\<rparr>\<rparr>))
      else
        let repeatable = name \<in> {''Address'', ''DNS''} in
        if \<not> repeatable \<and> again then None
        else map_option (\<lambda>s'. (if repeatable then st else kept)\<lparr>pa_summary := s'\<rparr>) (interface_value G name v s))"

definition parse_line :: "wg_crates \<Rightarrow> wg_parser \<Rightarrow> string \<Rightarrow> wg_parser option" where
  "parse_line G st raw =
     (if length raw > 64 * 1024 then None
      else
        let line = str_trim (case split_once (CHR 0x23) raw of None \<Rightarrow> raw | Some (before, _) \<Rightarrow> before) in
        if line = [] then Some st
        else if line = ''[Interface]'' \<and> \<not> pa_seen st then Some (st\<lparr>pa_seen := True\<rparr>)
        else if line = ''[Peer]'' \<and> pa_seen st then peer_header st
        else if starts_with ''['' line \<or> \<not> pa_seen st then None
        else (case split_once (CHR ''='') line of
                None \<Rightarrow> None
              | Some (n, w) \<Rightarrow>
                  let name = str_trim n; v = str_trim w in
                  if name = [] \<or> v = [] then None
                  else (case pa_peer st of
                          Some p \<Rightarrow> map_option (\<lambda>p'. st\<lparr>pa_peer := Some p'\<rparr>) (peer_field G name v p)
                        | None \<Rightarrow> interface_field G name v st)))"

fun parse_lines :: "wg_crates \<Rightarrow> wg_parser \<Rightarrow> string list \<Rightarrow> wg_parser option" where
  "parse_lines G st [] = Some st"
| "parse_lines G st (l # ls) = (case parse_line G st l of None \<Rightarrow> None | Some st' \<Rightarrow> parse_lines G st' ls)"

definition lone_cr :: "string \<Rightarrow> bool" where
  "lone_cr s \<longleftrightarrow> (\<exists>i < length s. s ! i = char_of (13 :: nat) \<and> (i + 1 \<ge> length s \<or> s ! (i + 1) \<noteq> newline))"

definition wg_finish :: "wg_parser \<Rightarrow> wg_summary option" where
  "wg_finish st =
     (case (case pa_peer st of None \<Rightarrow> Some (pa_keys st) | Some p \<Rightarrow> finish_peer p (pa_keys st)) of
        None \<Rightarrow> None
      | Some _ \<Rightarrow>
          let s = pa_summary st in
          if \<not> pa_seen st \<or> ''PrivateKey'' \<notin> set (pa_interface st) \<or> su_addresses s = [] then None
          else Some (s\<lparr>su_unsupported := filter (\<lambda>n. n \<in> set (su_unsupported s)) unsupported_names\<rparr>))"

definition wg_parse :: "wg_crates \<Rightarrow> string \<Rightarrow> wg_summary option" where
  "wg_parse G input =
     (if \<not> utf8_valid input \<or> list_ex (\<lambda>c. is_control c \<and> c \<notin> {10, 13, 9}) (chars input) \<or> lone_cr input then None
      else case parse_lines G parser_start (buf_lines input) of None \<Rightarrow> None | Some st \<Rightarrow> wg_finish st)"

end
