(* ===== verification/Execution_Request.thy ===== *)
theory Execution_Request
  imports Wireguard_Config
begin

text \<open>
  Requests to a privileged broker and the records kept of them (\<open>wireguard/execution_request.rs\<close>,
  \<open>wireguard/execution_observation.rs\<close>, \<open>wireguard/execution_config.rs\<close> and the data of
  \<open>wireguard/target.rs\<close>), in the Linux build.
\<close>

section \<open>Targets\<close>

datatype target_state = Absent | Present | UnknownTarget | Conflict

datatype target_reason =
    InvalidName | NativeQueryFailed | MappingMissing | MappingUnsafe | MappingStale
  | InterfaceNotWireguard | ServiceInvalid | TargetChanged | StatusUnavailable | TargetNotInStatus

text \<open>Name, index, namespace and key; name, index, mapping, socket and key; the fields of a service.\<close>

datatype target_identity =
    LinuxInterface string "32 word" string "string option"
  | MacosInterface string "32 word" string string "string option"
  | WindowsService string string string "string option" "32 word" "32 word" string "string option"

record target_observation =
  ob_logical_name :: string
  ob_state :: target_state
  ob_reason :: "target_reason option"
  ob_status_state :: string
  ob_identity :: "target_identity option"

definition valid_target_name :: "string \<Rightarrow> bool" where
  "valid_target_name n \<longleftrightarrow>
     \<not> (n = [] \<or> length n > 15 \<or> n \<in> {''.'', ''..''} \<or>
        \<not> list_all (\<lambda>b. is_ascii_alphanumeric b \<or> b \<in> set ''_=+.-'') n)"

definition exec_digest :: "string \<Rightarrow> bool" where
  "exec_digest v \<longleftrightarrow> length v = 64 \<and> list_all (\<lambda>b. is_ascii_digit b \<or> 97 \<le> byte b \<and> byte b \<le> 102) v"

definition interface_name :: "target_identity \<Rightarrow> string" where
  "interface_name t =
     (case t of
        LinuxInterface n _ _ _ \<Rightarrow> n
      | MacosInterface n _ _ _ _ \<Rightarrow> n
      | WindowsService s _ _ _ _ _ _ _ \<Rightarrow> (case strip_prefix ''WireGuardTunnel$'' s of None \<Rightarrow> [] | Some r \<Rightarrow> r))"

definition set_public_key :: "string option \<Rightarrow> target_identity \<Rightarrow> target_identity" where
  "set_public_key k t =
     (case t of
        LinuxInterface n i s _ \<Rightarrow> LinuxInterface n i s k
      | MacosInterface n i m s _ \<Rightarrow> MacosInterface n i m s k
      | WindowsService n b c f s m a _ \<Rightarrow> WindowsService n b c f s m a k)"

definition target_key :: "target_identity \<Rightarrow> string option" where
  "target_key t =
     (case t of
        LinuxInterface _ _ _ k \<Rightarrow> k
      | MacosInterface _ _ _ _ k \<Rightarrow> k
      | WindowsService _ _ _ _ _ _ _ k \<Rightarrow> k)"

definition observation_unknown :: "string \<Rightarrow> target_reason \<Rightarrow> target_observation" where
  "observation_unknown n reason =
     \<lparr>ob_logical_name = n, ob_state = UnknownTarget, ob_reason = Some reason, ob_status_state = ''not_queried'',
      ob_identity = None\<rparr>"

text \<open>What the status tool reported: its state and the interfaces with their keys.\<close>

definition target_combine ::
  "target_observation \<Rightarrow> target_observation \<Rightarrow> string \<Rightarrow> (string \<times> string option) list \<Rightarrow> target_observation" where
  "target_combine before after status interfaces =
     (if before \<noteq> after then (observation_unknown (ob_logical_name before) TargetChanged)\<lparr>ob_status_state := status\<rparr>
      else
        let b = before\<lparr>ob_status_state := status\<rparr> in
        if status \<noteq> ''observed'' then b\<lparr>ob_reason := Some StatusUnavailable\<rparr>
        else (case ob_identity b of
                None \<Rightarrow> b
              | Some t \<Rightarrow>
                  (case find (\<lambda>i. fst i = interface_name t) interfaces of
                     Some i \<Rightarrow> b\<lparr>ob_identity := Some (set_public_key (snd i) t)\<rparr>
                   | None \<Rightarrow> b\<lparr>ob_reason := Some TargetNotInStatus\<rparr>)))"

text \<open>
  An observation: the kernel before and after the status tool ran, which is only asked about a tunnel.
  The caller may cancel at any of the six checks; the worker that runs it may be lost.
\<close>

type_synonym tool_status = "string \<times> (string \<times> string option) list"

definition target_canceled :: "bool \<Rightarrow> (unit, string) result" where
  "target_canceled c = (if c then Err ''canceled'' else Ok ())"

definition observe_worker ::
  "(nat \<Rightarrow> bool) \<Rightarrow> target_observation \<Rightarrow> (tool_status, string) result \<Rightarrow> target_observation \<Rightarrow>
     (target_observation, string) result" where
  "observe_worker cancel before status after =
     (case target_canceled (cancel 1 \<or> cancel 2) of Err e \<Rightarrow> Err e | Ok _ \<Rightarrow>
      if ob_state before \<noteq> Present then Ok before
      else case status of Err e \<Rightarrow> Err e | Ok (state, interfaces) \<Rightarrow>
        (case target_canceled (cancel 3 \<or> cancel 4) of Err e \<Rightarrow> Err e | Ok _ \<Rightarrow>
           Ok (target_combine before after state interfaces)))"

definition target_observe ::
  "(nat \<Rightarrow> bool) \<Rightarrow> bool \<Rightarrow> string \<Rightarrow> target_observation \<Rightarrow> (tool_status, string) result \<Rightarrow> target_observation \<Rightarrow>
     (target_observation, string) result" where
  "target_observe cancel joined name before status after =
     (case target_canceled (cancel 0) of Err e \<Rightarrow> Err e | Ok _ \<Rightarrow>
      if \<not> valid_target_name name then Ok (observation_unknown [] InvalidName)
      else if \<not> joined then Err ''wireguard_target_unavailable''
      else case target_canceled (cancel 5) of Err e \<Rightarrow> Err e | Ok _ \<Rightarrow> observe_worker cancel before status after)"

definition status_queried :: "string \<Rightarrow> bool option" where
  "status_queried s =
     (if s = ''not_queried'' then Some False
      else if s \<in> {''observed'', ''tool_missing'', ''tool_not_executable'', ''query_failed'', ''timed_out'',
                   ''output_too_large'', ''invalid_output''} then Some True
      else None)"

text \<open>The identity of the Linux build; those of the other systems are refused there.\<close>

definition valid_identity :: "target_identity \<Rightarrow> string \<Rightarrow> bool" where
  "valid_identity t logical =
     (case t of
        LinuxInterface n i namespace _ \<Rightarrow> n = logical \<and> 1 \<le> i \<and> i \<le> 2147483647 \<and> exec_digest namespace
      | _ \<Rightarrow> False)"

definition observation_valid :: "wg_crates \<Rightarrow> target_observation \<Rightarrow> bool" where
  "observation_valid G ob =
     (case status_queried (ob_status_state ob) of
        None \<Rightarrow> False
      | Some queried \<Rightarrow>
          if ob_logical_name ob = [] then
            ob_state ob = UnknownTarget \<and> ob_reason ob = Some InvalidName \<and> \<not> queried \<and> ob_identity ob = None
          else if \<not> valid_target_name (ob_logical_name ob) then False
          else (case ob_state ob of
                  Absent \<Rightarrow> ob_reason ob = None \<and> ob_identity ob = None \<and> \<not> queried
                | UnknownTarget \<Rightarrow>
                    ob_identity ob = None \<and>
                    (ob_reason ob = Some TargetChanged \<or> ob_reason ob = Some NativeQueryFailed \<and> \<not> queried)
                | Conflict \<Rightarrow>
                    ob_identity ob = None \<and> \<not> queried \<and> ob_reason ob = Some InterfaceNotWireguard
                | Present \<Rightarrow>
                    (case ob_identity ob of
                       None \<Rightarrow> False
                     | Some t \<Rightarrow>
                         queried \<and> valid_identity t (ob_logical_name ob) \<and>
                         (if ob_status_state ob = ''observed'' then
                            ob_reason ob = None \<and> is_none_or (public_key G) (target_key t) \<or>
                            ob_reason ob = Some TargetNotInStatus \<and> target_key t = None
                          else ob_reason ob = Some StatusUnavailable \<and> target_key t = None))))"

section \<open>Requests and records\<close>

datatype tunnel_action = Up | Down

record config_binding =
  cb_file_identity :: string
  cb_content_sha256 :: string
  cb_public_key :: string

record execution_request =
  xr_version :: nat
  xr_request_id :: string
  xr_caller :: string
  xr_plan :: string
  xr_target_scope :: string
  xr_action :: tunnel_action
  xr_logical_name :: string
  xr_config :: config_binding

definition request_validate :: "wg_crates \<Rightarrow> execution_request \<Rightarrow> (unit, string) result" where
  "request_validate G q =
     ensure
       (\<not> (xr_version q \<noteq> 1 \<or>
           \<not> list_all exec_digest [xr_request_id q, xr_caller q, xr_plan q, xr_target_scope q,
               cb_file_identity (xr_config q), cb_content_sha256 (xr_config q)] \<or>
           \<not> valid_target_name (xr_logical_name q) \<or> \<not> public_key G (cb_public_key (xr_config q))))
       ''wireguard_execution_invalid''"

datatype operation_phase = OpPrepared | OpSubmitted | OpObserved | OpFailed

datatype execution_failure = ExCancelled | ToolFailed | ObservationFailed | ExTargetChanged

record operation_record =
  or_version :: nat
  or_request :: execution_request
  or_snapshot :: string
  or_phase :: operation_phase
  or_observation :: "target_observation option"
  or_failure :: "execution_failure option"

definition record_coherent :: "wg_crates \<Rightarrow> operation_record \<Rightarrow> bool" where
  "record_coherent G r =
     (case or_phase r of
        OpPrepared \<Rightarrow> or_observation r = None \<and> or_failure r = None
      | OpSubmitted \<Rightarrow> or_observation r = None \<and> or_failure r = None
      | OpFailed \<Rightarrow> or_observation r = None \<and> or_failure r \<noteq> None
      | OpObserved \<Rightarrow>
          or_failure r = None \<and>
          is_some_and (\<lambda>ob. ob_logical_name ob = xr_logical_name (or_request r) \<and> observation_valid G ob) (or_observation r))"

definition record_validate :: "wg_crates \<Rightarrow> operation_record \<Rightarrow> (unit, string) result" where
  "record_validate G r =
     (case request_validate G (or_request r) of
        Err e \<Rightarrow> Err e
      | Ok _ \<Rightarrow>
          if or_version r \<noteq> 1 \<or> \<not> exec_digest (or_snapshot r) then Err ''wireguard_execution_record_invalid''
          else ensure (record_coherent G r) ''wireguard_execution_record_invalid'')"

section \<open>The private configuration\<close>

definition max_config_bytes :: nat where
  "max_config_bytes = 1024 * 1024"

definition validate_binding :: "wg_crates \<Rightarrow> config_binding \<Rightarrow> (unit, string) result" where
  "validate_binding G b =
     ensure (\<not> (\<not> exec_digest (cb_file_identity b) \<or> \<not> exec_digest (cb_content_sha256 b) \<or> \<not> public_key G (cb_public_key b)))
       ''wireguard_config_invalid''"

record execution_config =
  xc_bytes :: string
  xc_binding :: config_binding

definition from_transfer ::
  "wg_crates \<Rightarrow> (string \<Rightarrow> string) \<Rightarrow> string \<Rightarrow> config_binding \<Rightarrow> (execution_config, string) result" where
  "from_transfer G sha bytes expected =
     (case validate_binding G expected of
        Err e \<Rightarrow> Err e
      | Ok _ \<Rightarrow>
          if length bytes > max_config_bytes then Err ''wireguard_config_invalid''
          else (case wg_parse G bytes of
                  None \<Rightarrow> Err ''wireguard_config_invalid''
                | Some s \<Rightarrow>
                    if su_unsupported s \<noteq> [] then Err ''wireguard_config_unsupported''
                    else if sha bytes \<noteq> cb_content_sha256 expected \<or> su_public_key s \<noteq> cb_public_key expected
                    then Err ''wireguard_config_changed''
                    else Ok \<lparr>xc_bytes = bytes, xc_binding = expected\<rparr>))"

section \<open>What observation gives\<close>

text \<open>
  The facts an observation of the kernel can start from: no tunnel, another interface of that name, a
  failed query, or an interface of the Linux build without its key.
\<close>

definition native_observation :: "target_observation \<Rightarrow> bool" where
  "native_observation ob \<longleftrightarrow>
     ob_status_state ob = ''not_queried'' \<and>
     (case ob_state ob of
        Present \<Rightarrow>
          ob_reason ob = None \<and>
          is_some_and (\<lambda>t. valid_identity t (ob_logical_name ob) \<and> target_key t = None) (ob_identity ob)
      | Absent \<Rightarrow> ob_reason ob = None \<and> ob_identity ob = None
      | UnknownTarget \<Rightarrow> ob_identity ob = None \<and> ob_reason ob \<in> {Some TargetChanged, Some NativeQueryFailed}
      | Conflict \<Rightarrow> ob_identity ob = None \<and> ob_reason ob = Some InterfaceNotWireguard)"

lemma observation_recordable:
  assumes "native_observation before" and "ob_logical_name before = name"
    and "status_queried state = Some True" and "\<forall>i \<in> set interfaces. is_none_or (public_key G) (snd i)"
    and "target_observe cancel joined name before (Ok (state, interfaces)) after = Ok ob"
  shows "observation_valid G ob"
proof (cases "valid_target_name name")
  case False
  with assms(5) show ?thesis
    by (auto simp: target_observe_def observation_unknown_def observation_valid_def status_queried_def split: result.splits)
next
  case True
  then have ob: "ob = (if ob_state before \<noteq> Present then before else target_combine before after state interfaces)"
    using assms(5) by (auto simp: target_observe_def observe_worker_def split: result.splits if_splits)
  have ne: "name \<noteq> []" using True by (simp add: valid_target_name_def)
  show ?thesis
  proof (cases "ob_state before = Present")
    case False
    with assms(1,2) True ne show ?thesis
      by (cases "ob_state before")
        (auto simp: ob native_observation_def observation_valid_def status_queried_def)
  next
    case P: True
    with assms(1,2) obtain t where t: "ob_identity before = Some t" "valid_identity t name" "target_key t = None"
      "ob_reason before = None" by (auto simp: native_observation_def is_some_and_def split: option.splits)
    have keep: "valid_identity (set_public_key k t) name" "target_key (set_public_key k t) = k" for k
      using t(2) by (auto simp: valid_identity_def set_public_key_def target_key_def split: target_identity.splits)
    have key: "is_none_or (public_key G) (snd i)" if "find (\<lambda>i. fst i = interface_name t) interfaces = Some i" for i
      using that assms(4) by (auto simp: find_Some_iff)
    show ?thesis
      using True P t ne assms(2,3) keep key
      by (auto simp: ob target_combine_def observation_valid_def observation_unknown_def Let_def
          split: option.splits)
  qed
qed

end
