(* ===== verification/Execution_Store.thy ===== *)
theory Execution_Store
  imports Execution_Request "HOL-Library.Multiset"
begin

text \<open>
  The store of privileged operations (\<open>wireguard/execution_store.rs\<close>, \<open>wireguard/execution_store/files.rs\<close>):
  per request a directory with the snapshot of the configuration, the current record and a chained
  journal. The directories belong to the broker alone; locks, failures of single calls and the names of
  temporary files are arguments. A process that dies is one whose next call fails and whose lease is
  dropped.
\<close>

section \<open>Files\<close>

text \<open>A file has its bytes and the digest of its identity, size and times.\<close>

record protected_file =
  pf_bytes :: string
  pf_identity :: string

type_synonym request_dir = "string \<rightharpoonup> protected_file"

type_synonym store_root = "string \<rightharpoonup> request_dir"

datatype directory_sync = Synced | Unsupported

record journal_event =
  je_version :: nat
  je_sequence :: "64 word"
  je_previous :: string
  je_record :: operation_record
  je_sha256 :: string

text \<open>The crates: hashing, the codecs of records and events, and the text that an event hashes.\<close>

record store_crates =
  sx_wg :: wg_crates
  sx_sha :: "string \<Rightarrow> string"
  sx_record :: "operation_record codec"
  sx_event :: "journal_event codec"
  sx_body :: "64 word \<Rightarrow> string \<Rightarrow> operation_record \<Rightarrow> string option"

definition unavailable :: string where "unavailable = ''wireguard_execution_unavailable''"
definition record_invalid :: string where "record_invalid = ''wireguard_execution_record_invalid''"
definition changed :: string where "changed = ''wireguard_execution_changed''"

definition check_canceled :: "bool \<Rightarrow> (unit, string) result" where
  "check_canceled canceled = ensure (\<not> canceled) ''wireguard_execution_canceled''"

definition combine_sync :: "directory_sync \<Rightarrow> directory_sync \<Rightarrow> directory_sync" where
  "combine_sync a b = (if a = Synced \<and> b = Synced then Synced else Unsupported)"

definition target_lock_name :: "store_crates \<Rightarrow> execution_request \<Rightarrow> string" where
  "target_lock_name X q =
     ''target-'' @ sx_sha X (''agent-remote:wireguard:target-lock:v1'' @ [CHR 0x00] @ xr_target_scope q @ [CHR 0x00] @
       xr_logical_name q) @ ''.lock''"

section \<open>Locks\<close>

text \<open>
  One attempt at a lock: it is taken and still has its name, it was replaced, its check failed, it is
  held by another process before or after the deadline, or it cannot be taken; the flag tells whether
  the caller was canceled before the attempt.
\<close>

datatype lock_attempt = Taken | Replaced | TakenUnchecked | HeldYet | HeldTooLong | LockBroken

fun lock_poll :: "(bool \<times> lock_attempt) list \<Rightarrow> (unit, string) result option" where
  "lock_poll [] = None"
| "lock_poll ((canceled, a) # rest) =
     (case check_canceled canceled of
        Err e \<Rightarrow> Some (Err e)
      | Ok _ \<Rightarrow>
          (case a of
             Taken \<Rightarrow> Some (Ok ())
           | Replaced \<Rightarrow> Some (Err changed)
           | TakenUnchecked \<Rightarrow> Some (Err unavailable)
           | HeldYet \<Rightarrow> lock_poll rest
           | HeldTooLong \<Rightarrow> Some (Err ''wireguard_execution_busy'')
           | LockBroken \<Rightarrow> Some (Err unavailable)))"

definition store_lock :: "bool \<Rightarrow> bool \<Rightarrow> (bool \<times> lock_attempt) list \<Rightarrow> (unit, string) result option" where
  "store_lock canceled opened attempts =
     (case check_canceled canceled of
        Err e \<Rightarrow> Some (Err e)
      | Ok _ \<Rightarrow> if \<not> opened then Some (Err unavailable) else lock_poll attempts)"

section \<open>Records\<close>

definition max_record_bytes :: nat where "max_record_bytes = 128 * 1024"
definition max_journal_bytes :: nat where "max_journal_bytes = 512 * 1024"
definition zero_digest :: string where "zero_digest = replicate 64 (CHR ''0'')"

text \<open>One guarded read of a file: opening, its metadata, its bytes.\<close>

record file_read =
  fr_open :: bool
  fr_stat :: bool
  fr_read :: bool

definition store_load :: "store_crates \<Rightarrow> file_read \<Rightarrow> request_dir \<Rightarrow> string \<Rightarrow> (operation_record, string) result" where
  "store_load X E dir request_id =
     (if \<not> fr_open E then Err unavailable
      else case dir ''record.json'' of
        None \<Rightarrow> Err record_invalid
      | Some f \<Rightarrow>
          if \<not> fr_stat E then Err unavailable
          else if length (pf_bytes f) > max_record_bytes then Err record_invalid
          else if \<not> fr_read E then Err unavailable
          else (case from_json (sx_record X) (pf_bytes f) of
                  None \<Rightarrow> Err record_invalid
                | Some r \<Rightarrow>
                    (case record_validate (sx_wg X) r of
                       Err e \<Rightarrow> Err e
                     | Ok _ \<Rightarrow>
                         if xr_request_id (or_request r) \<noteq> request_id \<or> to_json (sx_record X) r \<noteq> Some (pf_bytes f)
                         then Err record_invalid
                         else Ok r)))"

text \<open>
  Writing a record: a temporary file, its bytes, its synchronization and checks, the renaming, the
  synchronization of the directory; the temporary name is removed if that works.
\<close>

record persist_env =
  pe_seed :: string
  pe_identity :: string
  pe_random :: bool
  pe_create :: bool
  pe_written :: "nat option"
  pe_checked :: bool
  pe_rename :: bool
  pe_sync :: "directory_sync option"
  pe_cleanup :: bool

definition staging_name :: "store_crates \<Rightarrow> persist_env \<Rightarrow> string" where
  "staging_name X E = ''record-'' @ sx_sha X (pe_seed E) @ ''.tmp''"

definition store_persist ::
  "store_crates \<Rightarrow> persist_env \<Rightarrow> operation_record \<Rightarrow> request_dir \<Rightarrow> (directory_sync, string) result \<times> request_dir" where
  "store_persist X E r dir =
     (case record_validate (sx_wg X) r of
        Err e \<Rightarrow> (Err e, dir)
      | Ok _ \<Rightarrow>
          (case to_json (sx_record X) r of
             None \<Rightarrow> (Err unavailable, dir)
           | Some bytes \<Rightarrow>
               if length bytes > max_record_bytes then (Err record_invalid, dir)
               else if \<not> pe_random E \<or> \<not> pe_create E \<or> dir (staging_name X E) \<noteq> None then (Err unavailable, dir)
               else
                 let part = (case pe_written E of None \<Rightarrow> bytes | Some n \<Rightarrow> take n bytes);
                     f = \<lparr>pf_bytes = part, pf_identity = pe_identity E\<rparr>;
                     staged = dir(staging_name X E \<mapsto> f);
                     left = (if pe_cleanup E then dir else staged) in
                 if pe_written E \<noteq> None \<or> \<not> pe_checked E \<or> \<not> pe_rename E then (Err unavailable, left)
                 else (case pe_sync E of
                         None \<Rightarrow> (Err unavailable, dir(''record.json'' \<mapsto> f))
                       | Some s \<Rightarrow> (Ok s, dir(''record.json'' \<mapsto> f)))))"

section \<open>The journal\<close>

definition next_phase_ok :: "operation_record option \<Rightarrow> operation_phase \<Rightarrow> bool" where
  "next_phase_ok previous p =
     (case previous of
        None \<Rightarrow> p = OpPrepared
      | Some r \<Rightarrow>
          (case or_phase r of
             OpPrepared \<Rightarrow> p = OpSubmitted
           | OpSubmitted \<Rightarrow> p \<in> {OpObserved, OpFailed}
           | OpObserved \<Rightarrow> False
           | OpFailed \<Rightarrow> False))"

definition validate_next_phase :: "operation_record option \<Rightarrow> operation_phase \<Rightarrow> (unit, string) result" where
  "validate_next_phase previous p = ensure (next_phase_ok previous p) ''wireguard_execution_transition_invalid''"

definition last_event :: "journal_event list \<Rightarrow> journal_event option" where
  "last_event es = (if es = [] then None else Some (last es))"

definition checked_next :: "64 word \<Rightarrow> 64 word option" where
  "checked_next s = (if s = - 1 then None else Some (s + 1))"

definition chained :: "journal_event \<Rightarrow> journal_event option \<Rightarrow> bool" where
  "chained e previous =
     (case previous of
        None \<Rightarrow> je_sequence e = 1 \<and> je_previous e = zero_digest
      | Some p \<Rightarrow> checked_next (je_sequence p) = Some (je_sequence e) \<and> je_previous e = je_sha256 p)"

definition validate_event :: "store_crates \<Rightarrow> journal_event \<Rightarrow> journal_event option \<Rightarrow> (unit, string) result" where
  "validate_event X e previous =
     (if je_version e \<noteq> 1 \<or> je_sequence e = 0 \<or> \<not> exec_digest (je_previous e) \<or> \<not> exec_digest (je_sha256 e)
      then Err record_invalid
      else case record_validate (sx_wg X) (je_record e) of
        Err x \<Rightarrow> Err x
      | Ok _ \<Rightarrow>
          (case sx_body X (je_sequence e) (je_previous e) (je_record e) of
             None \<Rightarrow> Err unavailable
           | Some body \<Rightarrow>
               if sx_sha X body \<noteq> je_sha256 e \<or> \<not> chained e previous then Err record_invalid
               else (case previous of
                       Some p \<Rightarrow> validate_next_phase (Some (je_record p)) (or_phase (je_record e))
                     | None \<Rightarrow> ensure (or_phase (je_record e) = OpPrepared) record_invalid)))"

fun journal_lines :: "store_crates \<Rightarrow> journal_event list \<Rightarrow> string list \<Rightarrow> (journal_event list, string) result" where
  "journal_lines X es [] = Ok es"
| "journal_lines X es (l # ls) =
     (if ls = [] \<and> l = [] then Ok es
      else if l = [] then Err record_invalid
      else case from_json (sx_event X) l of
        None \<Rightarrow> Err record_invalid
      | Some e \<Rightarrow>
          (case validate_event X e (last_event es) of
             Err x \<Rightarrow> Err x
           | Ok _ \<Rightarrow>
               (case to_json (sx_event X) e of
                  None \<Rightarrow> Err unavailable
                | Some t \<Rightarrow> if t \<noteq> l then Err record_invalid else journal_lines X (es @ [e]) ls)))"

definition read_journal :: "store_crates \<Rightarrow> file_read \<Rightarrow> request_dir \<Rightarrow> (journal_event list, string) result" where
  "read_journal X E dir =
     (if \<not> fr_open E then Err unavailable
      else case dir ''submission.log'' of
        None \<Rightarrow> Err ''wireguard_execution_record_missing''
      | Some f \<Rightarrow>
          if \<not> fr_stat E then Err unavailable
          else if length (pf_bytes f) > max_journal_bytes then Err record_invalid
          else if \<not> fr_read E then Err unavailable
          else if pf_bytes f = [] \<or> last (pf_bytes f) \<noteq> newline then Err record_invalid
          else (case journal_lines X [] (split_on newline (pf_bytes f)) of
                  Err e \<Rightarrow> Err e
                | Ok es \<Rightarrow> if es = [] then Err record_invalid else Ok es))"

definition verify_journal :: "store_crates \<Rightarrow> file_read \<Rightarrow> request_dir \<Rightarrow> operation_record \<Rightarrow> (unit, string) result" where
  "verify_journal X E dir r =
     (case read_journal X E dir of
        Err e \<Rightarrow> Err e
      | Ok es \<Rightarrow> ensure (je_record (last es) = r) changed)"

text \<open>
  Appending: the read before it, the size, opening or creating the file, how much is written, the
  synchronization and checks of the file, whether its name still leads to it, and the directory.
\<close>

record append_env =
  ap_read :: file_read
  ap_size :: bool
  ap_open :: bool
  ap_identity :: string
  ap_written :: "nat option"
  ap_synced :: bool
  ap_same :: bool
  ap_sync :: "directory_sync option"
  ap_verify :: bool

definition journal_bytes :: "request_dir \<Rightarrow> string" where
  "journal_bytes dir = (case dir ''submission.log'' of None \<Rightarrow> [] | Some f \<Rightarrow> pf_bytes f)"

definition journal_next :: "store_crates \<Rightarrow> journal_event list \<Rightarrow> operation_record \<Rightarrow> (journal_event, string) result" where
  "journal_next X es r =
     (case validate_next_phase (map_option je_record (last_event es)) (or_phase r) of
        Err e \<Rightarrow> Err e
      | Ok _ \<Rightarrow>
          (case (case last_event es of None \<Rightarrow> Some 1 | Some e \<Rightarrow> checked_next (je_sequence e)) of
             None \<Rightarrow> Err record_invalid
           | Some n \<Rightarrow>
               let previous = (case last_event es of None \<Rightarrow> zero_digest | Some e \<Rightarrow> je_sha256 e) in
               (case sx_body X n previous r of
                  None \<Rightarrow> Err unavailable
                | Some body \<Rightarrow>
                    Ok \<lparr>je_version = 1, je_sequence = n, je_previous = previous, je_record = r, je_sha256 = sx_sha X body\<rparr>)))"

definition append_journal ::
  "store_crates \<Rightarrow> append_env \<Rightarrow> operation_record \<Rightarrow> request_dir \<Rightarrow> (directory_sync, string) result \<times> request_dir" where
  "append_journal X E r dir =
     (case record_validate (sx_wg X) r of
        Err e \<Rightarrow> (Err e, dir)
      | Ok _ \<Rightarrow>
          (case (case read_journal X (ap_read E) dir of
                   Err e \<Rightarrow> if e = ''wireguard_execution_record_missing'' then Ok [] else Err e
                 | Ok es \<Rightarrow> Ok es) of
             Err e \<Rightarrow> (Err e, dir)
           | Ok es \<Rightarrow>
               (case journal_next X es r of
                  Err e \<Rightarrow> (Err e, dir)
                | Ok event \<Rightarrow>
                    (case to_json (sx_event X) event of
                       None \<Rightarrow> (Err unavailable, dir)
                     | Some line \<Rightarrow>
                         let old = journal_bytes dir in
                         if \<not> ap_size E then (Err unavailable, dir)
                         else if length old > max_journal_bytes \<or> length old + length line + 1 > max_journal_bytes
                         then (Err record_invalid, dir)
                         else if \<not> ap_open E then (Err unavailable, dir)
                         else
                           let all = line @ [newline];
                               part = (case ap_written E of None \<Rightarrow> all | Some n \<Rightarrow> take n all);
                               dir' = dir(''submission.log'' \<mapsto> \<lparr>pf_bytes = old @ part, pf_identity = ap_identity E\<rparr>) in
                           if ap_written E \<noteq> None \<or> \<not> ap_synced E then (Err unavailable, dir')
                           else if \<not> ap_same E then (Err changed, dir')
                           else (case ap_sync E of
                                   None \<Rightarrow> (Err unavailable, dir')
                                 | Some s \<Rightarrow> if ap_verify E then (Ok s, dir') else (Err unavailable, dir'))))))"

section \<open>The snapshot\<close>

text \<open>
  Reading the snapshot; afterwards its file is checked again: it still is the file of that name, a call
  failed, the name is gone or leads to another file, or an identity could not be determined.
\<close>

datatype snapshot_again = SameFile | AgainUnavailable | FileReplaced | IdentityUnavailable

record snapshot_env =
  sn_open :: bool
  sn_identity :: bool
  sn_read :: bool
  sn_again :: snapshot_again

definition snapshot_name :: "operation_record \<Rightarrow> string" where
  "snapshot_name r = xr_logical_name (or_request r) @ ''.conf''"

definition verify_snapshot :: "store_crates \<Rightarrow> snapshot_env \<Rightarrow> request_dir \<Rightarrow> operation_record \<Rightarrow> (unit, string) result" where
  "verify_snapshot X E dir r =
     (if \<not> sn_open E then Err unavailable
      else case dir (snapshot_name r) of
        None \<Rightarrow> Err changed
      | Some f \<Rightarrow>
          if \<not> sn_identity E then Err ''output_unavailable''
          else if pf_identity f \<noteq> or_snapshot r then Err changed
          else if \<not> sn_read E then Err unavailable
          else (case from_transfer (sx_wg X) (sx_sha X) (take (max_config_bytes + 1) (pf_bytes f)) (xr_config (or_request r)) of
                  Err e \<Rightarrow> Err e
                | Ok _ \<Rightarrow>
                    (case sn_again E of
                       SameFile \<Rightarrow> Ok ()
                     | AgainUnavailable \<Rightarrow> Err unavailable
                     | FileReplaced \<Rightarrow> Err changed
                     | IdentityUnavailable \<Rightarrow> Err ''output_unavailable'')))"

section \<open>Operations\<close>

text \<open>A lease: the request directory it holds, the record as last written, and how durable it is.\<close>

record lease =
  le_id :: string
  le_record :: operation_record
  le_sync :: directory_sync

datatype begin_operation = Created lease | Existing operation_record

record begin_env =
  be_verify :: bool
  be_request_lock :: "bool \<times> bool \<times> (bool \<times> lock_attempt) list"
  be_target_lock :: "bool \<times> bool \<times> (bool \<times> lock_attempt) list"
  be_canceled :: "nat \<Rightarrow> bool"
  be_open :: bool
  be_load :: file_read
  be_snapshot :: snapshot_env
  be_journal :: file_read
  be_mkdir :: bool
  be_child :: bool
  be_root_sync :: "directory_sync option"
  be_create :: bool
  be_written :: "nat option"
  be_checked :: bool
  be_identity :: string
  be_identified :: bool
  be_persist :: persist_env
  be_append :: append_env

definition existing_operation ::
  "store_crates \<Rightarrow> begin_env \<Rightarrow> execution_request \<Rightarrow> request_dir \<Rightarrow> (begin_operation, string) result" where
  "existing_operation X E q dir =
     (case store_load X (be_load E) dir (xr_request_id q) of
        Err e \<Rightarrow> Err e
      | Ok r \<Rightarrow>
          if or_request r \<noteq> q then Err ''wireguard_execution_request_conflict''
          else (case verify_snapshot X (be_snapshot E) dir r of
                  Err e \<Rightarrow> Err e
                | Ok _ \<Rightarrow>
                    (case verify_journal X (be_journal E) dir r of
                       Err e \<Rightarrow> Err e
                     | Ok _ \<Rightarrow> Ok (Existing r))))"

text \<open>Filling the new directory: the snapshot, the record in its first phase, the first event.\<close>

definition fill_operation ::
  "store_crates \<Rightarrow> begin_env \<Rightarrow> execution_request \<Rightarrow> execution_config \<Rightarrow> directory_sync \<Rightarrow>
     (begin_operation, string) result \<times> request_dir" where
  "fill_operation X E q config root_sync =
     (let name = xr_logical_name q @ ''.conf'';
          part = (case be_written E of None \<Rightarrow> xc_bytes config | Some n \<Rightarrow> take n (xc_bytes config));
          dir0 = [name \<mapsto> \<lparr>pf_bytes = part, pf_identity = be_identity E\<rparr>];
          r = \<lparr>or_version = 1, or_request = q, or_snapshot = be_identity E, or_phase = OpPrepared, or_observation = None,
               or_failure = None\<rparr> in
      case check_canceled (be_canceled E 1) of Err e \<Rightarrow> (Err e, Map.empty) | Ok _ \<Rightarrow>
      if \<not> be_create E then (Err unavailable, Map.empty)
      else if be_written E \<noteq> None \<or> \<not> be_checked E then (Err unavailable, dir0)
      else if \<not> be_identified E then (Err ''output_unavailable'', dir0)
      else (case check_canceled (be_canceled E 2) of
              Err e \<Rightarrow> (Err e, dir0)
            | Ok _ \<Rightarrow>
                (case store_persist X (be_persist E) r dir0 of
                   (Err e, dir1) \<Rightarrow> (Err e, dir1)
                 | (Ok s1, dir1) \<Rightarrow>
                     (case append_journal X (be_append E) r dir1 of
                        (Err e, dir2) \<Rightarrow> (Err e, dir2)
                      | (Ok s2, dir2) \<Rightarrow>
                          (Ok (Created \<lparr>le_id = xr_request_id q, le_record = r,
                             le_sync = combine_sync root_sync (combine_sync s1 s2)\<rparr>), dir2)))))"

definition store_begin ::
  "store_crates \<Rightarrow> begin_env \<Rightarrow> execution_request \<Rightarrow> execution_config \<Rightarrow> store_root \<Rightarrow>
     (begin_operation, string) result option \<times> store_root" where
  "store_begin X E q config root =
     (let id = xr_request_id q in
      case request_validate (sx_wg X) q of
        Err e \<Rightarrow> (Some (Err e), root)
      | Ok _ \<Rightarrow>
          if xr_config q \<noteq> xc_binding config then (Some (Err ''wireguard_execution_config_changed''), root)
          else if \<not> be_verify E then (Some (Err unavailable), root)
          else (case (case be_request_lock E of (c, opened, attempts) \<Rightarrow> store_lock c opened attempts) of
                  None \<Rightarrow> (None, root)
                | Some (Err e) \<Rightarrow> (Some (Err e), root)
                | Some (Ok _) \<Rightarrow>
                    (case (case be_target_lock E of (c, opened, attempts) \<Rightarrow> store_lock c opened attempts) of
                       None \<Rightarrow> (None, root)
                     | Some (Err e) \<Rightarrow> (Some (Err e), root)
                     | Some (Ok _) \<Rightarrow>
                         (case check_canceled (be_canceled E 0) of
                            Err e \<Rightarrow> (Some (Err e), root)
                          | Ok _ \<Rightarrow>
                              if \<not> be_open E then (Some (Err unavailable), root)
                              else (case root id of
                                      Some dir \<Rightarrow> (Some (existing_operation X E q dir), root)
                                    | None \<Rightarrow>
                                        if \<not> be_mkdir E then (Some (Err unavailable), root)
                                        else if \<not> be_child E then (Some (Err unavailable), root(id \<mapsto> Map.empty))
                                        else (case be_root_sync E of
                                                None \<Rightarrow> (Some (Err unavailable), root(id \<mapsto> Map.empty))
                                              | Some s \<Rightarrow>
                                                  (case fill_operation X E q config s of (r, dir) \<Rightarrow>
                                                     (Some r, root(id \<mapsto> dir)))))))))"

record read_env =
  rd_lock :: "bool \<times> bool \<times> (bool \<times> lock_attempt) list"
  rd_open :: bool
  rd_load :: file_read
  rd_snapshot :: snapshot_env
  rd_journal :: file_read

definition store_read ::
  "store_crates \<Rightarrow> read_env \<Rightarrow> string \<Rightarrow> store_root \<Rightarrow> (operation_record option, string) result option" where
  "store_read X E request_id root =
     (if \<not> exec_digest request_id then Some (Err ''wireguard_execution_invalid'')
      else case (case rd_lock E of (c, opened, attempts) \<Rightarrow> store_lock c opened attempts) of
        None \<Rightarrow> None
      | Some (Err e) \<Rightarrow> Some (Err e)
      | Some (Ok _) \<Rightarrow>
          if \<not> rd_open E then Some (Err unavailable)
          else Some (case root request_id of
                 None \<Rightarrow> Ok None
               | Some dir \<Rightarrow>
                   (case store_load X (rd_load E) dir request_id of
                      Err e \<Rightarrow> Err e
                    | Ok r \<Rightarrow>
                        (case verify_snapshot X (rd_snapshot E) dir r of
                           Err e \<Rightarrow> Err e
                         | Ok _ \<Rightarrow>
                             (case verify_journal X (rd_journal E) dir r of Err e \<Rightarrow> Err e | Ok _ \<Rightarrow> Ok (Some r))))))"

text \<open>The submitted operations among the given ids.\<close>

fun collect_submitted ::
  "store_crates \<Rightarrow> (string \<Rightarrow> bool \<times> read_env) \<Rightarrow> store_root \<Rightarrow> string list \<Rightarrow> (operation_record list, string) result option" where
  "collect_submitted X E root [] = Some (Ok [])"
| "collect_submitted X E root (i # ids) =
     (case check_canceled (fst (E i)) of
        Err e \<Rightarrow> Some (Err e)
      | Ok _ \<Rightarrow>
          (case store_read X (snd (E i)) i root of
             None \<Rightarrow> None
           | Some (Err e) \<Rightarrow> Some (Err e)
           | Some (Ok None) \<Rightarrow> Some (Err changed)
           | Some (Ok (Some r)) \<Rightarrow>
               (case collect_submitted X E root ids of
                  Some (Ok rs) \<Rightarrow> Some (Ok (if or_phase r = OpSubmitted then r # rs else rs))
                | other \<Rightarrow> other)))"

text \<open>
  An entry of the root: unreadable, with a name that is not UTF-8, or named, with whether it is a
  directory where its type can be read.
\<close>

datatype root_entry = UnreadableEntry | ForeignName | Entry string "bool option"

fun candidate_ids :: "root_entry list \<Rightarrow> (string list, string) result" where
  "candidate_ids [] = Ok []"
| "candidate_ids (UnreadableEntry # rest) = Err unavailable"
| "candidate_ids (ForeignName # rest) = candidate_ids rest"
| "candidate_ids (Entry name kind # rest) =
     (if length name \<noteq> 64 then candidate_ids rest
      else if \<not> exec_digest name then Err record_invalid
      else case kind of
        None \<Rightarrow> Err unavailable
      | Some is_dir \<Rightarrow>
          if \<not> is_dir then Err record_invalid
          else (case candidate_ids rest of Err e \<Rightarrow> Err e | Ok ids \<Rightarrow> Ok (name # ids)))"

definition request_ids :: "bool \<Rightarrow> root_entry list option \<Rightarrow> (string list, string) result" where
  "request_ids verified entries =
     (case (verified, entries) of
        (True, Some es) \<Rightarrow> (case candidate_ids es of Err e \<Rightarrow> Err e | Ok ids \<Rightarrow> Ok (sort ids))
      | _ \<Rightarrow> Err unavailable)"

definition submitted_records ::
  "store_crates \<Rightarrow> (string \<Rightarrow> bool \<times> read_env) \<Rightarrow> bool \<Rightarrow> root_entry list option \<Rightarrow> store_root \<Rightarrow>
     (operation_record list, string) result option" where
  "submitted_records X E verified entries root =
     (case request_ids verified entries of
        Err e \<Rightarrow> Some (Err e)
      | Ok ids \<Rightarrow> collect_submitted X E root ids)"

record transition_env =
  te_verify :: bool
  te_load :: file_read
  te_snapshot :: snapshot_env
  te_persist :: persist_env
  te_append :: append_env

definition transition ::
  "store_crates \<Rightarrow> transition_env \<Rightarrow> operation_record \<Rightarrow> lease \<Rightarrow> store_root \<Rightarrow>
     (directory_sync, string) result \<times> lease \<times> store_root" where
  "transition X E nxt l root =
     (case record_validate (sx_wg X) nxt of
        Err e \<Rightarrow> (Err e, l, root)
      | Ok _ \<Rightarrow>
          if \<not> te_verify E then (Err unavailable, l, root)
          else (case root (le_id l) of
                  None \<Rightarrow> (Err unavailable, l, root)
                | Some dir \<Rightarrow>
                    (case store_load X (te_load E) dir (xr_request_id (or_request (le_record l))) of
                       Err e \<Rightarrow> (Err e, l, root)
                     | Ok r \<Rightarrow>
                         if r \<noteq> le_record l then (Err changed, l, root)
                         else (case verify_snapshot X (te_snapshot E) dir (le_record l) of
                                 Err e \<Rightarrow> (Err e, l, root)
                               | Ok _ \<Rightarrow>
                                   (case store_persist X (te_persist E) nxt dir of
                                      (Err e, dir1) \<Rightarrow> (Err e, l, root(le_id l \<mapsto> dir1))
                                    | (Ok s1, dir1) \<Rightarrow>
                                        (case append_journal X (te_append E) nxt dir1 of
                                           (Err e, dir2) \<Rightarrow> (Err e, l, root(le_id l \<mapsto> dir2))
                                         | (Ok s2, dir2) \<Rightarrow>
                                             let s = combine_sync (le_sync l) (combine_sync s1 s2) in
                                             (Ok s, l\<lparr>le_record := nxt, le_sync := s\<rparr>, root(le_id l \<mapsto> dir2))))))))"

definition mark_submitted ::
  "store_crates \<Rightarrow> bool \<Rightarrow> transition_env \<Rightarrow> lease \<Rightarrow> store_root \<Rightarrow> (directory_sync, string) result \<times> lease \<times> store_root" where
  "mark_submitted X canceled E l root =
     (if or_phase (le_record l) \<noteq> OpPrepared then (Err ''wireguard_execution_transition_invalid'', l, root)
      else case check_canceled canceled of
        Err e \<Rightarrow> (Err e, l, root)
      | Ok _ \<Rightarrow> transition X E ((le_record l)\<lparr>or_phase := OpSubmitted\<rparr>) l root)"

definition completion :: "lease \<Rightarrow> (operation_record, string) result" where
  "completion l =
     (if or_phase (le_record l) \<noteq> OpSubmitted then Err ''wireguard_execution_transition_invalid'' else Ok (le_record l))"

definition record_observation ::
  "store_crates \<Rightarrow> transition_env \<Rightarrow> target_observation \<Rightarrow> lease \<Rightarrow> store_root \<Rightarrow>
     (directory_sync, string) result \<times> lease \<times> store_root" where
  "record_observation X E ob l root =
     (case completion l of
        Err e \<Rightarrow> (Err e, l, root)
      | Ok r \<Rightarrow> transition X E (r\<lparr>or_phase := OpObserved, or_observation := Some ob\<rparr>) l root)"

definition record_failure ::
  "store_crates \<Rightarrow> transition_env \<Rightarrow> execution_failure \<Rightarrow> lease \<Rightarrow> store_root \<Rightarrow>
     (directory_sync, string) result \<times> lease \<times> store_root" where
  "record_failure X E f l root =
     (case completion l of
        Err e \<Rightarrow> (Err e, l, root)
      | Ok r \<Rightarrow> transition X E (r\<lparr>or_phase := OpFailed, or_failure := Some f\<rparr>) l root)"

section \<open>Every sequence of operations\<close>

text \<open>
  The states that processes reach: the directories, the leases that are alive, and, for what follows
  only, the ids for which a lease was ever given and those whose submission was ever acknowledged. An id
  that is leased is locked, so no other process begins it; a lease can be dropped at any time.
\<close>

inductive store_reaches ::
  "store_crates \<Rightarrow> store_root \<Rightarrow> lease list \<Rightarrow> string list \<Rightarrow> string list \<Rightarrow> bool" for X where
  start: "store_reaches X Map.empty [] [] []"
| begun: "store_reaches X root live created submitted \<Longrightarrow> xr_request_id q \<notin> le_id ` set live \<Longrightarrow>
    store_begin X E q config root = (Some (Ok (Created l)), root') \<Longrightarrow>
    store_reaches X root' (l # live) (le_id l # created) submitted"
| not_begun: "store_reaches X root live created submitted \<Longrightarrow> xr_request_id q \<notin> le_id ` set live \<Longrightarrow>
    store_begin X E q config root = (r, root') \<Longrightarrow> (\<And>l. r \<noteq> Some (Ok (Created l))) \<Longrightarrow>
    store_reaches X root' live created submitted"
| marked: "store_reaches X root (l # live) created submitted \<Longrightarrow>
    mark_submitted X canceled E l root = (r, l', root') \<Longrightarrow>
    store_reaches X root' (l' # live) created (if is_ok r then le_id l # submitted else submitted)"
| observed: "store_reaches X root (l # live) created submitted \<Longrightarrow>
    record_observation X E ob l root = (r, l', root') \<Longrightarrow> store_reaches X root' (l' # live) created submitted"
| failed: "store_reaches X root (l # live) created submitted \<Longrightarrow>
    record_failure X E f l root = (r, l', root') \<Longrightarrow> store_reaches X root' (l' # live) created submitted"
| other: "store_reaches X root live created submitted \<Longrightarrow> mset live' \<subseteq># mset live \<Longrightarrow>
    store_reaches X root live' created submitted"

end
