(* ===== verification/Wireguard_Text.thy ===== *)
theory Wireguard_Text
  imports Wireguard_Config
begin

text \<open>
  What the client writes is what it and the privileged brokers read: the text of a rendered
  configuration, parsed, gives the key, addresses, servers and number of peers it was rendered from.
\<close>

section \<open>Tidy text\<close>

text \<open>Printing characters that neither start a comment nor are blank; tidy text has blanks only inside.\<close>

definition plain_char :: "char \<Rightarrow> bool" where
  "plain_char c \<longleftrightarrow> 32 < byte c \<and> byte c < 127 \<and> c \<noteq> CHR 0x23"

definition tidy :: "string \<Rightarrow> bool" where
  "tidy v \<longleftrightarrow> v \<noteq> [] \<and> list_all (\<lambda>c. plain_char c \<or> c = CHR '' '') v \<and> plain_char (hd v) \<and> plain_char (last v)"

lemma plain_marks [simp]:
  "plain_char (CHR ''.'')" "plain_char (CHR ''-'')" "plain_char (CHR '':'')" "plain_char (CHR ''['')"
  "plain_char (CHR '']'')" "plain_char (CHR ''+'')" "plain_char (CHR ''/'')" "plain_char (CHR ''='')"
  "plain_char (CHR '','')" "\<not> plain_char (CHR '' '')"
  by (simp_all add: plain_char_def)

lemma plain_tidy: "v \<noteq> [] \<Longrightarrow> list_all plain_char v \<Longrightarrow> tidy v"
  by (auto simp: tidy_def list_all_iff)

lemma tidy_chars:
  assumes "tidy v" and "c \<in> set v"
  shows "byte c < 127" and "32 \<le> byte c" and "c \<noteq> CHR 0x23"
proof -
  from assms have "plain_char c \<or> c = CHR '' ''" by (simp add: tidy_def list_all_iff)
  then show "byte c < 127" "32 \<le> byte c" "c \<noteq> CHR 0x23" by (auto simp: plain_char_def)
qed

lemma split_ascii: "is_ascii s \<Longrightarrow> utf8_split s = map (\<lambda>c. [c]) s"
  by (induction s) (auto simp: is_ascii_def utf8_width_def)

lemma trim_ascii:
  assumes "is_ascii s"
  shows "str_trim s = rev (dropWhile (\<lambda>c. is_whitespace (byte c)) (rev (dropWhile (\<lambda>c. is_whitespace (byte c)) s)))"
proof -
  have sc: "scalar [c] = byte c" if "byte c < 128" for c using that by simp
  have drop_map: "dropWhile (\<lambda>g. is_whitespace (scalar g)) (map (\<lambda>c. [c]) t) =
      map (\<lambda>c. [c]) (dropWhile (\<lambda>c. is_whitespace (byte c)) t)" if "is_ascii t" for t
    using that by (induction t) (auto simp: is_ascii_def)
  have ascii: "is_ascii (dropWhile P t)" if "is_ascii t" for P t
    using that by (auto simp: is_ascii_def list_all_iff dest: set_dropWhileD)
  have "is_ascii (rev (dropWhile (\<lambda>c. is_whitespace (byte c)) s))"
    using ascii [OF assms] by (simp add: is_ascii_def)
  then show ?thesis
    using assms by (simp add: str_trim_def Let_def split_ascii drop_map rev_map)
qed

lemma plain_not_blank: "plain_char c \<Longrightarrow> \<not> is_whitespace (byte c)"
  by (auto simp: plain_char_def is_whitespace_def)

lemma tidy_ascii: "tidy v \<Longrightarrow> is_ascii v"
  using tidy_chars(1) by (fastforce simp: is_ascii_def list_all_iff)

lemma trim_tidy:
  assumes "tidy v"
  shows "str_trim v = v" and "str_trim ('' '' @ v) = v" and "str_trim (v @ '' '') = v"
proof -
  let ?b = "\<lambda>c. is_whitespace (byte c)"
  have ends: "\<not> ?b (hd v)" "\<not> ?b (hd (rev v))" "v \<noteq> []"
    using assms by (auto simp: tidy_def plain_not_blank hd_rev)
  then have keep: "dropWhile ?b v = v" "dropWhile ?b (v @ '' '') = v @ '' ''" by (cases v; simp)+
  have "dropWhile ?b (rev v) = rev v" using ends by (cases "rev v") simp_all
  note keep = keep this
  have "?b (CHR '' '')" by (simp add: is_whitespace_def)
  with keep trim_ascii [OF tidy_ascii [OF assms]]
    trim_ascii [of "'' '' @ v"] trim_ascii [of "v @ '' ''"] tidy_ascii [OF assms]
  show "str_trim v = v" "str_trim ('' '' @ v) = v" "str_trim (v @ '' '') = v"
    by (simp_all add: is_ascii_def)
qed

section \<open>One line\<close>

definition field_name :: "string \<Rightarrow> bool" where
  "field_name n \<longleftrightarrow> n \<noteq> [] \<and> list_all plain_char n \<and> CHR ''='' \<notin> set n \<and> hd n \<noteq> CHR ''[''"

lemma parse_line_field:
  assumes "field_name n" and "tidy v" and "pa_seen st" and "length n + length v \<le> 65533"
  shows "parse_line G st (n @ '' = '' @ v) =
    (case pa_peer st of
       Some p \<Rightarrow> map_option (\<lambda>p'. st\<lparr>pa_peer := Some p'\<rparr>) (peer_field G n v p)
     | None \<Rightarrow> interface_field G n v st)"
proof -
  let ?l = "n @ '' = '' @ v"
  have n: "tidy n" "n \<noteq> []" "CHR ''='' \<notin> set n" "hd n \<noteq> CHR ''[''"
    using assms(1) by (auto simp: field_name_def plain_tidy)
  have v: "v \<noteq> []" using assms(2) by (simp add: tidy_def)
  have l: "tidy ?l" using n(1) assms(2) by (auto simp: tidy_def)
  have comment: "split_once (CHR 0x23) ?l = None"
    using tidy_chars [OF l] by (auto simp: split_once_None)
  have split: "split_once (CHR ''='') ?l = Some (n @ '' '', '' '' @ v)"
    using split_once_append [of "CHR ''=''" "n @ '' ''" "'' '' @ v"] n(3) by simp
  have start: "\<not> starts_with ''['' ?l" using n(2,4) by (cases n) (auto simp: starts_with_iff)
  then have head: "?l \<noteq> ''[Interface]''" "?l \<noteq> ''[Peer]''" "?l \<noteq> []"
    using n(2) starts_with_append [of "''[''" "''Interface]''"] starts_with_append [of "''[''" "''Peer]''"] by auto
  show ?thesis
    using assms(3,4) head start v n(2)
    by (simp add: parse_line_def comment split Let_def trim_tidy(1) [OF l] trim_tidy(2) [OF assms(2)] trim_tidy(3) [OF n(1)]
        del: append_assoc append_Cons append_Nil cong: if_cong split: option.split)
qed

lemma parse_line_interface:
  "\<not> pa_seen st \<Longrightarrow> parse_line G st ''[Interface]'' = Some (st\<lparr>pa_seen := True\<rparr>)"
  by (simp add: parse_line_def str_trim_def rust_eval)

lemma parse_line_empty: "parse_line G st [] = Some st"
  by (simp add: parse_line_def str_trim_def)

lemma parse_line_peer: "pa_seen st \<Longrightarrow> parse_line G st ''[Peer]'' = peer_header st"
  by (simp add: parse_line_def str_trim_def rust_eval)

lemma parse_lines_append:
  "parse_lines G st (ls @ ms) = (case parse_lines G st ls of None \<Rightarrow> None | Some st' \<Rightarrow> parse_lines G st' ms)"
  by (induction ls arbitrary: st) (auto split: option.splits)

section \<open>Lists of items\<close>

lemma read_items_ok:
  assumes "length acc + length vs \<le> limit" and "map (\<lambda>v. f (str_trim v)) vs = map Some xs"
  shows "read_items f limit acc vs = Some (acc @ xs)"
  using assms
proof (induction vs arbitrary: acc xs)
  case (Cons v vs)
  then obtain x ys where "xs = x # ys" "f (str_trim v) = Some x" "map (\<lambda>v. f (str_trim v)) vs = map Some ys"
    by (cases xs) auto
  with Cons.IH [of "acc @ [x]" ys] Cons.prems show ?case by simp
qed simp

lemma joined_items:
  assumes "parts \<noteq> []" and "\<forall>p \<in> set parts. tidy p \<and> CHR '','' \<notin> set p"
    and "map f parts = map Some xs" and "length acc + length parts \<le> limit"
  shows "read_items f limit acc (split_on (CHR '','') (join_with '', '' parts)) = Some (acc @ xs)"
proof -
  obtain p ps where parts: "parts = p # ps" using assms(1) by (cases parts) auto
  have "map (\<lambda>v. f (str_trim v)) (p # map (\<lambda>q. '' '' @ q) ps) = map f parts"
    using assms(2) parts trim_tidy(1,2) by (simp del: append_Cons append_Nil)
  with assms(3) have "map (\<lambda>v. f (str_trim v)) (p # map (\<lambda>q. '' '' @ q) ps) = map Some xs" by simp
  from read_items_ok [OF _ this] assms(2,4) parts show ?thesis
    by (simp add: split_on_join del: append_Cons append_Nil)
qed

lemma tidy_comma: "tidy a \<Longrightarrow> tidy b \<Longrightarrow> tidy (a @ '', '' @ b)"
  by (auto simp: tidy_def)

lemma tidy_join:
  assumes "parts \<noteq> []" and "\<forall>p \<in> set parts. tidy p"
  shows "tidy (join_with '', '' parts)"
proof -
  obtain p ps where parts: "parts = p # ps" using assms(1) by (cases parts) auto
  define f where "f = (\<lambda>q. '', '' @ q)"
  have "tidy (p @ concat (map f ps))"
    using assms(2) unfolding parts
  proof (induction ps rule: rev_induct)
    case (snoc q qs)
    then have "tidy q" and "tidy (p @ concat (map f qs))" by auto
    then have "tidy ((p @ concat (map f qs)) @ f q)" unfolding f_def by (rule tidy_comma [rotated])
    then show ?case by simp
  qed simp
  then show ?thesis unfolding parts join_with_def f_def by simp
qed

lemma length_join:
  assumes "\<forall>p \<in> set parts. length p \<le> m"
  shows "length (join_with '', '' parts) \<le> length parts * (m + 2)"
proof (cases parts)
  case (Cons p ps)
  have "length (concat (map ((@) '', '') ps)) \<le> length ps * (m + 2)"
    using assms unfolding Cons by (induction ps) auto
  with assms Cons show ?thesis by (simp add: join_with_def)
qed (simp add: join_with_def)

section \<open>Values that are accepted are tidy\<close>

text \<open>\<open>STANDARD\<close> decodes only the canonical text of the bytes, over its alphabet.\<close>

definition base64_char :: "char \<Rightarrow> bool" where
  "base64_char c \<longleftrightarrow> is_ascii_alphanumeric c \<or> c \<in> set ''+/=''"

definition base64_lawful :: "wg_crates \<Rightarrow> bool" where
  "base64_lawful G \<longleftrightarrow>
     (\<forall>v b. base64_decode G v = Some b \<longrightarrow>
        base64_encode G b = v \<and> list_all base64_char v \<and> length v = 4 * ((length b + 2) div 3))"

lemma alphanumeric_plain: "is_ascii_alphanumeric c \<Longrightarrow> plain_char c"
  by (auto simp: is_ascii_alphanumeric_def is_ascii_digit_def is_ascii_uppercase_def is_ascii_lowercase_def plain_char_def)

lemma base64_plain: "base64_char c \<Longrightarrow> plain_char c"
  by (auto simp: base64_char_def alphanumeric_plain)

lemma addr_plain: "addr_char c \<Longrightarrow> plain_char c \<and> c \<noteq> CHR '','' \<and> c \<noteq> CHR ''/''"
  by (auto simp: addr_char_def is_digit_def to_digit_def plain_char_def Let_def split: if_splits)

lemma digit_plain: "is_ascii_digit c \<Longrightarrow> plain_char c \<and> c \<noteq> CHR '','' \<and> c \<noteq> CHR ''/''"
  by (auto simp: is_ascii_digit_def plain_char_def)

lemma key_tidy:
  assumes "base64_lawful G" and "base64_decode G v = Some b" and "length b = 32"
  shows "tidy v" and "length v = 44"
proof -
  from assms have v: "list_all base64_char v" "length v = 44" by (auto simp: base64_lawful_def)
  then show "length v = 44" by simp
  from v(1) have "list_all plain_char v" by (rule list.pred_mono_strong) (rule base64_plain)
  with v(2) show "tidy v" by (intro plain_tidy) auto
qed

lemma public_key_tidy:
  assumes "base64_lawful G" and "public_key G v"
  shows "tidy v" and "length v = 44"
  using assms key_tidy [OF assms(1)] by (auto simp: public_key_def split: option.splits)

lemma port_plain:
  assumes "parse_bounded b p = Some n"
  shows "list_all plain_char p" and "p \<noteq> []"
proof -
  from assms obtain v where "parse_unsigned p = Some v" by (auto simp: parse_bounded_def split: option.splits)
  then show "list_all plain_char p" "p \<noteq> []"
    by (auto simp: parse_unsigned_def Let_def list_all_iff digit_plain strip_prefix_Some
        split: option.splits if_splits)
qed

lemma host_plain:
  assumes "list_all host_label (split_on (CHR ''.'') host)"
  shows "list_all plain_char host"
proof -
  have label: "list_all plain_char l" if "host_label l" for l
    using that unfolding host_label_def by (elim conjE list.pred_mono_strong) (auto simp: alphanumeric_plain)
  have "list_all (list_all plain_char) (split_on (CHR ''.'') host)"
    using assms by (rule list.pred_mono_strong) (rule label)
  from split_on_chars [OF this] show ?thesis by (rule list.pred_mono_strong) auto
qed

lemma endpoint_tidy:
  assumes "endpoint v"
  shows "tidy v" and "length v \<le> 300"
proof -
  show "length v \<le> 300" using assms by (simp add: endpoint_def split: if_splits)
  from assms obtain host port where hp: "rsplit_once (CHR '':'') v = Some (host, port)"
    by (auto simp: endpoint_def split: if_splits option.splits)
  with assms obtain n where n: "parse_bounded 65535 port = Some n"
    by (auto simp: endpoint_def is_none_or_def split: if_splits option.splits)
  have bracket: "host = ''['' @ ip @ '']''" if "bracketed host = Some ip" for ip
    using that by (auto simp: bracketed_def strip_prefix_Some split: option.splits if_splits)
      (metis append_butlast_last_id)
  have "list_all plain_char host"
  proof (cases "bracketed host")
    case (Some ip)
    then have "parse_ipv6 ip \<noteq> None" using assms hp by (auto simp: endpoint_def split: if_splits)
    with bracket [OF Some] show ?thesis
      using parse_ipv6_chars [of ip] addr_plain by (auto simp: list_all_iff)
  next
    case None
    with assms hp consider (v4) w where "parse_ipv4 host = Some w" | (name) "list_all host_label (split_on (CHR ''.'') host)"
      by (auto simp: endpoint_def split: if_splits)
    then show ?thesis
    proof cases
      case v4
      from parse_ipv4_chars [OF this] show ?thesis using addr_plain by (auto simp: list_all_iff)
    next
      case name
      then show ?thesis by (rule host_plain)
    qed
  qed
  with rsplit_once_Some [OF hp] port_plain [OF n] show "tidy v"
    by (intro plain_tidy) auto
qed

section \<open>The whole text\<close>

lemma buf_lines_join:
  assumes "ls \<noteq> []" and "\<forall>l \<in> set ls. \<forall>c \<in> set l. 32 \<le> byte c"
  shows "buf_lines (join_with [newline] ls @ [newline]) = ls"
proof -
  have line: "newline \<notin> set l \<and> strip_cr l = l" if "\<forall>c \<in> set l. 32 \<le> byte c" for l
  proof -
    have low: "byte newline = 10" "byte (char_of (13 :: nat)) = 13" by simp_all
    have "newline \<notin> set l" using that low(1) by force
    moreover have "l \<noteq> [] \<longrightarrow> last l \<noteq> char_of (13 :: nat)" using that low(2) last_in_set by force
    ultimately show ?thesis by (auto simp: strip_cr_def)
  qed
  have "buf_lines (concat (map (\<lambda>l. l @ [newline]) ls)) = ls"
    using assms(2)
  proof (induction ls)
    case (Cons l ls)
    with line [of l] buf_lines_line [of l "concat (map (\<lambda>l. l @ [newline]) ls)"] show ?case by simp
  qed simp
  moreover have "join_with [newline] ls @ [newline] = concat (map (\<lambda>l. l @ [newline]) ls)"
    using assms(1)
  proof (induction ls)
    case (Cons l ls)
    then show ?case by (cases ls) (simp_all add: join_with_def)
  qed simp
  ultimately show ?thesis by simp
qed

lemma ascii_utf8: "is_ascii s \<Longrightarrow> utf8_valid s"
  by (induction s) (simp_all add: is_ascii_def)

lemma join_chars: "c \<in> set (join_with sep parts) \<Longrightarrow> c \<in> set sep \<or> (\<exists>p \<in> set parts. c \<in> set p)"
  by (cases parts) (auto simp: join_with_def split: if_splits)

lemma rendered_text_ok:
  assumes "ls \<noteq> []" and "\<forall>l \<in> set ls. \<forall>c \<in> set l. 32 \<le> byte c \<and> byte c < 127"
  shows "wg_parse G (join_with [newline] ls @ [newline]) =
    (case parse_lines G parser_start ls of None \<Rightarrow> None | Some st \<Rightarrow> wg_finish st)"
proof -
  let ?t = "join_with [newline] ls @ [newline]"
  have chars: "c = newline \<or> 32 \<le> byte c \<and> byte c < 127" if "c \<in> set ?t" for c
    using that join_chars [of c "[newline]" ls] assms(2) by auto
  then have ascii: "is_ascii ?t" by (fastforce simp: is_ascii_def list_all_iff)
  have control: "\<not> list_ex (\<lambda>c. is_control c \<and> c \<notin> {10, 13, 9}) (chars ?t)"
    using chars by (fastforce simp: chars_ascii [OF ascii] list_ex_iff is_control_def)
  have "char_of (13 :: nat) \<notin> set ?t" using chars [of "char_of (13 :: nat)"] by auto
  then have "\<not> lone_cr ?t" unfolding lone_cr_def by (metis nth_mem)
  moreover have "buf_lines ?t = ls" using buf_lines_join assms by blast
  ultimately show ?thesis using ascii_utf8 [OF ascii] control by (simp add: wg_parse_def del: append_assoc)
qed

section \<open>Networks\<close>

text \<open>A prefix length that is written with digits only, in a text of ordinary length.\<close>

definition plain_network :: "string \<Rightarrow> bool" where
  "plain_network v \<longleftrightarrow>
     ip_or_network v \<and> length v \<le> 64 \<and>
     (case split_once (CHR ''/'') v of None \<Rightarrow> True | Some (_, prefix) \<Rightarrow> is_decimal prefix)"

lemma address_tidy: "parse_ip v = Some a \<Longrightarrow> tidy v \<and> CHR '','' \<notin> set v"
proof -
  assume a: "parse_ip v = Some a"
  have "list_all plain_char v" using parse_ip_chars(1) [OF a] by (rule list.pred_mono_strong) (simp add: addr_plain)
  moreover have "CHR '','' \<notin> set v" using parse_ip_chars(1) [OF a] addr_plain by (auto simp: list_all_iff)
  ultimately show ?thesis using parse_ip_chars(2) [OF a] by (simp add: plain_tidy)
qed

lemma network_item:
  assumes "plain_network v"
  shows "ip_item v \<noteq> None" and "tidy v" and "CHR '','' \<notin> set v" and "length v \<le> 64"
proof -
  show "length v \<le> 64" using assms by (simp add: plain_network_def)
  have "ip_item v \<noteq> None \<and> tidy v \<and> CHR '','' \<notin> set v"
  proof (cases "split_once (CHR ''/'') v")
    case None
    then obtain a where "parse_ip v = Some a"
      using assms by (auto simp: plain_network_def ip_or_network_def split: option.splits)
    with None address_tidy [OF this] show ?thesis by (simp add: ip_item_def)
  next
    case (Some s)
    obtain ip prefix where s: "s = (ip, prefix)" by (cases s)
    with Some assms obtain a bits where ok: "parse_ip ip = Some a" "parse_bounded 255 prefix = Some bits"
      "bits \<le> ip_bits a" "is_decimal prefix"
      by (auto simp: plain_network_def ip_or_network_def is_some_and_def split: option.splits)
    have v: "v = ip @ CHR ''/'' # prefix" using split_once_Some [of "CHR ''/''" v ip prefix] Some s by simp
    have digits: "list_all plain_char prefix" "CHR '','' \<notin> set prefix" "prefix \<noteq> []"
      using ok(4) digit_plain by (auto simp: is_decimal_def list_all_iff)
    have "list_all plain_char ip" using parse_ip_chars(1) [OF ok(1)] by (rule list.pred_mono_strong) (simp add: addr_plain)
    with digits v have "tidy v" by (intro plain_tidy) simp_all
    moreover have "CHR '','' \<notin> set v" using v digits(2) address_tidy [OF ok(1)] by simp
    moreover have "ip_item v \<noteq> None" using Some s ok by (simp add: ip_item_def)
    ultimately show ?thesis by simp
  qed
  then show "ip_item v \<noteq> None" "tidy v" "CHR '','' \<notin> set v" by simp_all
qed

lemma networks_list:
  assumes "vs \<noteq> []" and "list_all plain_network vs" and "length vs \<le> limit"
  shows "\<exists>xs. map ip_item vs = map Some xs \<and> ip_list (join_with '', '' vs) limit = Some xs"
proof -
  have "map ip_item vs = map Some (map (the \<circ> ip_item) vs)"
    using assms(2) network_item(1) by (fastforce simp: list_all_iff)
  then obtain xs where xs: "map ip_item vs = map Some xs" by blast
  have parts: "\<forall>p \<in> set vs. tidy p \<and> CHR '','' \<notin> set p"
    using assms(2) network_item(2,3) by (auto simp: list_all_iff)
  from joined_items [OF assms(1) parts xs, of "[]" limit] assms(3) xs show ?thesis by (auto simp: ip_list_def)
qed

section \<open>The lines of a peer\<close>

lemma parse_decimal_bounded:
  assumes "n \<le> b"
  shows "parse_bounded b (decimal n) = Some n" and "is_decimal (decimal n)"
proof -
  have d: "decimal n \<noteq> []" "list_all is_ascii_digit (decimal n)" using decimal_digits by blast+
  then have "strip_prefix ''+'' (decimal n) = None"
    by (cases "decimal n") (auto simp: strip_prefix_def starts_with_def is_ascii_digit_def)
  with d assms show "parse_bounded b (decimal n) = Some n"
    by (simp add: parse_bounded_def parse_unsigned_def digits_value_decimal)
  show "is_decimal (decimal n)" using d by (simp add: is_decimal_def)
qed

lemma decimal_tidy: "tidy (decimal n)"
  using decimal_digits [of n] digit_plain by (intro plain_tidy) (auto simp: list_all_iff)

definition closed_keys :: "wg_parser \<Rightarrow> string list option" where
  "closed_keys st = (case pa_peer st of None \<Rightarrow> Some (pa_keys st) | Some p \<Rightarrow> finish_peer p (pa_keys st))"

definition peer_section :: "wg_peer_data \<Rightarrow> wg_section" where
  "peer_section p =
     \<lparr>se_fields = [''PersistentKeepalive'', ''Endpoint'', ''PublicKey''],
      se_public_key = Some (wp_public_key p), se_allowed_ips = length (wp_allowed_ips p)\<rparr>"

lemma names: "field_name ''PublicKey''" "field_name ''Endpoint''" "field_name ''AllowedIPs''"
  "field_name ''PersistentKeepalive''" "field_name ''PrivateKey''" "field_name ''Address''" "field_name ''MTU''"
  "field_name ''DNS''"
  by (simp_all add: field_name_def plain_char_def)

lemma peer_values:
  assumes "base64_lawful G" and "wg_peer_ok G p" and "list_all plain_network (wp_allowed_ips p)"
  shows "public_key G (wp_public_key p)" "tidy (wp_public_key p)" "endpoint (wp_endpoint p)"
    "\<exists>xs. length xs = length (wp_allowed_ips p) \<and> ip_list (join_with '', '' (wp_allowed_ips p)) 256 = Some xs"
    "tidy (join_with '', '' (wp_allowed_ips p))" "length (join_with '', '' (wp_allowed_ips p)) \<le> 16896"
    "wp_allowed_ips p \<noteq> []" "length (wp_allowed_ips p) \<le> 256" "length (wp_public_key p) = 44"
proof -
  show key: "public_key G (wp_public_key p)" and "endpoint (wp_endpoint p)"
    and ne: "wp_allowed_ips p \<noteq> []" and len: "length (wp_allowed_ips p) \<le> 256"
    using assms(2) by (auto simp: wg_peer_ok_def)
  show "tidy (wp_public_key p)" "length (wp_public_key p) = 44" using public_key_tidy [OF assms(1) key] .
  from networks_list [OF ne assms(3) len] obtain xs where
    xs: "map ip_item (wp_allowed_ips p) = map Some xs" "ip_list (join_with '', '' (wp_allowed_ips p)) 256 = Some xs" by blast
  from xs(1) have "length xs = length (wp_allowed_ips p)" by (metis length_map)
  with xs(2) show "\<exists>xs. length xs = length (wp_allowed_ips p) \<and> ip_list (join_with '', '' (wp_allowed_ips p)) 256 = Some xs"
    by blast
  show "tidy (join_with '', '' (wp_allowed_ips p))"
    using tidy_join [OF ne] assms(3) network_item(2) by (simp add: list_all_iff)
  have "length (join_with '', '' (wp_allowed_ips p)) \<le> length (wp_allowed_ips p) * (64 + 2)"
    using assms(3) network_item(4) by (intro length_join) (simp add: list_all_iff)
  also have "\<dots> \<le> 256 * (64 + 2)" using len by (intro mult_right_mono) simp_all
  finally show "length (join_with '', '' (wp_allowed_ips p)) \<le> 16896" by simp
qed

lemma parse_peer_lines:
  assumes "base64_lawful G" and "wg_peer_ok G p" and "list_all plain_network (wp_allowed_ips p)"
    and "pa_seen st" and "su_peer_count (pa_summary st) < max_peers"
  shows "parse_lines G st (peer_lines p) =
    map_option (\<lambda>keys. st\<lparr>pa_keys := keys, pa_peer := Some (peer_section p),
        pa_summary := (pa_summary st)\<lparr>su_peer_count := su_peer_count (pa_summary st) + 1\<rparr>\<rparr>) (closed_keys st)"
proof (cases "closed_keys st")
  case None
  then have "peer_header st = None" by (simp add: peer_header_def closed_keys_def)
  with None assms(4) show ?thesis by (simp add: peer_lines_def parse_line_empty parse_line_peer)
next
  case (Some keys)
  note v = peer_values [OF assms(1-3)]
  obtain xs where xs: "length xs = length (wp_allowed_ips p)" "ip_list (join_with '', '' (wp_allowed_ips p)) 256 = Some xs"
    using v(4) by blast
  define st0 where "st0 = st\<lparr>pa_keys := keys, pa_summary := (pa_summary st)\<lparr>su_peer_count := su_peer_count (pa_summary st) + 1\<rparr>\<rparr>"
  have seen: "pa_seen (st0\<lparr>pa_peer := q\<rparr>)" for q using assms(4) by (simp add: st0_def)
  have header: "peer_header st = Some (st0\<lparr>pa_peer := Some empty_section\<rparr>)"
    using Some assms(5) by (simp add: peer_header_def closed_keys_def st0_def Let_def)
  have "unat (wp_keepalive p) < 2 ^ 16" using unsigned_less [of "wp_keepalive p"] by simp
  then have keep: "unat (wp_keepalive p) \<le> 65535" by simp
  have keep_len: "length (decimal (unat (wp_keepalive p))) \<le> 5"
    using length_decimal [of "unat (wp_keepalive p)" 4] keep by simp
  have one: "parse_line G (st0\<lparr>pa_peer := Some q\<rparr>) (n @ '' = '' @ w) = Some (st0\<lparr>pa_peer := Some q'\<rparr>)"
    if "field_name n" "tidy w" "length n + length w \<le> 65533" "peer_field G n w q = Some q'" for n w q q'
    using parse_line_field [OF that(1,2) seen that(3)] that(4) by simp
  let ?a = "empty_section\<lparr>se_fields := [''PublicKey''], se_public_key := Some (wp_public_key p)\<rparr>"
  let ?b = "?a\<lparr>se_fields := [''Endpoint'', ''PublicKey'']\<rparr>"
  let ?c = "?b\<lparr>se_allowed_ips := length (wp_allowed_ips p)\<rparr>"
  have fields: "peer_field G ''PublicKey'' (wp_public_key p) empty_section = Some ?a"
    "peer_field G ''Endpoint'' (wp_endpoint p) ?a = Some ?b"
    "peer_field G ''AllowedIPs'' (join_with '', '' (wp_allowed_ips p)) ?b = Some ?c"
    "peer_field G ''PersistentKeepalive'' (decimal (unat (wp_keepalive p))) ?c = Some (peer_section p)"
    using v(1,3,8) xs parse_decimal_bounded [OF keep]
    by (simp_all add: peer_field_def empty_section_def peer_section_def)
  have lines: "peer_lines p = [[], ''[Peer]'', ''PublicKey'' @ '' = '' @ wp_public_key p, ''Endpoint'' @ '' = '' @ wp_endpoint p,
      ''AllowedIPs'' @ '' = '' @ join_with '', '' (wp_allowed_ips p),
      ''PersistentKeepalive'' @ '' = '' @ decimal (unat (wp_keepalive p))]"
    by (simp add: peer_lines_def)
  have "parse_lines G st (peer_lines p) = Some (st0\<lparr>pa_peer := Some (peer_section p)\<rparr>)"
    unfolding lines
    using one [OF names(1) v(2) _ fields(1)] one [OF names(2) endpoint_tidy(1) [OF v(3)] _ fields(2)]
      one [OF names(3) v(5) _ fields(3)] one [OF names(4) decimal_tidy _ fields(4)]
      endpoint_tidy(2) [OF v(3)] v(6,9) keep_len assms(4) header
    by (simp add: parse_line_empty parse_line_peer del: append_Cons append_Nil)
  with Some show ?thesis by (simp add: st0_def)
qed

lemma finish_section:
  "wp_allowed_ips p \<noteq> [] \<Longrightarrow>
     finish_peer (peer_section p) keys = (if wp_public_key p \<in> set keys then None else Some (wp_public_key p # keys))"
  by (simp add: finish_peer_def peer_section_def)

text \<open>The end of a configuration: what is left of it once every key is known to be new.\<close>

definition wg_result :: "wg_parser \<Rightarrow> nat \<Rightarrow> wg_summary option" where
  "wg_result st n =
     (let s = pa_summary st in
      if ''PrivateKey'' \<notin> set (pa_interface st) \<or> su_addresses s = [] then None
      else Some (s\<lparr>su_peer_count := su_peer_count s + n,
                    su_unsupported := filter (\<lambda>n. n \<in> set (su_unsupported s)) unsupported_names\<rparr>))"

lemma parse_peers:
  assumes "base64_lawful G"
    and "list_all (\<lambda>p. wg_peer_ok G p \<and> list_all plain_network (wp_allowed_ips p)) ps"
    and "pa_seen st" and "su_peer_count (pa_summary st) + length ps \<le> max_peers"
  shows "(case parse_lines G st (concat (map peer_lines ps)) of None \<Rightarrow> None | Some st' \<Rightarrow> wg_finish st') =
    (case closed_keys st of
       None \<Rightarrow> None
     | Some keys \<Rightarrow>
         if distinct (map wp_public_key ps) \<and> set (map wp_public_key ps) \<inter> set keys = {} then wg_result st (length ps)
         else None)"
  using assms(2-4)
proof (induction ps arbitrary: st)
  case Nil
  then show ?case by (simp add: wg_finish_def wg_result_def closed_keys_def Let_def split: option.splits)
next
  case (Cons p ps)
  note lines = parse_peer_lines [OF assms(1), of p st]
  show ?case
  proof (cases "closed_keys st")
    case None
    with lines Cons.prems show ?thesis by (simp add: parse_lines_append)
  next
    case (Some keys)
    define st' where "st' = st\<lparr>pa_keys := keys, pa_peer := Some (peer_section p),
        pa_summary := (pa_summary st)\<lparr>su_peer_count := su_peer_count (pa_summary st) + 1\<rparr>\<rparr>"
    have step: "parse_lines G st (peer_lines p) = Some st'" using lines Some Cons.prems by (simp add: st'_def)
    have "wp_allowed_ips p \<noteq> []" using Cons.prems(1) by (simp add: wg_peer_ok_def)
    then have closed: "closed_keys st' = (if wp_public_key p \<in> set keys then None else Some (wp_public_key p # keys))"
      by (simp add: closed_keys_def st'_def finish_section)
    have rest: "(case parse_lines G st' (concat (map peer_lines ps)) of None \<Rightarrow> None | Some st' \<Rightarrow> wg_finish st') =
        (case closed_keys st' of None \<Rightarrow> None
         | Some keys \<Rightarrow> if distinct (map wp_public_key ps) \<and> set (map wp_public_key ps) \<inter> set keys = {}
             then wg_result st' (length ps) else None)"
      using Cons.prems by (intro Cons.IH) (simp_all add: st'_def)
    have result: "wg_result st' (length ps) = wg_result st (length (p # ps))"
      by (simp add: wg_result_def st'_def Let_def)
    show ?thesis using rest closed result Some step by (auto simp: parse_lines_append)
  qed
qed

section \<open>The interface\<close>

lemma parse_interface:
  assumes "base64_lawful G" and "base64_decode G private = Some bytes" and "length bytes = 32"
    and "plain_network address" and "ip_item address = Some a"
    and "length dns \<le> 16" and "map (\<lambda>t. map_option print_ip (parse_ip t)) dns = map Some ds"
    and "list_all (\<lambda>t. length t \<le> 64) dns"
  shows "parse_lines G parser_start
      ([''[Interface]'', ''PrivateKey = '' @ private, ''Address = '' @ address, ''MTU = '' @ decimal 1000] @
       (if dns \<noteq> [] then [''DNS = '' @ join_with '', '' dns] else [])) =
    Some \<lparr>pa_seen = True, pa_interface = [''MTU'', ''PrivateKey''], pa_peer = None, pa_keys = [],
      pa_summary = \<lparr>su_public_key = base64_encode G (x25519_public G bytes), su_addresses = [a], su_dns = ds,
        su_mtu = Some 1000, su_peer_count = 0, su_unsupported = []\<rparr>\<rparr>"
proof -
  note secret = key_tidy [OF assms(1-3)]
  define st where "st = (\<lambda>fields s. \<lparr>pa_seen = True, pa_interface = fields, pa_peer = None, pa_keys = [], pa_summary = s\<rparr>)"
  have line: "parse_line G (st fields s) (n @ '' = '' @ v) = interface_field G n v (st fields s)"
    if "field_name n" "tidy v" "length n + length v \<le> 65533" for fields s n v
    using parse_line_field [OF that(1,2), of "st fields s"] that(3) by (simp add: st_def)
  let ?s0 = "pa_summary parser_start"
  let ?s1 = "?s0\<lparr>su_public_key := base64_encode G (x25519_public G bytes)\<rparr>"
  let ?s2 = "?s1\<lparr>su_addresses := [a]\<rparr>"
  let ?s3 = "?s2\<lparr>su_mtu := Some 1000\<rparr>"
  have start: "parse_line G parser_start ''[Interface]'' = Some (st [] ?s0)"
    by (subst parse_line_interface) (simp_all add: parser_start_def st_def)
  have key: "wg_key G private" using assms(1-3) by (simp add: wg_key_def base64_lawful_def)
  have one: "parse_line G (st [] ?s0) (''PrivateKey'' @ '' = '' @ private) = Some (st [''PrivateKey''] ?s1)"
    using line [OF names(5) secret(1), of "[]" ?s0] secret(2) key assms(2,3)
    by (simp add: interface_field_def interface_value_def unsupported_names_def public_key_from_private_def st_def Let_def)
  have "ip_list address 64 = Some [a]"
    using joined_items [of "[address]" ip_item "[a]" "[]" 64] network_item [OF assms(4)] assms(5)
    by (simp add: ip_list_def join_with_def)
  then have two: "parse_line G (st [''PrivateKey''] ?s1) (''Address'' @ '' = '' @ address) = Some (st [''PrivateKey''] ?s2)"
    using line [OF names(6) network_item(2) [OF assms(4)]] network_item(4) [OF assms(4)]
    by (simp add: interface_field_def interface_value_def unsupported_names_def st_def Let_def parser_start_def)
  have "length (decimal 1000) \<le> 4" using length_decimal [of 1000 3] by simp
  then have three: "parse_line G (st [''PrivateKey''] ?s2) (''MTU'' @ '' = '' @ decimal 1000) = Some (st [''MTU'', ''PrivateKey''] ?s3)"
    using line [OF names(7) decimal_tidy, of 1000] parse_decimal_bounded [of 1000 65535]
    by (simp add: interface_field_def interface_value_def unsupported_names_def st_def Let_def)
  have four: "parse_line G (st [''MTU'', ''PrivateKey''] ?s3) (''DNS'' @ '' = '' @ join_with '', '' dns) =
      Some (st [''MTU'', ''PrivateKey''] (?s3\<lparr>su_dns := ds\<rparr>))" if "dns \<noteq> []"
  proof -
    have parts: "\<forall>p \<in> set dns. tidy p \<and> CHR '','' \<notin> set p"
    proof
      fix p assume "p \<in> set dns"
      with assms(7) have "map_option print_ip (parse_ip p) \<in> Some ` set ds" by (metis image_eqI list.set_map)
      then show "tidy p \<and> CHR '','' \<notin> set p" using address_tidy by auto
    qed
    have "read_items (\<lambda>t. map_option print_ip (parse_ip t)) 16 [] (split_on (CHR '','') (join_with '', '' dns)) = Some ds"
      using joined_items [OF that parts assms(7), of "[]" 16] assms(6) by simp
    moreover have "tidy (join_with '', '' dns)" using tidy_join [OF that] parts by blast
    moreover have "length (join_with '', '' dns) \<le> length dns * (64 + 2)"
      using assms(8) by (intro length_join) (simp add: list_all_iff)
    ultimately show ?thesis
      using line [OF names(8), of "join_with '', '' dns"] assms(6)
      by (simp add: interface_field_def interface_value_def unsupported_names_def st_def Let_def parser_start_def)
  qed
  have "ds = []" if "dns = []" using assms(7) that by simp
  then show ?thesis
    using start one two three four by (auto simp: st_def parser_start_def)
qed

lemma field_printable:
  assumes "field_name n" and "tidy v" and "c \<in> set (n @ '' = '' @ v)"
  shows "32 \<le> byte c \<and> byte c < 127"
proof -
  have "tidy n" using assms(1) by (simp add: field_name_def plain_tidy)
  with assms(2,3) tidy_chars [of n c] tidy_chars [of v c] show ?thesis by auto
qed

lemma lines_printable:
  assumes "base64_lawful G" and "wg_validate G c d = Ok ()" and "public_key_from_private G private = Ok k"
    and "list_all plain_network (wd_interface_address c # concat (map wp_allowed_ips (wd_peers c)))"
  shows "\<forall>l \<in> set (config_lines c private). \<forall>x \<in> set l. 32 \<le> byte x \<and> byte x < 127"
proof -
  obtain bytes where "base64_decode G private = Some bytes" "length bytes = 32"
    using assms(3) by (auto simp: public_key_from_private_def split: option.splits if_splits)
  from key_tidy(1) [OF assms(1) this] have secret: "tidy private" .
  have address: "tidy (wd_interface_address c)" using assms(4) network_item(2) by simp
  have dns: "wd_dns c \<noteq> [] \<Longrightarrow> tidy (join_with '', '' (wd_dns c))"
    using assms(2) address_tidy by (intro tidy_join) (auto simp: wg_validate_def list_ex_iff)
  have peer: "wg_peer_ok G p \<and> list_all plain_network (wp_allowed_ips p)" if "p \<in> set (wd_peers c)" for p
    using assms(2,4) that by (auto simp: wg_validate_def list_all_iff)
  have field: "\<forall>x \<in> set (n @ '' = '' @ v). 32 \<le> byte x \<and> byte x < 127" if "field_name n" "tidy v" for n v
    using field_printable that by blast
  have peers: "\<forall>l \<in> set (peer_lines p). \<forall>x \<in> set l. 32 \<le> byte x \<and> byte x < 127" if "p \<in> set (wd_peers c)" for p
  proof -
    note v = peer_values [OF assms(1) conjunct1 [OF peer [OF that]] conjunct2 [OF peer [OF that]]]
    show ?thesis
      using field [OF names(1) v(2)] field [OF names(2) endpoint_tidy(1) [OF v(3)]] field [OF names(3) v(5)]
        field [OF names(4) decimal_tidy, of "unat (wp_keepalive p)"]
      by (simp add: peer_lines_def)
  qed
  have "\<forall>l \<in> set [''[Interface]'', ''PrivateKey = '' @ private, ''Address = '' @ wd_interface_address c, ''MTU = '' @ decimal 1000].
      \<forall>x \<in> set l. 32 \<le> byte x \<and> byte x < 127"
    using field [OF names(5) secret] field [OF names(6) address] field [OF names(7) decimal_tidy, of 1000] by simp
  moreover have "wd_dns c \<noteq> [] \<Longrightarrow> \<forall>x \<in> set (''DNS = '' @ join_with '', '' (wd_dns c)). 32 \<le> byte x \<and> byte x < 127"
    using field [OF names(8) dns] by simp
  ultimately show ?thesis using peers by (auto simp: config_lines_def split: if_splits)
qed

lemma rendered_config_parsed:
  assumes "base64_lawful G" and "render_config G c private = Ok text"
    and "list_all plain_network (wd_interface_address c # concat (map wp_allowed_ips (wd_peers c)))"
    and "list_all (\<lambda>t. length t \<le> 64) (wd_dns c)"
  shows "if distinct (map wp_public_key (wd_peers c)) then
    (\<exists>s. wg_parse G text = Some s \<and> public_key_from_private G private = Ok (su_public_key s) \<and>
       map Some (su_addresses s) = [ip_item (wd_interface_address c)] \<and>
       map Some (su_dns s) = map (\<lambda>t. map_option print_ip (parse_ip t)) (wd_dns c) \<and>
       su_mtu s = Some 1000 \<and> su_peer_count s = length (wd_peers c) \<and> su_unsupported s = [])
    else wg_parse G text = None"
proof -
  from assms(2) obtain k where valid: "wg_validate G c (wd_device_id c) = Ok ()" and k: "public_key_from_private G private = Ok k"
    and rendered: "text = join_with [newline] (config_lines c private) @ [newline]"
    by (auto simp: render_config_def split: result.splits)
  from k obtain bytes where bytes: "base64_decode G private = Some bytes" "length bytes = 32"
    "k = base64_encode G (x25519_public G bytes)"
    by (auto simp: public_key_from_private_def split: option.splits if_splits)
  have address: "plain_network (wd_interface_address c)" using assms(3) by simp
  then obtain a where a: "ip_item (wd_interface_address c) = Some a" using network_item(1) by blast
  have dns: "length (wd_dns c) \<le> 16" "\<forall>t \<in> set (wd_dns c). parse_ip t \<noteq> None"
    using valid by (auto simp: wg_validate_def list_ex_iff)
  then have "map (\<lambda>t. map_option print_ip (parse_ip t)) (wd_dns c) = map Some (map (\<lambda>t. print_ip (the (parse_ip t))) (wd_dns c))"
    by (auto simp: option.map_sel)
  then obtain ds where ds: "map (\<lambda>t. map_option print_ip (parse_ip t)) (wd_dns c) = map Some ds" by blast
  define st where "st = \<lparr>pa_seen = True, pa_interface = [''MTU'', ''PrivateKey''], pa_peer = None, pa_keys = [],
      pa_summary = \<lparr>su_public_key = k, su_addresses = [a], su_dns = ds, su_mtu = Some 1000, su_peer_count = 0,
        su_unsupported = []\<rparr>\<rparr>"
  have head: "parse_lines G parser_start (config_lines c private) = parse_lines G st (concat (map peer_lines (wd_peers c)))"
    using parse_interface [OF assms(1) bytes(1,2) address a dns(1) ds assms(4)]
    unfolding config_lines_def append_assoc [symmetric]
    by (subst parse_lines_append) (simp add: st_def bytes(3))
  have peers: "list_all (\<lambda>p. wg_peer_ok G p \<and> list_all plain_network (wp_allowed_ips p)) (wd_peers c)" "length (wd_peers c) \<le> max_peers"
    using valid assms(3) by (auto simp: wg_validate_def list_all_iff)
  have "wg_parse G text = (if distinct (map wp_public_key (wd_peers c)) then wg_result st (length (wd_peers c)) else None)"
    unfolding rendered
    using rendered_text_ok [OF _ lines_printable [OF assms(1) valid k assms(3)], of G] head
      parse_peers [OF assms(1) peers(1), of st] peers(2)
    by (simp add: config_lines_def st_def closed_keys_def)
  then show ?thesis
    using k a ds by (auto simp: wg_result_def st_def unsupported_names_def Let_def)
qed

text \<open>
  C24. What the client writes is what it reads: if the addresses of an accepted configuration have plain
  prefix lengths, the text rendered from it and a private key parses exactly when no two peers have the
  same public key, and then to the public key of that private key, its address, its name servers, the
  fixed packet size, all its peers, and no directive that would run a program.
\<close>

theorem rendered_config_read:
  assumes "base64_lawful G" and "render_config G c private = Ok text"
    and "list_all plain_network (wd_interface_address c # concat (map wp_allowed_ips (wd_peers c)))"
    and "list_all (\<lambda>t. length t \<le> 64) (wd_dns c)"
  shows "if distinct (map wp_public_key (wd_peers c)) then
    (\<exists>s. wg_parse G text = Some s \<and> public_key_from_private G private = Ok (su_public_key s) \<and>
       map Some (su_addresses s) = [ip_item (wd_interface_address c)] \<and>
       map Some (su_dns s) = map (\<lambda>t. map_option print_ip (parse_ip t)) (wd_dns c) \<and>
       su_mtu s = Some 1000 \<and> su_peer_count s = length (wd_peers c) \<and> su_unsupported s = [])
    else wg_parse G text = None"
  by (rule rendered_config_parsed [OF assms])

subsection \<open>A configuration with one peer\<close>

definition sample_key :: string where
  "sample_key = replicate 44 (CHR ''A'')"

definition sample_wg :: wg_crates where
  "sample_wg = \<lparr>base64_decode = (\<lambda>v. if v = sample_key then Some (replicate 32 1) else None),
     base64_encode = (\<lambda>_. sample_key), x25519_public = id, x25519_shared = (\<lambda>_ _. [1])\<rparr>"

definition sample_peer :: wg_peer_data where
  "sample_peer = \<lparr>wp_node_id = ''n'', wp_name = ''n'', wp_region_code = ''r'', wp_public_key = sample_key,
     wp_endpoint = ''h:1'', wp_allowed_ips = [''10.0.0.0/8''], wp_keepalive = 25\<rparr>"

definition sample_config :: "wg_peer_data list \<Rightarrow> wg_config_data" where
  "sample_config peers = \<lparr>wd_device_id = ''d'', wd_peer_id = ''p'', wd_peer_public_key = sample_key, wd_peer_version = 1,
     wd_interface_address = ''10.0.0.2'', wd_dns = [], wd_peers = peers\<rparr>"

lemma sample_wg_lawful: "base64_lawful sample_wg"
  by (auto simp: base64_lawful_def sample_wg_def sample_key_def base64_char_def rust_eval list_all_iff split: if_splits)

lemma read_ipv4_steps: "read_ipv4 s = read_octets 0 (Suc (Suc (Suc (Suc 0)))) s"
  by (simp add: read_ipv4_def numeral_eq_Suc)

lemma sample_address:
  "parse_ip ''10.0.0.2'' = Some (V4 [10, 0, 0, 2])" "parse_ip ''10.0.0.0'' = Some (V4 [10, 0, 0, 0])"
  by (simp_all add: parse_ip_def read_ipv4_steps read_octet_def read_number_def is_digit_def to_digit_def
      radix_value_def read_char_def)

lemma sample_bits: "parse_bounded 255 ''8'' = Some 8" "parse_bounded 65535 ''1'' = Some 1" "parse_bounded 255 ''+8'' = Some 8"
  by (simp_all add: parse_bounded_def parse_unsigned_def strip_prefix_def starts_with_def digits_value_def rust_eval)

lemma sample_networks: "ip_or_network ''10.0.0.2''" "ip_or_network ''10.0.0.0/8''" "is_decimal ''8''"
  by (simp_all add: ip_or_network_def sample_address sample_bits ip_bits_def is_decimal_def rust_eval)

lemma sample_endpoint: "endpoint ''h:1''"
proof -
  have "rsplit_once (CHR '':'') ''h:1'' = Some (''h'', ''1'')" by (simp add: rsplit_once_def)
  moreover have "host_label ''h''" by (simp add: host_label_def rust_eval)
  ultimately show ?thesis
    by (simp add: endpoint_def sample_bits bracketed_def strip_prefix_def starts_with_def rust_eval)
qed

lemma sample_peer_ok: "wg_peer_ok sample_wg sample_peer"
  by (simp add: wg_peer_ok_def sample_peer_def sample_networks sample_endpoint wg_text_def public_key_def sample_wg_def rust_eval)

lemma sample_rendered:
  "list_all (\<lambda>p. p = sample_peer) peers \<Longrightarrow> length peers \<le> 2 \<Longrightarrow>
     render_config sample_wg (sample_config peers) sample_key =
       Ok (join_with [newline] (config_lines (sample_config peers) sample_key) @ [newline])"
  using sample_peer_ok
  by (auto simp: render_config_def wg_validate_def sample_config_def wg_text_def sample_networks max_peers_def ensure_def
      public_key_from_private_def sample_wg_def list_all_iff rust_eval)

lemma sample_plain:
  "list_all (\<lambda>p. p = sample_peer) peers \<Longrightarrow>
     list_all plain_network (wd_interface_address (sample_config peers) # concat (map wp_allowed_ips (wd_peers (sample_config peers))))"
  using sample_networks
  by (auto simp: sample_config_def sample_peer_def plain_network_def list_all_iff)

theorem rendered_config_read_witness:
  "wg_parse sample_wg (join_with [newline] (config_lines (sample_config [sample_peer]) sample_key) @ [newline]) \<noteq> None \<and>
   wg_parse sample_wg (join_with [newline] (config_lines (sample_config [sample_peer, sample_peer]) sample_key) @ [newline]) = None"
proof -
  have short: "list_all (\<lambda>t. length t \<le> 64) (wd_dns (sample_config peers))" for peers by (simp add: sample_config_def)
  have peers: "wd_peers (sample_config peers) = peers" for peers by (simp add: sample_config_def)
  from rendered_config_read [OF sample_wg_lawful sample_rendered sample_plain short, of "[sample_peer]"]
    rendered_config_read [OF sample_wg_lawful sample_rendered sample_plain short, of "[sample_peer, sample_peer]"]
  show ?thesis by (auto simp: peers)
qed

text \<open>
  A prefix length with a plus sign is accepted from the control plane and written, but refused when the
  configuration is read.
\<close>

lemma signed_prefix_unreadable: "ip_or_network ''10.0.0.0/+8'' \<and> ip_item ''10.0.0.0/+8'' = None"
  by (simp add: ip_or_network_def ip_item_def sample_address sample_bits ip_bits_def is_decimal_def rust_eval)

end
