(* ===== verification/Execution_Recovery.thy ===== *)
theory Execution_Recovery
  imports Execution_Store Wireguard_Text
begin

text \<open>
  What the store of privileged operations promises: an id is leased once and submitted once, whatever
  fails; what was acknowledged is never read back as not submitted; the journal shows tampering.
\<close>

section \<open>Laws of the crates\<close>

text \<open>
  Records and events read back as written, an event is one line of text, a hash is 64 lower-case
  hexadecimal digits, and the hashed text determines what it was made from.
\<close>

definition store_lawful :: "store_crates \<Rightarrow> bool" where
  "store_lawful X \<longleftrightarrow>
     serde_lawful (sx_record X) \<and> serde_lawful (sx_event X) \<and>
     (\<forall>e t. to_json (sx_event X) e = Some t \<longrightarrow> t \<noteq> [] \<and> newline \<notin> set t) \<and>
     (\<forall>s. exec_digest (sx_sha X s)) \<and>
     (\<forall>n p r n' p' r' t. sx_body X n p r = Some t \<longrightarrow> sx_body X n' p' r' = Some t \<longrightarrow> n = n' \<and> p = p' \<and> r = r')"

section \<open>Which files an operation touches\<close>

lemma names_differ [simp]:
  "staging_name X E \<noteq> ''record.json''" "staging_name X E \<noteq> ''submission.log''"
  "snapshot_name r \<noteq> ''record.json''" "snapshot_name r \<noteq> ''submission.log''" "staging_name X E \<noteq> snapshot_name r"
proof -
  have last: "last (staging_name X E) = CHR ''p''" "last (snapshot_name r) = CHR ''f''"
    by (simp_all add: staging_name_def snapshot_name_def)
  show "staging_name X E \<noteq> ''record.json''" "staging_name X E \<noteq> ''submission.log''"
    "snapshot_name r \<noteq> ''record.json''" "snapshot_name r \<noteq> ''submission.log''" "staging_name X E \<noteq> snapshot_name r"
    using last by auto
qed

lemmas names_differ_sym [simp] = names_differ [THEN not_sym]

lemma persist_cases:
  assumes "store_persist X E r dir = (res, dir')"
  obtains (kept) e where "res = Err e" "dir' ''record.json'' = dir ''record.json''"
  | (written) t f where "to_json (sx_record X) r = Some t" "length t \<le> max_record_bytes"
      "record_validate (sx_wg X) r = Ok ()" "dir' = dir(''record.json'' \<mapsto> f)" "pf_bytes f = t"
proof -
  show thesis
  proof (cases "record_validate (sx_wg X) r")
    case (Err e)
    with assms show thesis by (intro kept) (auto simp: store_persist_def)
  next
    case V: (Ok u)
    show thesis
    proof (cases "to_json (sx_record X) r")
      case None
      with assms V show thesis by (intro kept) (auto simp: store_persist_def)
    next
      case (Some t)
      consider (bad) e where "res = Err e" "dir' ''record.json'' = dir ''record.json''"
        | (good) f where "length t \<le> max_record_bytes" "dir' = dir(''record.json'' \<mapsto> f)" "pf_bytes f = t"
        using assms V Some by (auto simp: store_persist_def Let_def split: if_splits option.splits)
      then show thesis
      proof cases
        case bad
        then show thesis by (rule kept)
      next
        case good
        with V Some show thesis by (intro written) auto
      qed
    qed
  qed
qed

lemma append_cases:
  assumes "append_journal X E r dir = (res, dir')"
  obtains (kept) e where "res = Err e" "dir' = dir"
  | (grown) f where "dir' = dir(''submission.log'' \<mapsto> f)"
proof -
  have "(\<exists>e. res = Err e \<and> dir' = dir) \<or> (\<exists>f. dir' = dir(''submission.log'' \<mapsto> f))"
    using assms by (auto simp: append_journal_def Let_def split: result.splits option.splits if_splits)
  then show thesis using kept grown by blast
qed

lemma append_record: "append_journal X E r dir = (res, dir') \<Longrightarrow> dir' ''record.json'' = dir ''record.json''"
  by (erule append_cases) auto

text \<open>How far a transition came.\<close>

lemma transition_steps:
  assumes "transition X E nxt l root = (res, l', root')"
  obtains (stopped) e where "res = Err e" "l' = l" "root' = root"
  | (persisted) dir e dir1 where "root (le_id l) = Some dir" "store_persist X (te_persist E) nxt dir = (Err e, dir1)"
      "res = Err e" "l' = l" "root' = root(le_id l \<mapsto> dir1)"
  | (appended) dir s1 dir1 e dir2 where "root (le_id l) = Some dir" "store_persist X (te_persist E) nxt dir = (Ok s1, dir1)"
      "append_journal X (te_append E) nxt dir1 = (Err e, dir2)" "res = Err e" "l' = l" "root' = root(le_id l \<mapsto> dir2)"
  | (completed) dir s1 dir1 s2 dir2 where "root (le_id l) = Some dir"
      "store_load X (te_load E) dir (xr_request_id (or_request (le_record l))) = Ok (le_record l)"
      "verify_snapshot X (te_snapshot E) dir (le_record l) = Ok ()"
      "store_persist X (te_persist E) nxt dir = (Ok s1, dir1)" "append_journal X (te_append E) nxt dir1 = (Ok s2, dir2)"
      "res = Ok (combine_sync (le_sync l) (combine_sync s1 s2))"
      "l' = l\<lparr>le_record := nxt, le_sync := combine_sync (le_sync l) (combine_sync s1 s2)\<rparr>" "root' = root(le_id l \<mapsto> dir2)"
proof (cases "record_validate (sx_wg X) nxt")
  case (Err e)
  with assms show thesis by (intro stopped [of e]) (simp_all add: transition_def)
next
  case V: (Ok u)
  show thesis
  proof (cases "te_verify E \<and> root (le_id l) \<noteq> None")
    case False
    with assms V show thesis by (cases "te_verify E"; intro stopped [of unavailable]) (simp_all add: transition_def)
  next
    case True
    then obtain dir where dir: "te_verify E" "root (le_id l) = Some dir" by auto
    show thesis
    proof (cases "store_load X (te_load E) dir (xr_request_id (or_request (le_record l)))")
      case (Err e)
      with assms V dir show thesis by (intro stopped [of e]) (simp_all add: transition_def)
    next
      case L: (Ok r)
      show thesis
      proof (cases "r = le_record l")
        case False
        with assms V dir L show thesis by (intro stopped [of changed]) (simp_all add: transition_def)
      next
        case same: True
        show thesis
        proof (cases "verify_snapshot X (te_snapshot E) dir (le_record l)")
          case (Err e)
          with assms V dir L same show thesis by (intro stopped [of e]) (simp_all add: transition_def)
        next
          case S: (Ok w)
          obtain r1 dir1 where P: "store_persist X (te_persist E) nxt dir = (r1, dir1)" by (cases "store_persist X (te_persist E) nxt dir")
          show thesis
          proof (cases r1)
            case (Err e)
            with assms V dir L same S P show thesis by (intro persisted [of dir e dir1]) (auto simp: transition_def)
          next
            case P1: (Ok s1)
            obtain r2 dir2 where A: "append_journal X (te_append E) nxt dir1 = (r2, dir2)"
              by (cases "append_journal X (te_append E) nxt dir1")
            show thesis
            proof (cases r2)
              case (Err e)
              with assms V dir L same S P P1 A show thesis
                by (intro appended [of dir s1 dir1 e dir2]) (auto simp: transition_def)
            next
              case (Ok s2)
              with assms V dir L same S P P1 A show thesis
                by (intro completed [of dir s1 dir1 s2 dir2]) (auto simp: transition_def Let_def)
            qed
          qed
        qed
      qed
    qed
  qed
qed

text \<open>A transition: the directory of the lease is all that changes, and its record only to the next one.\<close>

lemma transition_cases:
  assumes "transition X E nxt l root = (res, l', root')"
  shows "is_ok res \<Longrightarrow> le_record l' = nxt" and "\<not> is_ok res \<Longrightarrow> l' = l" and "le_id l' = le_id l"
    and "dom root' = dom root" and "i \<noteq> le_id l \<Longrightarrow> root' i = root i"
    and "root' (le_id l) = Some dir' \<Longrightarrow> \<exists>dir. root (le_id l) = Some dir \<and>
          (dir' ''record.json'' = dir ''record.json'' \<and> \<not> is_ok res \<or>
           (\<exists>f. dir' ''record.json'' = Some f \<and> to_json (sx_record X) nxt = Some (pf_bytes f)))"
proof -
  have persist: "dir1 ''record.json'' = dir ''record.json'' \<and> \<not> is_ok r1 \<or>
      (\<exists>f. dir1 ''record.json'' = Some f \<and> to_json (sx_record X) nxt = Some (pf_bytes f))"
    if "store_persist X (te_persist E) nxt dir = (r1, dir1)" for dir r1 dir1
    using that by (cases rule: persist_cases) auto
  have "(is_ok res \<longrightarrow> le_record l' = nxt) \<and> (\<not> is_ok res \<longrightarrow> l' = l) \<and> le_id l' = le_id l \<and> dom root' = dom root \<and>
    (i \<noteq> le_id l \<longrightarrow> root' i = root i) \<and> (root' (le_id l) = Some dir' \<longrightarrow> (\<exists>dir. root (le_id l) = Some dir \<and>
          (dir' ''record.json'' = dir ''record.json'' \<and> \<not> is_ok res \<or>
           (\<exists>f. dir' ''record.json'' = Some f \<and> to_json (sx_record X) nxt = Some (pf_bytes f)))))"
    using assms
  proof (cases rule: transition_steps)
    case (stopped e)
    then show ?thesis by auto
  next
    case (persisted dir e dir1)
    with persist [OF persisted(2)] show ?thesis by auto
  next
    case (appended dir s1 dir1 e dir2)
    with persist [OF appended(2)] append_record [OF appended(3)] show ?thesis by auto
  next
    case (completed dir s1 dir1 s2 dir2)
    with persist [OF completed(4)] append_record [OF completed(5)] show ?thesis by auto
  qed
  then show "is_ok res \<Longrightarrow> le_record l' = nxt" "\<not> is_ok res \<Longrightarrow> l' = l" "le_id l' = le_id l" "dom root' = dom root"
    "i \<noteq> le_id l \<Longrightarrow> root' i = root i" "root' (le_id l) = Some dir' \<Longrightarrow> \<exists>dir. root (le_id l) = Some dir \<and>
          (dir' ''record.json'' = dir ''record.json'' \<and> \<not> is_ok res \<or>
           (\<exists>f. dir' ''record.json'' = Some f \<and> to_json (sx_record X) nxt = Some (pf_bytes f)))"
    by blast+
qed

section \<open>Beginning\<close>

lemma existing_not_created: "existing_operation X E q dir \<noteq> Ok (Created l)"
  by (auto simp: existing_operation_def split: result.splits if_splits)

lemma fill_created:
  assumes "fill_operation X E q config s = (Ok (Created l), dir)"
  shows "le_id l = xr_request_id q" and "or_request (le_record l) = q" and "or_phase (le_record l) = OpPrepared"
  using assms by (auto simp: fill_operation_def Let_def split: result.splits if_splits prod.splits)

lemma store_begin_cases:
  assumes "store_begin X E q config root = (r, root')"
  obtains (kept) "root' = root" "\<And>l. r \<noteq> Some (Ok (Created l))"
  | (made) dir where "root (xr_request_id q) = None" "root' = root(xr_request_id q \<mapsto> dir)"
      "\<And>l. r = Some (Ok (Created l)) \<Longrightarrow>
         le_id l = xr_request_id q \<and> or_request (le_record l) = q \<and> or_phase (le_record l) = OpPrepared"
proof -
  let ?i = "xr_request_id q"
  have "root' = root \<and> (\<forall>l. r \<noteq> Some (Ok (Created l))) \<or>
      root ?i = None \<and> (\<exists>dir. root' = root(?i \<mapsto> dir) \<and> (\<forall>l. r = Some (Ok (Created l)) \<longrightarrow>
         le_id l = ?i \<and> or_request (le_record l) = q \<and> or_phase (le_record l) = OpPrepared))"
  proof (cases "request_validate (sx_wg X) q")
    case (Err e)
    with assms show ?thesis by (auto simp: store_begin_def)
  next
    case V: (Ok u)
    define tail where "tail =
       (if \<not> be_open E then (Some (Err unavailable), root)
        else (case root ?i of
                Some dir \<Rightarrow> (Some (existing_operation X E q dir), root)
              | None \<Rightarrow>
                  if \<not> be_mkdir E then (Some (Err unavailable), root)
                  else if \<not> be_child E then (Some (Err unavailable), root(?i \<mapsto> Map.empty))
                  else (case be_root_sync E of
                          None \<Rightarrow> (Some (Err unavailable), root(?i \<mapsto> Map.empty))
                        | Some s \<Rightarrow>
                            (case fill_operation X E q config s of (r, dir) \<Rightarrow> (Some r, root(?i \<mapsto> dir))))))"
    have "(root' = root \<and> (\<forall>l. r \<noteq> Some (Ok (Created l)))) \<or> (r, root') = tail"
      using assms V unfolding store_begin_def Let_def tail_def [symmetric]
      by (auto split: if_splits option.splits result.splits prod.splits)
    then show ?thesis
    proof
      assume "(r, root') = tail"
      then show ?thesis
        using existing_not_created fill_created
        by (cases "root ?i"; cases "be_root_sync E") (auto simp: tail_def split: if_splits prod.splits)
    qed blast
  qed
  then show thesis using kept made by blast
qed

section \<open>The invariant\<close>

text \<open>An id that was leased has a directory; one whose submission was acknowledged has no record that says otherwise.\<close>

definition never_prepared :: "store_crates \<Rightarrow> store_root \<Rightarrow> string \<Rightarrow> bool" where
  "never_prepared X root i \<longleftrightarrow>
     (\<forall>dir f r. root i = Some dir \<longrightarrow> dir ''record.json'' = Some f \<longrightarrow> from_json (sx_record X) (pf_bytes f) = Some r \<longrightarrow>
        or_phase r \<noteq> OpPrepared)"

definition store_ok :: "store_crates \<Rightarrow> store_root \<Rightarrow> lease list \<Rightarrow> string list \<Rightarrow> string list \<Rightarrow> bool" where
  "store_ok X root live created submitted \<longleftrightarrow>
     distinct created \<and> set created \<subseteq> dom root \<and> distinct (map le_id live) \<and> le_id ` set live \<subseteq> set created \<and>
     distinct submitted \<and> set submitted \<subseteq> set created \<and>
     (\<forall>l \<in> set live. le_id l \<in> set submitted \<longleftrightarrow> or_phase (le_record l) \<noteq> OpPrepared) \<and>
     (\<forall>i \<in> set submitted. never_prepared X root i)"

lemma transition_kept:
  assumes "store_lawful X" and "transition X E nxt l root = (res, l', root')" and "or_phase nxt \<noteq> OpPrepared"
  shows "never_prepared X root i \<Longrightarrow> never_prepared X root' i" and "is_ok res \<Longrightarrow> never_prepared X root' (le_id l)"
proof -
  have law: "from_json (sx_record X) (pf_bytes f) = Some nxt" if "to_json (sx_record X) nxt = Some (pf_bytes f)" for f
    using assms(1) that by (simp add: store_lawful_def serde_lawful_def)
  note t = transition_cases [OF assms(2)]
  show "never_prepared X root' i" if "never_prepared X root i"
  proof (cases "i = le_id l")
    case False
    with t(5) [of i] that show ?thesis by (simp add: never_prepared_def)
  next
    case True
    show ?thesis
      unfolding never_prepared_def
    proof (intro allI impI)
      fix dir f r assume d: "root' i = Some dir" "dir ''record.json'' = Some f" "from_json (sx_record X) (pf_bytes f) = Some r"
      from t(6) [of dir] d(1) True obtain dir0 where dir0: "root i = Some dir0"
        and "dir ''record.json'' = dir0 ''record.json'' \<or> to_json (sx_record X) nxt = Some (pf_bytes f)" using d(2) by auto
      then show "or_phase r \<noteq> OpPrepared"
      proof (elim disjE)
        assume "dir ''record.json'' = dir0 ''record.json''"
        with dir0 d that show ?thesis unfolding never_prepared_def by auto
      next
        assume "to_json (sx_record X) nxt = Some (pf_bytes f)"
        with law [of f] d(3) assms(3) show ?thesis by simp
      qed
    qed
  qed
  show "never_prepared X root' (le_id l)" if "is_ok res"
    unfolding never_prepared_def using t(6) that law assms(3) by fastforce
qed

lemma step_ok:
  assumes "store_lawful X" and "store_ok X root (l # live) created submitted"
    and "transition X E nxt l root = (res, l', root')" and "or_phase nxt \<noteq> OpPrepared"
    and "le_id l \<in> set submitted \<or> nowsub = (if is_ok res then le_id l # submitted else submitted)"
    and "le_id l \<in> set submitted \<longrightarrow> nowsub = submitted"
  shows "store_ok X root' (l' # live) created nowsub"
proof -
  note t = transition_cases [OF assms(3)] and k = transition_kept [OF assms(1,3,4)]
  note inv = assms(2) [unfolded store_ok_def]
  have phase: "le_id l' \<in> set nowsub \<longleftrightarrow> or_phase (le_record l') \<noteq> OpPrepared"
    using inv t(1-3) assms(4-6) by (cases "is_ok res") auto
  have others: "\<forall>m \<in> set live. le_id m \<in> set nowsub \<longleftrightarrow> or_phase (le_record m) \<noteq> OpPrepared"
  proof
    fix m assume m: "m \<in> set live"
    have "le_id l \<notin> le_id ` set live" using inv by simp
    with m have "le_id m \<noteq> le_id l" by (metis imageI)
    with inv m assms(5,6) show "le_id m \<in> set nowsub \<longleftrightarrow> or_phase (le_record m) \<noteq> OpPrepared"
      by (cases "is_ok res") auto
  qed
  have sub: "distinct nowsub" "set nowsub \<subseteq> set created" "\<forall>i \<in> set nowsub. never_prepared X root' i"
    using inv assms(5,6) k by (cases "le_id l \<in> set submitted"; cases "is_ok res"; auto)+
  show ?thesis unfolding store_ok_def using inv t(3,4) phase others sub by auto
qed

lemma distinct_sub_mset:
  assumes "mset ys \<subseteq># mset xs" and "distinct xs"
  shows "distinct ys"
proof -
  from assms(1) obtain z where "mset xs = mset ys + z" by (auto simp: mset_subset_eq_exists_conv)
  moreover obtain zs where "mset zs = z" using ex_mset by blast
  ultimately have "mset xs = mset (ys @ zs)" by simp
  then have "distinct (ys @ zs)" using assms(2) mset_eq_imp_distinct_iff by blast
  then show ?thesis by simp
qed

lemma store_reaches_ok:
  assumes "store_lawful X" and "store_reaches X root live created submitted"
  shows "store_ok X root live created submitted"
  using assms(2)
proof induction
  case start
  show ?case by (simp add: store_ok_def)
next
  case (begun root live created submitted q E config l root')
  from begun(3) show ?case
  proof (cases rule: store_begin_cases)
    case kept
    then show ?thesis by blast
  next
    case (made dir)
    from made(3) have l: "le_id l = xr_request_id q" "or_phase (le_record l) = OpPrepared" by blast+
    have new: "xr_request_id q \<notin> set created" using begun.IH made(1) by (auto simp: store_ok_def)
    then have "\<forall>i \<in> set submitted. never_prepared X root' i"
      using begun.IH made(2) by (auto simp: store_ok_def never_prepared_def)
    with begun.IH made(2) l new begun(2) show ?thesis by (auto simp: store_ok_def simp del: fun_upd_apply)
  qed
next
  case (not_begun root live created submitted q E config r root')
  from not_begun(3) show ?case
  proof (cases rule: store_begin_cases)
    case kept
    with not_begun.IH show ?thesis by simp
  next
    case (made dir)
    have "xr_request_id q \<notin> set created" using not_begun.IH made(1) by (auto simp: store_ok_def)
    then have "\<forall>i \<in> set submitted. never_prepared X root' i"
      using not_begun.IH made(2) by (auto simp: store_ok_def never_prepared_def)
    with not_begun.IH made(2) show ?thesis by (auto simp: store_ok_def simp del: fun_upd_apply)
  qed
next
  case (marked root l live created submitted canceled E r l' root')
  show ?case
  proof (cases "or_phase (le_record l) = OpPrepared \<and> \<not> canceled")
    case True
    with marked(2) have t: "transition X E ((le_record l)\<lparr>or_phase := OpSubmitted\<rparr>) l root = (r, l', root')"
      by (simp add: mark_submitted_def check_canceled_def ensure_def)
    from marked.IH True have "le_id l \<notin> set submitted" by (simp add: store_ok_def)
    then show ?thesis by (intro step_ok [OF assms(1) marked.IH t]) simp_all
  next
    case False
    with marked(2) have "\<not> is_ok r" "l' = l" "root' = root"
      by (auto simp: mark_submitted_def check_canceled_def ensure_def split: if_splits)
    with marked.IH show ?thesis by simp
  qed
next
  case (observed root l live created submitted E ob r l' root')
  show ?case
  proof (cases "or_phase (le_record l) = OpSubmitted")
    case True
    with observed(2) have t: "transition X E ((le_record l)\<lparr>or_phase := OpObserved, or_observation := Some ob\<rparr>) l root = (r, l', root')"
      by (simp add: record_observation_def completion_def)
    from observed.IH True have "le_id l \<in> set submitted" by (simp add: store_ok_def)
    then show ?thesis by (intro step_ok [OF assms(1) observed.IH t]) simp_all
  next
    case False
    with observed(2) observed.IH show ?thesis by (simp add: record_observation_def completion_def)
  qed
next
  case (failed root l live created submitted E f r l' root')
  show ?case
  proof (cases "or_phase (le_record l) = OpSubmitted")
    case True
    with failed(2) have t: "transition X E ((le_record l)\<lparr>or_phase := OpFailed, or_failure := Some f\<rparr>) l root = (r, l', root')"
      by (simp add: record_failure_def completion_def)
    from failed.IH True have "le_id l \<in> set submitted" by (simp add: store_ok_def)
    then show ?thesis by (intro step_ok [OF assms(1) failed.IH t]) simp_all
  next
    case False
    with failed(2) failed.IH show ?thesis by (simp add: record_failure_def completion_def)
  qed
next
  case (other root live created submitted live')
  have "set live' \<subseteq> set live" using other(2) by (metis set_mset_mono set_mset_mset)
  moreover have "mset (map le_id live') \<subseteq># mset (map le_id live)" using other(2) by (simp add: image_mset_subseteq_mono)
  then have "distinct (map le_id live')"
    using distinct_sub_mset [of "map le_id live'" "map le_id live"] other.IH by (simp add: store_ok_def)
  ultimately show ?case using other.IH by (auto simp: store_ok_def)
qed

section \<open>Reading the journal\<close>

lemma split_on_join_nl: "split_on d (a @ d # b) = split_on d a @ split_on d b"
  using split_on_ne [of d] by (induction a) (auto split: list.splits)

lemma journal_lines_more:
  assumes "journal_lines X es (ls @ [[]]) = Ok fs"
  shows "journal_lines X es (ls @ [l, []]) = journal_lines X fs [l, []]"
  using assms
proof (induction ls arbitrary: es)
  case (Cons a ls)
  have "ls @ [[]] \<noteq> []" "ls @ [l, []] \<noteq> []" by simp_all
  with Cons show ?case by (auto split: option.splits result.splits if_splits)
qed simp

text \<open>A list of events that a journal can hold: each accepted after those before it.\<close>

fun accepted :: "store_crates \<Rightarrow> journal_event list \<Rightarrow> journal_event list \<Rightarrow> bool" where
  "accepted X before [] = True"
| "accepted X before (e # es) = (validate_event X e (last_event before) = Ok () \<and> accepted X (before @ [e]) es)"

lemma accepted_append: "accepted X before (es @ fs) \<longleftrightarrow> accepted X before es \<and> accepted X (before @ es) fs"
  by (induction es arbitrary: before) simp_all

lemma journal_lines_accepted:
  "journal_lines X es ls = Ok fs \<Longrightarrow> \<exists>gs. fs = es @ gs \<and> accepted X es gs"
proof (induction ls arbitrary: es)
  case (Cons l ls)
  show ?case
  proof (cases "ls = [] \<and> l = []")
    case True
    with Cons.prems show ?thesis by (intro exI [of _ "[]"]) simp
  next
    case False
    with Cons.prems obtain e where e: "validate_event X e (last_event es) = Ok ()" "journal_lines X (es @ [e]) ls = Ok fs"
      by (auto split: if_splits option.splits result.splits)
    from Cons.IH [OF e(2)] obtain gs where "fs = (es @ [e]) @ gs" "accepted X (es @ [e]) gs" by blast
    with e(1) show ?thesis by (intro exI [of _ "e # gs"]) simp
  qed
qed simp

lemma read_journal_accepted:
  assumes "read_journal X E dir = Ok es"
  shows "accepted X [] es" and "es \<noteq> []"
  using assms journal_lines_accepted [of X "[]"]
  by (auto simp: read_journal_def split: if_splits option.splits result.splits)

lemma accepted_last:
  "accepted X [] (es @ [e]) \<Longrightarrow> validate_event X e (last_event es) = Ok () \<and> accepted X [] es"
  by (simp add: accepted_append)

lemma validate_event_facts:
  assumes "validate_event X e previous = Ok ()"
  shows "je_version e = 1" and "chained e previous"
    and "\<exists>body. sx_body X (je_sequence e) (je_previous e) (je_record e) = Some body \<and> sx_sha X body = je_sha256 e"
    and "next_phase_ok (map_option je_record previous) (or_phase (je_record e))" and "je_sequence e \<noteq> 0"
    and "record_validate (sx_wg X) (je_record e) = Ok ()"
  using assms
  by (auto simp: validate_event_def validate_next_phase_def next_phase_ok_def ensure_def
      split: if_splits result.splits option.splits)

lemma journal_shape:
  assumes "accepted X [] es" and "es \<noteq> []"
  shows "map je_sequence es = map of_nat [1..<Suc (length es)]" and "length es \<le> 3"
    and "map (\<lambda>e. or_phase (je_record e)) es \<in>
      {[OpPrepared], [OpPrepared, OpSubmitted], [OpPrepared, OpSubmitted, OpObserved], [OpPrepared, OpSubmitted, OpFailed]}"
proof -
  have "es = [] \<or> (map je_sequence es = map of_nat [1..<Suc (length es)] \<and>
    map (\<lambda>e. or_phase (je_record e)) es \<in>
      {[OpPrepared], [OpPrepared, OpSubmitted], [OpPrepared, OpSubmitted, OpObserved], [OpPrepared, OpSubmitted, OpFailed]})"
    using assms(1)
  proof (induction es rule: rev_induct)
    case (snoc e es)
    from accepted_last [OF snoc.prems] have v: "validate_event X e (last_event es) = Ok ()" "accepted X [] es" by simp_all
    note f = validate_event_facts [OF v(1)]
    show ?case
    proof (cases es rule: rev_cases)
      case Nil
      with f show ?thesis by (simp add: last_event_def chained_def next_phase_ok_def)
    next
      case (snoc fs p)
      then have last: "last_event es = Some p" by (simp add: last_event_def)
      from snoc.IH [OF v(2)] \<open>es = fs @ [p]\<close> have ih: "map je_sequence es = map of_nat [1..<Suc (length es)]"
        "map (\<lambda>e. or_phase (je_record e)) es \<in>
          {[OpPrepared], [OpPrepared, OpSubmitted], [OpPrepared, OpSubmitted, OpObserved], [OpPrepared, OpSubmitted, OpFailed]}"
        by auto
      from ih(1) have "je_sequence p = of_nat (length es)" using \<open>es = fs @ [p]\<close> by simp
      with f(2) last have "je_sequence e = of_nat (Suc (length es))"
        by (auto simp: chained_def checked_next_def add.commute split: if_splits)
      with ih(1) have seq: "map je_sequence (es @ [e]) = map of_nat [1..<Suc (length (es @ [e]))]" by simp
      have "next_phase_ok (Some (je_record p)) (or_phase (je_record e))" using f(4) last by simp
      with ih(2) \<open>es = fs @ [p]\<close> have "map (\<lambda>e. or_phase (je_record e)) (es @ [e]) \<in>
          {[OpPrepared], [OpPrepared, OpSubmitted], [OpPrepared, OpSubmitted, OpObserved], [OpPrepared, OpSubmitted, OpFailed]}"
        by (auto simp: next_phase_ok_def append_eq_Cons_conv split: operation_phase.splits)
      with seq show ?thesis by blast
    qed
  qed simp
  with assms(2) show "map je_sequence es = map of_nat [1..<Suc (length es)]"
    and phases: "map (\<lambda>e. or_phase (je_record e)) es \<in>
      {[OpPrepared], [OpPrepared, OpSubmitted], [OpPrepared, OpSubmitted, OpObserved], [OpPrepared, OpSubmitted, OpFailed]}"
    by blast+
  have "length (map (\<lambda>e. or_phase (je_record e)) es) \<le> 3" using phases by (elim insertE emptyE) simp_all
  then show "length es \<le> 3" by simp
qed

section \<open>Properties\<close>

text \<open>
  C11. A privileged operation is submitted at most once. Whatever requests processes begin, whatever
  call fails or is torn, whenever processes die or drop their lease: no id is ever leased twice or
  acknowledged as submitted twice; an id that was leased is never leased again; and an id whose
  submission was acknowledged is never reported as missing or as not yet submitted.
\<close>

theorem operation_submitted_once:
  assumes "store_lawful X" and "store_reaches X root live created submitted"
  shows "distinct created \<and> distinct submitted \<and> set submitted \<subseteq> set created \<and>
    (\<forall>E q config l. fst (store_begin X E q config root) = Some (Ok (Created l)) \<longrightarrow> xr_request_id q \<notin> set created) \<and>
    (\<forall>i \<in> set submitted. \<forall>E. store_read X E i root \<noteq> Some (Ok None) \<and>
       (\<forall>r. store_read X E i root = Some (Ok (Some r)) \<longrightarrow> or_phase r \<noteq> OpPrepared))"
proof -
  note inv = store_reaches_ok [OF assms, unfolded store_ok_def]
  have again: "xr_request_id q \<notin> set created" if b: "fst (store_begin X E q config root) = Some (Ok (Created l))" for E q config l
  proof -
    obtain root' where "store_begin X E q config root = (Some (Ok (Created l)), root')"
      using b by (cases "store_begin X E q config root") simp
    then show ?thesis using inv by (cases rule: store_begin_cases) auto
  qed
  have missing: "store_read X E i root \<noteq> Some (Ok None)" if i: "i \<in> set submitted" for E i
  proof -
    from i inv obtain dir where "root i = Some dir" by blast
    then show ?thesis by (auto simp: store_read_def split: if_splits option.splits result.splits prod.splits)
  qed
  have phase: "or_phase r \<noteq> OpPrepared" if i: "i \<in> set submitted" and r: "store_read X E i root = Some (Ok (Some r))" for E i r
  proof -
    from r obtain dir where dir: "root i = Some dir" "store_load X (rd_load E) dir i = Ok r"
      by (auto simp: store_read_def split: if_splits option.splits result.splits prod.splits)
    from dir(2) obtain f where "dir ''record.json'' = Some f" "from_json (sx_record X) (pf_bytes f) = Some r"
      by (auto simp: store_load_def split: if_splits option.splits result.splits)
    with inv i dir(1) show ?thesis unfolding never_prepared_def by blast
  qed
  have "distinct created" "distinct submitted" "set submitted \<subseteq> set created" using inv by simp_all
  with again missing phase show ?thesis by (intro conjI allI ballI impI) auto
qed

text \<open>
  C23. A journal that is accepted tells one story: its events are numbered from one, and they are a
  preparation, then possibly a submission, then possibly one observation or one failure.
\<close>

theorem journal_story:
  assumes "read_journal X E dir = Ok es"
  shows "map je_sequence es = map of_nat [1..<Suc (length es)] \<and>
    map (\<lambda>e. or_phase (je_record e)) es \<in>
      {[OpPrepared], [OpPrepared, OpSubmitted], [OpPrepared, OpSubmitted, OpObserved], [OpPrepared, OpSubmitted, OpFailed]}"
  using journal_shape(1,3) [OF read_journal_accepted [OF assms]] by blast

text \<open>The text whose hash an event carries, and two journals that are free of collisions: no two different texts of
  theirs have one hash.\<close>

definition hashed_text :: "store_crates \<Rightarrow> journal_event \<Rightarrow> string option" where
  "hashed_text X e = sx_body X (je_sequence e) (je_previous e) (je_record e)"

definition hash_clash :: "store_crates \<Rightarrow> journal_event list \<Rightarrow> journal_event list \<Rightarrow> bool" where
  "hash_clash X es es' \<longleftrightarrow> (\<exists>e \<in> set es. \<exists>e' \<in> set es'. \<exists>a b.
     hashed_text X e = Some a \<and> hashed_text X e' = Some b \<and> a \<noteq> b \<and> sx_sha X a = sx_sha X b)"

lemma hash_clash_mono: "hash_clash X es es' \<Longrightarrow> hash_clash X (es @ [e]) (es' @ [e'])"
  unfolding hash_clash_def set_append by blast

lemma same_hash_same_event:
  assumes "store_lawful X" and "\<not> hash_clash X es es'" and "e \<in> set es" and "e' \<in> set es'"
    and v: "validate_event X e p = Ok ()" and v': "validate_event X e' p' = Ok ()" and h: "je_sha256 e = je_sha256 e'"
  shows "e = e'"
proof -
  from validate_event_facts(3) [OF v] validate_event_facts(3) [OF v'] obtain a b where
    a: "hashed_text X e = Some a" "sx_sha X a = je_sha256 e" and b: "hashed_text X e' = Some b" "sx_sha X b = je_sha256 e'"
    by (auto simp: hashed_text_def)
  with assms(2-4) h have "a = b" unfolding hash_clash_def by metis
  with a(1) b(1) assms(1) have "je_sequence e = je_sequence e' \<and> je_previous e = je_previous e' \<and> je_record e = je_record e'"
    unfolding store_lawful_def hashed_text_def by blast
  with validate_event_facts(1) [OF v] validate_event_facts(1) [OF v'] h show ?thesis by simp
qed

lemma accepted_same_last:
  assumes "store_lawful X" and "accepted X [] es" and "accepted X [] es'" and "length es = length es'"
    and "es \<noteq> [] \<Longrightarrow> je_sha256 (last es) = je_sha256 (last es')" and "\<not> hash_clash X es es'"
  shows "es = es'"
  using assms(2-)
proof (induction es arbitrary: es' rule: rev_induct)
  case (snoc e es)
  then obtain fs e' where es': "es' = fs @ [e']" by (cases es' rule: rev_cases) auto
  note v = accepted_last [OF snoc.prems(1)] and v' = accepted_last [OF snoc.prems(2) [unfolded es']]
  have ee: "e = e'"
    by (rule same_hash_same_event [OF assms(1) snoc.prems(5) _ _ conjunct1 [OF v] conjunct1 [OF v']])
      (use snoc.prems(4) es' in auto)
  have prev: "je_sha256 (last es) = je_sha256 (last fs)" if "es \<noteq> []"
  proof -
    have "fs \<noteq> []" using that snoc.prems(3) es' by auto
    then have "je_previous e = je_sha256 (last es)" "je_previous e' = je_sha256 (last fs)"
      using validate_event_facts(2) [OF conjunct1 [OF v]] validate_event_facts(2) [OF conjunct1 [OF v']] that
      by (simp_all add: last_event_def chained_def)
    with ee show ?thesis by simp
  qed
  have "es = fs"
    by (rule snoc.IH [OF conjunct2 [OF v] conjunct2 [OF v']]) (use prev snoc.prems(3,5) es' hash_clash_mono in auto)
  with ee es' show ?case by simp
qed simp

lemma accepted_last_sequence:
  assumes "accepted X [] es" and "es \<noteq> []"
  shows "unat (je_sequence (last es)) = length es"
proof -
  obtain n where n: "length es = Suc n" using assms(2) by (cases es) auto
  have "je_sequence (last es) = map je_sequence es ! n" using assms(2) n by (simp add: last_conv_nth)
  also have "\<dots> = of_nat (length es)" unfolding journal_shape(1) [OF assms] using n by (simp del: upt_Suc of_nat_Suc)
  finally show ?thesis using journal_shape(2) [OF assms] by (simp add: unat_of_nat)
qed

text \<open>
  C22. The journal shows tampering: two accepted journals whose last events have the same hash are the
  same event for event, unless the two journals themselves hold two different texts with one hash.
\<close>

theorem journal_tamper_evident:
  assumes "store_lawful X" and "read_journal X E dir = Ok es" and "read_journal X E' dir' = Ok es'"
    and "je_sha256 (last es) = je_sha256 (last es')"
  shows "es = es' \<or> hash_clash X es es'"
proof (rule disjCI)
  assume free: "\<not> hash_clash X es es'"
  note a = read_journal_accepted [OF assms(2)] and b = read_journal_accepted [OF assms(3)]
  obtain fs e where es: "es = fs @ [e]" using a(2) by (cases es rule: rev_cases) auto
  obtain fs' e' where es': "es' = fs' @ [e']" using b(2) by (cases es' rule: rev_cases) auto
  have "e = e'"
    by (rule same_hash_same_event [OF assms(1) free _ _ conjunct1 [OF accepted_last [OF a(1) [unfolded es]]]
          conjunct1 [OF accepted_last [OF b(1) [unfolded es']]]]) (use assms(4) es es' in auto)
  then have "length es = length es'"
    using accepted_last_sequence [OF a] accepted_last_sequence [OF b] es es' by simp
  with accepted_same_last [OF assms(1) a(1) b(1) _ assms(4) free] show "es = es'" by simp
qed

section \<open>Recovery\<close>

text \<open>
  After a restart the submitted operations are listed exactly: each listed record was read and verified
  and is in that phase, and every id of the root was read, so none of them is passed over.
\<close>

lemma collect_submitted_exact:
  assumes "collect_submitted X E root ids = Some (Ok rs)"
  shows "(\<forall>i \<in> set ids. \<exists>r. store_read X (snd (E i)) i root = Some (Ok (Some r)) \<and> (or_phase r = OpSubmitted \<longrightarrow> r \<in> set rs)) \<and>
    (\<forall>r \<in> set rs. or_phase r = OpSubmitted \<and> (\<exists>i \<in> set ids. store_read X (snd (E i)) i root = Some (Ok (Some r))))"
  using assms
  by (induction ids arbitrary: rs) (fastforce split: result.splits option.splits if_splits)+

lemma candidate_ids_all:
  "candidate_ids es = Ok ids \<Longrightarrow> set ids = {n. length n = 64 \<and> (\<exists>k. Entry n k \<in> set es)}"
  by (induction es arbitrary: ids rule: candidate_ids.induct) (auto split: if_splits option.splits result.splits)

lemma submitted_records_exact:
  assumes "submitted_records X E verified (Some es) root = Some (Ok rs)" and "length i = 64" and "Entry i k \<in> set es"
  obtains r where "store_read X (snd (E i)) i root = Some (Ok (Some r))" "or_phase r = OpSubmitted \<longleftrightarrow> r \<in> set rs"
proof -
  from assms(1) obtain ids where ids: "candidate_ids es = Ok ids" "collect_submitted X E root (sort ids) = Some (Ok rs)"
    by (auto simp: submitted_records_def request_ids_def split: result.splits bool.splits)
  have "i \<in> set (sort ids)" using candidate_ids_all [OF ids(1)] assms(2,3) by auto
  with collect_submitted_exact [OF ids(2)] that show thesis by blast
qed

text \<open>The wait for a lock ends with the first attempt at which it is not held, the deadline has passed or the caller cancels.\<close>

lemma lock_poll_returns: "(c, a) \<in> set attempts \<Longrightarrow> c \<or> a \<noteq> HeldYet \<Longrightarrow> \<exists>r. lock_poll attempts = Some r"
  by (induction attempts rule: lock_poll.induct) (auto simp: check_canceled_def ensure_def split: lock_attempt.split)

section \<open>What was written is read back\<close>

definition reads_all :: "file_read \<Rightarrow> bool" where
  "reads_all R \<longleftrightarrow> fr_open R \<and> fr_stat R \<and> fr_read R"

lemma zero_digest_ok: "exec_digest zero_digest"
  by (simp add: exec_digest_def zero_digest_def list_all_iff rust_eval)

lemma next_event_accepted:
  assumes "store_lawful X" and "accepted X [] es" and "journal_next X es r = Ok e" and "record_validate (sx_wg X) r = Ok ()"
  shows "validate_event X e (last_event es) = Ok ()" and "je_record e = r"
proof -
  from assms(3) obtain n body where n: "(case last_event es of None \<Rightarrow> Some 1 | Some e \<Rightarrow> checked_next (je_sequence e)) = Some n"
    and phase: "next_phase_ok (map_option je_record (last_event es)) (or_phase r)"
    and body: "sx_body X n (case last_event es of None \<Rightarrow> zero_digest | Some e \<Rightarrow> je_sha256 e) r = Some body"
    and e: "e = \<lparr>je_version = 1, je_sequence = n, je_previous = (case last_event es of None \<Rightarrow> zero_digest | Some e \<Rightarrow> je_sha256 e),
       je_record = r, je_sha256 = sx_sha X body\<rparr>"
    by (auto simp: journal_next_def validate_next_phase_def Let_def split: result.splits option.splits)
  show "je_record e = r" using e by simp
  have hash: "exec_digest (sx_sha X t)" for t using assms(1) by (simp add: store_lawful_def)
  show "validate_event X e (last_event es) = Ok ()"
  proof (cases "last_event es")
    case None
    with n body phase e hash assms(4) show ?thesis
      by (simp add: validate_event_def zero_digest_ok chained_def next_phase_ok_def)
  next
    case (Some p)
    then have "es \<noteq> []" "last es = p" by (auto simp: last_event_def split: if_splits)
    then obtain fs where "es = fs @ [p]" by (metis append_butlast_last_id)
    with accepted_last [of X fs p] assms(2) have "validate_event X p (last_event fs) = Ok ()" by simp
    then have prev: "exec_digest (je_sha256 p)" by (simp add: validate_event_def split: if_splits)
    have "n \<noteq> 0" using n Some by (auto simp: checked_next_def add_eq_0_iff2 split: if_splits)
    with n body phase e hash prev assms(4) Some show ?thesis
      by (simp add: validate_event_def chained_def validate_next_phase_def)
  qed
qed

lemma journal_line_read:
  assumes "store_lawful X" and "to_json (sx_event X) e = Some t" and "validate_event X e (last_event es) = Ok ()"
  shows "journal_lines X es [t, []] = Ok (es @ [e])"
proof -
  have "t \<noteq> []" "from_json (sx_event X) t = Some e" using assms(1,2) by (auto simp: store_lawful_def serde_lawful_def)
  with assms(2,3) show ?thesis by simp
qed

lemma journal_lines_never_missing: "journal_lines X es ls \<noteq> Err ''wireguard_execution_record_missing''"
proof (induction ls arbitrary: es)
  case (Cons l ls)
  have event: "validate_event X e p \<noteq> Err ''wireguard_execution_record_missing''" for e p
    by (auto simp: validate_event_def validate_next_phase_def record_validate_def request_validate_def record_invalid_def
        unavailable_def ensure_def split: if_splits result.splits option.splits)
  show ?case
    using Cons.IH event
    by (auto simp: record_invalid_def unavailable_def split: option.splits result.splits)
qed simp

lemma append_reads:
  assumes "store_lawful X" and "append_journal X E r dir = (Ok s, dir')" and "reads_all R"
  shows "\<exists>es. read_journal X R dir' = Ok es \<and> je_record (last es) = r"
proof -
  from assms(2) obtain es e t where valid: "record_validate (sx_wg X) r = Ok ()"
    and es: "read_journal X (ap_read E) dir = Ok es \<or> read_journal X (ap_read E) dir = Err ''wireguard_execution_record_missing'' \<and> es = []"
    and e: "journal_next X es r = Ok e" and t: "to_json (sx_event X) e = Some t"
    and size: "length (journal_bytes dir) + length t + 1 \<le> max_journal_bytes"
    and dir': "dir' = dir(''submission.log'' \<mapsto> \<lparr>pf_bytes = journal_bytes dir @ t @ [newline], pf_identity = ap_identity E\<rparr>)"
    by (auto simp: append_journal_def Let_def split: result.splits option.splits if_splits)
  have "accepted X [] es" using es read_journal_accepted(1) by fastforce
  note next_ = next_event_accepted [OF assms(1) this e valid]
  have nl: "newline \<notin> set t" using assms(1) t by (simp add: store_lawful_def)
  have "journal_lines X [] (split_on newline (journal_bytes dir @ t @ [newline])) = Ok (es @ [e])"
    using es
  proof
    assume missing: "read_journal X (ap_read E) dir = Err ''wireguard_execution_record_missing'' \<and> es = []"
    have "dir ''submission.log'' = None"
    proof (rule ccontr)
      assume "dir ''submission.log'' \<noteq> None"
      then obtain f where "dir ''submission.log'' = Some f" by blast
      with missing journal_lines_never_missing [of X "[]" "split_on newline (pf_bytes f)"] show False
        by (auto simp: read_journal_def unavailable_def record_invalid_def split: if_splits result.splits)
    qed
    then have "journal_bytes dir = []" by (simp add: journal_bytes_def)
    with missing nl split_on_join_nl [of newline t "[]"] journal_line_read [OF assms(1) t] next_(1)
    show ?thesis by (simp add: split_on_last)
  next
    assume "read_journal X (ap_read E) dir = Ok es"
    then obtain f where f: "dir ''submission.log'' = Some f" "pf_bytes f \<noteq> []" "last (pf_bytes f) = newline"
      "journal_lines X [] (split_on newline (pf_bytes f)) = Ok es"
      by (auto simp: read_journal_def split: if_splits option.splits result.splits)
    then obtain a where a: "pf_bytes f = a @ [newline]" by (metis append_butlast_last_id)
    have old: "journal_lines X [] (split_on newline a @ [[]]) = Ok es"
      using f(4) a split_on_join_nl [of newline a "[]"] by simp
    have "split_on newline (journal_bytes dir @ t @ [newline]) = split_on newline a @ [t, []]"
      using f(1) a nl split_on_join_nl [of newline a "t @ [newline]"] split_on_join_nl [of newline t "[]"]
      by (simp add: journal_bytes_def split_on_last)
    then show ?thesis using journal_lines_more [OF old] journal_line_read [OF assms(1) t next_(1)] by simp
  qed
  with dir' size assms(3) next_(2) show ?thesis
    by (intro exI [of _ "es @ [e]"]) (simp add: read_journal_def reads_all_def)
qed

definition read_works :: "read_env \<Rightarrow> bool" where
  "read_works R \<longleftrightarrow>
     (case rd_lock R of (c, opened, attempts) \<Rightarrow> store_lock c opened attempts) = Some (Ok ()) \<and> rd_open R \<and>
     reads_all (rd_load R) \<and> reads_all (rd_journal R) \<and>
     sn_open (rd_snapshot R) \<and> sn_identity (rd_snapshot R) \<and> sn_read (rd_snapshot R) \<and> sn_again (rd_snapshot R) = SameFile"

lemma transition_reads:
  assumes "store_lawful X" and "transition X E nxt l root = (Ok s, l', root')"
    and "or_request nxt = or_request (le_record l)" and "or_snapshot nxt = or_snapshot (le_record l)"
    and "le_id l = xr_request_id (or_request (le_record l))" and "read_works R"
  shows "store_read X R (le_id l) root' = Some (Ok (Some nxt)) \<and> le_record l' = nxt"
  using assms(2)
proof (cases rule: transition_steps)
  case (completed dir s1 dir1 s2 dir2)
  note R = assms(6) [unfolded read_works_def]
  obtain t f where written: "to_json (sx_record X) nxt = Some t" "length t \<le> max_record_bytes"
    "record_validate (sx_wg X) nxt = Ok ()" "dir1 = dir(''record.json'' \<mapsto> f)" "pf_bytes f = t"
    using completed(4) by (cases rule: persist_cases) auto
  obtain g where dir2: "dir2 = dir1(''submission.log'' \<mapsto> g)" using completed(5) by (cases rule: append_cases) auto
  have "from_json (sx_record X) t = Some nxt" using assms(1) written(1) by (simp add: store_lawful_def serde_lawful_def)
  then have load: "store_load X (rd_load R) dir2 (le_id l) = Ok nxt"
    using R written dir2 assms(3,5) by (simp add: store_load_def reads_all_def)
  have name: "snapshot_name nxt = snapshot_name (le_record l)" using assms(3) by (simp add: snapshot_name_def)
  have "dir2 (snapshot_name nxt) = dir (snapshot_name (le_record l))" using written(4) dir2 name by simp
  then have snap: "verify_snapshot X (rd_snapshot R) dir2 nxt = Ok ()"
    using completed(3) R assms(3,4) name
    by (auto simp: verify_snapshot_def split: if_splits option.splits result.splits)
  obtain es where "read_journal X (rd_journal R) dir2 = Ok es" "je_record (last es) = nxt"
    using append_reads [OF assms(1) completed(5)] R by blast
  then have journal: "verify_journal X (rd_journal R) dir2 nxt = Ok ()" by (simp add: verify_journal_def)
  have "exec_digest (le_id l)"
    using written(3) assms(3,5) by (auto simp: record_validate_def request_validate_def split: result.splits)
  then show ?thesis using R load snap journal completed(7,8) by (simp add: store_read_def)
qed simp_all

text \<open>
  C14. What was acknowledged is found again: when a submission, an observation or a failure was recorded
  successfully, every read that is not itself disturbed returns exactly the record that was written,
  with the snapshot and the journal in agreement with it.
\<close>

theorem operation_read_back:
  assumes "store_lawful X" and "le_id l = xr_request_id (or_request (le_record l))" and "read_works R"
    and "mark_submitted X canceled E l root = (Ok s, l', root') \<or> record_observation X E ob l root = (Ok s, l', root') \<or>
         record_failure X E f l root = (Ok s, l', root')"
  shows "store_read X R (le_id l) root' = Some (Ok (Some (le_record l'))) \<and>
    or_request (le_record l') = or_request (le_record l) \<and> or_phase (le_record l') \<noteq> OpPrepared"
proof -
  from assms(4) obtain nxt where t: "transition X E nxt l root = (Ok s, l', root')"
    and nxt: "or_request nxt = or_request (le_record l)" "or_snapshot nxt = or_snapshot (le_record l)" "or_phase nxt \<noteq> OpPrepared"
  proof (elim disjE)
    assume "mark_submitted X canceled E l root = (Ok s, l', root')"
    then show thesis
      by (intro that [of "(le_record l)\<lparr>or_phase := OpSubmitted\<rparr>"])
        (auto simp: mark_submitted_def check_canceled_def ensure_def split: if_splits)
  next
    assume "record_observation X E ob l root = (Ok s, l', root')"
    then show thesis
      by (intro that [of "(le_record l)\<lparr>or_phase := OpObserved, or_observation := Some ob\<rparr>"])
        (auto simp: record_observation_def completion_def split: if_splits)
  next
    assume "record_failure X E f l root = (Ok s, l', root')"
    then show thesis
      by (intro that [of "(le_record l)\<lparr>or_phase := OpFailed, or_failure := Some f\<rparr>"])
        (auto simp: record_failure_def completion_def split: if_splits)
  qed
  from transition_reads [OF assms(1) t nxt(1,2) assms(2,3)] nxt show ?thesis by simp
qed

section \<open>One operation\<close>

definition sample_text :: string where
  "sample_text = join_with [newline] (config_lines (sample_config []) sample_key) @ [newline]"

definition sample_binding :: config_binding where
  "sample_binding = \<lparr>cb_file_identity = zero_digest, cb_content_sha256 = zero_digest, cb_public_key = sample_key\<rparr>"

definition sample_execution :: execution_request where
  "sample_execution = \<lparr>xr_version = 1, xr_request_id = zero_digest, xr_caller = zero_digest, xr_plan = zero_digest,
     xr_target_scope = zero_digest, xr_action = Up, xr_logical_name = ''wg0'', xr_config = sample_binding\<rparr>"

definition sample_operation :: "operation_phase \<Rightarrow> operation_record" where
  "sample_operation p = \<lparr>or_version = 1, or_request = sample_execution, or_snapshot = zero_digest, or_phase = p,
     or_observation = None, or_failure = None\<rparr>"

definition sample_event :: "64 word \<Rightarrow> operation_phase \<Rightarrow> journal_event" where
  "sample_event n p = \<lparr>je_version = 1, je_sequence = n, je_previous = zero_digest, je_record = sample_operation p,
     je_sha256 = zero_digest\<rparr>"

definition sample_store :: store_crates where
  "sample_store = \<lparr>sx_wg = sample_wg, sx_sha = (\<lambda>_. zero_digest),
     sx_record = table_codec [(sample_operation OpPrepared, ''p''), (sample_operation OpSubmitted, ''s'')],
     sx_event = table_codec [(sample_event 1 OpPrepared, ''a''), (sample_event 2 OpSubmitted, ''b'')],
     sx_body = (\<lambda>n p r. if (n, p, r) = (1, zero_digest, sample_operation OpPrepared) then Some ''x''
                        else if (n, p, r) = (2, zero_digest, sample_operation OpSubmitted) then Some ''y'' else None)\<rparr>"

lemma sample_differ:
  "sample_operation p = sample_operation q \<longleftrightarrow> p = q" "sample_event m p = sample_event n q \<longleftrightarrow> m = n \<and> p = q"
  by (auto simp: sample_operation_def sample_event_def)

lemma newline_letters [simp]: "newline \<noteq> CHR ''a''" "newline \<noteq> CHR ''b''" "CHR ''a'' \<noteq> newline" "CHR ''b'' \<noteq> newline"
  by (auto dest: arg_cong [of _ _ byte])

lemma sample_store_lawful: "store_lawful sample_store"
proof -
  have codecs: "serde_lawful (sx_record sample_store)" "serde_lawful (sx_event sample_store)"
    unfolding sample_store_def by (simp_all add: table_codec_lawful)
  have lines: "t \<noteq> [] \<and> newline \<notin> set t" if "to_json (sx_event sample_store) e = Some t" for e t
    using that by (auto simp: sample_store_def table_codec_def split: if_splits)
  have bodies: "n = n' \<and> p = p' \<and> r = r'"
    if "sx_body sample_store n p r = Some t" "sx_body sample_store n' p' r' = Some t" for n p r n' p' r' t
    using that by (auto simp: sample_store_def split: if_splits)
  have "exec_digest (sx_sha sample_store s)" for s by (simp add: sample_store_def zero_digest_ok)
  with codecs lines bodies show ?thesis unfolding store_lawful_def by blast
qed

lemma sample_key_public: "public_key sample_wg sample_key"
  by (simp add: public_key_def sample_wg_def)

lemma sample_records_valid:
  "request_validate sample_wg sample_execution = Ok ()"
  "record_validate sample_wg (sample_operation OpPrepared) = Ok ()"
  "record_validate sample_wg (sample_operation OpSubmitted) = Ok ()"
proof -
  show q: "request_validate sample_wg sample_execution = Ok ()"
    by (simp add: request_validate_def sample_execution_def sample_binding_def sample_key_public zero_digest_ok
        valid_target_name_def rust_eval)
  show "record_validate sample_wg (sample_operation OpPrepared) = Ok ()"
    "record_validate sample_wg (sample_operation OpSubmitted) = Ok ()"
    using q by (simp_all add: record_validate_def sample_operation_def zero_digest_ok record_coherent_def)
qed

lemma sample_transfer:
  "from_transfer sample_wg (\<lambda>_. zero_digest) sample_text sample_binding = Ok \<lparr>xc_bytes = sample_text, xc_binding = sample_binding\<rparr>"
  "length sample_text \<le> max_config_bytes"
proof -
  have "length (decimal 1000) \<le> 4" using length_decimal [of 1000 3] by simp
  then show len: "length sample_text \<le> max_config_bytes"
    by (simp add: sample_text_def config_lines_def sample_config_def join_with_def sample_key_def max_config_bytes_def)
  have "public_key_from_private sample_wg sample_key = Ok sample_key"
    by (simp add: public_key_from_private_def sample_wg_def)
  moreover have "list_all (\<lambda>t. length t \<le> 64) (wd_dns (sample_config []))" "wd_peers (sample_config []) = []"
    by (simp_all add: sample_config_def)
  ultimately obtain s where "wg_parse sample_wg sample_text = Some s" "su_unsupported s = []" "su_public_key s = sample_key"
    using rendered_config_parsed [OF sample_wg_lawful sample_rendered [of "[]"] sample_plain [of "[]"]]
    by (auto simp: sample_text_def)
  then show "from_transfer sample_wg (\<lambda>_. zero_digest) sample_text sample_binding =
      Ok \<lparr>xc_bytes = sample_text, xc_binding = sample_binding\<rparr>"
    using len by (simp add: from_transfer_def validate_binding_def sample_binding_def zero_digest_ok sample_key_public ensure_def)
qed

definition all_read :: file_read where "all_read = \<lparr>fr_open = True, fr_stat = True, fr_read = True\<rparr>"

definition snapshot_read :: snapshot_env where
  "snapshot_read = \<lparr>sn_open = True, sn_identity = True, sn_read = True, sn_again = SameFile\<rparr>"

definition good_persist :: persist_env where
  "good_persist = \<lparr>pe_seed = [], pe_identity = [], pe_random = True, pe_create = True, pe_written = None, pe_checked = True,
     pe_rename = True, pe_sync = Some Synced, pe_cleanup = True\<rparr>"

definition good_append :: append_env where
  "good_append = \<lparr>ap_read = all_read, ap_size = True, ap_open = True, ap_identity = [], ap_written = None, ap_synced = True,
     ap_same = True, ap_sync = Some Synced, ap_verify = True\<rparr>"

abbreviation free_lock :: "bool \<times> bool \<times> (bool \<times> lock_attempt) list" where
  "free_lock \<equiv> (False, True, [(False, HeldYet), (False, Taken)])"

definition good_begin :: begin_env where
  "good_begin = \<lparr>be_verify = True, be_request_lock = free_lock, be_target_lock = free_lock, be_canceled = (\<lambda>_. False),
     be_open = True, be_load = all_read, be_snapshot = snapshot_read, be_journal = all_read, be_mkdir = True, be_child = True,
     be_root_sync = Some Synced, be_create = True, be_written = None, be_checked = True, be_identity = zero_digest,
     be_identified = True, be_persist = good_persist, be_append = good_append\<rparr>"

definition good_transition :: transition_env where
  "good_transition = \<lparr>te_verify = True, te_load = all_read, te_snapshot = snapshot_read, te_persist = good_persist,
     te_append = good_append\<rparr>"

definition good_read :: read_env where
  "good_read = \<lparr>rd_lock = free_lock, rd_open = True, rd_load = all_read, rd_snapshot = snapshot_read, rd_journal = all_read\<rparr>"

text \<open>The directory of the operation with the given record and journal.\<close>

definition operation_dir :: "string \<Rightarrow> string \<Rightarrow> request_dir" where
  "operation_dir r j = [''wg0.conf'' \<mapsto> \<lparr>pf_bytes = sample_text, pf_identity = zero_digest\<rparr>,
     ''record.json'' \<mapsto> \<lparr>pf_bytes = r, pf_identity = []\<rparr>, ''submission.log'' \<mapsto> \<lparr>pf_bytes = j, pf_identity = []\<rparr>]"

definition sample_lease :: "operation_phase \<Rightarrow> lease" where
  "sample_lease p = \<lparr>le_id = zero_digest, le_record = sample_operation p, le_sync = Synced\<rparr>"

lemma sample_codecs:
  "to_json (sx_record sample_store) (sample_operation OpPrepared) = Some ''p''"
  "to_json (sx_record sample_store) (sample_operation OpSubmitted) = Some ''s''"
  "from_json (sx_record sample_store) ''p'' = Some (sample_operation OpPrepared)"
  "to_json (sx_event sample_store) (sample_event 1 OpPrepared) = Some ''a''"
  "to_json (sx_event sample_store) (sample_event 2 OpSubmitted) = Some ''b''"
  "from_json (sx_event sample_store) ''a'' = Some (sample_event 1 OpPrepared)"
  "from_json (sx_event sample_store) ''b'' = Some (sample_event 2 OpSubmitted)"
  "sx_body sample_store 1 zero_digest (sample_operation OpPrepared) = Some ''x''"
  "sx_body sample_store 2 zero_digest (sample_operation OpSubmitted) = Some ''y''"
  "sx_wg sample_store = sample_wg" "sx_sha sample_store = (\<lambda>_. zero_digest)"
  by (simp_all add: sample_store_def table_codec_def sample_differ)

lemma sample_first_event: "validate_event sample_store (sample_event 1 OpPrepared) None = Ok ()"
  using sample_records_valid
  by (simp add: validate_event_def sample_event_def sample_codecs zero_digest_ok chained_def) (simp add: sample_operation_def)

lemma sample_second_event:
  "validate_event sample_store (sample_event 2 OpSubmitted) (Some (sample_event 1 OpPrepared)) = Ok ()"
  using sample_records_valid
  by (simp add: validate_event_def sample_event_def sample_codecs zero_digest_ok chained_def checked_next_def
      validate_next_phase_def) (simp add: sample_operation_def next_phase_ok_def)

lemma sample_journals:
  "dir ''submission.log'' = Some \<lparr>pf_bytes = [CHR ''a'', newline], pf_identity = []\<rparr> \<Longrightarrow>
     read_journal sample_store all_read dir = Ok [sample_event 1 OpPrepared]"
  "dir ''submission.log'' = Some \<lparr>pf_bytes = [CHR ''a'', newline, CHR ''b'', newline], pf_identity = []\<rparr> \<Longrightarrow>
     read_journal sample_store all_read dir = Ok [sample_event 1 OpPrepared, sample_event 2 OpSubmitted]"
  using sample_first_event sample_second_event
  by (simp_all add: read_journal_def all_read_def max_journal_bytes_def sample_codecs last_event_def)

lemma sample_begin:
  "store_begin sample_store good_begin sample_execution \<lparr>xc_bytes = sample_text, xc_binding = sample_binding\<rparr> Map.empty =
     (Some (Ok (Created (sample_lease OpPrepared))), [zero_digest \<mapsto> operation_dir ''p'' [CHR ''a'', newline]])"
proof -
  let ?dir0 = "[''wg0.conf'' \<mapsto> \<lparr>pf_bytes = sample_text, pf_identity = zero_digest\<rparr>]"
  let ?dir1 = "?dir0(''record.json'' \<mapsto> \<lparr>pf_bytes = ''p'', pf_identity = []\<rparr>)"
  have name: "staging_name sample_store good_persist \<noteq> ''wg0.conf''"
    using names_differ(5) [of sample_store good_persist "sample_operation OpPrepared"]
    by (simp add: snapshot_name_def sample_operation_def sample_execution_def)
  have persist: "store_persist sample_store good_persist (sample_operation OpPrepared) ?dir0 = (Ok Synced, ?dir1)"
    using sample_records_valid(2) name
    by (simp add: store_persist_def sample_codecs good_persist_def max_record_bytes_def Let_def)
  have next1: "journal_next sample_store [] (sample_operation OpPrepared) = Ok (sample_event 1 OpPrepared)"
    by (simp add: journal_next_def last_event_def validate_next_phase_def next_phase_ok_def ensure_def sample_codecs sample_event_def)
      (simp add: sample_operation_def)
  have "read_journal sample_store all_read ?dir1 = Err ''wireguard_execution_record_missing''"
    by (simp add: read_journal_def all_read_def)
  then have append: "append_journal sample_store good_append (sample_operation OpPrepared) ?dir1 =
      (Ok Synced, operation_dir ''p'' [CHR ''a'', newline])"
    using sample_records_valid(2) next1
    by (simp add: append_journal_def good_append_def sample_codecs journal_bytes_def max_journal_bytes_def operation_dir_def Let_def)
  have first: "\<lparr>or_version = 1, or_request = sample_execution, or_snapshot = zero_digest, or_phase = OpPrepared,
      or_observation = None, or_failure = None\<rparr> = sample_operation OpPrepared" by (simp add: sample_operation_def)
  have fill: "fill_operation sample_store good_begin sample_execution \<lparr>xc_bytes = sample_text, xc_binding = sample_binding\<rparr> Synced =
      (Ok (Created (sample_lease OpPrepared)), operation_dir ''p'' [CHR ''a'', newline])"
    using persist append first
    by (simp add: fill_operation_def good_begin_def check_canceled_def ensure_def Let_def combine_sync_def sample_lease_def)
      (simp add: sample_execution_def combine_sync_def)
  have id: "xr_request_id sample_execution = zero_digest" "xr_config sample_execution = sample_binding"
    by (simp_all add: sample_execution_def)
  show ?thesis
    using fill sample_records_valid(1) id
    by (simp add: store_begin_def sample_codecs good_begin_def store_lock_def check_canceled_def ensure_def Let_def)
qed

lemma sample_submit:
  "mark_submitted sample_store False good_transition (sample_lease OpPrepared) [zero_digest \<mapsto> operation_dir ''p'' [CHR ''a'', newline]] =
     (Ok Synced, sample_lease OpSubmitted, [zero_digest \<mapsto> operation_dir ''s'' [CHR ''a'', newline, CHR ''b'', newline]])"
proof -
  let ?dir = "operation_dir ''p'' [CHR ''a'', newline]"
  let ?dir1 = "?dir(''record.json'' \<mapsto> \<lparr>pf_bytes = ''s'', pf_identity = []\<rparr>)"
  have step: "(sample_operation OpPrepared)\<lparr>or_phase := OpSubmitted\<rparr> = sample_operation OpSubmitted"
    "or_request (sample_operation p) = sample_execution" "or_phase (sample_operation p) = p" for p
    by (simp_all add: sample_operation_def)
  have id: "xr_request_id sample_execution = zero_digest" by (simp add: sample_execution_def)
  have load: "store_load sample_store all_read ?dir zero_digest = Ok (sample_operation OpPrepared)"
    using sample_records_valid(2) id
    by (simp add: store_load_def all_read_def operation_dir_def max_record_bytes_def sample_codecs step)
  have snap: "verify_snapshot sample_store snapshot_read ?dir (sample_operation OpPrepared) = Ok ()"
    using sample_transfer
    by (simp add: verify_snapshot_def snapshot_read_def snapshot_name_def operation_dir_def sample_codecs)
      (simp add: sample_operation_def sample_execution_def)
  have name: "staging_name sample_store good_persist \<noteq> ''wg0.conf''"
    using names_differ(5) [of sample_store good_persist "sample_operation OpPrepared"]
    by (simp add: snapshot_name_def sample_operation_def sample_execution_def)
  have persist: "store_persist sample_store good_persist (sample_operation OpSubmitted) ?dir = (Ok Synced, ?dir1)"
    using sample_records_valid(3) name
    by (simp add: store_persist_def sample_codecs good_persist_def max_record_bytes_def Let_def operation_dir_def)
  have next2: "journal_next sample_store [sample_event 1 OpPrepared] (sample_operation OpSubmitted) = Ok (sample_event 2 OpSubmitted)"
    by (simp add: journal_next_def last_event_def validate_next_phase_def next_phase_ok_def ensure_def sample_event_def
        checked_next_def sample_codecs step)
  have "read_journal sample_store all_read ?dir1 = Ok [sample_event 1 OpPrepared]"
    by (rule sample_journals) (simp add: operation_dir_def)
  then have append: "append_journal sample_store good_append (sample_operation OpSubmitted) ?dir1 =
      (Ok Synced, operation_dir ''s'' [CHR ''a'', newline, CHR ''b'', newline])"
    using sample_records_valid(3) next2
    by (simp add: append_journal_def good_append_def sample_codecs journal_bytes_def max_journal_bytes_def operation_dir_def
        Let_def fun_upd_twist)
  show ?thesis
    using load snap persist append sample_records_valid(3)
    by (simp add: mark_submitted_def transition_def check_canceled_def ensure_def sample_lease_def step id good_transition_def
        sample_codecs combine_sync_def Let_def)
qed

lemma sample_reached:
  "store_reaches sample_store [zero_digest \<mapsto> operation_dir ''s'' [CHR ''a'', newline, CHR ''b'', newline]]
     [sample_lease OpSubmitted] [zero_digest] [zero_digest]"
proof -
  have "store_reaches sample_store [zero_digest \<mapsto> operation_dir ''p'' [CHR ''a'', newline]] [sample_lease OpPrepared]
      [le_id (sample_lease OpPrepared)] []"
    by (rule store_reaches.begun [OF store_reaches.start _ sample_begin]) simp
  from store_reaches.marked [OF this sample_submit] show ?thesis by (simp add: sample_lease_def)
qed

theorem operation_submitted_once_witness:
  "(\<forall>E config l. fst (store_begin sample_store E sample_execution config
     [zero_digest \<mapsto> operation_dir ''s'' [CHR ''a'', newline, CHR ''b'', newline]]) \<noteq> Some (Ok (Created l))) \<and>
   (\<forall>E. store_read sample_store E zero_digest
     [zero_digest \<mapsto> operation_dir ''s'' [CHR ''a'', newline, CHR ''b'', newline]] \<noteq> Some (Ok None))"
proof -
  have "xr_request_id sample_execution = zero_digest" by (simp add: sample_execution_def)
  with operation_submitted_once [OF sample_store_lawful sample_reached] show ?thesis by (metis list.set_intros(1))
qed

theorem journal_story_witness:
  "map (\<lambda>e. or_phase (je_record e)) [sample_event 1 OpPrepared, sample_event 2 OpSubmitted] = [OpPrepared, OpSubmitted]"
proof -
  have "read_journal sample_store all_read (operation_dir ''s'' [CHR ''a'', newline, CHR ''b'', newline]) =
      Ok [sample_event 1 OpPrepared, sample_event 2 OpSubmitted]"
    by (rule sample_journals(2)) (simp add: operation_dir_def)
  from journal_story [OF this] show ?thesis by auto
qed

theorem journal_tamper_evident_witness:
  "\<not> hash_clash sample_store [sample_event 1 OpPrepared] [sample_event 1 OpPrepared] \<and>
   [sample_event 1 OpPrepared] = [sample_event 1 OpPrepared] \<and>
   hash_clash sample_store [sample_event 1 OpPrepared] [sample_event 1 OpPrepared, sample_event 2 OpSubmitted]"
proof -
  have one: "read_journal sample_store all_read (operation_dir r [CHR ''a'', newline]) = Ok [sample_event 1 OpPrepared]" for r
    by (rule sample_journals(1)) (simp add: operation_dir_def)
  have two: "read_journal sample_store all_read (operation_dir r [CHR ''a'', newline, CHR ''b'', newline]) =
      Ok [sample_event 1 OpPrepared, sample_event 2 OpSubmitted]" for r
    by (rule sample_journals(2)) (simp add: operation_dir_def)
  have free: "\<not> hash_clash sample_store [sample_event 1 OpPrepared] [sample_event 1 OpPrepared]"
    by (auto simp: hash_clash_def)
  have last: "je_sha256 (sample_event m p) = je_sha256 (sample_event n q)" for m n p q by (simp add: sample_event_def)
  from free journal_tamper_evident [OF sample_store_lawful one [of "''p''"] one [of "''s''"]]
    journal_tamper_evident [OF sample_store_lawful one [of "''p''"] two [of "''s''"]] last
  show ?thesis by simp
qed

theorem operation_read_back_witness:
  "store_read sample_store good_read zero_digest
     [zero_digest \<mapsto> operation_dir ''s'' [CHR ''a'', newline, CHR ''b'', newline]] = Some (Ok (Some (sample_operation OpSubmitted)))"
proof -
  have lease: "le_id (sample_lease p) = zero_digest" "le_record (sample_lease p) = sample_operation p"
    "xr_request_id (or_request (sample_operation p)) = zero_digest" for p
    by (simp_all add: sample_lease_def sample_operation_def sample_execution_def)
  have works: "read_works good_read"
    by (simp add: read_works_def good_read_def store_lock_def check_canceled_def ensure_def reads_all_def all_read_def snapshot_read_def)
  from operation_read_back [OF sample_store_lawful _ works disjI1 [OF sample_submit]] show ?thesis by (simp add: lease)
qed

end
