(* ===== verification/Spec2Isabelle.thy ===== *)
theory Spec2Isabelle
  imports Session_Delete Session_Stop Session_Creation Port_Forward_Journal Account_Defaults Account_Import Runtime_Recovery
    Skill_Acceptance Sync_Recovery Skill_Manifest Replay_Journal Node_Install Execution_Recovery
begin

text \<open>
  Verification of the Agent Remote command-line client (\<open>src/src\<close>, Rust).

  \<^bold>\<open>The program.\<close> The client manages sessions, accounts and runtimes on a remote service and keeps
  a small SQLite database in its home directory. What makes it hard is not any single request
  but what happens around it: a POST may be lost, answered late or answered wrongly, the
  process may stop at any point, several client processes share the database, and storage
  operations fail. The client therefore reserves a \<open>caller key\<close> in a local journal before it
  sends anything, sends exactly one POST per key, classifies every outcome as accepted,
  definitely rejected or unknown, and afterwards only observes that key. Account-level
  operations (configuration import, runtime recovery) are in addition exclusive per account,
  and need proof of authority that is checked again under locks.

  \<^bold>\<open>Theories and sources.\<close>
  \<^item> \<open>Prelude\<close>: results, Rust text (\<open>char\<close>s of UTF-8 bytes), shared validators, JSON values, the
    third-party crates as a record of functions, codecs of stored records with the law
    \<open>serde_lawful\<close>, samples.
  \<^item> \<open>Identifiers\<close> (\<open>identifiers.rs\<close>); \<open>Api_Transport\<close> (\<open>api.rs\<close>, \<open>api/error_response.rs\<close>): errors,
    bounded bodies, decoding, percent encoding.
  \<^item> \<open>Local_Db\<close> (\<open>local_state.rs\<close>, \<open>local_state/initialization.rs\<close>, \<open>config.rs\<close>): the database as a
    record of tables, indexes and rows, opening it safely, creating and validating its schema.
  \<^item> \<open>Kv_Store\<close> (\<open>local_state.rs\<close>, \<open>local_state/account_defaults.rs\<close>,
    \<open>local_state/credential_refresh.rs\<close>): the \<open>kv\<close> table, locale \<open>kv_interface\<close>.
  \<^item> \<open>Journal\<close>: the caller-key journal the session components share, locales \<open>caller_journal\<close>
    (what a journal promises) and \<open>journal_validator\<close> (what a validator must promise for it),
    interpreted in \<open>Session_Creation_Journal\<close>, \<open>Session_Delete_Journal\<close>, \<open>Session_Stop_Journal\<close>
    and \<open>Port_Forward_Journal\<close> (\<open>local_state/session_creation.rs\<close> and so on).
  \<^item> \<open>Registry\<close>: the registry with at most one open request per target, locale
    \<open>exclusive_registry\<close>, used by \<open>Account_Import\<close> and \<open>Recovery_Registry\<close>.
  \<^item> \<open>Session_Types\<close>: session rows, requests and networks, canonical JSON and fingerprints.
  \<^item> \<open>Session_Creation_Api\<close>, \<open>Session_Creation\<close> (\<open>api/session_creation.rs\<close>,
    \<open>api/session_takeover.rs\<close>, \<open>session_creation.rs\<close>, \<open>desktop_control/session_creation.rs\<close>):
    creating a session, waiting for an account takeover, the journaled creation of the desktop.
  \<^item> \<open>Session_Delete_Api\<close>, \<open>Session_Delete\<close> (\<open>api/session_delete.rs\<close>, \<open>session_delete.rs\<close>);
    \<open>Session_Stop_Api\<close>, \<open>Session_Stop\<close> (\<open>api/session_stop.rs\<close>, \<open>session_stop.rs\<close>): freezing,
    submitting and observing.
  \<^item> \<open>Account_Operations\<close> (\<open>account_operations.rs\<close>), \<open>Account_Defaults\<close> (\<open>account_defaults.rs\<close>),
    \<open>Account_Import\<close> (\<open>account_import.rs\<close> and its modules), \<open>Recovery_Registry\<close> and
    \<open>Runtime_Recovery\<close> (\<open>runtime_recovery.rs\<close> and its modules).
  \<^item> \<open>Skill_Journal\<close> (\<open>local_state/skill_commands.rs\<close>), \<open>Skill_Api\<close> (\<open>api/skills.rs\<close>,
    \<open>api/skill_mutations.rs\<close>, \<open>api/skill_retry.rs\<close>), \<open>Skill_Requests\<close> (\<open>skill_commands/requests.rs\<close>,
    \<open>skill_commands/retry_plan.rs\<close>), \<open>Skill_Acceptance\<close> (\<open>skill_commands/acceptance.rs\<close>,
    \<open>skill_commands.rs\<close>): changes of the Skill library, which are repeated under one key.
  \<^item> \<open>Local_Tables\<close> (\<open>local_state.rs\<close>): the rows of devices, workspaces, synchronizations and browser
    bindings, locale \<open>keyed_table\<close>; \<open>Sync_State\<close> (\<open>local_state/sync.rs\<close>): reviewed mappings;
    \<open>Sync_Target\<close> (\<open>workspace.rs\<close>, \<open>api/sync.rs\<close>, \<open>sync_operations/types.rs\<close>,
    \<open>sync_operations/state.rs\<close>), \<open>Sync_Operations\<close> (\<open>sync_operations.rs\<close>), locales \<open>step_relation\<close> and
    \<open>asking_relation\<close>, and \<open>Sync_Recovery\<close> (\<open>sync_operations/recovery.rs\<close>): workspace synchronization.
  \<^item> \<open>Utf8\<close>: well-formed text and lines; \<open>Skill_Manifest\<close> (\<open>skills/manifest.rs\<close>): Skill trees;
    \<open>Replay_Journal\<close> (\<open>wireguard/replay.rs\<close>): the one-shot journal of the privileged brokers;
    \<open>Caller_Auth\<close> (\<open>wireguard/caller_auth.rs\<close>): their challenge and response, the guard that answers
    a challenge once, as the relation \<open>guard_reaches\<close>; SHA-256 is an argument.
  \<^item> \<open>Ip_Address\<close>: the splitting, number and address parsers and printers of the standard library;
    \<open>Wireguard_Config\<close> (\<open>wireguard/validation.rs\<close>, \<open>wireguard.rs\<close>, \<open>wireguard/inspection_parser.rs\<close>):
    checking, rendering and parsing configurations; \<open>Wireguard_Text\<close>: what is rendered is read back, under
    the law \<open>base64_lawful\<close>.
  \<^item> \<open>Execution_Request\<close> (\<open>wireguard/execution_request.rs\<close>, \<open>wireguard/execution_observation.rs\<close>,
    \<open>wireguard/execution_config.rs\<close>, \<open>wireguard/target.rs\<close>, Linux build): privileged requests and the
    records of them; \<open>Execution_Store\<close> (\<open>wireguard/execution_store.rs\<close>,
    \<open>wireguard/execution_store/files.rs\<close>): their directories, locks, leases and chained journals, with the
    relation \<open>store_reaches\<close> of what processes do to them; \<open>Execution_Recovery\<close>: what the store
    promises, under the law \<open>store_lawful\<close> of serde and SHA-256.
  \<^item> \<open>Node_Values\<close>, \<open>Node_Install\<close> (\<open>app/device_node.rs\<close>) and \<open>Node_Install_State\<close>
    (\<open>node_install_state.rs\<close>): installing and enrolling a managed node, timestamps, shell quoting, the
    file that holds the pending exchange. Steps take the file and the log of what was sent; the
    lemmas \<open>does_then\<close>, \<open>does_save\<close> and so on are the rules of a small Hoare logic for them.
  \<^item> This theory: the clients of one machine as a transition system over the shared table.

  \<^bold>\<open>How state and effects are modelled.\<close> Operations take the database and return it with their
  result; a storage failure at any statement is an argument of type \<open>faults\<close>, and a failed
  transaction leaves the database as it was. The file system is a record \<open>host\<close>. A network is a
  function from requests to outcomes, and a call returns the list of requests it made. What other
  processes do to the table during a call is a function applied to the database at that point.
  Machine integers are words where their width matters. Identifier generation, hashing, JSON
  text and URL parsing are arguments.

  \<^bold>\<open>Loops and bounds.\<close> The only loops that wait are the observation loops, the wait for a
  takeover, the wait for a deployment and the wait for a lock (\<open>lock_poll\<close>). They run
  over a list of polling rounds (an answer, an attempt, the deadline, or an interrupt) and give \<open>None\<close> when the list ends
  while they are still waiting; it is proved that they return once the deadline or an interrupt
  is in the list. The wait of a prepared synchronization is bounded by its sixty polls, the
  resolution of links by forty hops; both are total by a measure. All other recursion is structural
  or on a number that decreases. The journals' limits (256 records, 32 or
  64 KiB each) are those of the code.

  \<^bold>\<open>What is shown.\<close>
  \<^item> Journals and registries: a journal refines a ledger (\<open>stop_refines_ledger\<close>), keys are reserved once, identities are kept, concurrent updates
    are exclusive, records can be read back, no account has two open requests; together, for
    every interleaving of clients, below.
  \<^item> Submissions: one POST, journaled before it is sent, under authority for what was reviewed;
    reported success is for the frozen request; unknown outcomes stay open; without failures a
    submission goes through (\<open>submit_stop_live\<close>).
  \<^item> Skill changes: one uncertain command per intent, no repetition without a lookup that finds
    the key unknown, retries of exactly the failed deployments.
  \<^item> Observation and forgetting: bound to the original request; records are removed only when
    that is earned.
  \<^item> Synchronization: an action is posted once, for the reviewed session, while the mapping is the
    reviewed one; receipts are honest; what a completed call reports is stored; recovery removes
    exactly the reviewed rows.
  \<^item> Skill trees: a validated manifest is a tree, its links stay inside, its digest names it.
  \<^item> Privileged requests: acknowledged at most once across torn writes and restarts.
    A caller's proof is bound to everything agreed, only the right response is accepted, each
    challenge at most once, and an honest caller gets through.
  \<^item> Privileged operations: leased once and submitted once, recorded facts are read back, the journal
    tells one story and shows tampering, recovery passes over no submitted operation
    (\<open>submitted_records_exact\<close>); rendered configurations parse back to what they say.
  \<^item> Node installation: no join code is forgotten, the order of what is sent, saved exchanges are
    read back, quoted values reach the remote shell as themselves, timestamps are counted right.
  \<^item> Storage: tables keep their keys unique; initialization is atomic and idempotent, refuses newer schemas and links.
  \<^item> Transport and values: bounded bodies, kept statuses, encodings, identifiers, canonical
    JSON, manifests whose sizes add up without wrap-around.
  \<^item> Where the code does less than it means to, the theorem states what it does:
    \<open>accepted_but_rejected\<close>, \<open>observe_delete_stale\<close>, \<open>stop_submit_outcome\<close>,
    \<open>replay_forgets_unreadable\<close>, \<open>replay_failed_sync_retryable\<close>, \<open>rfc3339_lenient\<close>,
    \<open>rendered_config_read\<close> (peers with one key) and \<open>signed_prefix_unreadable\<close>.

  \<^bold>\<open>Not modelled.\<close> Rendering and argument parsing; process supervision (SSH, mutagen, WireGuard,
  browser); credential stores and login; the walk over local files that produces an import
  plan; the preparation of Skill changes; the Mutagen daemon; the scripts run on a node and the
  download of its release; the operating-system parts of the WireGuard brokers, the files their users
  publish and the status tool. Where a modelled operation uses one of
  them, its result is an argument.
\<close>

section \<open>The client as a transition system\<close>

text \<open>
  All journals live in one table. \<open>client_step\<close> is one storage operation of one running client:
  any journal operation, with any arguments and storage failures, initialization, or a write to
  a key outside the journals. The processes of a machine interleave such steps in any order.
\<close>

record codecs =
  cc_create :: "session_create_record codec"
  cc_delete :: "session_delete_record codec"
  cc_stop :: "session_stop_record codec"
  cc_forward :: "port_forward_record codec"
  cc_import :: "import_record codec"
  cc_recovery :: "recovery_record codec"

definition journal_prefixes :: "string list" where
  "journal_prefixes =
     [''session_create_request:'', ''session_delete_request:'', ''session_stop_request:'',
      ''port_forward_create_request:'', ''account_import_request:'', ''runtime_recovery_request:'']"

inductive client_step :: "crates \<Rightarrow> url_parser \<Rightarrow> codecs \<Rightarrow> db \<Rightarrow> db \<Rightarrow> bool" for X U C where
  initialize: "client_step X U C d (snd (init_schema f d))"
| create_reserve: "client_step X U C d (snd (reserve_session_create X (cc_create C) f r d))"
| create_update: "client_step X U C d (snd (update_session_create X (cc_create C) f r r' d))"
| delete_reserve: "client_step X U C d (snd (reserve_session_delete X (cc_delete C) f s d))"
| delete_update: "client_step X U C d (snd (update_session_delete X (cc_delete C) f s s' d))"
| stop_reserve: "client_step X U C d (snd (reserve_session_stop X (cc_stop C) f t d))"
| stop_update: "client_step X U C d (snd (update_session_stop X (cc_stop C) f t t' d))"
| forward_reserve: "client_step X U C d (snd (reserve_port_forward_create X (cc_forward C) f p d))"
| forward_update: "client_step X U C d (snd (update_port_forward_create X (cc_forward C) f p p' d))"
| import_reserve: "client_step X U C d (snd (reserve_account_import X (cc_import C) f i d))"
| import_update: "registry_progress (import_registry X (cc_import C)) i i' \<Longrightarrow>
    client_step X U C d (snd (update_account_import X (cc_import C) f i i' d))"
| import_forget: "client_step X U C d (snd (forget_account_import X (cc_import C) f i d))"
| recovery_reserve: "client_step X U C d (snd (reserve_runtime_recovery X U (cc_recovery C) f q d))"
| recovery_update: "registry_progress (recovery_registry X U (cc_recovery C)) q q' \<Longrightarrow>
    client_step X U C d (snd (update_runtime_recovery X U (cc_recovery C) f q q' d))"
| recovery_forget: "client_step X U C d (snd (forget_runtime_recovery X U (cc_recovery C) f q d))"
| other_key: "\<not> list_ex (\<lambda>p. starts_with p k) journal_prefixes \<Longrightarrow> client_step X U C d (snd (set_kv f k v d))"
| skill_command: "client_step X U C d (skill_step op d)"

section \<open>Frames\<close>

text \<open>
  \<open>kv_frame P d d'\<close>: only entries whose key satisfies \<open>P\<close> differ, and the keys stay distinct.
\<close>

definition kv_frame :: "(string \<Rightarrow> bool) \<Rightarrow> db \<Rightarrow> db \<Rightarrow> bool" where
  "kv_frame P d d' \<longleftrightarrow> (kv_invar d \<longrightarrow> kv_invar d' \<and> (\<forall>k. \<not> P k \<longrightarrow> kv_look d' k = kv_look d k))"

lemma kv_frame_refl [simp]: "kv_frame P d d"
  by (simp add: kv_frame_def)

lemma kv_frame_append:
  "P k \<Longrightarrow> k \<notin> fst ` set (db_kv d) \<Longrightarrow> kv_frame P d (d\<lparr>db_kv := db_kv d @ [(k, v)]\<rparr>)"
  by (auto simp: kv_frame_def kv_invar_def kv_look_append)

lemma kv_frame_row_update: "P k \<Longrightarrow> kv_frame P d (d\<lparr>db_kv := row_update k v (db_kv d)\<rparr>)"
  by (auto simp: kv_frame_def kv_invar_def kv_look_def map_of_row_update)

lemma journal_op_frame:
  "kv_frame (starts_with (j_prefix J)) d (snd (run_op (journal_reserve J) (journal_update J) x d))"
proof (cases x)
  case (Reserve f r)
  obtain y d' where o: "journal_reserve J f r d = (y, d')" by fastforce
  from journal_reserve_cases [OF o] o Reserve show ?thesis
    by (auto simp: journal_key_def intro: kv_frame_append)
next
  case (Update f r r')
  obtain y d' where o: "journal_update J f r r' d = (y, d')" by fastforce
  from journal_update_cases [OF o] o Update show ?thesis
    by (auto simp: journal_key_def intro: kv_frame_row_update)
qed

lemma registry_op_frame:
  assumes "serde_lawful (g_codec G)"
  shows "kv_frame (starts_with (g_prefix G)) d
    (snd (registry_step (registry_reserve G) (registry_update G) (registry_forget G) x d))"
proof (cases x)
  case (RegReserve f r)
  obtain y d' where o: "registry_reserve G f r d = (y, d')" by fastforce
  from registry_reserve_cases [OF o] o RegReserve show ?thesis
    by (auto simp: registry_key_def intro: kv_frame_append)
next
  case (RegUpdate f r r')
  obtain y d' where o: "registry_update G f r r' d = (y, d')" by fastforce
  from registry_update_cases [OF o] o RegUpdate show ?thesis
    by (auto simp: registry_key_def intro: kv_frame_row_update)
next
  case (RegForget f r)
  obtain y d' where o: "registry_forget G f r d = (y, d')" by fastforce
  from registry_forget_cases [OF o _ assms] o RegForget show ?thesis
    by (auto simp: kv_frame_def registry_key_def)
qed

text \<open>Prefixes none of which extends another.\<close>

definition incomparable :: "string \<Rightarrow> string \<Rightarrow> bool" where
  "incomparable p q \<longleftrightarrow> \<not> starts_with p q \<and> \<not> starts_with q p"

lemma incomparable_key: "incomparable p q \<Longrightarrow> starts_with q k \<Longrightarrow> \<not> starts_with p k"
  by (auto simp: incomparable_def starts_with_iff append_eq_append_conv2)

lemma journal_prefixes_pairs:
  "list_all (\<lambda>p. list_all (\<lambda>q. p = q \<or> incomparable p q) journal_prefixes) journal_prefixes"
  by code_simp

lemma journal_prefixes_incomparable:
  "p \<in> set journal_prefixes \<Longrightarrow> q \<in> set journal_prefixes \<Longrightarrow> p \<noteq> q \<Longrightarrow> incomparable p q"
  using journal_prefixes_pairs unfolding list_all_iff by blast

section \<open>What a step keeps\<close>

definition lawful_codecs :: "codecs \<Rightarrow> bool" where
  "lawful_codecs C \<longleftrightarrow>
     serde_lawful (cc_create C) \<and> serde_lawful (cc_delete C) \<and> serde_lawful (cc_stop C) \<and>
     serde_lawful (cc_forward C) \<and> serde_lawful (cc_import C) \<and> serde_lawful (cc_recovery C)"

text \<open>Every record of a journal is still there, with the same identity.\<close>

definition journal_kept :: "'r journal \<Rightarrow> ('r \<Rightarrow> 'i) \<Rightarrow> db \<Rightarrow> db \<Rightarrow> bool" where
  "journal_kept J ident d d' \<longleftrightarrow>
     (\<forall>i r. journal_look J d (j_prefix J @ i) = Some r \<longrightarrow>
        (\<exists>r'. journal_look J d' (j_prefix J @ i) = Some r' \<and> ident r' = ident r))"

lemma journal_kept_trans:
  "journal_kept J ident d d1 \<Longrightarrow> journal_kept J ident d1 d2 \<Longrightarrow> journal_kept J ident d d2"
  unfolding journal_kept_def by metis

text \<open>A change that leaves the entries under a prefix alone.\<close>

definition off :: "string \<Rightarrow> db \<Rightarrow> db \<Rightarrow> bool" where
  "off p d d' \<longleftrightarrow> (\<exists>P. kv_frame P d d' \<and> (\<forall>k. starts_with p k \<longrightarrow> \<not> P k))"

lemma off_kv_invar: "off p d d' \<Longrightarrow> kv_invar d \<Longrightarrow> kv_invar d'"
  by (auto simp: off_def kv_frame_def)

lemma journal_kept_off: "off (j_prefix J) d d' \<Longrightarrow> kv_invar d \<Longrightarrow> journal_kept J ident d d'"
  by (auto simp: off_def journal_kept_def kv_frame_def journal_look_def)

lemma exclusive_off:
  assumes "off (g_prefix G) d d'" and "kv_invar d" and "exclusive (registry_look G) target is_open d"
  shows "exclusive (registry_look G) target is_open d'"
proof -
  have "registry_look G d' = registry_look G d"
    using assms(1,2) by (auto simp: off_def kv_frame_def registry_look_def fun_eq_iff)
  with assms(3) show ?thesis by (simp add: exclusive_def)
qed

lemma off_frame:
  "kv_frame (starts_with q) d d' \<Longrightarrow> p \<in> set journal_prefixes \<Longrightarrow> q \<in> set journal_prefixes \<Longrightarrow> p \<noteq> q \<Longrightarrow> off p d d'"
  unfolding off_def using journal_prefixes_incomparable incomparable_key by blast

text \<open>Initialization and writes to other keys are off every journal.\<close>

lemma off_init: "off p d (snd (init_schema f d))"
proof -
  obtain r d' where i: "init_schema f d = (r, d')" by fastforce
  have "kv_frame (\<lambda>_. False) d d'"
    using init_schema_kv [OF i] by (simp add: kv_frame_def kv_invar_def kv_look_def)
  with i show ?thesis by (auto simp: off_def)
qed

lemma off_set_kv:
  assumes "\<not> list_ex (\<lambda>p. starts_with p k) journal_prefixes" and "p \<in> set journal_prefixes"
  shows "off p d (snd (set_kv f k v d))"
proof -
  have "kv_frame (\<lambda>k'. k' = k) d (snd (set_kv f k v d))"
    by (auto simp: set_kv_def kv_upsert_def kv_frame_def kv_invar_def kv_look_append kv_look_def
        map_of_row_update map_add_fresh split: if_splits)
  with assms show ?thesis unfolding off_def list_ex_iff by blast
qed

lemma skill_step_kv: "db_kv (skill_step op d) = db_kv d"
  by (cases op) (auto simp: begin_skill_command_def receive_skill_command_def Let_def split: result.splits option.splits)

lemma off_skill: "off p d (skill_step op d)"
proof -
  have "kv_frame (\<lambda>_. False) d (skill_step op d)"
    by (simp add: kv_frame_def kv_invar_def kv_look_def skill_step_kv)
  then show ?thesis by (auto simp: off_def)
qed

text \<open>Each step is an operation of one journal or registry, or is off all of them.\<close>

lemma client_step_cases:
  assumes "client_step X U C d d'"
  shows "(\<forall>p \<in> set journal_prefixes. off p d d') \<or>
    (\<exists>x. d' = snd (run_op (reserve_session_create X (cc_create C)) (update_session_create X (cc_create C)) x d)) \<or>
    (\<exists>x. d' = snd (run_op (reserve_session_delete X (cc_delete C)) (update_session_delete X (cc_delete C)) x d)) \<or>
    (\<exists>x. d' = snd (run_op (reserve_session_stop X (cc_stop C)) (update_session_stop X (cc_stop C)) x d)) \<or>
    (\<exists>x. d' = snd (run_op (reserve_port_forward_create X (cc_forward C)) (update_port_forward_create X (cc_forward C)) x d)) \<or>
    (\<exists>x. registry_op_ok (registry_progress (import_registry X (cc_import C))) x \<and>
         d' = snd (registry_step (reserve_account_import X (cc_import C)) (update_account_import X (cc_import C))
           (forget_account_import X (cc_import C)) x d)) \<or>
    (\<exists>x. registry_op_ok (registry_progress (recovery_registry X U (cc_recovery C))) x \<and>
         d' = snd (registry_step (reserve_runtime_recovery X U (cc_recovery C)) (update_runtime_recovery X U (cc_recovery C))
           (forget_runtime_recovery X U (cc_recovery C)) x d))"
  using assms
  by cases (blast intro: off_init off_set_kv off_skill run_op.simps [symmetric, THEN arg_cong [of _ _ snd]]
      registry_step.simps [symmetric, THEN arg_cong [of _ _ snd]] registry_op_ok.simps [THEN iffD2])+

section \<open>Every interleaving is safe\<close>

lemma run_op_off:
  "p \<in> set journal_prefixes \<Longrightarrow> j_prefix J \<in> set journal_prefixes \<Longrightarrow> p \<noteq> j_prefix J \<Longrightarrow>
     off p d (snd (run_op (journal_reserve J) (journal_update J) x d))"
  by (rule off_frame [OF journal_op_frame])

lemma registry_step_off:
  "serde_lawful (g_codec G) \<Longrightarrow> p \<in> set journal_prefixes \<Longrightarrow> g_prefix G \<in> set journal_prefixes \<Longrightarrow>
     p \<noteq> g_prefix G \<Longrightarrow>
     off p d (snd (registry_step (registry_reserve G) (registry_update G) (registry_forget G) x d))"
  by (rule off_frame [OF registry_op_frame])

lemma registry_step_exclusive:
  assumes "registry_invar G d" and "exclusive (registry_look G) (g_target G) (g_open G) d"
    and "registry_op_ok (registry_progress G) x"
  shows "exclusive (registry_look G) (g_target G) (g_open G)
    (snd (registry_step (registry_reserve G) (registry_update G) (registry_forget G) x d))"
  using reg.step_exclusive [OF assms(1,2,3)] by (metis prod.collapse)

text \<open>What one step keeps of one journal, given that it is the journal's own operation or off it.\<close>

context journal_validator
begin

lemma run_op_kept:
  assumes "serde_lawful (j_codec J)" and "kv_invar d"
  shows "journal_kept J ident d (snd (run_op (journal_reserve J) (journal_update J) x d))"
proof -
  have "journal_invar J d" using assms by (simp add: journal_invar_def)
  from cj.run_op_keeps [OF this, of x] show ?thesis unfolding journal_kept_def by (metis prod.collapse)
qed

end

lemmas journal_defs = session_create_journal_def session_delete_journal_def session_stop_journal_def port_forward_journal_def

text \<open>What the client keeps of its journals, and what holds of its registries.\<close>

definition requests_kept :: "crates \<Rightarrow> codecs \<Rightarrow> db \<Rightarrow> db \<Rightarrow> bool" where
  "requests_kept X C d d' \<longleftrightarrow>
     journal_kept (session_create_journal X (cc_create C)) create_ident d d' \<and>
     journal_kept (session_delete_journal X (cc_delete C)) delete_ident d d' \<and>
     journal_kept (session_stop_journal X (cc_stop C)) stop_ident d d' \<and>
     journal_kept (port_forward_journal X (cc_forward C)) pf_ident d d'"

definition accounts_exclusive :: "crates \<Rightarrow> url_parser \<Rightarrow> codecs \<Rightarrow> db \<Rightarrow> bool" where
  "accounts_exclusive X U C d \<longleftrightarrow>
     exclusive (registry_look (import_registry X (cc_import C))) (\<lambda>r. (ir_context r, ir_account_id r))
       (\<lambda>r. ir_phase r \<in> {''pending'', ''accepted''}) d \<and>
     exclusive (registry_look (recovery_registry X U (cc_recovery C))) (\<lambda>r. (rcr_context r, rcr_account_id r))
       (\<lambda>r. rcr_phase r \<in> {''unknown'', ''accepted''}) d"

lemmas client_ops = create_ops delete_ops stop_ops pf_ops import_ops recovery_ops

lemma requests_kept_trans: "requests_kept X C d d1 \<Longrightarrow> requests_kept X C d1 d2 \<Longrightarrow> requests_kept X C d d2"
  unfolding requests_kept_def by (blast intro: journal_kept_trans)

lemma journal_prefixes_of:
  "j_prefix (session_create_journal X c) = ''session_create_request:''"
  "j_prefix (session_delete_journal X c') = ''session_delete_request:''"
  "j_prefix (session_stop_journal X c'') = ''session_stop_request:''"
  "j_prefix (port_forward_journal X c''') = ''port_forward_create_request:''"
  by (simp_all add: journal_defs)

lemma journal_codecs_of:
  "j_codec (session_create_journal X c) = c" "j_codec (session_delete_journal X c') = c'"
  "j_codec (session_stop_journal X c'') = c''" "j_codec (port_forward_journal X c''') = c'''"
  by (simp_all add: journal_defs)

lemma requests_kept_off: "\<forall>p \<in> set journal_prefixes. off p d d' \<Longrightarrow> kv_invar d \<Longrightarrow> requests_kept X C d d'"
  unfolding requests_kept_def
  by (intro conjI journal_kept_off) (auto simp: journal_prefixes_of journal_prefixes_def)

lemma accounts_exclusive_off:
  "\<forall>p \<in> set journal_prefixes. off p d d' \<Longrightarrow> kv_invar d \<Longrightarrow> accounts_exclusive X U C d \<Longrightarrow> accounts_exclusive X U C d'"
  unfolding accounts_exclusive_def
  by (elim conjE, intro conjI) (erule exclusive_off [rotated 2]; simp add: journal_prefixes_def import_registry_def)+

lemma kv_frame_invar: "kv_frame P d d' \<Longrightarrow> kv_invar d \<Longrightarrow> kv_invar d'"
  by (simp add: kv_frame_def)

lemmas run_op_kv_invar = kv_frame_invar [OF journal_op_frame]
lemmas registry_step_kv_invar = kv_frame_invar [OF registry_op_frame]

lemma client_step_kv_invar:
  assumes "client_step X U C d d'" and "kv_invar d" and "lawful_codecs C"
  shows "kv_invar d'"
  using client_step_cases [OF assms(1)] assms(2,3) unfolding client_ops
proof (elim disjE exE conjE)
  assume "\<forall>p\<in>set journal_prefixes. off p d d'"
  then have "off ''session_create_request:'' d d'" by (simp add: journal_prefixes_def)
  then show ?thesis using assms(2) by (rule off_kv_invar)
qed (simp_all add: run_op_kv_invar registry_step_kv_invar lawful_codecs_def)

text \<open>\<open>apart\<close> shows that an operation of one journal keeps another one.\<close>

lemmas apart = run_op_off [THEN journal_kept_off] registry_step_off [THEN journal_kept_off]

lemmas client_regions = journal_prefixes_of journal_codecs_of journal_prefixes_def import_registry_def

lemma client_step_kept:
  assumes "client_step X U C d d'" and "kv_invar d" and "lawful_codecs C"
  shows "requests_kept X C d d'"
proof -
  have l: "serde_lawful (cc_create C)" "serde_lawful (cc_delete C)" "serde_lawful (cc_stop C)" "serde_lawful (cc_forward C)"
    "serde_lawful (cc_import C)" "serde_lawful (cc_recovery C)"
    using assms(3) by (simp_all add: lawful_codecs_def)
  note kept = create.run_op_kept delete.run_op_kept stop.run_op_kept port_forward.run_op_kept
  from client_step_cases [OF assms(1)] show ?thesis
    unfolding client_ops
  proof (elim disjE exE conjE)
    assume "\<forall>p\<in>set journal_prefixes. off p d d'"
    then show ?thesis using assms(2) by (rule requests_kept_off)
  qed (simp_all only: requests_kept_def, (intro conjI; (rule kept | rule apart);
        simp add: client_regions l assms(2))+)
qed

lemma client_step_exclusive:
  assumes "client_step X U C d d'" and "kv_invar d" and "lawful_codecs C" and "accounts_exclusive X U C d"
  shows "accounts_exclusive X U C d'"
proof -
  have l: "registry_invar (import_registry X (cc_import C)) d" "registry_invar (recovery_registry X U (cc_recovery C)) d"
    using assms(2,3) by (simp_all add: lawful_codecs_def registry_invar_def)
  have e: "exclusive (registry_look (import_registry X (cc_import C))) (g_target (import_registry X (cc_import C)))
      (g_open (import_registry X (cc_import C))) d"
    "exclusive (registry_look (recovery_registry X U (cc_recovery C))) (g_target (recovery_registry X U (cc_recovery C)))
      (g_open (recovery_registry X U (cc_recovery C))) d"
    using assms(4) by (simp_all add: accounts_exclusive_def)
  have s: "serde_lawful (cc_import C)" "serde_lawful (cc_recovery C)" using assms(3) by (simp_all add: lawful_codecs_def)
  note own = registry_step_exclusive [OF l(1) e(1)] registry_step_exclusive [OF l(2) e(2)]
  note other = run_op_off [THEN exclusive_off, OF _ _ _ assms(2) e(1)]
    run_op_off [THEN exclusive_off, OF _ _ _ assms(2) e(2)]
    registry_step_off [THEN exclusive_off, OF _ _ _ _ assms(2) e(1)]
    registry_step_off [THEN exclusive_off, OF _ _ _ _ assms(2) e(2)]
  have "exclusive (registry_look (import_registry X (cc_import C))) (g_target (import_registry X (cc_import C)))
      (g_open (import_registry X (cc_import C))) d' \<and>
    exclusive (registry_look (recovery_registry X U (cc_recovery C))) (g_target (recovery_registry X U (cc_recovery C)))
      (g_open (recovery_registry X U (cc_recovery C))) d'"
    using client_step_cases [OF assms(1)]
    unfolding client_ops
  proof (elim disjE exE conjE)
    assume "\<forall>p\<in>set journal_prefixes. off p d d'"
    then show ?thesis using assms(2) e by (intro conjI) (erule exclusive_off [rotated 2]; simp add: client_regions)+
  qed (simp_all only:, (intro conjI; (rule own | rule other); simp add: client_regions s)+)
  then show ?thesis by (simp add: accounts_exclusive_def)
qed

text \<open>The other operations touch neither the rows nor the schema of the Skill journal.\<close>

definition kv_only :: "db \<Rightarrow> db \<Rightarrow> bool" where
  "kv_only d d' \<longleftrightarrow> (\<exists>kv. d' = d\<lparr>db_kv := kv\<rparr>)"

lemma kv_only_refl: "kv_only d d"
  unfolding kv_only_def by (rule exI [of _ "db_kv d"]) simp

lemma kv_only_write: "kv_only d (d\<lparr>db_kv := kv\<rparr>)"
  by (auto simp: kv_only_def)

lemma kv_only_operation:
  "kv_only d (snd (journal_reserve J f r d))" "kv_only d (snd (journal_update J f r r' d))"
  "kv_only d (snd (registry_reserve G f s d))" "kv_only d (snd (registry_update G f s s' d))"
  "kv_only d (snd (registry_forget G f s d))" "kv_only d (snd (set_kv f k v d))"
proof -
  show "kv_only d (snd (journal_reserve J f r d))"
    using journal_reserve_cases [of J f r d "fst (journal_reserve J f r d)" "snd (journal_reserve J f r d)"]
    by (auto intro: kv_only_refl kv_only_write)
  show "kv_only d (snd (journal_update J f r r' d))"
    using journal_update_cases [of J f r r' d "fst (journal_update J f r r' d)" "snd (journal_update J f r r' d)"]
    by (auto intro: kv_only_refl kv_only_write)
  show "kv_only d (snd (registry_reserve G f s d))"
    using registry_reserve_cases [of G f s d "fst (registry_reserve G f s d)" "snd (registry_reserve G f s d)"]
    by (auto intro: kv_only_refl kv_only_write)
  show "kv_only d (snd (registry_update G f s s' d))"
    using registry_update_cases [of G f s s' d "fst (registry_update G f s s' d)" "snd (registry_update G f s s' d)"]
    by (auto intro: kv_only_refl kv_only_write)
  show "kv_only d (snd (registry_forget G f s d))"
    by (auto simp: registry_forget_def intro: kv_only_refl kv_only_write split: option.splits)
  show "kv_only d (snd (set_kv f k v d))"
    by (auto simp: set_kv_def kv_upsert_def intro: kv_only_refl kv_only_write)
qed

lemma kv_only_skill:
  "kv_only d d' \<Longrightarrow> skill_invar d \<Longrightarrow> skill_invar d' \<and> rows_progress (db_skill_commands d) (db_skill_commands d')"
  by (auto simp: kv_only_def skill_invar_def has_table_def has_index_def)

lemma init_schema_keeps_skill:
  assumes "skill_invar d"
  shows "skill_invar (snd (init_schema f d)) \<and> rows_progress (db_skill_commands d) (db_skill_commands (snd (init_schema f d)))"
proof (cases "init_schema f d")
  case (Pair r d')
  show ?thesis
  proof (cases r)
    case (Ok u)
    with Pair have i: "init_schema f d = (Ok (), d')" by simp
    from init_schema_skill_invar [OF i skill_invar_rows [OF assms]] init_schema_skill(3) [OF i] i show ?thesis by simp
  next
    case (Err e)
    with Pair have "d' = d" by (auto simp: init_schema_def dest: initialize_schema_Err split: prod.splits result.splits)
    with Pair assms show ?thesis by simp
  qed
qed

lemma client_step_skill:
  assumes "client_step X U C d d'" and "skill_invar d"
  shows "skill_invar d' \<and> rows_progress (db_skill_commands d) (db_skill_commands d')"
  using assms(1)
proof cases
  case initialize
  then show ?thesis using init_schema_keeps_skill [OF assms(2)] by simp
next
  case skill_command
  then show ?thesis using skill_step_keeps [OF assms(2)] by simp
qed (simp_all only: client_ops, (rule kv_only_skill [OF kv_only_operation(1) assms(2)]
    | rule kv_only_skill [OF kv_only_operation(2) assms(2)] | rule kv_only_skill [OF kv_only_operation(3) assms(2)]
    | rule kv_only_skill [OF kv_only_operation(4) assms(2)] | rule kv_only_skill [OF kv_only_operation(5) assms(2)]
    | rule kv_only_skill [OF kv_only_operation(6) assms(2)])+)

section \<open>Properties\<close>


definition sample_codecs :: codecs where
  "sample_codecs =
     \<lparr>cc_create = table_codec [], cc_delete = table_codec [], cc_stop = table_codec [],
      cc_forward = table_codec [(sample_forward, ''1'')], cc_import = sample_import_codec,
      cc_recovery = table_codec []\<rparr>"

definition sample_url :: url_parser where
  "sample_url = (\<lambda>_. None)"

definition after_import :: db where
  "after_import = snd (reserve_account_import sample_crates (cc_import sample_codecs) no_faults sample_import created_db)"

definition after_forward :: db where
  "after_forward = snd (reserve_port_forward_create sample_crates (cc_forward sample_codecs) no_faults sample_forward after_import)"


end
